(* ===== verification/Prelude.thy ===== *)
theory Prelude
  imports Main "HOL-Library.Word" "HOL-Library.Monad_Syntax"
begin

unbundle bit_operations_syntax

text \<open>
  What every component shares: the machine integers of the code, Rust's checked and saturating
  arithmetic on them, and reads of a byte slice.

  The workspace is built with \<open>overflow-checks = false\<close> (\<open>Cargo.toml\<close>, profile release), so
  \<open>+\<close>, \<open>-\<close> and \<open>*\<close> of the code wrap: they are the operations of the word type. What still stops
  the program is an index out of range; a routine that indexes bytes it did not write returns
  an \<open>option\<close>, where \<^const>\<open>None\<close> is that panic, around the code's own \<open>Result\<close>.
\<close>

type_synonym u8 = "8 word"
type_synonym u16 = "16 word"
type_synonym u32 = "32 word"
type_synonym u64 = "64 word"

named_theorems word_facts \<comment> \<open>moving word arithmetic to the naturals\<close>

section \<open>Arithmetic of the standard library\<close>

definition checked_add :: "'a::len word \<Rightarrow> 'a word \<Rightarrow> 'a word option" where
  "checked_add a b = (if unat a + unat b < 2 ^ LENGTH('a) then Some (a + b) else None)"

definition saturating_add :: "'a::len word \<Rightarrow> 'a word \<Rightarrow> 'a word" where
  "saturating_add a b = (if unat a + unat b < 2 ^ LENGTH('a) then a + b else - 1)"

definition saturating_sub :: "'a::len word \<Rightarrow> 'a word \<Rightarrow> 'a word" where
  "saturating_sub a b = (if b \<le> a then a - b else 0)"

text \<open>\<open>overflowing_add\<close>: the wrapped sum and whether it wrapped.\<close>

definition overflowing_add :: "'a::len word \<Rightarrow> 'a word \<Rightarrow> 'a word \<times> bool" where
  "overflowing_add a b = (a + b, \<not> unat a + unat b < 2 ^ LENGTH('a))"

lemma checked_add_Some_iff:
  "checked_add a b = Some c \<longleftrightarrow>
     unat (a :: 'a::len word) + unat b < 2 ^ LENGTH('a) \<and> c = a + b"
  by (auto simp: checked_add_def)

lemma checked_add_None_iff:
  "checked_add a b = None \<longleftrightarrow> 2 ^ LENGTH('a) \<le> unat (a :: 'a::len word) + unat b"
  by (auto simp: checked_add_def)

text \<open>The two at 64 bits, the bound written out.\<close>

lemma checked_add_64_Some_iff:
  "checked_add a b = Some c \<longleftrightarrow> unat (a :: u64) + unat b < 2 ^ 64 \<and> c = a + b"
  by (simp add: checked_add_Some_iff)

lemma checked_add_64_None_iff:
  "checked_add a b = None \<longleftrightarrow> 2 ^ 64 \<le> unat (a :: u64) + unat b"
  by (simp add: checked_add_None_iff)

lemma unat_add_small [word_facts]:
  "unat (a :: 'a::len word) + unat b < 2 ^ LENGTH('a) \<Longrightarrow> unat (a + b) = unat a + unat b"
  by (simp add: unat_word_ariths)

lemma unat_diff_small [word_facts]:
  "b \<le> a \<Longrightarrow> unat ((a :: 'a::len word) - b) = unat a - unat b"
  by (simp add: unat_sub)

lemma unat_checked_add:
  "checked_add a b = Some c \<Longrightarrow> unat c = unat a + unat b"
  by (simp add: checked_add_Some_iff unat_add_small)

lemma unat_saturating_sub: "unat (saturating_sub a b) = unat a - unat b"
  by (simp add: saturating_sub_def unat_diff_small word_le_nat_alt)

lemma unat_and_mask:
  "unat ((x :: 'a::len word) AND mask n) = unat x mod 2 ^ n"
proof -
  have "x AND mask n = take_bit n x"
    by (simp add: take_bit_eq_mask)
  then have "unat (x AND mask n) = take_bit n (unat x)"
    by (simp only: unsigned_take_bit_eq)
  then show ?thesis
    by (simp only: take_bit_eq_mod)
qed

lemma and_not_mask: "(x :: 'a::len word) AND NOT (mask n) = x - (x AND mask n)"
proof -
  have "(x AND mask n) + (x AND NOT (mask n)) = (x AND mask n) OR (x AND NOT (mask n))"
    by (rule disjunctive_add) (auto simp: bit_simps)
  also have "\<dots> = x"
    by (rule bit_word_eqI) (auto simp: bit_simps)
  finally show ?thesis
    by (metis add_diff_cancel_left')
qed

lemma unat_and_not_mask:
  "unat ((x :: 'a::len word) AND NOT (mask n)) = unat x - unat x mod 2 ^ n"
proof -
  have "x AND mask n \<le> x"
    by (simp add: word_and_le2)
  then show ?thesis
    by (simp add: and_not_mask unat_diff_small unat_and_mask)
qed

lemma round_up_iff:
  assumes "0 < (k :: nat)"
  shows "m = (c + (k - 1)) div k * k \<longleftrightarrow> k dvd m \<and> c \<le> m \<and> m < c + k"
proof
  assume m: "m = (c + (k - 1)) div k * k"
  define n where "n = c + (k - 1)"
  have "m + n mod k = n" "n mod k < k"
    using m assms by (simp_all add: n_def)
  moreover have "n + 1 = c + k"
    using assms by (simp add: n_def)
  moreover have "k dvd m"
    using m by simp
  ultimately show "k dvd m \<and> c \<le> m \<and> m < c + k"
    by linarith
next
  assume r: "k dvd m \<and> c \<le> m \<and> m < c + k"
  then obtain q where q: "m = k * q"
    by (auto elim: dvdE)
  have "(c + (k - 1)) div k = q"
    using r q assms by (intro div_nat_eqI) auto
  then show "m = (c + (k - 1)) div k * k"
    using q by simp
qed

lemma round_up_bounds:
  "0 < (k :: nat) \<Longrightarrow> c \<le> (c + (k - 1)) div k * k"
  "0 < k \<Longrightarrow> (c + (k - 1)) div k * k < c + k"
  using round_up_iff [of k "(c + (k - 1)) div k * k" c] by simp_all

lemma round_up_page:
  "c \<le> (c + 4095) div 4096 * 4096" "(c + 4095) div 4096 * 4096 < c + 4096"
  for c :: nat
  using round_up_bounds [of 4096 c] by simp_all

lemma page_split_iff:
  "k dvd p \<and> d < k \<and> n = p + d \<longleftrightarrow> 0 < k \<and> d = n mod k \<and> p = n - n mod k" for k :: nat
  by (auto simp: dvd_minus_mod)

lemma unat_word_of_nat:
  "n < 2 ^ LENGTH('a) \<Longrightarrow> unat (word_of_nat n :: 'a::len word) = n"
  by (simp add: unat_of_nat take_bit_nat_eq_self)

lemma unat_power_2 [word_facts]:
  assumes "n < LENGTH('a)"
  shows "unat (2 ^ n :: 'a::len word) = 2 ^ n"
proof -
  have "(2 :: nat) ^ n < 2 ^ LENGTH('a)"
    using assms by (rule power_strict_increasing) simp
  then have "unat (word_of_nat (2 ^ n) :: 'a word) = 2 ^ n"
    by (rule unat_word_of_nat)
  then show ?thesis
    by simp
qed

lemma list_all_update: "list_all P xs \<Longrightarrow> P x \<Longrightarrow> list_all P (xs[i := x])"
  using set_update_subset_insert [of xs i x] by (auto simp: list_all_iff)

lemma unat_minus_one_pos [word_facts]: "w \<noteq> 0 \<Longrightarrow> unat (w - 1) = unat w - 1"
  for w :: "'a::len word"
  using unat_diff_small [of 1 w] by (simp add: word_le_nat_alt unat_gt_0 Suc_le_eq)

lemma unat_less_64 [simp]: "unat (x :: u64) < 18446744073709551616"
  using unsigned_less [of x] by simp

end
