(* ===== verification/Fisica_Juicio.thy ===== *)
theory Fisica_Juicio
  imports Prelude
begin

text \<open>
  \<open>platform/shared/bmo-fisica-juicio/src/lib.rs\<close>: may the kernel follow this physical address
  through its mirror? \<open>mm/vmm\<close> asks it before it walks down a page table.
\<close>

datatype veredicto = Si | Cero | FueraDelEspejo

definition se_puede :: "veredicto \<Rightarrow> bool" where
  "se_puede v \<longleftrightarrow> v = Si"

definition se_puede_caminar :: "u64 \<Rightarrow> u64 \<Rightarrow> veredicto" where
  "se_puede_caminar fisica espejo_bytes =
    (if fisica = 0 then Cero
     else if fisica \<ge> espejo_bytes then FueraDelEspejo
     else Si)"

lemma se_puede_caminar_iff [simp]:
  "se_puede (se_puede_caminar fisica espejo_bytes) \<longleftrightarrow> fisica \<noteq> 0 \<and> fisica < espejo_bytes"
  by (auto simp: se_puede_caminar_def se_puede_def)

lemma se_puede_caminar_eqs:
  "se_puede_caminar fisica espejo_bytes = Cero \<longleftrightarrow> fisica = 0"
  "se_puede_caminar fisica espejo_bytes = FueraDelEspejo \<longleftrightarrow> fisica \<noteq> 0 \<and> espejo_bytes \<le> fisica"
  by (auto simp: se_puede_caminar_def)

end
