(* ===== verification/Dma_Juicio.thy ===== *)
theory Dma_Juicio
  imports Prelude
begin

text \<open>
  \<open>platform/shared/bmo-dma-juicio/src/lib.rs\<close>: may this physical range be given to this device?
  The frame the range lies in is described by \<open>marco\<close>; the answer is the address to program
  (a \<open>Prenda\<close>, which only this judge makes) or the reason for refusing.
\<close>

datatype prenda = Prenda u64

fun cruda :: "prenda \<Rightarrow> u64" where
  "cruda (Prenda a) = a"

record marco =
  es_neutro :: bool
  en_vuelo_para :: "u16 option"
  m_base :: u64
  m_bytes :: u64
  m_aparato :: u16

record peticion =
  p_fisica :: u64
  p_bytes :: u64
  p_aparato :: u16
  p_alineacion :: u64
  p_bits_de_cuenta :: u32
  prestando :: bool

datatype veto_dma =
    NoEsDeUnAparato
  | DeOtroAparato u16 u16
  | NoPideNada
  | SeSaleDelMarco
  | MalAlineada u64
  | NoCabeLaCuenta u32

definition juzgar_dueno :: "peticion \<Rightarrow> marco \<Rightarrow> veto_dma option" where
  "juzgar_dueno p m =
    (if prestando p then None
     else if \<not> es_neutro m then Some NoEsDeUnAparato
     else if m_aparato m \<noteq> p_aparato p then Some (DeOtroAparato (m_aparato m) (p_aparato p))
     else None)"

definition juzgar_rango :: "peticion \<Rightarrow> marco \<Rightarrow> veto_dma + prenda" where
  "juzgar_rango p m =
    (if p_bytes p = 0 then Inl NoPideNada
     else case checked_add (m_base m) (m_bytes m) of
       None \<Rightarrow> Inl SeSaleDelMarco
     | Some fin_marco \<Rightarrow>
        (case checked_add (p_fisica p) (p_bytes p) of
           None \<Rightarrow> Inl SeSaleDelMarco
         | Some fin_pide \<Rightarrow>
            if p_fisica p < m_base m \<or> fin_pide > fin_marco then Inl SeSaleDelMarco
            else if p_alineacion p > 1 \<and> p_fisica p mod p_alineacion p \<noteq> 0
              then Inl (MalAlineada (p_alineacion p))
            else if p_bits_de_cuenta p > 0 \<and> p_bits_de_cuenta p < 64 \<and>
                p_bytes p > push_bit (unat (p_bits_de_cuenta p)) 1
              then Inl (NoCabeLaCuenta (p_bits_de_cuenta p))
            else Inr (Prenda (p_fisica p))))"

definition juzgar :: "peticion \<Rightarrow> marco \<Rightarrow> veto_dma + prenda" where
  "juzgar p m =
    (case en_vuelo_para m of
       Some a \<Rightarrow>
         if a \<noteq> p_aparato p then Inl (DeOtroAparato a (p_aparato p))
         else (case juzgar_dueno p m of Some v \<Rightarrow> Inl v | None \<Rightarrow> juzgar_rango p m)
     | None \<Rightarrow> (case juzgar_dueno p m of Some v \<Rightarrow> Inl v | None \<Rightarrow> juzgar_rango p m))"

section \<open>What the judge lets through\<close>

definition rango_permitido :: "peticion \<Rightarrow> marco \<Rightarrow> bool" where
  "rango_permitido p m \<longleftrightarrow>
     p_bytes p \<noteq> 0 \<and>
     unat (m_base m) + unat (m_bytes m) < 2 ^ 64 \<and>
     unat (m_base m) \<le> unat (p_fisica p) \<and>
     unat (p_fisica p) + unat (p_bytes p) \<le> unat (m_base m) + unat (m_bytes m) \<and>
     (unat (p_alineacion p) \<le> 1 \<or> unat (p_alineacion p) dvd unat (p_fisica p)) \<and>
     (p_bits_de_cuenta p = 0 \<or> 64 \<le> unat (p_bits_de_cuenta p) \<or>
        unat (p_bytes p) \<le> 2 ^ unat (p_bits_de_cuenta p))"

definition dueno_permitido :: "peticion \<Rightarrow> marco \<Rightarrow> bool" where
  "dueno_permitido p m \<longleftrightarrow>
     (\<forall>a. en_vuelo_para m = Some a \<longrightarrow> a = p_aparato p) \<and>
     (prestando p \<or> es_neutro m \<and> m_aparato m = p_aparato p)"

lemma juzgar_rango_iff:
  "juzgar_rango p m = Inr q \<longleftrightarrow> q = Prenda (p_fisica p) \<and> rango_permitido p m"
proof -
  have mod_iff: "p_fisica p mod p_alineacion p = 0 \<longleftrightarrow>
      unat (p_alineacion p) dvd unat (p_fisica p)"
    by (simp add: word_unat_eq_iff unat_mod mod_eq_0_iff_dvd)
  have cuenta: "p_bits_de_cuenta p > 0 \<and> p_bits_de_cuenta p < 64 \<and>
      p_bytes p > push_bit (unat (p_bits_de_cuenta p)) 1 \<longleftrightarrow>
      \<not> (p_bits_de_cuenta p = 0 \<or> 64 \<le> unat (p_bits_de_cuenta p) \<or>
        unat (p_bytes p) \<le> 2 ^ unat (p_bits_de_cuenta p))"
    by (auto simp: word_less_nat_alt unat_power_2 unat_gt_0 not_le)
  have alin: "p_alineacion p > 1 \<longleftrightarrow> \<not> unat (p_alineacion p) \<le> 1"
    by (simp add: word_less_nat_alt not_le)
  show ?thesis
  proof (cases "checked_add (m_base m) (m_bytes m) = None \<or>
      checked_add (p_fisica p) (p_bytes p) = None")
    case True
    then have "\<not> (unat (m_base m) + unat (m_bytes m) < 2 ^ 64 \<and>
        unat (p_fisica p) + unat (p_bytes p) \<le> unat (m_base m) + unat (m_bytes m))"
      unfolding checked_add_64_None_iff by linarith
    then have "\<not> rango_permitido p m"
      unfolding rango_permitido_def by blast
    moreover have "juzgar_rango p m \<noteq> Inr q"
      using True by (auto simp: juzgar_rango_def split: option.split)
    ultimately show ?thesis
      by blast
  next
    case False
    then obtain fm fp where f:
        "checked_add (m_base m) (m_bytes m) = Some fm" "checked_add (p_fisica p) (p_bytes p) = Some fp"
      by auto
    have "unat fm = unat (m_base m) + unat (m_bytes m)"
        "unat fp = unat (p_fisica p) + unat (p_bytes p)"
        and cabe: "unat (m_base m) + unat (m_bytes m) < 2 ^ 64"
      using f [THEN unat_checked_add] iffD1 [OF checked_add_64_Some_iff f(1)] by blast+
    then have dentro: "p_fisica p < m_base m \<or> fp > fm \<longleftrightarrow>
        \<not> (unat (m_base m) \<le> unat (p_fisica p) \<and>
          unat (p_fisica p) + unat (p_bytes p) \<le> unat (m_base m) + unat (m_bytes m))"
      by (simp only: word_less_nat_alt de_Morgan_conj not_le)
    show ?thesis
      unfolding juzgar_rango_def rango_permitido_def f option.case dentro mod_iff cuenta alin
      using cabe by (auto simp only: sum.simps split: if_split)
  qed
qed

lemma juzgar_iff:
  "juzgar p m = Inr q \<longleftrightarrow>
     q = Prenda (p_fisica p) \<and> dueno_permitido p m \<and> rango_permitido p m"
  by (auto simp: juzgar_def juzgar_dueno_def dueno_permitido_def juzgar_rango_iff
      split: option.splits if_splits)

section \<open>The property\<close>

text \<open>
  C21: the DMA judge. \<open>juzgar\<close> gives an address exactly when the device has a right to the frame
  (no other device has it in flight and, unless the kernel itself lends it, the frame is that
  device's arena), the request is not empty and lies inside the frame without either end
  running past 64 bits, is aligned as asked and fits the device's byte counter; and the address
  given is the one asked for.
\<close>

theorem juzgar_exacto:
  "juzgar p m = Inr q \<longleftrightarrow>
     q = Prenda (p_fisica p) \<and> dueno_permitido p m \<and> rango_permitido p m"
  by (rule juzgar_iff)

end
