(* ===== verification/Dma_Forma.thy ===== *)
theory Dma_Forma
  imports Dma_Juicio
begin

text \<open>
  \<open>platform/shared/bmo-dma-forma/src/lib.rs\<close>: which of the three shapes a transfer takes (the
  device's own arena, the caller's buffer as it is, or a bounce page) and why. What comes out
  of here is the address \<open>Dma_Juicio\<close> judges.
\<close>

datatype forma = Corral | Prestado | Rebote

datatype por_que =
    EsSuyo
  | ElDestinoYaSirve
  | FueraDelEspejoDma
  | Desalineado
  | NoCabeElTramo
  | NoLoDireccionaElAparato

fun nombre_por_que :: "por_que \<Rightarrow> string" where
  "nombre_por_que EsSuyo = ''es su corral''"
| "nombre_por_que ElDestinoYaSirve = ''el destino ya sirve''"
| "nombre_por_que FueraDelEspejoDma = ''fuera del espejo''"
| "nombre_por_que Desalineado = ''desalineado''"
| "nombre_por_que NoCabeElTramo = ''no cabe el tramo''"
| "nombre_por_que NoLoDireccionaElAparato = ''no lo direcciona el aparato''"

definition CUANTOS :: nat where "CUANTOS = 6"

fun indice :: "por_que \<Rightarrow> nat" where
  "indice EsSuyo = 0"
| "indice ElDestinoYaSirve = 1"
| "indice FueraDelEspejoDma = 2"
| "indice Desalineado = 3"
| "indice NoCabeElTramo = 4"
| "indice NoLoDireccionaElAparato = 5"

record peticion_forma =
  virt :: u64
  pf_bytes :: u64
  espejo_base :: u64
  espejo_bytes :: u64
  pf_alineacion :: u64
  minimo :: u64
  pf_bits_de_cuenta :: u32
  es_su_corral :: bool

record eleccion =
  forma :: forma
  por_que :: por_que
  e_fisica :: u64
  e_bytes :: u64

definition rebote :: "por_que \<Rightarrow> eleccion" where
  "rebote q = \<lparr>forma = Rebote, por_que = q, e_fisica = 0, e_bytes = 0\<rparr>"

definition elegir :: "peticion_forma \<Rightarrow> eleccion" where
  "elegir p =
    (if es_su_corral p
     then \<lparr>forma = Corral, por_que = EsSuyo, e_fisica = virt p - espejo_base p,
           e_bytes = pf_bytes p\<rparr>
     else if minimo p \<noteq> 0 \<and> pf_bytes p < minimo p then rebote NoCabeElTramo
     else
      (let fin = espejo_base p + espejo_bytes p in
       if virt p < espejo_base p \<or> virt p \<ge> fin then rebote FueraDelEspejoDma
       else if pf_alineacion p > 1 \<and> virt p AND (pf_alineacion p - 1) \<noteq> 0
         then rebote Desalineado
       else
        (let fisica = virt p - espejo_base p;
             techo = push_bit (unat (pf_bits_de_cuenta p)) 1 in
         if pf_bits_de_cuenta p < 64 \<and> (fisica \<ge> techo \<or> fisica + pf_bytes p > techo)
           then rebote NoLoDireccionaElAparato
         else
          (let bytes = min (pf_bytes p) (fin - virt p) in
           if minimo p \<noteq> 0 \<and> bytes < minimo p then rebote NoCabeElTramo
           else \<lparr>forma = Prestado, por_que = ElDestinoYaSirve, e_fisica = fisica,
                 e_bytes = bytes\<rparr>))))"

section \<open>What a direct transfer guarantees\<close>

lemma indice_lt: "indice q < CUANTOS"
  by (cases q) (simp_all add: CUANTOS_def)

lemma indice_inj [simp]: "indice q = indice q' \<longleftrightarrow> q = q'"
  by (cases q; cases q') simp_all

text \<open>
  A direct transfer runs inside the mirror, at the physical place of the caller's buffer, for
  no more than was asked and no less than the device's minimum, and below the address the
  device reaches.
\<close>

definition directo_seguro :: "peticion_forma \<Rightarrow> eleccion \<Rightarrow> bool" where
  "directo_seguro p e \<longleftrightarrow>
     unat (espejo_base p) \<le> unat (virt p) \<and>
     unat (e_fisica e) = unat (virt p) - unat (espejo_base p) \<and>
     unat (e_fisica e) + unat (e_bytes e) \<le> unat (espejo_bytes p) \<and>
     unat (e_bytes e) \<le> unat (pf_bytes p) \<and>
     unat (minimo p) \<le> unat (e_bytes e) \<and>
     (unat (pf_bits_de_cuenta p) < 64 \<longrightarrow>
        unat (e_fisica e) + unat (e_bytes e) \<le> 2 ^ unat (pf_bits_de_cuenta p))"

text \<open>The request's numbers describe a real mirror and a buffer that ends in the address space.\<close>

definition peticion_real :: "peticion_forma \<Rightarrow> bool" where
  "peticion_real p \<longleftrightarrow>
     unat (espejo_base p) + unat (espejo_bytes p) < 2 ^ 64 \<and>
     unat (virt p) + unat (pf_bytes p) < 2 ^ 64"

lemma elegir_prestado:
  assumes "forma (elegir p) = Prestado" and "peticion_real p"
  shows "directo_seguro p (elegir p)"
proof -
  let ?fin = "espejo_base p + espejo_bytes p" and ?f = "virt p - espejo_base p"
  have fin: "unat ?fin = unat (espejo_base p) + unat (espejo_bytes p)"
    using assms(2) by (simp add: peticion_real_def unat_add_small)
  have e: "elegir p = \<lparr>forma = Prestado, por_que = ElDestinoYaSirve, e_fisica = ?f,
        e_bytes = min (pf_bytes p) (?fin - virt p)\<rparr>"
    and in_mirror: "espejo_base p \<le> virt p" "virt p < ?fin"
    and min: "minimo p = 0 \<or> minimo p \<le> min (pf_bytes p) (?fin - virt p)"
    and techo: "pf_bits_de_cuenta p < 64 \<Longrightarrow>
        ?f + pf_bytes p \<le> push_bit (unat (pf_bits_de_cuenta p)) 1"
    using assms(1) unfolding elegir_def rebote_def Let_def
    by (auto simp only: eleccion.simps forma.simps not_le not_less split: if_splits)
  have f: "unat ?f = unat (virt p) - unat (espejo_base p)"
    using in_mirror by (simp add: unat_diff_small)
  have resto: "unat (?fin - virt p) = unat (espejo_base p) + unat (espejo_bytes p) - unat (virt p)"
    using in_mirror fin by (simp add: unat_diff_small)
  have b: "unat (e_bytes (elegir p)) = min (unat (pf_bytes p)) (unat (?fin - virt p))"
    by (simp add: e min_def word_le_nat_alt)
  have "unat (?f + pf_bytes p) = unat ?f + unat (pf_bytes p)"
    using assms(2) f by (intro unat_add_small) (simp add: peticion_real_def, linarith)
  then have "unat (pf_bits_de_cuenta p) < 64 \<Longrightarrow>
      unat ?f + unat (pf_bytes p) \<le> 2 ^ unat (pf_bits_de_cuenta p)"
    using techo by (simp add: word_le_nat_alt word_less_nat_alt unat_power_2)
  moreover have "unat (minimo p) \<le> min (unat (pf_bytes p)) (unat (?fin - virt p))"
    using min by (auto simp: word_le_nat_alt min_def split: if_splits)
  moreover have "unat (espejo_base p) \<le> unat (virt p)"
      "unat (virt p) < unat (espejo_base p) + unat (espejo_bytes p)"
    using in_mirror fin by (simp_all add: word_le_nat_alt word_less_nat_alt)
  ultimately show ?thesis
    unfolding directo_seguro_def b resto
    by (auto simp: e f min_def)
qed

definition peticion_desbordada :: peticion_forma where
  "peticion_desbordada =
    \<lparr>virt = 0xFFFF800000001000, pf_bytes = 0xFFFFFFFFFFFFF000, espejo_base = 0xFFFF800000000000,
     espejo_bytes = 0x400000000, pf_alineacion = 2, minimo = 0, pf_bits_de_cuenta = 32,
     es_su_corral = False\<rparr>"

section \<open>The property\<close>

text \<open>
  A direct transfer is safe. When \<open>elegir\<close> answers \<open>Prestado\<close>, and the numbers of the request
  are those of a real mirror and of a buffer that ends inside the address space, the transfer
  runs inside the mirror at the buffer's physical place, is no longer than asked, no shorter
  than the device's minimum, and ends below the last address the device reaches.
\<close>

theorem elegir_seguro:
  assumes "forma (elegir p) = Prestado" and "peticion_real p"
  shows "directo_seguro p (elegir p)"
  using assms by (rule elegir_prestado)

theorem elegir_seguro_witness:
  "\<exists>p. pf_bytes p = 0x3000 \<and> directo_seguro p (elegir p) \<and> e_bytes (elegir p) = 0x3000"
proof (intro exI conjI)
  let ?p = "\<lparr>virt = 0xFFFF800000001000, pf_bytes = 0x3000, espejo_base = 0xFFFF800000000000,
     espejo_bytes = 0x400000000, pf_alineacion = 2, minimo = 512, pf_bits_de_cuenta = 32,
     es_su_corral = False\<rparr>"
  have e: "elegir ?p =
      \<lparr>forma = Prestado, por_que = ElDestinoYaSirve, e_fisica = 0x1000, e_bytes = 0x3000\<rparr>"
    by (simp add: elegir_def)
  show "directo_seguro ?p (elegir ?p)"
    by (rule elegir_seguro) (simp_all add: e peticion_real_def)
  show "pf_bytes ?p = 0x3000" "e_bytes (elegir ?p) = 0x3000"
    by (simp_all add: e)
qed

text \<open>
  The ceiling test wraps. Without the second half of \<open>peticion_real\<close> the ceiling is not
  respected: the sum \<open>fisica.wrapping_add(bytes)\<close> comes round below it. A device of 32 address
  bits, a mirror of 16 GiB and a length of almost \<open>2 ^ 64\<close> give a direct transfer of the whole
  rest of the mirror, four times past what the device reaches.
\<close>

theorem elegir_desbordada:
  "elegir peticion_desbordada =
     \<lparr>forma = Prestado, por_que = ElDestinoYaSirve, e_fisica = 0x1000, e_bytes = 0x3FFFFF000\<rparr>"
  by (simp add: elegir_def peticion_desbordada_def)

end
