(* ===== verification/Mm.thy ===== *)
theory Mm
  imports Prelude
begin

text \<open>
  \<open>kernel/src/ring0/mm/mod.rs\<close>: the page, the physical mirror and the two halves of a byte of
  the frame table. \<open>Titular\<close>, \<open>Phys\<close> and \<open>Vmm\<close> build on it.
\<close>

definition HIGH_MEM_BASE :: u64 where "HIGH_MEM_BASE = 0xFFFF800000000000"
definition PHYSMAP_SIZE :: u64 where "PHYSMAP_SIZE = 0x400000000"
definition PAGE :: u64 where "PAGE = 4096"

definition phys_to_virt :: "u64 \<Rightarrow> u64" where
  "phys_to_virt phys = phys + HIGH_MEM_BASE"

definition virt_to_phys_physmap :: "u64 \<Rightarrow> u64" where
  "virt_to_phys_physmap v = v - HIGH_MEM_BASE"

lemma physmap_inverse [simp]: "virt_to_phys_physmap (phys_to_virt phys) = phys"
  by (simp add: virt_to_phys_physmap_def phys_to_virt_def)

lemma unat_PAGE [simp]: "unat PAGE = 4096"
  by (simp add: PAGE_def)

lemma unat_PHYSMAP_SIZE [simp]: "unat PHYSMAP_SIZE = 0x400000000"
  by (simp add: PHYSMAP_SIZE_def)

lemma PAGE_nonzero [simp]: "PAGE \<noteq> 0"
  by (simp add: PAGE_def)

section \<open>Frames\<close>

definition MARCOS :: nat where "MARCOS = 0x400000"

definition indice_marco :: "u64 \<Rightarrow> nat option" where
  "indice_marco phys =
    (if phys mod PAGE \<noteq> 0 \<or> phys \<ge> PHYSMAP_SIZE then None else Some (unat (phys div PAGE)))"

lemma indice_marco_Some_iff:
  "indice_marco phys = Some i \<longleftrightarrow> i < MARCOS \<and> unat phys = i * 4096"
proof -
  have m: "phys mod PAGE = 0 \<longleftrightarrow> unat phys mod 4096 = 0"
    by (simp add: word_unat_eq_iff unat_mod)
  have d: "unat (phys div PAGE) = unat phys div 4096"
    by (simp add: unat_div)
  have l: "phys \<ge> PHYSMAP_SIZE \<longleftrightarrow> \<not> unat phys < MARCOS * 4096"
    by (simp add: word_le_nat_alt MARCOS_def not_less)
  have split: "n mod 4096 = 0 \<and> n div 4096 = i \<longleftrightarrow> n = i * 4096" for n
    using div_mult_mod_eq [of n 4096] by auto
  have less: "i * 4096 < MARCOS * 4096 \<longleftrightarrow> i < MARCOS"
    by (rule mult_less_cancel2 [THEN trans]) simp
  have "indice_marco phys = Some i \<longleftrightarrow>
      (unat phys mod 4096 = 0 \<and> unat phys div 4096 = i) \<and> unat phys < MARCOS * 4096"
    unfolding indice_marco_def m d l
    by (cases "unat phys mod 4096 = 0"; cases "unat phys < MARCOS * 4096"; simp)
  then show ?thesis
    unfolding split using less by metis
qed

lemma indice_marco_less: "indice_marco phys = Some i \<Longrightarrow> i < MARCOS"
  by (simp add: indice_marco_Some_iff)

lemma unat_dir_marco: "i < MARCOS \<Longrightarrow> unat (of_nat i * PAGE) = i * 4096"
proof -
  assume i: "i < MARCOS"
  then have "unat (word_of_nat (i * 4096) :: u64) = i * 4096"
    by (intro unat_word_of_nat) (simp add: MARCOS_def)
  then show ?thesis
    by (simp add: PAGE_def)
qed

lemma indice_marco_dir: "i < MARCOS \<Longrightarrow> indice_marco (of_nat i * PAGE) = Some i"
  by (simp add: indice_marco_Some_iff unat_dir_marco)

lemma indice_marco_dir_of: "indice_marco phys = Some i \<Longrightarrow> phys = of_nat i * PAGE"
  by (simp add: indice_marco_Some_iff word_unat_eq_iff unat_dir_marco)

lemma indice_marco_step:
  assumes "indice_marco base = Some j"
  shows "indice_marco (base + PAGE) = (if j + 1 < MARCOS then Some (j + 1) else None)"
proof -
  have "unat (base + PAGE) = (j + 1) * 4096"
    using assms by (subst unat_add_small) (auto simp: indice_marco_Some_iff MARCOS_def)
  then show ?thesis
    by (auto simp: indice_marco_Some_iff not_Some_eq [symmetric] simp del: not_Some_eq)
qed

text \<open>Consecutive pages have consecutive indices as long as they are inside the mirror.\<close>

lemma indice_marco_run:
  assumes "indice_marco base = Some j"
    and "\<And>k. k < n \<Longrightarrow> indice_marco (base + of_nat k * PAGE) \<noteq> None"
    and "k < n"
  shows "indice_marco (base + of_nat k * PAGE) = Some (j + k)"
  using assms(3)
proof (induction k)
  case 0
  then show ?case
    using assms(1) by simp
next
  case (Suc k)
  then have "indice_marco (base + of_nat k * PAGE) = Some (j + k)"
    by simp
  then show ?case
    using indice_marco_step [of "base + of_nat k * PAGE" "j + k"] assms(2) [of "Suc k"] Suc.prems
    by (auto simp: algebra_simps split: if_splits)
qed

section \<open>The two halves of a byte\<close>

text \<open>\<open>(b & 0xF0) >> 4\<close> and \<open>b & 0x0F\<close>.\<close>

definition alto :: "u8 \<Rightarrow> u8" where "alto b = drop_bit 4 (b AND 0xF0)"
definition bajo :: "u8 \<Rightarrow> u8" where "bajo b = b AND 0x0F"

lemma masks_u8: "(0x0F :: u8) = mask 4" "(0xF0 :: u8) = NOT (mask 4)"
  by (simp_all add: mask_eq_exp_minus_1)

lemma nibble_take: "a \<le> 15 \<Longrightarrow> take_bit 4 (a :: u8) = a"
  by (simp add: word_unat_eq_iff take_bit_eq_mod unat_mod word_le_nat_alt)

lemma nibble_bit: "a \<le> 15 \<Longrightarrow> bit (a :: u8) n \<Longrightarrow> n < 4"
  using nibble_take [of a] bit_take_bit_iff [of 4 a n] by simp

lemma alto_eq: "alto b = drop_bit 4 b"
  by (rule bit_word_eqI) (auto simp: alto_def masks_u8 bit_simps dest: bit_imp_le_length)

lemma bajo_eq: "bajo b = take_bit 4 b"
  by (simp add: bajo_def masks_u8 take_bit_eq_mask)

lemma alto_le [simp]: "alto b \<le> 15"
proof -
  have "unat (alto b) = unat b div 16"
    by (simp add: alto_eq drop_bit_eq_div unat_div)
  then show ?thesis
    using unsigned_less [of b, where ?'a = nat] by (simp add: word_le_nat_alt less_mult_imp_div_less)
qed

lemma nibble_bit': "a \<le> mask 4 \<Longrightarrow> bit (a :: u8) n \<Longrightarrow> n < 4"
  using nibble_bit [of a] by (simp add: masks_u8)

lemma alto_simps [simp]:
  "alto (b AND 0x0F) = 0"
  "q \<le> 15 \<Longrightarrow> alto ((b AND 0xF0) OR q) = alto b"
  "a \<le> 15 \<Longrightarrow> alto ((b AND 0x0F) OR push_bit 4 a) = a"
  by (rule bit_word_eqI, auto simp: alto_eq masks_u8 bit_simps dest: nibble_bit' bit_imp_le_length)+

lemma bajo_simps [simp]:
  "bajo (b AND 0x0F) = bajo b"
  "q \<le> 15 \<Longrightarrow> bajo ((b AND 0xF0) OR q) = q"
  "bajo ((b AND 0x0F) OR push_bit 4 a) = bajo b"
  by (rule bit_word_eqI, auto simp: bajo_eq masks_u8 bit_simps dest: nibble_bit' bit_imp_le_length)+

lemma alto_not_gt [simp]: "\<not> 15 < alto b"
  by (simp add: not_less)

lemma alto_zero_iff [simp]: "b AND 0xF0 = 0 \<longleftrightarrow> alto b = 0"
proof
  assume "alto b = 0"
  then have "\<not> bit b n" if "n \<ge> 4" for n
    using that bit_drop_bit_eq [of 4 b] by (metis alto_eq bit_0_eq bot_apply comp_apply le_add_diff_inverse bot_bool_def)
  then show "b AND 0xF0 = 0"
    by (intro bit_word_eqI) (auto simp: masks_u8 bit_simps not_less)
qed (simp add: alto_def)

end
