(* ===== verification/Titular.thy ===== *)
theory Titular
  imports Mm
begin

text \<open>
  \<open>kernel/src/ring0/mm/titular\<close>: who owns each physical frame and which device has it in flight.
  One byte per frame: the low half is the owner, the high half the device. \<open>roja.rs\<close> lets devices
  take, land and borrow frames, \<open>amarilla.rs\<close> marks owners, \<open>verde.rs\<close> reads the counters.

  The table is an array of \<^const>\<open>MARCOS\<close> bytes, read and written only at an index that
  \<^const>\<open>indice_marco\<close> gave, and the arrays of 16 are indexed by a half byte; both are functions
  here. The four loans are a list.
\<close>

section \<open>State\<close>

datatype titular = Nadie | Anonimo | Tabla | Hoja | Pila | Bloque | Bufer | Kernel | Neutro

fun como_byte :: "titular \<Rightarrow> u8" where
  "como_byte Nadie = 0"
| "como_byte Anonimo = 1"
| "como_byte Tabla = 2"
| "como_byte Hoja = 3"
| "como_byte Pila = 4"
| "como_byte Bloque = 5"
| "como_byte Bufer = 6"
| "como_byte Kernel = 7"
| "como_byte Neutro = 8"

definition de_byte :: "u8 \<Rightarrow> titular" where
  "de_byte b =
    (let q = b AND 0x0F in
     if q = 2 then Tabla else if q = 3 then Hoja else if q = 4 then Pila
     else if q = 5 then Bloque else if q = 6 then Bufer else if q = 7 then Kernel
     else if q = 8 then Neutro else if q = 1 then Anonimo else Nadie)"

fun nombre_titular :: "titular \<Rightarrow> string" where
  "nombre_titular Nadie = ''libre''"
| "nombre_titular Anonimo = ''anonimo''"
| "nombre_titular Tabla = ''TABLA''"
| "nombre_titular Hoja = ''hoja''"
| "nombre_titular Pila = ''pila''"
| "nombre_titular Bloque = ''bloque''"
| "nombre_titular Bufer = ''bufer''"
| "nombre_titular Kernel = ''kernel''"
| "nombre_titular Neutro = ''NEUTRO (un aparato)''"

record prestamo =
  pr_base :: u64
  pr_paginas :: u64
  pr_aparato :: u8

record titular_st =
  tabla :: "nat \<Rightarrow> u8"
  neutros_vivos :: u64
  neutros_soltados :: u64
  en_vuelo_vivos :: u64
  en_vuelo_pisados :: u64
  en_vuelo_choques :: u64
  vuelos_de :: "nat \<Rightarrow> u32"
  ultima_noticia :: "nat \<Rightarrow> u64"
  peor_silencio_de :: "nat \<Rightarrow> u64"
  caducados_n :: u64
  prestamos :: "prestamo list"

definition libre_prestamo :: prestamo where
  "libre_prestamo = \<lparr>pr_base = 0, pr_paginas = 0, pr_aparato = 0\<rparr>"

definition titular_inicial :: titular_st where
  "titular_inicial =
    \<lparr>tabla = (\<lambda>_. 0), neutros_vivos = 0, neutros_soltados = 0, en_vuelo_vivos = 0,
     en_vuelo_pisados = 0, en_vuelo_choques = 0, vuelos_de = (\<lambda>_. 0), ultima_noticia = (\<lambda>_. 0),
     peor_silencio_de = (\<lambda>_. 0), caducados_n = 0, prestamos = [libre_prestamo, libre_prestamo, libre_prestamo, libre_prestamo]\<rparr>"

section \<open>Owners (amarilla.rs)\<close>

definition marcar :: "u64 \<Rightarrow> titular \<Rightarrow> titular_st \<Rightarrow> titular_st" where
  "marcar phys q s =
    (case indice_marco phys of
       None \<Rightarrow> s
     | Some i \<Rightarrow>
        let antes = tabla s i;
            era = (bajo antes = como_byte Neutro);
            es = (q = Neutro);
            s1 = s\<lparr>tabla := (tabla s)(i := (antes AND 0xF0) OR como_byte q)\<rparr>;
            s2 = (if es \<and> \<not> era then s1\<lparr>neutros_vivos := neutros_vivos s1 + 1\<rparr>
                  else if era \<and> \<not> es then
                    s1\<lparr>neutros_vivos := saturating_sub (neutros_vivos s1) 1,
                       neutros_soltados := neutros_soltados s1 + 1\<rparr>
                  else s1)
        in if antes AND 0xF0 \<noteq> 0 \<and> bajo antes \<noteq> como_byte q
           then s2\<lparr>en_vuelo_pisados := en_vuelo_pisados s2 + 1\<rparr> else s2)"

definition titular_de :: "u64 \<Rightarrow> titular_st \<Rightarrow> titular" where
  "titular_de phys s =
    (case indice_marco phys of Some i \<Rightarrow> de_byte (tabla s i) | None \<Rightarrow> Nadie)"

datatype veredicto_titular = Adelante | SinOpinion | NoEsTuyo titular titular

definition puede_soltar :: "u64 \<Rightarrow> titular \<Rightarrow> titular_st \<Rightarrow> veredicto_titular" where
  "puede_soltar phys quien s =
    (let tiene = titular_de phys s in
     if tiene = Anonimo \<or> tiene = Nadie \<or> quien = Anonimo then SinOpinion
     else if tiene = quien then Adelante
     else NoEsTuyo tiene quien)"

section \<open>Flights and loans (roja.rs)\<close>

definition APARATO_AHCI :: u8 where "APARATO_AHCI = 1"
definition APARATO_NIC :: u8 where "APARATO_NIC = 2"
definition APARATO_XHCI :: u8 where "APARATO_XHCI = 3"
definition APARATO_GPU :: u8 where "APARATO_GPU = 4"
definition PLAZO_SIN_MEDIR :: u64 where "PLAZO_SIN_MEDIR = 0"

definition choque :: "titular_st \<Rightarrow> titular_st" where
  "choque s = s\<lparr>en_vuelo_choques := en_vuelo_choques s + 1\<rparr>"

definition anoto :: "u8 \<Rightarrow> u64 \<Rightarrow> bool \<Rightarrow> titular_st \<Rightarrow> titular_st" where
  "anoto aparato cuando habia_trabajo s =
    (let a = unat aparato;
         antes = ultima_noticia s a;
         callado = cuando - antes;
         s1 = (if antes \<noteq> 0 \<and> habia_trabajo \<and> callado > peor_silencio_de s a
               then s\<lparr>peor_silencio_de := (peor_silencio_de s)(a := callado)\<rparr> else s)
     in s1\<lparr>ultima_noticia := (ultima_noticia s1)(a := cuando)\<rparr>)"

definition en_vuelo :: "u64 \<Rightarrow> u8 \<Rightarrow> u64 \<Rightarrow> titular_st \<Rightarrow> bool \<times> titular_st" where
  "en_vuelo phys aparato cuando s =
    (if aparato = 0 \<or> aparato > 15 then (False, s)
     else case indice_marco phys of
       None \<Rightarrow> (False, s)
     | Some i \<Rightarrow>
        let antes = tabla s i; quien = alto antes in
        if quien \<noteq> 0 \<and> quien \<noteq> aparato then (False, choque s)
        else
          let s1 = s\<lparr>tabla := (tabla s)(i := (antes AND 0x0F) OR push_bit 4 aparato)\<rparr> in
          if quien = 0 then
            let habia = vuelos_de s1 (unat aparato) \<noteq> 0;
                s2 = s1\<lparr>en_vuelo_vivos := en_vuelo_vivos s1 + 1,
                        vuelos_de := (vuelos_de s1)(unat aparato := vuelos_de s1 (unat aparato) + 1)\<rparr>
            in (True, anoto aparato cuando habia s2)
          else (True, s1))"

definition prestado :: "u64 \<Rightarrow> titular_st \<Rightarrow> bool" where
  "prestado phys s =
    list_ex (\<lambda>p. pr_paginas p \<noteq> 0 \<and> phys \<ge> pr_base p \<and> phys < pr_base p + pr_paginas p * PAGE)
      (prestamos s)"

definition aterrizo :: "u64 \<Rightarrow> u8 \<Rightarrow> u64 \<Rightarrow> titular_st \<Rightarrow> bool \<times> titular_st" where
  "aterrizo phys aparato cuando s =
    (case indice_marco phys of
       None \<Rightarrow> (False, s)
     | Some i \<Rightarrow>
        let antes = tabla s i; quien = alto antes in
        if quien = 0 then (False, s)
        else if quien \<noteq> aparato then (False, choque s)
        else if prestado phys s then (False, choque s)
        else
          let a = unat aparato;
              s1 = s\<lparr>tabla := (tabla s)(i := antes AND 0x0F)\<rparr>;
              s2 = s1\<lparr>en_vuelo_vivos := saturating_sub (en_vuelo_vivos s1) 1,
                      vuelos_de := (vuelos_de s1)(a := saturating_sub (vuelos_de s1 a) 1)\<rparr>
          in (True, anoto aparato cuando True s2))"

fun caducados_desde :: "u64 \<Rightarrow> u64 \<Rightarrow> nat list \<Rightarrow> u16 \<Rightarrow> titular_st \<Rightarrow> u16 \<times> titular_st" where
  "caducados_desde ahora plazo [] mapa s = (mapa, s)"
| "caducados_desde ahora plazo (a # as) mapa s =
    (if vuelos_de s a = 0 \<or> ultima_noticia s a = 0 then caducados_desde ahora plazo as mapa s
     else if ahora - ultima_noticia s a > plazo
       then caducados_desde ahora plazo as (mapa OR push_bit a 1) (s\<lparr>caducados_n := caducados_n s + 1\<rparr>)
     else caducados_desde ahora plazo as mapa s)"

definition caducados :: "u64 \<Rightarrow> u64 \<Rightarrow> titular_st \<Rightarrow> u16 \<times> titular_st" where
  "caducados ahora plazo s =
    (if plazo = 0 then (0, s) else caducados_desde ahora plazo [1..<16] 0 s)"

definition en_vuelo_de :: "u64 \<Rightarrow> titular_st \<Rightarrow> u8 option" where
  "en_vuelo_de phys s =
    (case indice_marco phys of
       None \<Rightarrow> None
     | Some i \<Rightarrow> if alto (tabla s i) = 0 then None else Some (alto (tabla s i)))"

datatype no_presta = Malo | FueraDelEspejoTramo | Choque | SinHueco

text \<open>The first loop of \<open>prestar_tramo\<close>: the first page that cannot be lent says why.\<close>

fun mira_paginas :: "u64 \<Rightarrow> u8 \<Rightarrow> (nat \<Rightarrow> u8) \<Rightarrow> nat list \<Rightarrow> no_presta option" where
  "mira_paginas base aparato t [] = None"
| "mira_paginas base aparato t (k # ks) =
    (case indice_marco (base + of_nat k * PAGE) of
       None \<Rightarrow> Some FueraDelEspejoTramo
     | Some i \<Rightarrow>
        if alto (t i) \<noteq> 0 \<and> alto (t i) \<noteq> aparato then Some Choque
        else mira_paginas base aparato t ks)"

text \<open>The second loop: mark every page and count the ones that were free.\<close>

fun presta_paginas ::
  "u64 \<Rightarrow> u8 \<Rightarrow> nat list \<Rightarrow> (nat \<Rightarrow> u8) \<times> u64 \<Rightarrow> (nat \<Rightarrow> u8) \<times> u64" where
  "presta_paginas base aparato [] (t, nuevas) = (t, nuevas)"
| "presta_paginas base aparato (k # ks) (t, nuevas) =
    (case indice_marco (base + of_nat k * PAGE) of
       None \<Rightarrow> presta_paginas base aparato ks (t, nuevas)
     | Some i \<Rightarrow>
        presta_paginas base aparato ks
          (t(i := (t i AND 0x0F) OR push_bit 4 aparato),
           if t i AND 0xF0 = 0 then nuevas + 1 else nuevas))"

text \<open>\<open>iter().position(..)\<close>\<close>

fun posicion :: "('a \<Rightarrow> bool) \<Rightarrow> 'a list \<Rightarrow> nat option" where
  "posicion P [] = None"
| "posicion P (x # xs) = (if P x then Some 0 else map_option Suc (posicion P xs))"

definition prestar_tramo :: "u64 \<Rightarrow> u64 \<Rightarrow> u8 \<Rightarrow> titular_st \<Rightarrow> (no_presta + unit) \<times> titular_st" where
  "prestar_tramo base paginas aparato s =
    (if aparato = 0 \<or> aparato > 15 \<or> paginas = 0 then (Inl Malo, s)
     else case posicion (\<lambda>p. pr_paginas p = 0) (prestamos s) of
       None \<Rightarrow> (Inl SinHueco, s)
     | Some hueco \<Rightarrow>
        (case mira_paginas base aparato (tabla s) [0..<unat paginas] of
           Some Choque \<Rightarrow> (Inl Choque, choque s)
         | Some e \<Rightarrow> (Inl e, s)
         | None \<Rightarrow>
            let (t, nuevas) = presta_paginas base aparato [0..<unat paginas] (tabla s, 0) in
            (Inr (),
             s\<lparr>tabla := t, en_vuelo_vivos := en_vuelo_vivos s + nuevas,
               prestamos := (prestamos s)[hueco :=
                 \<lparr>pr_base = base, pr_paginas = paginas, pr_aparato = aparato\<rparr>]\<rparr>)))"

fun devuelve_paginas ::
  "u64 \<Rightarrow> u8 \<Rightarrow> nat list \<Rightarrow> (nat \<Rightarrow> u8) \<times> u64 \<Rightarrow> (nat \<Rightarrow> u8) \<times> u64" where
  "devuelve_paginas base aparato [] (t, vueltas) = (t, vueltas)"
| "devuelve_paginas base aparato (k # ks) (t, vueltas) =
    (case indice_marco (base + of_nat k * PAGE) of
       None \<Rightarrow> devuelve_paginas base aparato ks (t, vueltas)
     | Some i \<Rightarrow>
        if alto (t i) = aparato
        then devuelve_paginas base aparato ks (t(i := t i AND 0x0F), vueltas + 1)
        else devuelve_paginas base aparato ks (t, vueltas))"

definition devolver_tramo :: "u64 \<Rightarrow> u8 \<Rightarrow> titular_st \<Rightarrow> bool \<times> titular_st" where
  "devolver_tramo base aparato s =
    (case posicion (\<lambda>p. pr_paginas p \<noteq> 0 \<and> pr_base p = base \<and> pr_aparato p = aparato) (prestamos s) of
       None \<Rightarrow> (False, s)
     | Some h \<Rightarrow>
        let paginas = pr_paginas (prestamos s ! h);
            (t, vueltas) = devuelve_paginas base aparato [0..<unat paginas] (tabla s, 0)
        in (True,
            s\<lparr>tabla := t, en_vuelo_vivos := saturating_sub (en_vuelo_vivos s) vueltas,
              prestamos := (prestamos s)[h := libre_prestamo]\<rparr>))"

section \<open>Readings (verde.rs)\<close>

definition cuenta :: "(u8 \<Rightarrow> bool) \<Rightarrow> (nat \<Rightarrow> u8) \<Rightarrow> nat" where
  "cuenta P t = length (filter (\<lambda>i. P (t i)) [0..<MARCOS])"

definition cubiertos :: "titular_st \<Rightarrow> u64" where
  "cubiertos s = of_nat (cuenta (\<lambda>b. b \<ge> 2) (tabla s))"

definition vuelos :: "titular_st \<Rightarrow> u64 \<times> u64 \<times> u64" where
  "vuelos s = (en_vuelo_vivos s, en_vuelo_pisados s, en_vuelo_choques s)"

fun peor_desde :: "(nat \<Rightarrow> u64) \<Rightarrow> nat list \<Rightarrow> u8 \<times> u64 \<Rightarrow> u8 \<times> u64" where
  "peor_desde silencio [] (quien, peor) = (quien, peor)"
| "peor_desde silencio (a # as) (quien, peor) =
    (if silencio a > peor then peor_desde silencio as (of_nat a, silencio a)
     else peor_desde silencio as (quien, peor))"

definition peor_silencio :: "titular_st \<Rightarrow> u8 \<times> u64 \<times> u64" where
  "peor_silencio s =
    (let (quien, peor) = peor_desde (peor_silencio_de s) [1..<16] (0, 0)
     in (quien, peor, caducados_n s))"

definition neutros :: "titular_st \<Rightarrow> u64 \<times> u64" where
  "neutros s = (neutros_vivos s, neutros_soltados s)"

section \<open>Counting frames\<close>

definition vuela :: "u8 \<Rightarrow> bool" where "vuela b \<longleftrightarrow> alto b \<noteq> 0"
definition neutro :: "u8 \<Rightarrow> bool" where "neutro b \<longleftrightarrow> bajo b = 8"

lemma length_filter_sum: "length (filter P xs) = (\<Sum>x\<leftarrow>xs. if P x then 1 else 0)"
  by (induction xs) simp_all

lemma cuenta_sum: "cuenta P t = (\<Sum>i<MARCOS. if P (t i) then 1 else 0)"
  unfolding cuenta_def length_filter_sum
  by (simp only: sum_list_distinct_conv_sum_set distinct_upt set_upt lessThan_atLeast0)

lemma cuenta_upd:
  assumes "i < MARCOS"
  shows "cuenta P (t(i := b)) + (if P (t i) then 1 else 0) = cuenta P t + (if P b then 1 else 0)"
proof -
  have "(\<Sum>k<MARCOS. if P ((t(i := b)) k) then 1 else 0) =
      (if P b then 1 else 0) + (\<Sum>k \<in> {..<MARCOS} - {i}. if P (t k) then 1 else (0 :: nat))"
    using assms by (simp add: sum.remove [of "{..<MARCOS}" i])
  moreover have "(\<Sum>k<MARCOS. if P (t k) then 1 else 0) =
      (if P (t i) then 1 else 0) + (\<Sum>k \<in> {..<MARCOS} - {i}. if P (t k) then 1 else (0 :: nat))"
    using assms by (simp add: sum.remove [of "{..<MARCOS}" i])
  ultimately show ?thesis
    unfolding cuenta_sum by linarith
qed

lemma cuenta_le: "cuenta P t \<le> MARCOS"
  unfolding cuenta_def using length_filter_le [of "\<lambda>i. P (t i)" "[0..<MARCOS]"] by simp

lemma cuenta_cong: "(\<And>i. P (t' i) = P (t i)) \<Longrightarrow> cuenta P t' = cuenta P t"
  by (simp add: cuenta_def)

lemma como_byte_le [simp]: "como_byte q \<le> 15"
  by (cases q) simp_all

lemma bajo_como_byte [simp]: "bajo (como_byte q) = como_byte q"
  by (cases q) (simp_all add: bajo_def)

lemma de_byte_como_byte: "bajo b = como_byte q \<Longrightarrow> de_byte b = q"
  by (cases q) (simp_all add: de_byte_def bajo_def Let_def)

lemma como_byte_8 [simp]: "como_byte q = 8 \<longleftrightarrow> q = Neutro"
  by (cases q) simp_all

section \<open>What the loops over the pages do\<close>

text \<open>The frame of a page of the list.\<close>

definition en_paginas :: "u64 \<Rightarrow> nat list \<Rightarrow> nat \<Rightarrow> bool" where
  "en_paginas base ks i \<longleftrightarrow> (\<exists>k \<in> set ks. indice_marco (base + of_nat k * PAGE) = Some i)"

lemma en_paginas_simps [simp]:
  "\<not> en_paginas base [] i"
  "en_paginas base (k # ks) i \<longleftrightarrow>
     indice_marco (base + of_nat k * PAGE) = Some i \<or> en_paginas base ks i"
  by (auto simp: en_paginas_def)

lemma mira_paginas_None:
  "mira_paginas base a t ks = None \<Longrightarrow> k \<in> set ks \<Longrightarrow>
     \<exists>i. indice_marco (base + of_nat k * PAGE) = Some i \<and> (alto (t i) = 0 \<or> alto (t i) = a)"
  by (induction ks) (auto split: option.splits if_splits)

lemma presta_paginas_alto:
  "presta_paginas base a ks (t, n) = (t', n') \<Longrightarrow> a \<le> 15 \<Longrightarrow>
     alto (t' i) = (if en_paginas base ks i then a else alto (t i)) \<and> bajo (t' i) = bajo (t i)"
  by (induction ks arbitrary: t n) (auto split: option.splits)

lemma devuelve_paginas_alto:
  "devuelve_paginas base a ks (t, n) = (t', n') \<Longrightarrow>
     alto (t' i) = (if en_paginas base ks i \<and> alto (t i) = a then 0 else alto (t i)) \<and>
     bajo (t' i) = bajo (t i)"
  by (induction ks arbitrary: t n) (auto split: option.splits if_splits)

lemma unat_suc_small: "unat (n :: u64) \<le> MARCOS \<Longrightarrow> unat (n + 1) = unat n + 1"
  by (subst unat_add_small) (simp_all add: MARCOS_def)

lemma presta_paginas_cuenta:
  assumes "presta_paginas base a ks (t, n) = (t', n')" and "a \<noteq> 0" "a \<le> 15"
    and "unat n \<le> cuenta vuela t"
  shows "unat n' + cuenta vuela t = unat n + cuenta vuela t' \<and> unat n' \<le> cuenta vuela t'"
  using assms
proof (induction ks arbitrary: t n)
  case (Cons k ks)
  show ?case
  proof (cases "indice_marco (base + of_nat k * PAGE)")
    case None
    then show ?thesis
      using Cons by simp
  next
    case (Some i)
    let ?t = "t(i := (t i AND 0x0F) OR push_bit 4 a)"
    let ?n = "if t i AND 0xF0 = 0 then n + 1 else n"
    have i: "i < MARCOS"
      using Some by (simp add: indice_marco_Some_iff)
    have up: "cuenta vuela ?t + (if vuela (t i) then 1 else 0) = cuenta vuela t + 1"
      using cuenta_upd [OF i, of vuela t] Cons.prems by (simp add: vuela_def)
    have n: "unat ?n = (if vuela (t i) then unat n else unat n + 1)"
      using unat_suc_small [of n] Cons.prems(4) cuenta_le [of vuela t]
      by (simp add: alto_zero_iff vuela_def [of "t i"])
    have "unat ?n \<le> cuenta vuela ?t"
      using n up Cons.prems(4) by (simp split: if_splits)
    then have "unat n' + cuenta vuela ?t = unat ?n + cuenta vuela t' \<and> unat n' \<le> cuenta vuela t'"
      using Cons.prems Some by (intro Cons.IH) (simp_all del: fun_upd_apply)
    then show ?thesis
      using n up by (simp split: if_splits)
  qed
qed simp

lemma devuelve_paginas_cuenta:
  assumes "devuelve_paginas base a ks (t, n) = (t', n')" and "a \<noteq> 0"
    and "unat n + cuenta vuela t \<le> MARCOS"
  shows "unat n' + cuenta vuela t' = unat n + cuenta vuela t"
  using assms
proof (induction ks arbitrary: t n)
  case (Cons k ks)
  show ?case
  proof (cases "\<exists>i. indice_marco (base + of_nat k * PAGE) = Some i \<and> alto (t i) = a")
    case False
    then have "devuelve_paginas base a ks (t, n) = (t', n')"
      using Cons.prems(1) by (auto split: option.splits)
    then show ?thesis
      using Cons by blast
  next
    case True
    then obtain i where i: "indice_marco (base + of_nat k * PAGE) = Some i" "alto (t i) = a"
      by blast
    let ?t = "t(i := t i AND 0x0F)"
    have up: "cuenta vuela ?t + 1 = cuenta vuela t"
      using cuenta_upd [of i vuela t "t i AND 0x0F"] i Cons.prems(2)
      by (simp add: vuela_def indice_marco_Some_iff)
    have n: "unat (n + 1) = unat n + 1"
      using Cons.prems(3) by (intro unat_suc_small) simp
    have "unat n' + cuenta vuela t' = unat (n + 1) + cuenta vuela ?t"
      using Cons.prems i up n by (intro Cons.IH) (simp_all del: fun_upd_apply)
    then show ?thesis
      using up n by simp
  qed
qed simp

lemma cuenta_bajo: "(\<And>i. bajo (t' i) = bajo (t i)) \<Longrightarrow> cuenta neutro t' = cuenta neutro t"
  by (rule cuenta_cong) (simp add: neutro_def)

section \<open>Operations, one by one\<close>

text \<open>Each lemma says what the operation does to the two halves of every frame.\<close>

lemma anoto_simps [simp]:
  "tabla (anoto a c h s) = tabla s"
  "neutros_vivos (anoto a c h s) = neutros_vivos s"
  "en_vuelo_vivos (anoto a c h s) = en_vuelo_vivos s"
  "vuelos_de (anoto a c h s) = vuelos_de s"
  "prestamos (anoto a c h s) = prestamos s"
  by (simp_all add: anoto_def Let_def)

lemma choque_simps [simp]:
  "tabla (choque s) = tabla s"
  "neutros_vivos (choque s) = neutros_vivos s"
  "en_vuelo_vivos (choque s) = en_vuelo_vivos s"
  "vuelos_de (choque s) = vuelos_de s"
  "prestamos (choque s) = prestamos s"
  by (simp_all add: choque_def)

lemma caducados_desde_simps [simp]:
  "tabla (snd (caducados_desde ahora plazo as mapa s)) = tabla s"
  "neutros_vivos (snd (caducados_desde ahora plazo as mapa s)) = neutros_vivos s"
  "en_vuelo_vivos (snd (caducados_desde ahora plazo as mapa s)) = en_vuelo_vivos s"
  "prestamos (snd (caducados_desde ahora plazo as mapa s)) = prestamos s"
  by (induction as arbitrary: mapa s) simp_all

lemma caducados_simps [simp]:
  "tabla (snd (caducados ahora plazo s)) = tabla s"
  "neutros_vivos (snd (caducados ahora plazo s)) = neutros_vivos s"
  "en_vuelo_vivos (snd (caducados ahora plazo s)) = en_vuelo_vivos s"
  "prestamos (snd (caducados ahora plazo s)) = prestamos s"
  by (simp_all add: caducados_def)

lemma marcar_tabla:
  "tabla (marcar phys q s) =
     (case indice_marco phys of None \<Rightarrow> tabla s
      | Some i \<Rightarrow> (tabla s)(i := (tabla s i AND 0xF0) OR como_byte q))"
  by (simp add: marcar_def Let_def split: option.split)

lemma marcar_alto [simp]: "alto (tabla (marcar phys q s) i) = alto (tabla s i)"
  by (simp add: marcar_tabla split: option.split)

lemma marcar_simps [simp]:
  "prestamos (marcar phys q s) = prestamos s"
  "en_vuelo_vivos (marcar phys q s) = en_vuelo_vivos s"
  by (simp_all add: marcar_def Let_def split: option.split)

lemma marcar_bajo:
  "bajo (tabla (marcar phys q s) i) =
     (if indice_marco phys = Some i then como_byte q else bajo (tabla s i))"
  by (simp add: marcar_tabla split: option.split)

lemma en_vuelo_alto:
  "alto (tabla (snd (en_vuelo phys a c s)) i) =
     (if fst (en_vuelo phys a c s) \<and> indice_marco phys = Some i then a else alto (tabla s i))"
  by (auto simp: en_vuelo_def Let_def split: option.split)

lemma en_vuelo_bajo [simp]:
  "bajo (tabla (snd (en_vuelo phys a c s)) i) = bajo (tabla s i)"
  by (auto simp: en_vuelo_def Let_def split: option.split)

lemma en_vuelo_ok_iff:
  "fst (en_vuelo phys a c s) \<longleftrightarrow>
     a \<noteq> 0 \<and> a \<le> 15 \<and>
     (\<exists>i. indice_marco phys = Some i \<and> (alto (tabla s i) = 0 \<or> alto (tabla s i) = a))"
  by (auto simp: en_vuelo_def Let_def not_less split: option.split)

lemma en_vuelo_prestamos [simp]: "prestamos (snd (en_vuelo phys a c s)) = prestamos s"
  by (auto simp: en_vuelo_def Let_def split: option.split)

lemma aterrizo_alto:
  "alto (tabla (snd (aterrizo phys a c s)) i) =
     (if fst (aterrizo phys a c s) \<and> indice_marco phys = Some i then 0 else alto (tabla s i))"
  by (auto simp: aterrizo_def Let_def split: option.split)

lemma aterrizo_bajo [simp]:
  "bajo (tabla (snd (aterrizo phys a c s)) i) = bajo (tabla s i)"
  by (auto simp: aterrizo_def Let_def split: option.split)

lemma aterrizo_ok_iff:
  "fst (aterrizo phys a c s) \<longleftrightarrow>
     a \<noteq> 0 \<and> \<not> prestado phys s \<and> (\<exists>i. indice_marco phys = Some i \<and> alto (tabla s i) = a)"
  by (auto simp: aterrizo_def Let_def split: option.split)

lemma aterrizo_prestamos [simp]: "prestamos (snd (aterrizo phys a c s)) = prestamos s"
  by (auto simp: aterrizo_def Let_def split: option.split)

lemma posicion_Some:
  "posicion P xs = Some h \<Longrightarrow> h < length xs \<and> P (xs ! h)"
  by (induction xs arbitrary: h) (auto split: if_splits)

lemma prestar_tramo_cases:
  obtains (no) e where "prestar_tramo base n a s = (Inl e, s)"
    | (choca) "prestar_tramo base n a s = (Inl Choque, choque s)"
    | (si) h t m where
      "a \<noteq> 0" "a \<le> 15" "n \<noteq> 0" "h < length (prestamos s)" "pr_paginas (prestamos s ! h) = 0"
      "mira_paginas base a (tabla s) [0..<unat n] = None"
      "presta_paginas base a [0..<unat n] (tabla s, 0) = (t, m)"
      "prestar_tramo base n a s =
        (Inr (), s\<lparr>tabla := t, en_vuelo_vivos := en_vuelo_vivos s + m,
           prestamos := (prestamos s)[h := \<lparr>pr_base = base, pr_paginas = n, pr_aparato = a\<rparr>]\<rparr>)"
proof (cases "a = 0 \<or> a > 15 \<or> n = 0 \<or> posicion (\<lambda>p. pr_paginas p = 0) (prestamos s) = None \<or>
    mira_paginas base a (tabla s) [0..<unat n] \<noteq> None")
  case True
  then have "(\<exists>e. prestar_tramo base n a s = (Inl e, s)) \<or>
      prestar_tramo base n a s = (Inl Choque, choque s)"
    by (auto simp: prestar_tramo_def split: option.splits no_presta.splits)
  then show ?thesis
    using no choca by blast
next
  case False
  then obtain h where h: "posicion (\<lambda>p. pr_paginas p = 0) (prestamos s) = Some h"
    by auto
  obtain t m where "presta_paginas base a [0..<unat n] (tabla s, 0) = (t, m)"
    by fastforce
  then show ?thesis
    using si [of h t m] False h posicion_Some [OF h]
    by (simp add: prestar_tramo_def not_less)
qed

lemma devolver_tramo_cases:
  obtains (no) "devolver_tramo base a s = (False, s)"
    | (si) h t m where
      "h < length (prestamos s)" "pr_paginas (prestamos s ! h) \<noteq> 0"
      "pr_base (prestamos s ! h) = base" "pr_aparato (prestamos s ! h) = a"
      "devuelve_paginas base a [0..<unat (pr_paginas (prestamos s ! h))] (tabla s, 0) = (t, m)"
      "devolver_tramo base a s =
        (True, s\<lparr>tabla := t, en_vuelo_vivos := saturating_sub (en_vuelo_vivos s) m,
           prestamos := (prestamos s)[h := libre_prestamo]\<rparr>)"
proof (cases "posicion (\<lambda>p. pr_paginas p \<noteq> 0 \<and> pr_base p = base \<and> pr_aparato p = a) (prestamos s)")
  case None
  then show ?thesis
    using no by (simp add: devolver_tramo_def)
next
  case (Some h)
  obtain t m where
    "devuelve_paginas base a [0..<unat (pr_paginas (prestamos s ! h))] (tabla s, 0) = (t, m)"
    by fastforce
  then show ?thesis
    using si [of h t m] Some posicion_Some [OF Some] by (simp add: devolver_tramo_def)
qed

section \<open>The counters tell the truth\<close>

definition prestamo_ok :: "prestamo \<Rightarrow> bool" where
  "prestamo_ok p \<longleftrightarrow>
     pr_paginas p = 0 \<or>
     pr_aparato p \<noteq> 0 \<and> pr_aparato p \<le> 15 \<and>
     (\<exists>j. indice_marco (pr_base p) = Some j \<and> j + unat (pr_paginas p) \<le> MARCOS)"

definition cuentas_ok :: "titular_st \<Rightarrow> bool" where
  "cuentas_ok s \<longleftrightarrow>
     unat (en_vuelo_vivos s) = cuenta vuela (tabla s) \<and>
     unat (neutros_vivos s) = cuenta neutro (tabla s)"

definition titular_ok :: "titular_st \<Rightarrow> bool" where
  "titular_ok s \<longleftrightarrow> cuentas_ok s \<and> list_all prestamo_ok (prestamos s)"

lemma titular_inicial_ok: "titular_ok titular_inicial"
proof -
  have "cuenta vuela (\<lambda>_. 0) = 0" "cuenta neutro (\<lambda>_. 0) = 0"
    by (simp_all add: cuenta_def vuela_def neutro_def alto_def bajo_def)
  then show ?thesis
    by (simp add: titular_ok_def cuentas_ok_def titular_inicial_def prestamo_ok_def
        libre_prestamo_def)
qed

lemma sub_uno: "0 < unat (n :: u64) \<Longrightarrow> unat (saturating_sub n 1) = unat n - 1"
  by (simp add: unat_saturating_sub)

lemma marcar_ok: "titular_ok s \<Longrightarrow> titular_ok (marcar phys q s)"
proof (cases "indice_marco phys")
  case (Some i)
  assume ok: "titular_ok s"
  let ?t = "(tabla s)(i := (tabla s i AND 0xF0) OR como_byte q)"
  have t: "tabla (marcar phys q s) = ?t"
    using Some by (simp add: marcar_tabla)
  have v: "cuenta vuela ?t = cuenta vuela (tabla s)"
    by (rule cuenta_cong) (simp add: vuela_def)
  have n: "cuenta neutro ?t + (if neutro (tabla s i) then 1 else 0)
      = cuenta neutro (tabla s) + (if q = Neutro then 1 else 0)"
    using cuenta_upd [of i neutro "tabla s"] Some
    by (simp add: neutro_def indice_marco_Some_iff)
  have nv: "neutros_vivos (marcar phys q s) =
      (if q = Neutro \<and> \<not> neutro (tabla s i) then neutros_vivos s + 1
       else if neutro (tabla s i) \<and> q \<noteq> Neutro then saturating_sub (neutros_vivos s) 1
       else neutros_vivos s)"
    using Some by (simp add: marcar_def Let_def neutro_def)
  have "unat (neutros_vivos s) = cuenta neutro (tabla s)"
    using ok by (simp add: titular_ok_def cuentas_ok_def)
  then have "unat (neutros_vivos (marcar phys q s)) = cuenta neutro ?t"
    using n unat_suc_small [of "neutros_vivos s"] cuenta_le [of neutro "tabla s"]
    by (simp add: nv unat_saturating_sub split: if_splits)
  then show ?thesis
    using ok t v by (simp add: titular_ok_def cuentas_ok_def)
qed (simp add: marcar_def)

lemma en_vuelo_ok: "titular_ok s \<Longrightarrow> titular_ok (snd (en_vuelo phys a c s))"
proof -
  assume ok: "titular_ok s"
  let ?s' = "snd (en_vuelo phys a c s)"
  have neu: "cuenta neutro (tabla ?s') = cuenta neutro (tabla s)"
    by (rule cuenta_bajo) simp
  have nv: "neutros_vivos ?s' = neutros_vivos s"
    by (auto simp: en_vuelo_def Let_def split: option.split)
  have "unat (en_vuelo_vivos ?s') = cuenta vuela (tabla ?s')"
  proof (cases "fst (en_vuelo phys a c s)")
    case False
    then have "tabla ?s' = tabla s \<and> en_vuelo_vivos ?s' = en_vuelo_vivos s"
      by (auto simp: en_vuelo_def Let_def split: option.splits if_splits)
    then show ?thesis
      using ok by (simp add: titular_ok_def cuentas_ok_def)
  next
    case True
    then obtain i where i: "indice_marco phys = Some i" "a \<noteq> 0" "a \<le> 15"
        "alto (tabla s i) = 0 \<or> alto (tabla s i) = a"
      by (auto simp: en_vuelo_ok_iff)
    let ?t = "(tabla s)(i := (tabla s i AND 0x0F) OR push_bit 4 a)"
    have t: "tabla ?s' = ?t"
      using i by (auto simp: en_vuelo_def Let_def not_less)
    have vv: "en_vuelo_vivos ?s' =
        (if vuela (tabla s i) then en_vuelo_vivos s else en_vuelo_vivos s + 1)"
      using i by (auto simp: en_vuelo_def Let_def not_less vuela_def)
    have "cuenta vuela ?t + (if vuela (tabla s i) then 1 else 0) = cuenta vuela (tabla s) + 1"
      using cuenta_upd [of i vuela "tabla s"] i by (simp add: vuela_def indice_marco_Some_iff)
    then show ?thesis
      using ok unat_suc_small [of "en_vuelo_vivos s"] cuenta_le [of vuela "tabla s"]
      by (simp add: t vv titular_ok_def cuentas_ok_def split: if_splits)
  qed
  then show ?thesis
    using ok neu nv by (simp add: titular_ok_def cuentas_ok_def)
qed

lemma aterrizo_ok: "titular_ok s \<Longrightarrow> titular_ok (snd (aterrizo phys a c s))"
proof -
  assume ok: "titular_ok s"
  let ?s' = "snd (aterrizo phys a c s)"
  have neu: "cuenta neutro (tabla ?s') = cuenta neutro (tabla s)"
    by (rule cuenta_bajo) simp
  have nv: "neutros_vivos ?s' = neutros_vivos s"
    by (auto simp: aterrizo_def Let_def split: option.split)
  have "unat (en_vuelo_vivos ?s') = cuenta vuela (tabla ?s')"
  proof (cases "fst (aterrizo phys a c s)")
    case False
    then have "tabla ?s' = tabla s \<and> en_vuelo_vivos ?s' = en_vuelo_vivos s"
      by (auto simp: aterrizo_def Let_def split: option.splits if_splits)
    then show ?thesis
      using ok by (simp add: titular_ok_def cuentas_ok_def)
  next
    case True
    then obtain i where i: "indice_marco phys = Some i" "a \<noteq> 0" "alto (tabla s i) = a"
        "\<not> prestado phys s"
      by (auto simp: aterrizo_ok_iff)
    let ?t = "(tabla s)(i := tabla s i AND 0x0F)"
    have t: "tabla ?s' = ?t" "en_vuelo_vivos ?s' = saturating_sub (en_vuelo_vivos s) 1"
      using i by (simp_all add: aterrizo_def Let_def)
    have "cuenta vuela ?t + 1 = cuenta vuela (tabla s)"
      using cuenta_upd [of i vuela "tabla s" "tabla s i AND 0x0F"] i
      by (simp add: vuela_def indice_marco_Some_iff)
    then show ?thesis
      using ok by (simp add: t titular_ok_def cuentas_ok_def unat_saturating_sub)
  qed
  then show ?thesis
    using ok neu nv by (simp add: titular_ok_def cuentas_ok_def)
qed

text \<open>The pages of a span that passed the first loop are consecutive frames of the mirror.\<close>

lemma indice_marco_span:
  assumes "indice_marco base = Some j" and "j + n \<le> MARCOS" and "k < n"
  shows "indice_marco (base + of_nat k * PAGE) = Some (j + k)"
  using assms(3)
proof (induction k)
  case (Suc k)
  then show ?case
    using indice_marco_step [of "base + of_nat k * PAGE" "j + k"] assms(2)
    by (simp add: algebra_simps)
qed (use assms(1) in simp)

lemma mira_paginas_span:
  assumes "mira_paginas base a t [0..<n] = None" and "0 < n"
  obtains j where "indice_marco base = Some j" "j + n \<le> MARCOS"
proof -
  have all: "indice_marco (base + of_nat k * PAGE) \<noteq> None" if "k < n" for k
    using mira_paginas_None [OF assms(1), of k] that by auto
  obtain j where j: "indice_marco base = Some j"
    using all [of 0] assms(2) by auto
  have "indice_marco (base + of_nat (n - 1) * PAGE) = Some (j + (n - 1))"
    using assms(2) all by (intro indice_marco_run [OF j, of n]) auto
  then have "j + (n - 1) < MARCOS"
    by (simp only: indice_marco_Some_iff)
  then have "j + n \<le> MARCOS"
    using assms(2) by linarith
  then show ?thesis
    using that j by blast
qed

lemma en_paginas_span:
  assumes "indice_marco base = Some j" and "j + n \<le> MARCOS"
  shows "en_paginas base [0..<n] i \<longleftrightarrow> j \<le> i \<and> i < j + n"
proof
  assume "en_paginas base [0..<n] i"
  then obtain k where "k < n" "indice_marco (base + of_nat k * PAGE) = Some i"
    by (auto simp: en_paginas_def)
  then show "j \<le> i \<and> i < j + n"
    using indice_marco_span [OF assms, of k] by simp
next
  assume "j \<le> i \<and> i < j + n"
  then show "en_paginas base [0..<n] i"
    using indice_marco_span [OF assms, of "i - j"]
    by (auto simp: en_paginas_def intro!: bexI [of _ "i - j"])
qed

lemma prestar_tramo_ok: "titular_ok s \<Longrightarrow> titular_ok (snd (prestar_tramo base n a s))"
proof (cases rule: prestar_tramo_cases [of base n a s])
  case (si h t m)
  assume ok: "titular_ok s"
  have "0 < unat n"
    using si(3) by (simp add: unat_gt_0)
  then obtain j where j: "indice_marco base = Some j" "j + unat n \<le> MARCOS"
    using mira_paginas_span [OF si(6)] by blast
  have m: "unat m + cuenta vuela (tabla s) = cuenta vuela t"
    using presta_paginas_cuenta [OF si(7,1,2)] by simp
  have "unat (en_vuelo_vivos s + m) = unat (en_vuelo_vivos s) + unat m"
    using ok m cuenta_le [of vuela t]
    by (intro unat_add_small) (simp add: titular_ok_def cuentas_ok_def MARCOS_def)
  moreover have "cuenta neutro t = cuenta neutro (tabla s)"
    using presta_paginas_alto [OF si(7,2)] by (intro cuenta_bajo) blast
  moreover have "list_all prestamo_ok
      ((prestamos s)[h := \<lparr>pr_base = base, pr_paginas = n, pr_aparato = a\<rparr>])"
    using ok j si(1,2) by (intro list_all_update) (simp_all add: titular_ok_def prestamo_ok_def)
  ultimately show ?thesis
    using ok m si(8) by (simp add: titular_ok_def cuentas_ok_def)
qed (simp_all add: titular_ok_def cuentas_ok_def)

lemma devolver_tramo_ok: "titular_ok s \<Longrightarrow> titular_ok (snd (devolver_tramo base a s))"
proof (cases rule: devolver_tramo_cases [of base a s])
  case (si h t m)
  assume ok: "titular_ok s"
  then have a: "a \<noteq> 0"
    using si(1,2,4) by (auto simp: titular_ok_def list_all_length prestamo_ok_def)
  have m: "unat m + cuenta vuela t = cuenta vuela (tabla s)"
    using devuelve_paginas_cuenta [OF si(5) a] cuenta_le [of vuela "tabla s"] by simp
  have "cuenta neutro t = cuenta neutro (tabla s)"
    using devuelve_paginas_alto [OF si(5)] by (intro cuenta_bajo) blast
  moreover have "list_all prestamo_ok ((prestamos s)[h := libre_prestamo])"
    using ok by (intro list_all_update) (simp_all add: titular_ok_def prestamo_ok_def libre_prestamo_def)
  ultimately show ?thesis
    using ok m si(6) by (simp add: titular_ok_def cuentas_ok_def unat_saturating_sub)
qed simp

section \<open>Histories\<close>

datatype op_titular =
    OpMarcar u64 titular
  | OpEnVuelo u64 u8 u64
  | OpAterrizo u64 u8 u64
  | OpPrestar u64 u64 u8
  | OpDevolver u64 u8
  | OpCaducados u64 u64

fun paso_titular :: "op_titular \<Rightarrow> titular_st \<Rightarrow> titular_st" where
  "paso_titular (OpMarcar phys q) s = marcar phys q s"
| "paso_titular (OpEnVuelo phys a c) s = snd (en_vuelo phys a c s)"
| "paso_titular (OpAterrizo phys a c) s = snd (aterrizo phys a c s)"
| "paso_titular (OpPrestar base n a) s = snd (prestar_tramo base n a s)"
| "paso_titular (OpDevolver base a) s = snd (devolver_tramo base a s)"
| "paso_titular (OpCaducados ahora plazo) s = snd (caducados ahora plazo s)"

text \<open>The device an operation speaks for.\<close>

fun aparato_de :: "op_titular \<Rightarrow> u8 option" where
  "aparato_de (OpMarcar phys q) = None"
| "aparato_de (OpEnVuelo phys a c) = Some a"
| "aparato_de (OpAterrizo phys a c) = Some a"
| "aparato_de (OpPrestar base n a) = Some a"
| "aparato_de (OpDevolver base a) = Some a"
| "aparato_de (OpCaducados ahora plazo) = None"

definition historia :: "op_titular list \<Rightarrow> titular_st \<Rightarrow> titular_st" where
  "historia ops s = fold paso_titular ops s"

lemma historia_simps [simp]:
  "historia [] s = s"
  "historia (x # xs) s = historia xs (paso_titular x s)"
  by (simp_all add: historia_def)

lemma paso_titular_ok: "titular_ok s \<Longrightarrow> titular_ok (paso_titular x s)"
  by (cases x)
    (simp_all add: marcar_ok en_vuelo_ok aterrizo_ok prestar_tramo_ok devolver_tramo_ok,
     simp add: titular_ok_def cuentas_ok_def)

lemma historia_ok: "titular_ok s \<Longrightarrow> titular_ok (historia ops s)"
  by (induction ops arbitrary: s) (simp_all add: paso_titular_ok)

section \<open>A device never touches the frame of another\<close>

lemma mira_paginas_en:
  "mira_paginas base a t ks = None \<Longrightarrow> en_paginas base ks i \<Longrightarrow> alto (t i) = 0 \<or> alto (t i) = a"
  unfolding en_paginas_def by (auto dest: mira_paginas_None)

lemma prestar_tramo_alto:
  "alto (tabla (snd (prestar_tramo base n a s)) i) = alto (tabla s i) \<or>
   (alto (tabla s i) = 0 \<or> alto (tabla s i) = a) \<and>
   alto (tabla (snd (prestar_tramo base n a s)) i) = a"
proof (cases rule: prestar_tramo_cases [of base n a s])
  case (si h t m)
  then show ?thesis
    using presta_paginas_alto [OF si(7,2), of i] mira_paginas_en [OF si(6), of i] by auto
qed simp_all

lemma devolver_tramo_alto:
  "alto (tabla (snd (devolver_tramo base a s)) i) = alto (tabla s i) \<or> alto (tabla s i) = a"
proof (cases rule: devolver_tramo_cases [of base a s])
  case (si h t m)
  then show ?thesis
    using devuelve_paginas_alto [OF si(5), of i] by auto
qed simp

lemma paso_titular_ajeno:
  assumes "alto (tabla s i) = b" "b \<noteq> 0" "aparato_de x \<noteq> Some b"
  shows "alto (tabla (paso_titular x s) i) = b"
proof (cases x)
  case (OpEnVuelo phys a c)
  then show ?thesis
    using assms by (auto simp: en_vuelo_alto en_vuelo_ok_iff)
next
  case (OpAterrizo phys a c)
  then show ?thesis
    using assms by (auto simp: aterrizo_alto aterrizo_ok_iff)
next
  case (OpPrestar base n a)
  then show ?thesis
    using assms prestar_tramo_alto [of base n a s i] by auto
next
  case (OpDevolver base a)
  then show ?thesis
    using assms devolver_tramo_alto [of base a s i] by auto
qed (use assms in simp_all)

lemma historia_ajeno:
  "alto (tabla s i) = b \<Longrightarrow> b \<noteq> 0 \<Longrightarrow> \<forall>x \<in> set ops. aparato_de x \<noteq> Some b \<Longrightarrow>
     alto (tabla (historia ops s) i) = b"
  by (induction ops arbitrary: s) (simp_all add: paso_titular_ajeno)

section \<open>A loan holds until it is returned\<close>

definition cubre :: "prestamo \<Rightarrow> nat \<Rightarrow> bool" where
  "cubre p i \<longleftrightarrow>
     pr_paginas p \<noteq> 0 \<and>
     (\<exists>j. indice_marco (pr_base p) = Some j \<and> j \<le> i \<and> i < j + unat (pr_paginas p))"

lemma prestado_iff:
  assumes "titular_ok s" and i: "indice_marco phys = Some i"
  shows "prestado phys s \<longleftrightarrow> (\<exists>p \<in> set (prestamos s). cubre p i)"
proof -
  have "pr_paginas p \<noteq> 0 \<and> phys \<ge> pr_base p \<and> phys < pr_base p + pr_paginas p * PAGE \<longleftrightarrow> cubre p i"
    if "p \<in> set (prestamos s)" for p
  proof (cases "pr_paginas p = 0")
    case False
    moreover have "prestamo_ok p"
      using assms(1) that by (simp add: titular_ok_def list_all_iff)
    ultimately obtain j where j: "indice_marco (pr_base p) = Some j"
        "j + unat (pr_paginas p) \<le> MARCOS"
      by (auto simp: prestamo_ok_def)
    have "unat (pr_paginas p * PAGE) = unat (pr_paginas p) * 4096"
      using j(2) by (subst unat_mult_lem [THEN iffD1]) (simp_all add: MARCOS_def)
    then have "unat (pr_base p + pr_paginas p * PAGE) = (j + unat (pr_paginas p)) * 4096"
      using j by (subst unat_add_small) (simp_all add: indice_marco_Some_iff MARCOS_def)
    moreover have u: "unat phys = i * 4096" "unat (pr_base p) = j * 4096"
      using i j by (simp_all only: indice_marco_Some_iff)
    ultimately have "phys < pr_base p + pr_paginas p * PAGE \<longleftrightarrow> i < j + unat (pr_paginas p)"
      by (simp only: word_less_nat_alt mult_less_cancel2) simp
    moreover have "phys \<ge> pr_base p \<longleftrightarrow> j \<le> i"
      by (simp add: word_le_nat_alt u)
    ultimately show ?thesis
      using False j(1) by (simp add: cubre_def)
  qed (simp add: cubre_def)
  then show ?thesis
    by (auto simp: prestado_def list_ex_iff)
qed

lemma paso_titular_prestamo:
  assumes ok: "titular_ok s"
    and p: "p \<in> set (prestamos s)" "cubre p i" "alto (tabla s i) = pr_aparato p"
    and x: "\<And>base. x \<noteq> OpDevolver base (pr_aparato p)"
  shows "p \<in> set (prestamos (paso_titular x s)) \<and> alto (tabla (paso_titular x s) i) = pr_aparato p"
proof -
  have "pr_paginas p \<noteq> 0"
    using p(2) by (simp add: cubre_def)
  then have a: "pr_aparato p \<noteq> 0"
    using ok p(1) by (auto simp: titular_ok_def list_all_iff prestamo_ok_def)
  have stays: "p \<in> set ((prestamos s)[h := q])"
    if "h < length (prestamos s)" "prestamos s ! h \<noteq> p" for h q
  proof -
    obtain k where "k < length (prestamos s)" "prestamos s ! k = p"
      using p(1) by (auto simp: in_set_conv_nth)
    then show ?thesis
      using that by (auto simp: in_set_conv_nth nth_list_update intro!: exI [of _ k])
  qed
  show ?thesis
  proof (cases x)
    case (OpMarcar phys q)
    then show ?thesis
      using p by simp
  next
    case (OpEnVuelo phys b c)
    then show ?thesis
      using p a by (auto simp: en_vuelo_alto en_vuelo_ok_iff)
  next
    case (OpAterrizo phys b c)
    then show ?thesis
      using p a prestado_iff [OF ok] by (auto simp: aterrizo_alto aterrizo_ok_iff)
  next
    case (OpPrestar base n b)
    have "alto (tabla (paso_titular x s) i) = pr_aparato p"
      using OpPrestar prestar_tramo_alto [of base n b s i] p a by auto
    moreover have "p \<in> set (prestamos (paso_titular x s))"
    proof (cases rule: prestar_tramo_cases [of base n b s])
      case (si h t m)
      then have "prestamos s ! h \<noteq> p"
        using \<open>pr_paginas p \<noteq> 0\<close> by auto
      then show ?thesis
        using stays [OF si(4)] OpPrestar si(8) by simp
    qed (use p OpPrestar in simp_all)
    ultimately show ?thesis
      by simp
  next
    case (OpDevolver base b)
    then have b: "b \<noteq> pr_aparato p"
      using x by blast
    then have "alto (tabla (paso_titular x s) i) = pr_aparato p"
      using OpDevolver devolver_tramo_alto [of base b s i] p by auto
    moreover have "p \<in> set (prestamos (paso_titular x s))"
    proof (cases rule: devolver_tramo_cases [of base b s])
      case (si h t m)
      then have "prestamos s ! h \<noteq> p"
        using b by auto
      then show ?thesis
        using stays [OF si(1)] OpDevolver si(6) by simp
    qed (use p OpDevolver in simp_all)
    ultimately show ?thesis
      by simp
  next
    case (OpCaducados ahora plazo)
    then show ?thesis
      using p by simp
  qed
qed

lemma historia_prestamo:
  "titular_ok s \<Longrightarrow> p \<in> set (prestamos s) \<Longrightarrow> cubre p i \<Longrightarrow> alto (tabla s i) = pr_aparato p \<Longrightarrow>
     \<forall>base. OpDevolver base (pr_aparato p) \<notin> set ops \<Longrightarrow>
     p \<in> set (prestamos (historia ops s)) \<and> alto (tabla (historia ops s) i) = pr_aparato p"
proof (induction ops arbitrary: s)
  case (Cons x ops)
  then show ?case
    using paso_titular_prestamo [of s p i x] paso_titular_ok [of s x] by fastforce
qed simp

lemma prestar_tramo_presta:
  assumes "fst (prestar_tramo base n a s) = Inr ()"
  shows "\<exists>j. indice_marco base = Some j \<and> j + unat n \<le> MARCOS \<and> a \<noteq> 0 \<and> a \<le> 15 \<and> n \<noteq> 0 \<and>
     (\<forall>i. alto (tabla (snd (prestar_tramo base n a s)) i) =
        (if j \<le> i \<and> i < j + unat n then a else alto (tabla s i))) \<and>
     \<lparr>pr_base = base, pr_paginas = n, pr_aparato = a\<rparr> \<in> set (prestamos (snd (prestar_tramo base n a s)))"
proof (cases rule: prestar_tramo_cases [of base n a s])
  case (si h t m)
  have "0 < unat n"
    using si(3) by (simp add: unat_gt_0)
  then obtain j where j: "indice_marco base = Some j" "j + unat n \<le> MARCOS"
    using mira_paginas_span [OF si(6)] by blast
  then show ?thesis
    using si presta_paginas_alto [OF si(7,2)] en_paginas_span [OF j]
    by (intro exI [of _ j]) (simp add: set_update_memI)
qed (use assms in simp_all)

lemma prestar_tramo_error:
  "fst (prestar_tramo base n a s) = Inl e \<Longrightarrow>
     tabla (snd (prestar_tramo base n a s)) = tabla s \<and>
     prestamos (snd (prestar_tramo base n a s)) = prestamos s \<and>
     en_vuelo_vivos (snd (prestar_tramo base n a s)) = en_vuelo_vivos s"
  by (cases rule: prestar_tramo_cases [of base n a s]) simp_all

section \<open>The properties\<close>

text \<open>
  The counters tell the truth. After any history of marks, flights, landings, loans, returns
  and deadline checks, \<open>EN_VUELO_VIVOS\<close> is the number of frames some device has in flight and
  \<open>NEUTROS_VIVOS\<close> the number of frames owned by a device; neither counter ever wraps.
\<close>

theorem titular_cuentas:
  "unat (en_vuelo_vivos (historia ops titular_inicial))
     = card {i. i < MARCOS \<and> alto (tabla (historia ops titular_inicial) i) \<noteq> 0} \<and>
   unat (neutros_vivos (historia ops titular_inicial))
     = card {i. i < MARCOS \<and> bajo (tabla (historia ops titular_inicial) i) = como_byte Neutro}"
proof -
  have card: "cuenta P t = card {i. i < MARCOS \<and> P (t i)}" for P t
  proof -
    have "cuenta P t = card (set (filter (\<lambda>i. P (t i)) [0..<MARCOS]))"
      unfolding cuenta_def by (rule distinct_card [symmetric]) simp
    also have "set (filter (\<lambda>i. P (t i)) [0..<MARCOS]) = {i. i < MARCOS \<and> P (t i)}"
      by auto
    finally show ?thesis .
  qed
  show ?thesis
    using historia_ok [OF titular_inicial_ok, of ops]
    by (simp add: titular_ok_def cuentas_ok_def card vuela_def neutro_def)
qed

text \<open>
  No device takes, lands or returns what another one has. A frame in flight for device \<open>b\<close>
  stays in flight for \<open>b\<close> through any history in which \<open>b\<close> itself does nothing, whatever the
  others ask for and whoever changes the owner of the frame.
\<close>

theorem titular_ajenos:
  assumes "en_vuelo_de phys s = Some b" and "\<forall>x \<in> set ops. aparato_de x \<noteq> Some b"
  shows "en_vuelo_de phys (historia ops s) = Some b"
proof -
  obtain i where "indice_marco phys = Some i" "alto (tabla s i) = b" "b \<noteq> 0"
    using assms(1) by (auto simp: en_vuelo_de_def split: option.splits if_splits)
  then show ?thesis
    using historia_ajeno [OF _ _ assms(2), of s i] by (simp add: en_vuelo_de_def)
qed

theorem titular_ajenos_witness:
  "en_vuelo_de 0x5000 (historia
      [OpAterrizo 0x5000 1 9, OpEnVuelo 0x5000 1 9, OpPrestar 0x4000 2 3, OpMarcar 0x5000 Tabla]
      (snd (en_vuelo 0x5000 2 7 titular_inicial))) = Some 2"
  by (rule titular_ajenos)
    (simp_all add: en_vuelo_de_def en_vuelo_def indice_marco_def PAGE_def PHYSMAP_SIZE_def
      titular_inicial_def alto_def Let_def)

text \<open>
  C24: a loan holds until it is returned. When \<open>prestar_tramo\<close> says yes, in any state the system
  can reach, every page of the span is a frame of the mirror and stays with the device through
  any history in which that device returns nothing: a landing of a lent frame is refused, and
  no other device can take it.
\<close>

theorem titular_prestamo_firme:
  assumes "prestar_tramo base n a (historia antes titular_inicial) = (Inr (), s)"
    and "\<forall>b. OpDevolver b a \<notin> set ops"
  shows "\<exists>j. indice_marco base = Some j \<and> j + unat n \<le> MARCOS \<and>
    (\<forall>i. j \<le> i \<and> i < j + unat n \<longrightarrow> alto (tabla (historia ops s) i) = a)"
proof -
  let ?p = "\<lparr>pr_base = base, pr_paginas = n, pr_aparato = a\<rparr>"
  obtain j where j: "indice_marco base = Some j" "j + unat n \<le> MARCOS" "n \<noteq> 0"
      "\<And>i. alto (tabla s i) =
        (if j \<le> i \<and> i < j + unat n then a else alto (tabla (historia antes titular_inicial) i))"
      "?p \<in> set (prestamos s)"
    using prestar_tramo_presta [of base n a "historia antes titular_inicial"] assms(1) by auto
  have ok: "titular_ok s"
    using prestar_tramo_ok [OF historia_ok [OF titular_inicial_ok], of base n a antes] assms(1)
    by simp
  have "alto (tabla (historia ops s) i) = a" if "j \<le> i" "i < j + unat n" for i
    using historia_prestamo [OF ok j(5), of i ops] that j assms(2) by (simp add: cubre_def)
  then show ?thesis
    using j by blast
qed

theorem titular_prestamo_firme_witness:
  "\<exists>j. indice_marco 0x5000 = Some j \<and>
     (\<forall>i. j \<le> i \<and> i < j + 2 \<longrightarrow>
        alto (tabla (historia [OpAterrizo 0x5000 2 9, OpEnVuelo 0x6000 1 9]
          (snd (prestar_tramo 0x5000 2 2 (historia [] titular_inicial)))) i) = 2)"
proof -
  have "prestar_tramo 0x5000 2 2 (historia [] titular_inicial)
      = (Inr (), snd (prestar_tramo 0x5000 2 2 (historia [] titular_inicial)))"
    by (simp add: prestar_tramo_def titular_inicial_def libre_prestamo_def indice_marco_def
        PAGE_def PHYSMAP_SIZE_def alto_def upt_rec [of 0] upt_rec [of "Suc 0"])
  from titular_prestamo_firme [OF this,
      of "[OpAterrizo 0x5000 2 9, OpEnVuelo 0x6000 1 9]"]
  show ?thesis
    by auto
qed

definition vuelo_varado :: titular_st where
  "vuelo_varado =
    snd (devolver_tramo 0x5000 2 (snd (aterrizo 0x5000 2 101 (snd (prestar_tramo 0x5000 1 2
      (snd (en_vuelo 0x5000 2 100 titular_inicial)))))))"

lemma vuelo_varado_eq:
  "vuelo_varado = titular_inicial\<lparr>tabla := (\<lambda>_. 0)(5 := 0), en_vuelo_choques := 1,
     vuelos_de := (\<lambda>_. 0)(2 := 1), ultima_noticia := (\<lambda>_. 0)(2 := 100)\<rparr>"
proof -
  note ev = indice_marco_def PAGE_def PHYSMAP_SIZE_def Let_def titular_inicial_def alto_def
    libre_prestamo_def upt_rec [of 0]
  have 1: "snd (en_vuelo 0x5000 2 100 titular_inicial) =
      titular_inicial\<lparr>tabla := (\<lambda>_. 0)(5 := 0x20), en_vuelo_vivos := 1,
        vuelos_de := (\<lambda>_. 0)(2 := 1), ultima_noticia := (\<lambda>_. 0)(2 := 100)\<rparr>" (is "_ = ?s1")
    by (simp add: en_vuelo_def anoto_def ev)
  have 2: "snd (prestar_tramo 0x5000 1 2 ?s1) =
      ?s1\<lparr>prestamos := [\<lparr>pr_base = 0x5000, pr_paginas = 1, pr_aparato = 2\<rparr>,
        libre_prestamo, libre_prestamo, libre_prestamo]\<rparr>" (is "_ = ?s2")
    by (simp add: prestar_tramo_def ev)
  have 3: "snd (aterrizo 0x5000 2 101 ?s2) = ?s2\<lparr>en_vuelo_choques := 1\<rparr>" (is "_ = ?s3")
    by (simp add: aterrizo_def prestado_def choque_def ev)
  have 4: "snd (devolver_tramo 0x5000 2 ?s3) =
      titular_inicial\<lparr>tabla := (\<lambda>_. 0)(5 := 0), en_vuelo_choques := 1,
        vuelos_de := (\<lambda>_. 0)(2 := 1), ultima_noticia := (\<lambda>_. 0)(2 := 100)\<rparr>"
    by (simp add: devolver_tramo_def saturating_sub_def ev)
  show ?thesis
    unfolding vuelo_varado_def 1 2 3 4 by (rule refl)
qed

text \<open>
  A flight can be stranded. A frame that a device has in flight when it borrows a span over
  it can no longer land (it is lent), and returning the span clears it without taking it off
  \<open>VUELOS_DE\<close>: no frame is in flight any more, the device still has one flight open, and every
  later deadline check reports it as silent.
\<close>

theorem titular_vuelo_varado:
  "en_vuelo_vivos vuelo_varado = 0 \<and> en_vuelo_de 0x5000 vuelo_varado = None \<and>
   vuelos_de vuelo_varado 2 = 1 \<and> fst (caducados 1000 100 vuelo_varado) = 4"
  unfolding vuelo_varado_eq
  by (simp add: en_vuelo_de_def caducados_def titular_inicial_def indice_marco_def PAGE_def
      PHYSMAP_SIZE_def alto_def upt_rec)

end
