(* ===== verification/Mmio_Juicio.thy ===== *)
theory Mmio_Juicio
  imports Prelude
begin

text \<open>
  \<open>platform/shared/bmo-mmio-juicio/src/lib.rs\<close>: may this physical range be handed to a driver
  in ring 3? The range is judged against the firmware's memory map and the ranges the kernel
  keeps for itself.
\<close>

section \<open>Ranges and refusals\<close>

definition PAGINA_MMIO :: u64 where "PAGINA_MMIO = 4096"
definition UN_MEGA :: u64 where "UN_MEGA = 0x100000"
definition APIC_BASE :: u64 where "APIC_BASE = 0xFEC00000"
definition APIC_BYTES :: u64 where "APIC_BYTES = 0x1400000"

record tramo_mapa =
  tm_base :: u64
  tm_bytes :: u64
  es_ram :: bool

record reserva =
  rs_base :: u64
  rs_bytes :: u64
  rs_nombre :: string

datatype veto_mmio =
    Vacio
  | NoAlineado u64
  | LargoNoAlineado u64
  | SeSaleDelEspacio u64 u64
  | MasPequenoQueUnaPagina u64
  | DebajoDeUnMega u64
  | PisaRam u64 u64 u64
  | EsElApic u64
  | EsDeLaCasa u64 string

definition solapan :: "u64 \<Rightarrow> u64 \<Rightarrow> u64 \<Rightarrow> u64 \<Rightarrow> bool" where
  "solapan a ab b bb =
    (if ab = 0 \<or> bb = 0 then False
     else let (fin_a, of_a) = overflowing_add a ab;
              (fin_b, of_b) = overflowing_add b bb
          in if of_a \<or> of_b then True
             else a < fin_b \<and> b < fin_a)"

fun pisa_ram :: "u64 \<Rightarrow> u64 \<Rightarrow> tramo_mapa list \<Rightarrow> veto_mmio option" where
  "pisa_ram base bytes [] = None"
| "pisa_ram base bytes (t # ts) =
    (if es_ram t \<and> solapan base bytes (tm_base t) (tm_bytes t)
     then Some (PisaRam base (tm_base t) (tm_bytes t))
     else pisa_ram base bytes ts)"

fun es_de_la_casa :: "u64 \<Rightarrow> u64 \<Rightarrow> reserva list \<Rightarrow> veto_mmio option" where
  "es_de_la_casa base bytes [] = None"
| "es_de_la_casa base bytes (r # rs) =
    (if solapan base bytes (rs_base r) (rs_bytes r)
     then Some (EsDeLaCasa base (rs_nombre r))
     else es_de_la_casa base bytes rs)"

definition cedible :: "u64 \<Rightarrow> u64 \<Rightarrow> tramo_mapa list \<Rightarrow> reserva list \<Rightarrow> veto_mmio + unit" where
  "cedible base bytes mapa reservas =
    (if bytes = 0 then Inl Vacio
     else if base mod PAGINA_MMIO \<noteq> 0 then Inl (NoAlineado base)
     else if bytes < PAGINA_MMIO then Inl (MasPequenoQueUnaPagina bytes)
     else if bytes mod PAGINA_MMIO \<noteq> 0 then Inl (LargoNoAlineado bytes)
     else if checked_add base bytes = None then Inl (SeSaleDelEspacio base bytes)
     else if base < UN_MEGA then Inl (DebajoDeUnMega base)
     else if solapan base bytes APIC_BASE APIC_BYTES then Inl (EsElApic base)
     else case pisa_ram base bytes mapa of
            Some v \<Rightarrow> Inl v
          | None \<Rightarrow>
              (case es_de_la_casa base bytes reservas of
                 Some v \<Rightarrow> Inl v
               | None \<Rightarrow> Inr ()))"

text \<open>What the one who was refused is told, and the number printed beside it.\<close>

fun nombre_veto :: "veto_mmio \<Rightarrow> string" where
  "nombre_veto Vacio = ''cero bytes no es un rango''"
| "nombre_veto (NoAlineado base) = ''la base no empieza en una pagina''"
| "nombre_veto (LargoNoAlineado bytes) = ''el largo no es multiplo de pagina''"
| "nombre_veto (SeSaleDelEspacio base bytes) = ''base+largo se sale del espacio''"
| "nombre_veto (MasPequenoQueUnaPagina bytes) = ''mas pequeno que una pagina''"
| "nombre_veto (DebajoDeUnMega base) = ''el megabyte legacy no se cede''"
| "nombre_veto (PisaRam base tb tn) = ''PISA RAM: una ventana al kernel''"
| "nombre_veto (EsElApic base) = ''es el APIC: seria ceder las IRQ''"
| "nombre_veto (EsDeLaCasa base n) = ''se reparte por otra puerta''"

fun donde :: "veto_mmio \<Rightarrow> u64" where
  "donde Vacio = 0"
| "donde (NoAlineado base) = base"
| "donde (LargoNoAlineado bytes) = bytes"
| "donde (SeSaleDelEspacio base bytes) = base"
| "donde (MasPequenoQueUnaPagina bytes) = bytes"
| "donde (DebajoDeUnMega base) = base"
| "donde (PisaRam base tb tn) = base"
| "donde (EsElApic base) = base"
| "donde (EsDeLaCasa base n) = base"

section \<open>The ranges as sets of bytes\<close>

text \<open>
  The physical bytes of a range. A range whose end is past the last 64-bit address is taken to
  reach the end of the address space and to start anywhere, as the code does: it meets
  everything.
\<close>

definition bytes_de :: "u64 \<Rightarrow> u64 \<Rightarrow> nat set" where
  "bytes_de base bytes = {unat base ..< unat base + unat bytes}"

definition da_la_vuelta :: "u64 \<Rightarrow> u64 \<Rightarrow> bool" where
  "da_la_vuelta base bytes \<longleftrightarrow> 2 ^ 64 \<le> unat base + unat bytes"

lemma ranges_meet_iff:
  "{a ..< a + n} \<inter> {b ..< b + m} \<noteq> {} \<longleftrightarrow> 0 < n \<and> 0 < m \<and> a < b + m \<and> b < a + n"
  for a b n m :: nat
proof -
  have "{a ..< a + n} \<inter> {b ..< b + m} = {max a b ..< min (a + n) (b + m)}"
    by auto
  then show ?thesis
    by auto
qed

lemma solapan_iff:
  "solapan a ab b bb \<longleftrightarrow>
     ab \<noteq> 0 \<and> bb \<noteq> 0 \<and>
     (da_la_vuelta a ab \<or> da_la_vuelta b bb \<or> bytes_de a ab \<inter> bytes_de b bb \<noteq> {})"
proof (cases "ab = 0 \<or> bb = 0 \<or> da_la_vuelta a ab \<or> da_la_vuelta b bb")
  case True
  then show ?thesis
    by (auto simp: solapan_def overflowing_add_def da_la_vuelta_def)
next
  case False
  then have "unat (a + ab) = unat a + unat ab" "unat (b + bb) = unat b + unat bb"
    by (simp_all add: da_la_vuelta_def unat_add_small)
  moreover have "0 < unat ab" "0 < unat bb"
    using False by (simp_all add: unat_gt_0)
  ultimately show ?thesis
    using False
    by (simp add: solapan_def overflowing_add_def da_la_vuelta_def bytes_de_def ranges_meet_iff
        word_less_nat_alt conj_commute)
qed

lemma pisa_ram_None_iff:
  "pisa_ram base bytes mapa = None \<longleftrightarrow>
     (\<forall>t \<in> set mapa. es_ram t \<longrightarrow> \<not> solapan base bytes (tm_base t) (tm_bytes t))"
  by (induction mapa) auto

lemma es_de_la_casa_None_iff:
  "es_de_la_casa base bytes reservas = None \<longleftrightarrow>
     (\<forall>r \<in> set reservas. \<not> solapan base bytes (rs_base r) (rs_bytes r))"
  by (induction reservas) auto

lemma pisa_ram_Some:
  "pisa_ram base bytes mapa = Some v \<Longrightarrow>
     \<exists>t \<in> set mapa. es_ram t \<and> solapan base bytes (tm_base t) (tm_bytes t) \<and>
       v = PisaRam base (tm_base t) (tm_bytes t)"
  by (induction mapa) (auto split: if_splits)

lemma es_de_la_casa_Some:
  "es_de_la_casa base bytes reservas = Some v \<Longrightarrow>
     \<exists>r \<in> set reservas. solapan base bytes (rs_base r) (rs_bytes r) \<and>
       v = EsDeLaCasa base (rs_nombre r)"
  by (induction reservas) (auto split: if_splits)

section \<open>The judgement\<close>

text \<open>Whether no byte of a range may be touched by the driver that is given \<open>base\<close>, \<open>bytes\<close>.\<close>

definition ajeno :: "u64 \<Rightarrow> u64 \<Rightarrow> u64 \<Rightarrow> u64 \<Rightarrow> bool" where
  "ajeno base bytes b n \<longleftrightarrow>
     n = 0 \<or> \<not> da_la_vuelta b n \<and> bytes_de base bytes \<inter> bytes_de b n = {}"

lemma solapan_ajeno:
  "bytes \<noteq> 0 \<Longrightarrow> \<not> da_la_vuelta base bytes \<Longrightarrow>
     solapan base bytes b n \<longleftrightarrow> \<not> ajeno base bytes b n"
  by (auto simp: solapan_iff ajeno_def)

lemma word_mod_page_iff: "x mod PAGINA_MMIO = 0 \<longleftrightarrow> unat x mod 4096 = 0"
  by (simp add: PAGINA_MMIO_def word_unat_eq_iff unat_mod)

lemma less_page_iff: "x < PAGINA_MMIO \<longleftrightarrow> unat x < 4096"
  by (simp add: PAGINA_MMIO_def word_less_nat_alt)

lemma less_mega_iff: "x < UN_MEGA \<longleftrightarrow> unat x < 0x100000"
  by (simp add: UN_MEGA_def word_less_nat_alt)

lemma cedible_Inr:
  "cedible base bytes mapa reservas = Inr () \<longleftrightarrow>
     bytes \<noteq> 0 \<and> base mod PAGINA_MMIO = 0 \<and> \<not> bytes < PAGINA_MMIO \<and>
     bytes mod PAGINA_MMIO = 0 \<and> checked_add base bytes \<noteq> None \<and> \<not> base < UN_MEGA \<and>
     \<not> solapan base bytes APIC_BASE APIC_BYTES \<and>
     pisa_ram base bytes mapa = None \<and> es_de_la_casa base bytes reservas = None"
  by (cases "pisa_ram base bytes mapa"; cases "es_de_la_casa base bytes reservas")
    (simp_all add: cedible_def)

lemma cedible_iff:
  "cedible base bytes mapa reservas = Inr () \<longleftrightarrow>
     bytes \<noteq> 0 \<and> unat base mod 4096 = 0 \<and> unat bytes mod 4096 = 0 \<and>
     \<not> da_la_vuelta base bytes \<and> 0x100000 \<le> unat base \<and>
     ajeno base bytes APIC_BASE APIC_BYTES \<and>
     (\<forall>t \<in> set mapa. es_ram t \<longrightarrow> ajeno base bytes (tm_base t) (tm_bytes t)) \<and>
     (\<forall>r \<in> set reservas. ajeno base bytes (rs_base r) (rs_bytes r))"
proof -
  have small: "unat bytes mod 4096 = 0 \<Longrightarrow> bytes \<noteq> 0 \<Longrightarrow> \<not> bytes < PAGINA_MMIO"
    by (auto simp: PAGINA_MMIO_def word_less_nat_alt unat_gt_0 dest: dvd_imp_le)
  show ?thesis
  proof (cases "bytes = 0 \<or> da_la_vuelta base bytes")
    case True
    then show ?thesis
      by (auto simp: cedible_Inr checked_add_None_iff da_la_vuelta_def)
  next
    case False
    then have "checked_add base bytes \<noteq> None" "bytes \<noteq> 0"
      by (auto simp: checked_add_None_iff da_la_vuelta_def)
    moreover have "base < UN_MEGA \<longleftrightarrow> \<not> 0x100000 \<le> unat base"
      by (simp add: UN_MEGA_def word_less_nat_alt not_le)
    ultimately show ?thesis
      using small False
      by (auto simp: cedible_Inr word_mod_page_iff pisa_ram_None_iff es_de_la_casa_None_iff
          solapan_ajeno)
  qed
qed

text \<open>The reason given with a refusal is a true one.\<close>

fun motivo_cierto :: "u64 \<Rightarrow> u64 \<Rightarrow> tramo_mapa list \<Rightarrow> reserva list \<Rightarrow> veto_mmio \<Rightarrow> bool" where
  "motivo_cierto base bytes mapa reservas Vacio \<longleftrightarrow> bytes = 0"
| "motivo_cierto base bytes mapa reservas (NoAlineado b) \<longleftrightarrow> b = base \<and> unat base mod 4096 \<noteq> 0"
| "motivo_cierto base bytes mapa reservas (LargoNoAlineado n) \<longleftrightarrow>
     n = bytes \<and> unat bytes mod 4096 \<noteq> 0"
| "motivo_cierto base bytes mapa reservas (SeSaleDelEspacio b n) \<longleftrightarrow>
     b = base \<and> n = bytes \<and> da_la_vuelta base bytes"
| "motivo_cierto base bytes mapa reservas (MasPequenoQueUnaPagina n) \<longleftrightarrow>
     n = bytes \<and> unat bytes < 4096"
| "motivo_cierto base bytes mapa reservas (DebajoDeUnMega b) \<longleftrightarrow> b = base \<and> unat base < 0x100000"
| "motivo_cierto base bytes mapa reservas (PisaRam b tb tn) \<longleftrightarrow>
     b = base \<and> (\<exists>t \<in> set mapa. es_ram t \<and> tb = tm_base t \<and> tn = tm_bytes t) \<and>
     \<not> ajeno base bytes tb tn"
| "motivo_cierto base bytes mapa reservas (EsElApic b) \<longleftrightarrow>
     b = base \<and> \<not> ajeno base bytes APIC_BASE APIC_BYTES"
| "motivo_cierto base bytes mapa reservas (EsDeLaCasa b n) \<longleftrightarrow>
     b = base \<and> (\<exists>r \<in> set reservas. n = rs_nombre r \<and> \<not> ajeno base bytes (rs_base r) (rs_bytes r))"

lemma cedible_motivo:
  assumes "cedible base bytes mapa reservas = Inl v"
  shows "motivo_cierto base bytes mapa reservas v"
proof (cases "bytes = 0 \<or> checked_add base bytes = None")
  case True
  then show ?thesis
    using assms
    by (auto simp: cedible_def word_mod_page_iff less_page_iff
        checked_add_None_iff da_la_vuelta_def split: if_splits)
next
  case False
  then have "\<not> da_la_vuelta base bytes" "bytes \<noteq> 0"
    by (auto simp: checked_add_None_iff da_la_vuelta_def)
  then show ?thesis
    using assms False
    by (auto simp: cedible_def word_mod_page_iff less_page_iff less_mega_iff
        solapan_ajeno dest!: pisa_ram_Some es_de_la_casa_Some split: if_splits option.splits)
qed

section \<open>The properties\<close>

text \<open>
  C19: what may be ceded to a driver in ring 3. \<open>cedible\<close> says yes to a range exactly when it is
  made of whole pages, ends inside the 64-bit space, lies above the first megabyte, and shares
  no byte with the APIC, with RAM of the firmware's map or with a range the kernel keeps; a
  map entry or a reserve that runs past the last address counts as meeting it.
\<close>

theorem cedible_exacto:
  "cedible base bytes mapa reservas = Inr () \<longleftrightarrow>
     bytes \<noteq> 0 \<and> unat base mod 4096 = 0 \<and> unat bytes mod 4096 = 0 \<and>
     \<not> da_la_vuelta base bytes \<and> 0x100000 \<le> unat base \<and>
     ajeno base bytes APIC_BASE APIC_BYTES \<and>
     (\<forall>t. t \<in> set mapa \<and> es_ram t \<longrightarrow> ajeno base bytes (tm_base t) (tm_bytes t)) \<and>
     (\<forall>r. r \<in> set reservas \<longrightarrow> ajeno base bytes (rs_base r) (rs_bytes r))"
  unfolding cedible_iff by blast

theorem cedible_exacto_witness:
  "cedible 0xF0000000 0x4000
      [\<lparr>tm_base = 0x100000, tm_bytes = 0xBFF00000, es_ram = True\<rparr>]
      [\<lparr>rs_base = 0xE0000000, rs_bytes = 0x10000000, rs_nombre = ''framebuffer''\<rparr>] = Inr ()"
  unfolding cedible_exacto
  by (simp add: ajeno_def da_la_vuelta_def bytes_de_def APIC_BASE_def APIC_BYTES_def)

text \<open>
  A refusal of \<open>cedible\<close> tells the truth: the reason it carries holds of the range, and
  the range it blames is one of those given.
\<close>

theorem cedible_dice_la_verdad:
  assumes "cedible base bytes mapa reservas = Inl v"
  shows "motivo_cierto base bytes mapa reservas v"
  using assms by (rule cedible_motivo)

theorem cedible_dice_la_verdad_witness:
  "motivo_cierto 0x200000 0x1000 [\<lparr>tm_base = 0x100000, tm_bytes = 0xBFF00000, es_ram = True\<rparr>] []
     (PisaRam 0x200000 0x100000 0xBFF00000)"
  by (rule cedible_dice_la_verdad)
    (simp add: cedible_def PAGINA_MMIO_def UN_MEGA_def APIC_BASE_def APIC_BYTES_def solapan_def
      overflowing_add_def checked_add_def)

end
