(* ===== verification/Reparto.thy ===== *)
theory Reparto
  imports Prelude
begin

text \<open>
  The interface of whoever hands out something that only one may hold at a time: frames, slots,
  windows. Each step hands out a set (empty when it fails); a step may also take things back.
  The provider promises that what it hands out was free, that it is then no longer free, and
  that nothing becomes free except what a step takes back.
\<close>

text \<open>A run of steps, with what each one handed out.\<close>

fun corre :: "('op \<Rightarrow> 's \<Rightarrow> 'a set \<times> 's) \<Rightarrow> 'op list \<Rightarrow> 's \<Rightarrow> 'a set list \<times> 's" where
  "corre paso [] s = ([], s)"
| "corre paso (x # xs) s =
    (let (d, s1) = paso x s; (ds, s2) = corre paso xs s1 in (d # ds, s2))"

lemma corre_simps [simp]:
  "fst (corre paso (x # xs) s) = fst (paso x s) # fst (corre paso xs (snd (paso x s)))"
  "snd (corre paso (x # xs) s) = snd (corre paso xs (snd (paso x s)))"
  by (simp_all add: Let_def split: prod.split)

declare corre.simps(2) [simp del]

locale reparto =
  fixes inv :: "'s \<Rightarrow> bool"
    and libre :: "'s \<Rightarrow> 'a set"
    and paso :: "'op \<Rightarrow> 's \<Rightarrow> 'a set \<times> 's"
    and devuelve :: "'op \<Rightarrow> 'a set"
  assumes paso_inv: "inv s \<Longrightarrow> inv (snd (paso x s))"
    and da_libre: "inv s \<Longrightarrow> fst (paso x s) \<subseteq> libre s"
    and libre_paso: "inv s \<Longrightarrow> libre (snd (paso x s)) \<subseteq> (libre s - fst (paso x s)) \<union> devuelve x"
begin

lemma corre_inv: "inv s \<Longrightarrow> inv (snd (corre paso xs s))"
  by (induction xs arbitrary: s) (simp_all add: paso_inv)

lemma tomado_firme:
  "inv s \<Longrightarrow> a \<notin> libre s \<Longrightarrow> \<forall>x \<in> set xs. a \<notin> devuelve x \<Longrightarrow>
     a \<notin> libre (snd (corre paso xs s)) \<and> (\<forall>d \<in> set (fst (corre paso xs s)). a \<notin> d)"
proof (induction xs arbitrary: s)
  case (Cons x xs)
  then have "a \<notin> fst (paso x s)" "a \<notin> libre (snd (paso x s))"
    using da_libre [of s x] libre_paso [of s x] by auto
  then show ?case
    using Cons paso_inv [of s x] by simp
qed simp

text \<open>What was handed out is not handed out again before it is taken back.\<close>

lemma no_repite:
  assumes "inv s" "a \<in> fst (paso x s)" "a \<notin> devuelve x" "\<forall>y \<in> set ys. a \<notin> devuelve y"
  shows "\<forall>d \<in> set (fst (corre paso ys (snd (paso x s)))). a \<notin> d"
  using tomado_firme [of "snd (paso x s)" a ys] paso_inv [OF assms(1), of x]
    libre_paso [OF assms(1), of x] assms(2-4) by auto

end

end
