(* ===== verification/Phys.thy ===== *)
theory Phys
  imports Titular Fisica_Juicio Mmio_Juicio Reparto
begin

text \<open>
  \<open>kernel/src/ring0/mm/phys\<close>: the allocator of physical frames, a bitmap with one bit per 4 KiB
  frame (1 is taken) of the 16 GiB the mirror covers, with a counter of free frames, a search
  hint, the table of owners (\<open>Titular\<close>) and a ledger of the last frames returned twice.

  Every operation of the code runs under one spin lock, so operations are atomic. The lines
  \<open>cabina::fault\<close> and \<open>cabina::warn\<close> write to the kernel's log and are left out; the clock of the
  ledger is an argument.
\<close>

section \<open>State\<close>

definition FRAME_SLOTS :: nat where "FRAME_SLOTS = 65536"
definition MAX_TRAMOS :: nat where "MAX_TRAMOS = 64"
definition DOBLES_FICHAS :: nat where "DOBLES_FICHAS = 8"

record doble_free =
  df_phys :: u64
  df_tick :: u64

record phys_st =
  bitmap :: "nat \<Rightarrow> u64"
  total_frames :: u64
  free_frames :: u64
  hint :: nat
  tramos_ram :: "tramo_mapa list"
  dobles :: "nat \<Rightarrow> doble_free"
  dobles_n :: u64
  duenos :: titular_st

definition tramos :: "phys_st \<Rightarrow> tramo_mapa list" where
  "tramos s = tramos_ram s"

text \<open>\<open>bm[f / 64] & (1 << (f % 64)) == 0\<close>, and the two assignments to that bit.\<close>

definition marco_libre :: "(nat \<Rightarrow> u64) \<Rightarrow> nat \<Rightarrow> bool" where
  "marco_libre bm f \<longleftrightarrow> bm (f div 64) AND push_bit (f mod 64) 1 = 0"

definition toma_bit :: "nat \<Rightarrow> (nat \<Rightarrow> u64) \<Rightarrow> (nat \<Rightarrow> u64)" where
  "toma_bit f bm = bm(f div 64 := bm (f div 64) OR push_bit (f mod 64) 1)"

definition suelta_bit :: "nat \<Rightarrow> (nat \<Rightarrow> u64) \<Rightarrow> (nat \<Rightarrow> u64)" where
  "suelta_bit f bm = bm(f div 64 := bm (f div 64) AND NOT (push_bit (f mod 64) 1))"

section \<open>Start-up\<close>

record memory_entry =
  me_base :: u64
  me_size :: u64
  me_kind :: u32

record boot_context =
  memory_map_count :: u32
  memory_map :: "memory_entry list"
  fb_addr :: u64
  fb_stride :: u32
  fb_height :: u32
  stage_base :: "u64 list"
  stage_size :: "u64 list"
  ring3_payload_phys :: u64
  ring3_payload_size :: u64
  ring3_workspace_phys :: u64
  ring3_workspace_size :: u64

definition CAIDA_BASE :: u64 where "CAIDA_BASE = 0x04000000"
definition CAIDA_BYTES :: u64 where "CAIDA_BYTES = 256 * 1024"

text \<open>The frames \<open>a / PAGE\<close> that \<open>while a < end { ..; a += PAGE }\<close> walks, for \<open>a\<close> and \<open>end\<close> on a page.\<close>

definition marcos_entre :: "u64 \<Rightarrow> u64 \<Rightarrow> nat list" where
  "marcos_entre a fin = [unat (a div PAGE) ..< unat (fin div PAGE)]"

fun reserva_marcos :: "nat list \<Rightarrow> phys_st \<Rightarrow> phys_st" where
  "reserva_marcos [] s = s"
| "reserva_marcos (f # fs) s =
    (if marco_libre (bitmap s) f
     then reserva_marcos fs (s\<lparr>bitmap := toma_bit f (bitmap s), free_frames := free_frames s - 1\<rparr>)
     else reserva_marcos fs s)"

definition reserve_range :: "u64 \<Rightarrow> u64 \<Rightarrow> phys_st \<Rightarrow> phys_st" where
  "reserve_range base tam s =
    (if tam = 0 \<or> base \<ge> PHYSMAP_SIZE then s
     else
       let a = base AND NOT (PAGE - 1);
           fin = min ((base + tam + PAGE - 1) AND NOT (PAGE - 1)) PHYSMAP_SIZE
       in reserva_marcos (marcos_entre a fin) s)"

fun libera_marcos :: "nat list \<Rightarrow> phys_st \<Rightarrow> phys_st" where
  "libera_marcos [] s = s"
| "libera_marcos (f # fs) s =
    (if \<not> marco_libre (bitmap s) f
     then libera_marcos fs (s\<lparr>bitmap := suelta_bit f (bitmap s),
            total_frames := total_frames s + 1, free_frames := free_frames s + 1\<rparr>)
     else libera_marcos fs s)"

definition entrada_ram :: "memory_entry \<Rightarrow> phys_st \<Rightarrow> phys_st" where
  "entrada_ram e s =
    (if me_kind e \<noteq> 1 \<or> me_size e = 0 then s
     else
       let s1 = (if length (tramos_ram s) < MAX_TRAMOS
                 then s\<lparr>tramos_ram := tramos_ram s @
                        [\<lparr>tm_base = me_base e, tm_bytes = me_size e, es_ram = True\<rparr>]\<rparr>
                 else s);
           base = (me_base e + PAGE - 1) AND NOT (PAGE - 1);
           fin = (me_base e + me_size e) AND NOT (PAGE - 1)
       in if base \<ge> PHYSMAP_SIZE then s1
          else libera_marcos (marcos_entre base (min fin PHYSMAP_SIZE)) s1)"

definition reserva_etapas :: "(u64 \<times> u64) list \<Rightarrow> phys_st \<Rightarrow> phys_st" where
  "reserva_etapas etapas s =
     fold (\<lambda>(b, n) s. if b \<noteq> 0 \<and> n \<noteq> 0 then reserve_range b n s else s) etapas s"

text \<open>
  \<open>init\<close>: every frame is taken, the usable entries of the firmware's map are freed, and then the
  kernel's own ranges are taken back. The address of the linker's symbol \<open>__bss_end\<close>, the
  address of the boot context and its size are arguments. A count past the end of the array of
  entries is the only panic.
\<close>

definition init_phys ::
  "u64 \<Rightarrow> u64 \<Rightarrow> u64 \<Rightarrow> boot_context \<Rightarrow> phys_st \<Rightarrow> phys_st option" where
  "init_phys bss_end ctx_addr ctx_bytes ctx s =
    (if unat (memory_map_count ctx) > length (memory_map ctx) then None
     else
       let s0 = s\<lparr>bitmap := (\<lambda>_. - 1), total_frames := 0, free_frames := 0, hint := 0,
                  tramos_ram := []\<rparr>;
           s1 = fold entrada_ram (take (unat (memory_map_count ctx)) (memory_map ctx)) s0;
           s2 = reserve_range 0 0x100000 s1;
           kernel_end = (bss_end + PAGE - 1) AND NOT (PAGE - 1);
           s3 = reserve_range 0x400000 (kernel_end - 0x400000) s2;
           s4 = reserva_etapas (zip (stage_base ctx) (stage_size ctx)) s3;
           s5 = reserve_range ctx_addr ctx_bytes s4;
           fb_start = fb_addr ctx AND NOT (PAGE - 1);
           fb_tail = ucast (fb_stride ctx) * ucast (fb_height ctx) * 4 + (fb_addr ctx - fb_start);
           s6 = (if fb_addr ctx \<noteq> 0 then reserve_range fb_start fb_tail s5 else s5);
           s7 = reserve_range 0xFEC00000 0x1400000 s6;
           s8 = reserve_range CAIDA_BASE CAIDA_BYTES s7;
           s9 = (if ring3_payload_phys ctx \<noteq> 0
                 then reserve_range (ring3_payload_phys ctx) (ring3_payload_size ctx) s8 else s8);
           s10 = (if ring3_workspace_phys ctx \<noteq> 0
                  then reserve_range (ring3_workspace_phys ctx) (ring3_workspace_size ctx) s9 else s9)
       in Some s10)"

section \<open>Allocation\<close>

definition marcar_entregado :: "nat \<Rightarrow> phys_st \<Rightarrow> phys_st" where
  "marcar_entregado f s = s\<lparr>duenos := marcar (of_nat f * PAGE) Anonimo (duenos s)\<rparr>"

text \<open>\<open>u64::count_zeros\<close> and \<open>(!w).trailing_zeros()\<close>\<close>

definition count_zeros :: "u64 \<Rightarrow> nat" where
  "count_zeros w = length (filter (\<lambda>n. \<not> bit w n) [0..<64])"

definition primer_cero :: "u64 \<Rightarrow> nat" where
  "primer_cero w = length (takeWhile (bit w) [0..<64])"

definition contar_de_nuevo :: "phys_st \<Rightarrow> u64" where
  "contar_de_nuevo s = of_nat (sum_list (map (\<lambda>i. count_zeros (bitmap s i)) [0..<FRAME_SLOTS]))"

text \<open>The bounded search: \<open>n\<close> words are left, the next one is \<open>i\<close>.\<close>

fun busca_palabra :: "(nat \<Rightarrow> u64) \<Rightarrow> nat \<Rightarrow> nat \<Rightarrow> nat option" where
  "busca_palabra bm 0 i = None"
| "busca_palabra bm (Suc n) i =
    (if bm i \<noteq> - 1 then Some i else busca_palabra bm n ((i + 1) mod FRAME_SLOTS))"

definition alloc_frame :: "phys_st \<Rightarrow> u64 option \<times> phys_st" where
  "alloc_frame s =
    (if free_frames s = 0 then (None, s)
     else case busca_palabra (bitmap s) FRAME_SLOTS (hint s mod FRAME_SLOTS) of
       Some i \<Rightarrow>
         let w = bitmap s i; b = primer_cero w; f = i * 64 + b;
             s1 = s\<lparr>bitmap := (bitmap s)(i := w OR push_bit b 1), free_frames := free_frames s - 1,
                    hint := i\<rparr>
         in (Some (of_nat f * PAGE), marcar_entregado f s1)
     | None \<Rightarrow> (None, s\<lparr>free_frames := contar_de_nuevo s\<rparr>))"

function busca_tramo :: "(nat \<Rightarrow> u64) \<Rightarrow> u64 \<Rightarrow> nat \<Rightarrow> u64 \<Rightarrow> nat \<Rightarrow> nat option" where
  "busca_tramo bm count frame run start =
    (if frame \<ge> FRAME_SLOTS * 64 then None
     else if run = 0 \<and> frame mod 64 = 0 \<and> bm (frame div 64) = - 1
       then busca_tramo bm count (frame + 64) run start
     else if marco_libre bm frame then
       let start' = (if run = 0 then frame else start) in
       if run + 1 = count then Some start' else busca_tramo bm count (frame + 1) (run + 1) start'
     else busca_tramo bm count (frame + 1) 0 start)"
  by auto
termination
  by (relation "measure (\<lambda>(bm, count, frame, run, start). FRAME_SLOTS * 64 - frame)") auto

declare busca_tramo.simps [simp del]

definition alloc_frames_contig :: "u64 \<Rightarrow> phys_st \<Rightarrow> u64 option \<times> phys_st" where
  "alloc_frames_contig count s =
    (if count = 0 \<or> free_frames s < count then (None, s)
     else case busca_tramo (bitmap s) count 0 0 0 of
       None \<Rightarrow> (None, s)
     | Some start \<Rightarrow>
         let fs = [start ..< start + unat count];
             s1 = s\<lparr>bitmap := fold toma_bit fs (bitmap s), free_frames := free_frames s - count,
                    hint := start div 64\<rparr>
         in (Some (of_nat start * PAGE), fold marcar_entregado fs s1))"

section \<open>Return\<close>

definition anotar_doble :: "u64 \<Rightarrow> u64 \<Rightarrow> phys_st \<Rightarrow> phys_st" where
  "anotar_doble tick phys s =
    s\<lparr>dobles := (dobles s)(unat (dobles_n s mod of_nat DOBLES_FICHAS) :=
        \<lparr>df_phys = phys, df_tick = tick\<rparr>),
      dobles_n := dobles_n s + 1\<rparr>"

definition se_devolvio_dos_veces :: "u64 \<Rightarrow> phys_st \<Rightarrow> u64 option" where
  "se_devolvio_dos_veces phys s =
    (let base = phys AND NOT (PAGE - 1) in
     map_option df_tick
       (find (\<lambda>d. df_tick d \<noteq> 0 \<and> df_phys d = base) (map (dobles s) [0..<DOBLES_FICHAS])))"

definition free_frame :: "u64 \<Rightarrow> u64 \<Rightarrow> phys_st \<Rightarrow> phys_st" where
  "free_frame tick phys s =
    (if phys mod PAGE \<noteq> 0 \<or> phys \<ge> PHYSMAP_SIZE then s
     else let f = unat (phys div PAGE) in
       if \<not> marco_libre (bitmap s) f
       then s\<lparr>bitmap := suelta_bit f (bitmap s), free_frames := free_frames s + 1,
              duenos := marcar phys Nadie (duenos s)\<rparr>
       else anotar_doble tick phys s)"

definition alloc_frame_de :: "titular \<Rightarrow> phys_st \<Rightarrow> u64 option \<times> phys_st" where
  "alloc_frame_de quien s =
    (case alloc_frame s of
       (None, s1) \<Rightarrow> (None, s1)
     | (Some f, s1) \<Rightarrow> (Some f, s1\<lparr>duenos := marcar f quien (duenos s1)\<rparr>))"

definition alloc_frames_contig_de :: "u64 \<Rightarrow> titular \<Rightarrow> phys_st \<Rightarrow> u64 option \<times> phys_st" where
  "alloc_frames_contig_de count quien s =
    (case alloc_frames_contig count s of
       (None, s1) \<Rightarrow> (None, s1)
     | (Some base, s1) \<Rightarrow>
         (Some base, s1\<lparr>duenos :=
            fold (\<lambda>i. marcar (base + of_nat i * PAGE) quien) [0..<unat count] (duenos s1)\<rparr>))"

definition free_frame_de :: "u64 \<Rightarrow> u64 \<Rightarrow> titular \<Rightarrow> phys_st \<Rightarrow> bool \<times> phys_st" where
  "free_frame_de tick phys quien s =
    (case puede_soltar phys quien (duenos s) of
       NoEsTuyo tiene suelta \<Rightarrow> (False, s)
     | _ \<Rightarrow> (True, free_frame tick phys s))"

definition esta_libre :: "u64 \<Rightarrow> phys_st \<Rightarrow> bool option" where
  "esta_libre phys s =
    (if phys \<ge> PHYSMAP_SIZE then None else Some (marco_libre (bitmap s) (unat (phys div PAGE))))"

definition stats :: "phys_st \<Rightarrow> u64 \<times> u64" where
  "stats s = (total_frames s, free_frames s)"

text \<open>
  \<open>amarilla.rs\<close>: a frame of the memory is zeroed only where the mirror has one. Memory is a map
  from physical addresses to bytes.
\<close>

definition zero_frame :: "u64 \<Rightarrow> (nat \<Rightarrow> u8) \<Rightarrow> (nat \<Rightarrow> u8)" where
  "zero_frame phys mem =
    (if phys mod PAGE \<noteq> 0 \<or> \<not> se_puede (se_puede_caminar phys PHYSMAP_SIZE) then mem
     else (\<lambda>a. if unat phys \<le> a \<and> a < unat phys + 4096 then 0 else mem a))"

section \<open>The bitmap as a set of free frames\<close>

lemma marco_libre_bit: "marco_libre bm f \<longleftrightarrow> \<not> bit (bm (f div 64)) (f mod 64)"
  by (simp add: marco_libre_def bit_iff_and_push_bit_not_eq_0)

lemma same_frame_iff: "f = g \<longleftrightarrow> f div 64 = g div 64 \<and> f mod 64 = g mod 64" for f g :: nat
  by (metis div_mult_mod_eq)

lemma marco_libre_toma [simp]:
  "marco_libre (toma_bit f bm) g \<longleftrightarrow> g \<noteq> f \<and> marco_libre bm g"
  by (auto simp: marco_libre_bit toma_bit_def bit_simps same_frame_iff [of g f])

lemma marco_libre_suelta [simp]:
  "marco_libre (suelta_bit f bm) g \<longleftrightarrow> g = f \<or> marco_libre bm g"
  by (auto simp: marco_libre_bit suelta_bit_def bit_simps same_frame_iff [of g f])

definition libres :: "(nat \<Rightarrow> u64) \<Rightarrow> nat set" where
  "libres bm = {f. f < MARCOS \<and> marco_libre bm f}"

lemma finite_libres [simp]: "finite (libres bm)"
  by (simp add: libres_def)

lemma libres_toma: "libres (toma_bit f bm) = libres bm - {f}"
  by (auto simp: libres_def)

lemma libres_suelta: "f < MARCOS \<Longrightarrow> libres (suelta_bit f bm) = insert f (libres bm)"
  by (auto simp: libres_def)

lemma libres_fold_toma: "libres (fold toma_bit fs bm) = libres bm - set fs"
  by (induction fs arbitrary: bm) (auto simp: libres_toma)

lemma card_libres_le: "card (libres bm) \<le> MARCOS"
  using card_mono [of "{..<MARCOS}" "libres bm"] by (auto simp: libres_def)

definition phys_ok :: "phys_st \<Rightarrow> bool" where
  "phys_ok s \<longleftrightarrow> unat (free_frames s) = card (libres (bitmap s)) \<and> titular_ok (duenos s)"

lemma FRAME_SLOTS_64: "FRAME_SLOTS * 64 = MARCOS"
  by (simp add: FRAME_SLOTS_def MARCOS_def)

lemma marcar_entregado_simps [simp]:
  "bitmap (marcar_entregado f s) = bitmap s"
  "free_frames (marcar_entregado f s) = free_frames s"
  "bitmap (fold marcar_entregado fs s') = bitmap s'"
  "free_frames (fold marcar_entregado fs s') = free_frames s'"
proof -
  show "bitmap (marcar_entregado f s) = bitmap s" "free_frames (marcar_entregado f s) = free_frames s"
    by (simp_all add: marcar_entregado_def)
  show "bitmap (fold marcar_entregado fs s') = bitmap s'"
    by (induction fs arbitrary: s') (simp_all add: marcar_entregado_def)
  show "free_frames (fold marcar_entregado fs s') = free_frames s'"
    by (induction fs arbitrary: s') (simp_all add: marcar_entregado_def)
qed

lemma duenos_entregado: "titular_ok (duenos s) \<Longrightarrow> titular_ok (duenos (fold marcar_entregado fs s))"
  by (induction fs arbitrary: s) (simp_all add: marcar_entregado_def marcar_ok)

section \<open>One frame\<close>

lemma primer_cero:
  assumes "w \<noteq> - 1"
  shows "primer_cero w < 64 \<and> \<not> bit w (primer_cero w)"
proof -
  obtain n where "n < 64" "\<not> bit w n"
    using assms bit_word_eqI [of w "- 1"] by auto
  then have "length (takeWhile (bit w) [0..<64]) < length [0..<64]"
    using length_takeWhile_le [of "bit w" "[0..<64]"] takeWhile_eq_all_conv [of "bit w" "[0..<64]"]
    by (metis atLeastLessThan_iff le_neq_implies_less set_upt takeWhile_eq_take take_all_iff
        less_eq_nat.simps(1) order_refl)
  moreover from this have "\<not> bit w ([0..<64] ! length (takeWhile (bit w) [0..<64]))"
    by (rule nth_length_takeWhile)
  ultimately show ?thesis
    by (simp add: primer_cero_def)
qed

lemma busca_palabra_Some:
  "busca_palabra bm n i = Some j \<Longrightarrow> i < FRAME_SLOTS \<Longrightarrow> j < FRAME_SLOTS \<and> bm j \<noteq> - 1"
  by (induction n arbitrary: i) (auto simp: FRAME_SLOTS_def split: if_splits)

lemma busca_palabra_None:
  "busca_palabra bm n i = None \<Longrightarrow> i < FRAME_SLOTS \<Longrightarrow> k < n \<Longrightarrow>
     bm ((i + k) mod FRAME_SLOTS) = - 1"
proof (induction n arbitrary: i k)
  case (Suc n)
  then have here: "bm i = - 1" and rest: "busca_palabra bm n ((i + 1) mod FRAME_SLOTS) = None"
    by (auto split: if_splits)
  show ?case
  proof (cases k)
    case 0
    then show ?thesis
      using here Suc.prems(2) by simp
  next
    case (Suc k')
    then have "bm (((i + 1) mod FRAME_SLOTS + k') mod FRAME_SLOTS) = - 1"
      using Suc.prems Suc.IH [OF rest, of k'] by (simp add: FRAME_SLOTS_def)
    then show ?thesis
      using Suc by (simp add: mod_simps)
  qed
qed simp

lemma busca_palabra_llena:
  assumes "busca_palabra bm FRAME_SLOTS i = None" and "i < FRAME_SLOTS"
  shows "libres bm = {}"
proof -
  have "bm j = - 1" if "j < FRAME_SLOTS" for j
  proof -
    define k where "k = (if i \<le> j then j - i else FRAME_SLOTS - i + j)"
    have "k < FRAME_SLOTS" "(i + k) mod FRAME_SLOTS = j"
      using that assms(2) by (auto simp: k_def)
    then show ?thesis
      using busca_palabra_None [OF assms, of k] by simp
  qed
  then show ?thesis
    by (auto simp: libres_def marco_libre_bit FRAME_SLOTS_64 [symmetric] less_mult_imp_div_less)
qed

lemma alloc_frame_None:
  assumes "phys_ok s" "fst (alloc_frame s) = None"
  shows "libres (bitmap s) = {} \<and> snd (alloc_frame s) = s"
proof (cases "free_frames s = 0")
  case True
  then show ?thesis
    using assms(1) by (simp add: alloc_frame_def phys_ok_def)
next
  case False
  have "busca_palabra (bitmap s) FRAME_SLOTS (hint s mod FRAME_SLOTS) = None"
    using assms(2) False by (simp add: alloc_frame_def Let_def split: option.splits)
  then have "libres (bitmap s) = {}"
    by (rule busca_palabra_llena) (simp add: FRAME_SLOTS_def)
  then show ?thesis
    using assms(1) False by (simp add: phys_ok_def unat_eq_0)
qed

lemma alloc_frame_Some:
  assumes "phys_ok s" "fst (alloc_frame s) = Some a"
  obtains f where "f \<in> libres (bitmap s)" "a = of_nat f * PAGE"
    "libres (bitmap (snd (alloc_frame s))) = libres (bitmap s) - {f}"
    "free_frames (snd (alloc_frame s)) = free_frames s - 1" "phys_ok (snd (alloc_frame s))"
proof -
  have nz: "free_frames s \<noteq> 0"
    using assms(2) by (auto simp: alloc_frame_def)
  then obtain i where b: "busca_palabra (bitmap s) FRAME_SLOTS (hint s mod FRAME_SLOTS) = Some i"
    using assms(2) by (auto simp: alloc_frame_def split: option.splits)
  have i: "i < FRAME_SLOTS" "bitmap s i \<noteq> - 1"
    using busca_palabra_Some [OF b] by (simp_all add: FRAME_SLOTS_def)
  define f where "f = i * 64 + primer_cero (bitmap s i)"
  have pc: "primer_cero (bitmap s i) < 64" "\<not> bit (bitmap s i) (primer_cero (bitmap s i))"
    using primer_cero [OF i(2)] by simp_all
  then have dm: "f div 64 = i" "f mod 64 = primer_cero (bitmap s i)"
    by (simp_all add: f_def)
  have "f < MARCOS"
    using i pc(1) by (simp add: f_def FRAME_SLOTS_def MARCOS_def)
  then have f: "f \<in> libres (bitmap s)"
    using pc by (simp add: libres_def marco_libre_bit dm)
  let ?s1 = "s\<lparr>bitmap := toma_bit f (bitmap s), free_frames := free_frames s - 1, hint := i\<rparr>"
  have r: "alloc_frame s = (Some (of_nat f * PAGE), marcar_entregado f ?s1)"
    using nz b by (simp add: alloc_frame_def Let_def toma_bit_def dm) (simp add: f_def)
  have "unat (free_frames s - 1) = card (libres (bitmap s) - {f})"
    using assms(1) f nz by (simp add: phys_ok_def unat_minus_one_pos)
  then have "phys_ok (snd (alloc_frame s))"
    using assms(1) duenos_entregado [of ?s1 "[f]"] by (simp add: phys_ok_def r libres_toma)
  then show ?thesis
    using that [of f] f r assms(2) by (simp add: libres_toma)
qed

text \<open>The counter cannot drift: a step that takes or returns one free frame moves it by one.\<close>

lemma card_libres_toma:
  "f \<in> libres bm \<Longrightarrow> card (libres (toma_bit f bm)) + 1 = card (libres bm)"
  unfolding libres_toma using card_Suc_Diff1 [OF finite_libres, of f bm] by simp

lemma card_libres_suelta:
  "f < MARCOS \<Longrightarrow> \<not> marco_libre bm f \<Longrightarrow> card (libres (suelta_bit f bm)) = card (libres bm) + 1"
  by (simp add: libres_suelta) (simp add: libres_def)

lemma indice_marco_frame:
  "phys mod PAGE \<noteq> 0 \<or> phys \<ge> PHYSMAP_SIZE \<longleftrightarrow> indice_marco phys = None"
  "indice_marco phys = Some f \<Longrightarrow> unat (phys div PAGE) = f"
  by (auto simp: indice_marco_def split: if_splits)

lemma free_frame_cases:
  obtains (fuera) "indice_marco phys = None" "free_frame tick phys s = s"
    | (suelta) f where "indice_marco phys = Some f" "\<not> marco_libre (bitmap s) f"
        "free_frame tick phys s = s\<lparr>bitmap := suelta_bit f (bitmap s),
           free_frames := free_frames s + 1, duenos := marcar phys Nadie (duenos s)\<rparr>"
    | (doble) f where "indice_marco phys = Some f" "marco_libre (bitmap s) f"
        "free_frame tick phys s = anotar_doble tick phys s"
proof (cases "indice_marco phys")
  case None
  then show ?thesis
    using fuera indice_marco_frame(1) by (simp add: free_frame_def)
next
  case (Some f)
  then have "\<not> (phys mod PAGE \<noteq> 0 \<or> phys \<ge> PHYSMAP_SIZE)"
    unfolding indice_marco_frame(1) by simp
  then show ?thesis
    using suelta doble Some indice_marco_frame(2) [OF Some]
    by (cases "marco_libre (bitmap s) f") (simp_all add: free_frame_def)
qed

lemma free_frame_libres:
  "libres (bitmap (free_frame tick phys s)) =
     (case indice_marco phys of None \<Rightarrow> libres (bitmap s) | Some f \<Rightarrow> insert f (libres (bitmap s)))"
  by (cases rule: free_frame_cases [where phys = phys and s = s and tick = tick])
    (auto simp: libres_suelta anotar_doble_def libres_def dest: indice_marco_less)

lemma free_frame_ok: "phys_ok s \<Longrightarrow> phys_ok (free_frame tick phys s)"
proof (cases rule: free_frame_cases [where phys = phys and s = s and tick = tick])
  case (suelta f)
  assume ok: "phys_ok s"
  have "card (libres (suelta_bit f (bitmap s))) = card (libres (bitmap s)) + 1"
    using suelta by (intro card_libres_suelta) (simp_all add: indice_marco_Some_iff)
  then show ?thesis
    using ok suelta card_libres_le [of "bitmap s"]
    by (simp add: phys_ok_def unat_suc_small marcar_ok)
qed (simp_all add: phys_ok_def anotar_doble_def)

section \<open>A run of frames\<close>

definition tramo_libre :: "(nat \<Rightarrow> u64) \<Rightarrow> nat \<Rightarrow> nat \<Rightarrow> bool" where
  "tramo_libre bm start n \<longleftrightarrow> (\<forall>f. start \<le> f \<and> f < start + n \<longrightarrow> marco_libre bm f)"

text \<open>What the scan knows at \<open>frame\<close>: the free run that ends there, and that nothing before it fits.\<close>

definition scan_ok :: "(nat \<Rightarrow> u64) \<Rightarrow> nat \<Rightarrow> nat \<Rightarrow> nat \<Rightarrow> nat \<Rightarrow> bool" where
  "scan_ok bm n frame run start \<longleftrightarrow>
     run \<le> frame \<and> run < n \<and> (run \<noteq> 0 \<longrightarrow> start = frame - run) \<and>
     tramo_libre bm (frame - run) run \<and>
     (\<forall>s. s < frame - run \<longrightarrow> \<not> tramo_libre bm s n)"

lemma scan_ok_libre:
  assumes "scan_ok bm n frame run start" "marco_libre bm frame" "run + 1 < n"
  shows "scan_ok bm n (frame + 1) (run + 1) (if run = 0 then frame else start)"
  using assms unfolding scan_ok_def tramo_libre_def
  by (auto simp: less_Suc_eq)

lemma scan_ok_hallado:
  assumes "scan_ok bm n frame run start" "marco_libre bm frame" "run + 1 = n"
  shows "tramo_libre bm (if run = 0 then frame else start) n \<and>
    (if run = 0 then frame else start) + n = frame + 1 \<and>
    (\<forall>s. s < (if run = 0 then frame else start) \<longrightarrow> \<not> tramo_libre bm s n)"
  using assms unfolding scan_ok_def tramo_libre_def
  by (auto simp: less_Suc_eq)

lemma scan_ok_ocupado:
  assumes "scan_ok bm n frame run start" "\<not> marco_libre bm frame"
  shows "scan_ok bm n (frame + 1) 0 start'"
proof -
  have "\<not> tramo_libre bm s n" if "s < frame + 1" for s
  proof (cases "s < frame - run")
    case False
    then have "s \<le> frame" "frame < s + n"
      using that assms(1) by (auto simp: scan_ok_def)
    then show ?thesis
      using assms(2) by (auto simp: tramo_libre_def)
  qed (use assms(1) in \<open>simp add: scan_ok_def\<close>)
  then show ?thesis
    using assms(1) by (simp add: scan_ok_def tramo_libre_def)
qed

lemma scan_ok_palabra:
  assumes "scan_ok bm n frame 0 start" "frame mod 64 = 0" "bm (frame div 64) = - 1"
  shows "scan_ok bm n (frame + 64) 0 start"
proof -
  have "\<not> marco_libre bm f" if "frame \<le> f" "f < frame + 64" for f
  proof -
    have "f div 64 = frame div 64"
      using that assms(2) by (auto elim!: dvdE simp: mod_eq_0_iff_dvd intro: div_nat_eqI)
    then show ?thesis
      using assms(3) by (simp add: marco_libre_bit)
  qed
  then have "\<not> tramo_libre bm s n" if "frame \<le> s" "s < frame + 64" for s
    using that assms(1) by (auto simp: tramo_libre_def scan_ok_def intro!: exI [of _ s])
  moreover have "\<not> tramo_libre bm s n" if "s < frame" for s
    using that assms(1) by (simp add: scan_ok_def)
  ultimately have "\<not> tramo_libre bm s n" if "s < frame + 64" for s
    using that not_less by blast
  then show ?thesis
    using assms(1) by (simp add: scan_ok_def tramo_libre_def)
qed

definition hallado :: "(nat \<Rightarrow> u64) \<Rightarrow> nat \<Rightarrow> nat option \<Rightarrow> bool" where
  "hallado bm n r \<longleftrightarrow>
    (case r of
       Some x \<Rightarrow> tramo_libre bm x n \<and> x + n \<le> MARCOS \<and> (\<forall>s. s < x \<longrightarrow> \<not> tramo_libre bm s n)
     | None \<Rightarrow> \<forall>s. s + n \<le> MARCOS \<longrightarrow> \<not> tramo_libre bm s n)"

lemma busca_tramo_hallado:
  "scan_ok bm (unat count) frame (unat run) start \<Longrightarrow>
     hallado bm (unat count) (busca_tramo bm count frame run start)"
proof (induction bm count frame run start rule: busca_tramo.induct)
  case (1 bm count frame run start)
  let ?start = "if run = 0 then frame else start"
  have n: "unat run < unat count"
    using 1(4) by (simp add: scan_ok_def)
  have run: "unat (run + 1) = unat run + 1"
  proof -
    have "unat run + 1 < 18446744073709551616"
      using n unat_less_64 [of count] by linarith
    then show ?thesis
      by (simp add: unat_add_small [of run 1])
  qed
  have eq: "run + 1 = count \<longleftrightarrow> unat run + 1 = unat count" "run = 0 \<longleftrightarrow> unat run = 0"
    using run by (auto simp: word_unat_eq_iff)
  consider (fin) "frame \<ge> FRAME_SLOTS * 64"
    | (llena) "frame < FRAME_SLOTS * 64" "run = 0 \<and> frame mod 64 = 0 \<and> bm (frame div 64) = - 1"
    | (ya) "frame < FRAME_SLOTS * 64" "\<not> (run = 0 \<and> frame mod 64 = 0 \<and> bm (frame div 64) = - 1)"
        "marco_libre bm frame" "run + 1 = count"
    | (sigue) "frame < FRAME_SLOTS * 64" "\<not> (run = 0 \<and> frame mod 64 = 0 \<and> bm (frame div 64) = - 1)"
        "marco_libre bm frame" "run + 1 \<noteq> count"
    | (ocupado) "frame < FRAME_SLOTS * 64" "\<not> (run = 0 \<and> frame mod 64 = 0 \<and> bm (frame div 64) = - 1)"
        "\<not> marco_libre bm frame"
    by fastforce
  then show ?case
  proof cases
    case fin
    then have "busca_tramo bm count frame run start = None"
      by (subst busca_tramo.simps) simp
    moreover have "\<not> tramo_libre bm s (unat count)" if "s + unat count \<le> MARCOS" for s
      using 1(4) fin that unfolding scan_ok_def FRAME_SLOTS_64 by auto
    ultimately show ?thesis
      by (simp add: hallado_def)
  next
    case llena
    then show ?thesis
      using 1(1) 1(4) scan_ok_palabra [of bm "unat count" frame start]
      by (subst busca_tramo.simps) simp
  next
    case ya
    then have "busca_tramo bm count frame run start = Some ?start"
      by (subst busca_tramo.simps) (auto simp: Let_def)
    then show ?thesis
      using scan_ok_hallado [OF 1(4) ya(3)] ya eq by (simp add: hallado_def FRAME_SLOTS_64)
  next
    case sigue
    then have "scan_ok bm (unat count) (frame + 1) (unat (run + 1)) ?start"
      using scan_ok_libre [OF 1(4) sigue(3)] n run eq sigue(4) by simp
    then show ?thesis
      using 1(2) [OF _ sigue(2,3) refl sigue(4)] sigue
      by (subst busca_tramo.simps) (auto simp: Let_def)
  next
    case ocupado
    then show ?thesis
      using 1(3) [OF _ ocupado(2,3)] scan_ok_ocupado [OF 1(4) ocupado(3), of start] ocupado
      by (subst busca_tramo.simps) auto
  qed
qed

lemma busca_tramo_desde_cero:
  "count \<noteq> 0 \<Longrightarrow> hallado bm (unat count) (busca_tramo bm count 0 0 0)"
  by (rule busca_tramo_hallado) (simp add: scan_ok_def tramo_libre_def unat_gt_0)

lemma alloc_frames_contig_None:
  assumes "phys_ok s" "fst (alloc_frames_contig count s) = None" "count \<noteq> 0"
  shows "snd (alloc_frames_contig count s) = s \<and>
    (\<forall>x. x + unat count \<le> MARCOS \<longrightarrow> \<not> tramo_libre (bitmap s) x (unat count))"
proof (cases "free_frames s < count")
  case True
  have "\<not> tramo_libre (bitmap s) x (unat count)" if "x + unat count \<le> MARCOS" for x
  proof
    assume "tramo_libre (bitmap s) x (unat count)"
    then have "{x ..< x + unat count} \<subseteq> libres (bitmap s)"
      using that by (auto simp: tramo_libre_def libres_def)
    then have "card {x ..< x + unat count} \<le> card (libres (bitmap s))"
      by (rule card_mono [OF finite_libres])
    then show False
      using True assms(1) by (simp add: phys_ok_def word_less_nat_alt)
  qed
  then show ?thesis
    using True by (simp add: alloc_frames_contig_def)
next
  case False
  then have n: "busca_tramo (bitmap s) count 0 0 0 = None"
    using assms(2,3) by (auto simp: alloc_frames_contig_def Let_def split: option.splits)
  then show ?thesis
    using busca_tramo_desde_cero [OF assms(3), of "bitmap s"] False assms(3)
    by (simp add: hallado_def alloc_frames_contig_def)
qed

lemma alloc_frames_contig_Some:
  assumes "phys_ok s" "fst (alloc_frames_contig count s) = Some a"
  obtains x where "a = of_nat x * PAGE" "count \<noteq> 0" "x + unat count \<le> MARCOS"
    "{x ..< x + unat count} \<subseteq> libres (bitmap s)"
    "\<And>y. y < x \<Longrightarrow> \<not> tramo_libre (bitmap s) y (unat count)"
    "libres (bitmap (snd (alloc_frames_contig count s))) = libres (bitmap s) - {x ..< x + unat count}"
    "phys_ok (snd (alloc_frames_contig count s))"
proof -
  have c: "count \<noteq> 0" "\<not> free_frames s < count"
    using assms(2) by (auto simp: alloc_frames_contig_def)
  obtain x where b: "busca_tramo (bitmap s) count 0 0 0 = Some x" and a: "a = of_nat x * PAGE"
    using assms(2) c by (auto simp: alloc_frames_contig_def Let_def split: option.splits)
  let ?fs = "[x ..< x + unat count]"
  let ?s1 = "s\<lparr>bitmap := fold toma_bit ?fs (bitmap s), free_frames := free_frames s - count,
               hint := x div 64\<rparr>"
  have r: "snd (alloc_frames_contig count s) = fold marcar_entregado ?fs ?s1"
    using c b by (simp add: alloc_frames_contig_def Let_def)
  have h: "tramo_libre (bitmap s) x (unat count)" "x + unat count \<le> MARCOS"
      "\<And>y. y < x \<Longrightarrow> \<not> tramo_libre (bitmap s) y (unat count)"
    using busca_tramo_desde_cero [OF c(1), of "bitmap s"] b by (simp_all add: hallado_def)
  have sub: "{x ..< x + unat count} \<subseteq> libres (bitmap s)"
    using h by (auto simp: tramo_libre_def libres_def)
  have lib: "libres (bitmap (snd (alloc_frames_contig count s)))
      = libres (bitmap s) - {x ..< x + unat count}"
    by (simp add: r libres_fold_toma)
  have "unat (free_frames s - count) = card (libres (bitmap s)) - unat count"
    using assms(1) c(2) by (simp add: phys_ok_def unat_diff_small)
  also have "\<dots> = card (libres (bitmap s) - {x ..< x + unat count})"
    using sub by (simp add: card_Diff_subset)
  finally have "phys_ok (snd (alloc_frames_contig count s))"
    using assms(1) duenos_entregado [of ?s1 ?fs] by (simp add: phys_ok_def r libres_fold_toma)
  then show ?thesis
    using that [OF a c(1) h(2) sub h(3) lib] by blast
qed

section \<open>Counting again\<close>

text \<open>When the counter lies, \<open>contar_de_nuevo\<close> puts the truth back, whatever the bitmap is.\<close>

lemma count_zeros_card: "count_zeros w = card {b. b < 64 \<and> \<not> bit w b}"
proof -
  have "count_zeros w = card (set (filter (\<lambda>n. \<not> bit w n) [0..<64]))"
    unfolding count_zeros_def by (rule distinct_card [symmetric]) simp
  also have "set (filter (\<lambda>n. \<not> bit w n) [0..<64]) = {b. b < 64 \<and> \<not> bit w b}"
    by (simp only: set_filter set_upt) auto
  finally show ?thesis .
qed

lemma libres_palabra: "card {f \<in> libres bm. f div 64 = i} = (if i < FRAME_SLOTS then count_zeros (bm i) else 0)"
proof (cases "i < FRAME_SLOTS")
  case True
  have "{f \<in> libres bm. f div 64 = i} = (\<lambda>b. i * 64 + b) ` {b. b < 64 \<and> \<not> bit (bm i) b}"
  proof (intro equalityI subsetI)
    fix f
    assume "f \<in> {f \<in> libres bm. f div 64 = i}"
    then have "f = i * 64 + f mod 64" "\<not> bit (bm i) (f mod 64)"
      by (auto simp: libres_def marco_libre_bit)
    then show "f \<in> (\<lambda>b. i * 64 + b) ` {b. b < 64 \<and> \<not> bit (bm i) b}"
      by (intro image_eqI [of _ _ "f mod 64"]) simp_all
  next
    fix f
    assume "f \<in> (\<lambda>b. i * 64 + b) ` {b. b < 64 \<and> \<not> bit (bm i) b}"
    then show "f \<in> {f \<in> libres bm. f div 64 = i}"
      using True by (auto simp: libres_def marco_libre_bit FRAME_SLOTS_def MARCOS_def)
  qed
  then show ?thesis
    using True by (simp add: count_zeros_card card_image inj_on_def)
next
  case False
  then have "{f \<in> libres bm. f div 64 = i} = {}"
    by (auto simp: libres_def FRAME_SLOTS_64 [symmetric] less_mult_imp_div_less)
  then show ?thesis
    using False by simp
qed

lemma contar_de_nuevo_libres: "unat (contar_de_nuevo s) = card (libres (bitmap s))"
proof -
  have "libres (bitmap s) = (\<Union>i<FRAME_SLOTS. {f \<in> libres (bitmap s). f div 64 = i})"
    by (auto simp: libres_def FRAME_SLOTS_64 [symmetric] less_mult_imp_div_less)
  then have "card (libres (bitmap s)) = (\<Sum>i<FRAME_SLOTS. card {f \<in> libres (bitmap s). f div 64 = i})"
    using card_UN_disjoint [of "{..<FRAME_SLOTS}" "\<lambda>i. {f \<in> libres (bitmap s). f div 64 = i}"]
    by fastforce
  also have "\<dots> = (\<Sum>i<FRAME_SLOTS. count_zeros (bitmap s i))"
    by (simp add: libres_palabra)
  also have "\<dots> = sum_list (map (\<lambda>i. count_zeros (bitmap s i)) [0..<FRAME_SLOTS])"
    by (simp only: sum_list_distinct_conv_sum_set distinct_upt set_upt lessThan_atLeast0)
  finally have eq: "sum_list (map (\<lambda>i. count_zeros (bitmap s i)) [0..<FRAME_SLOTS])
      = card (libres (bitmap s))"
    by simp
  show ?thesis
    unfolding contar_de_nuevo_def eq using card_libres_le [of "bitmap s"]
    by (intro unat_word_of_nat) (simp add: MARCOS_def)
qed

section \<open>Histories of the allocator\<close>

datatype op_phys =
    PAlloc
  | PAllocDe titular
  | PContig u64
  | PContigDe u64 titular
  | PFree u64 u64
  | PFreeDe u64 u64 titular

definition marcos_de :: "u64 option \<Rightarrow> u64 \<Rightarrow> nat set" where
  "marcos_de r n = (case r of None \<Rightarrow> {} | Some a \<Rightarrow> {unat (a div PAGE) ..< unat (a div PAGE) + unat n})"

text \<open>A step, and the frames it handed out.\<close>

fun paso_phys :: "op_phys \<Rightarrow> phys_st \<Rightarrow> nat set \<times> phys_st" where
  "paso_phys PAlloc s = (let (r, s1) = alloc_frame s in (marcos_de r 1, s1))"
| "paso_phys (PAllocDe q) s = (let (r, s1) = alloc_frame_de q s in (marcos_de r 1, s1))"
| "paso_phys (PContig n) s = (let (r, s1) = alloc_frames_contig n s in (marcos_de r n, s1))"
| "paso_phys (PContigDe n q) s = (let (r, s1) = alloc_frames_contig_de n q s in (marcos_de r n, s1))"
| "paso_phys (PFree t a) s = ({}, free_frame t a s)"
| "paso_phys (PFreeDe t a q) s = ({}, snd (free_frame_de t a q s))"

fun devuelve_phys :: "op_phys \<Rightarrow> nat set" where
  "devuelve_phys (PFree t a) = set_option (indice_marco a)"
| "devuelve_phys (PFreeDe t a q) = set_option (indice_marco a)"
| "devuelve_phys _ = {}"

definition libres_de :: "phys_st \<Rightarrow> nat set" where
  "libres_de s = libres (bitmap s)"

lemma dir_div: "f < MARCOS \<Longrightarrow> unat (of_nat f * PAGE div PAGE) = f"
  by (simp add: unat_div unat_dir_marco)

lemma alloc_frame_paso:
  assumes "phys_ok s"
  shows "phys_ok (snd (alloc_frame s)) \<and> marcos_de (fst (alloc_frame s)) 1 \<subseteq> libres_de s \<and>
    libres_de (snd (alloc_frame s)) = libres_de s - marcos_de (fst (alloc_frame s)) 1"
proof (cases "fst (alloc_frame s)")
  case None
  then show ?thesis
    using alloc_frame_None [OF assms] assms by (simp add: marcos_de_def libres_de_def)
next
  case (Some a)
  from alloc_frame_Some [OF assms Some] obtain f where
    f: "f \<in> libres (bitmap s)" "a = of_nat f * PAGE"
      "libres (bitmap (snd (alloc_frame s))) = libres (bitmap s) - {f}"
      "phys_ok (snd (alloc_frame s))"
    by metis
  have "unat (a div PAGE) = f"
    using f by (simp add: dir_div libres_def)
  then have "marcos_de (fst (alloc_frame s)) 1 = {f}"
    by (simp add: Some marcos_de_def atLeastLessThanSuc)
  then show ?thesis
    using f by (simp add: libres_de_def)
qed

lemma alloc_frames_contig_paso:
  assumes "phys_ok s"
  shows "phys_ok (snd (alloc_frames_contig n s)) \<and>
    marcos_de (fst (alloc_frames_contig n s)) n \<subseteq> libres_de s \<and>
    libres_de (snd (alloc_frames_contig n s)) = libres_de s - marcos_de (fst (alloc_frames_contig n s)) n"
proof (cases "fst (alloc_frames_contig n s)")
  case None
  then have "snd (alloc_frames_contig n s) = s"
    using alloc_frames_contig_None [OF assms] by (cases "n = 0") (simp_all add: alloc_frames_contig_def)
  then show ?thesis
    using None assms by (simp add: marcos_de_def libres_de_def)
next
  case (Some a)
  from alloc_frames_contig_Some [OF assms Some] obtain x where
    x: "a = of_nat x * PAGE" "n \<noteq> 0" "x + unat n \<le> MARCOS"
      "{x ..< x + unat n} \<subseteq> libres (bitmap s)"
      "libres (bitmap (snd (alloc_frames_contig n s))) = libres (bitmap s) - {x ..< x + unat n}"
      "phys_ok (snd (alloc_frames_contig n s))"
    by metis
  have "0 < unat n"
    using x(2) by (simp add: unat_gt_0)
  then have "unat (a div PAGE) = x"
    using x(1,3) by (simp add: dir_div)
  then have "marcos_de (fst (alloc_frames_contig n s)) n = {x ..< x + unat n}"
    by (simp add: Some marcos_de_def)
  then show ?thesis
    using x by (simp add: libres_de_def)
qed

lemma fold_marcar_ok: "titular_ok t \<Longrightarrow> titular_ok (fold (\<lambda>i. marcar (f i) q) is t)"
  by (induction "is" arbitrary: t) (simp_all add: marcar_ok)

lemma alloc_frame_de_eq:
  "fst (alloc_frame_de q s) = fst (alloc_frame s)"
  "bitmap (snd (alloc_frame_de q s)) = bitmap (snd (alloc_frame s))"
  "phys_ok (snd (alloc_frame s)) \<Longrightarrow> phys_ok (snd (alloc_frame_de q s))"
  by (auto simp: alloc_frame_de_def phys_ok_def marcar_ok split: prod.splits option.splits)

lemma alloc_frames_contig_de_eq:
  "fst (alloc_frames_contig_de n q s) = fst (alloc_frames_contig n s)"
  "bitmap (snd (alloc_frames_contig_de n q s)) = bitmap (snd (alloc_frames_contig n s))"
  "phys_ok (snd (alloc_frames_contig n s)) \<Longrightarrow> phys_ok (snd (alloc_frames_contig_de n q s))"
  by (auto simp: alloc_frames_contig_de_def phys_ok_def fold_marcar_ok
      split: prod.splits option.splits)

lemma free_frame_de_eq:
  "snd (free_frame_de t a q s) = s \<or> snd (free_frame_de t a q s) = free_frame t a s"
  by (simp add: free_frame_de_def split: veredicto_titular.split)

lemma paso_phys_reparto:
  assumes "phys_ok s"
  shows "phys_ok (snd (paso_phys x s)) \<and> fst (paso_phys x s) \<subseteq> libres_de s \<and>
    libres_de (snd (paso_phys x s)) \<subseteq> (libres_de s - fst (paso_phys x s)) \<union> devuelve_phys x"
proof (cases x)
  case PAlloc
  then show ?thesis
    using alloc_frame_paso [OF assms] by (simp add: Let_def case_prod_beta)
next
  case (PAllocDe q)
  then show ?thesis
    using alloc_frame_paso [OF assms] alloc_frame_de_eq [where q = q and s = s]
    by (simp add: Let_def libres_de_def case_prod_beta)
next
  case (PContig n)
  then show ?thesis
    using alloc_frames_contig_paso [OF assms, of n] by (simp add: Let_def case_prod_beta)
next
  case (PContigDe n q)
  then show ?thesis
    using alloc_frames_contig_paso [OF assms, of n] alloc_frames_contig_de_eq [where n = n and q = q and s = s]
    by (simp add: Let_def libres_de_def case_prod_beta)
next
  case (PFree t a)
  then show ?thesis
    using free_frame_ok [OF assms] free_frame_libres [of t a s]
    by (auto simp: libres_de_def split: option.splits)
next
  case (PFreeDe t a q)
  have "phys_ok (free_frame t a s) \<and>
      libres_de (free_frame t a s) \<subseteq> libres_de s \<union> set_option (indice_marco a)"
    using free_frame_ok [OF assms, of t a] free_frame_libres [of t a s]
    by (auto simp: libres_de_def split: option.splits)
  then show ?thesis
    using PFreeDe assms free_frame_de_eq [of t a q s] by (elim disjE) simp_all
qed

interpretation marcos: reparto phys_ok libres_de paso_phys devuelve_phys
  by unfold_locales (use paso_phys_reparto in blast)+

section \<open>What start-up frees\<close>

text \<open>The frames a range takes, and those an entry of the map frees, as \<open>init\<close> computes them.\<close>

definition reservados :: "u64 \<times> u64 \<Rightarrow> nat set" where
  "reservados r = (case r of (base, tam) \<Rightarrow>
     if tam = 0 \<or> base \<ge> PHYSMAP_SIZE then {}
     else set (marcos_entre (base AND NOT (PAGE - 1))
       (min ((base + tam + PAGE - 1) AND NOT (PAGE - 1)) PHYSMAP_SIZE)))"

definition usables :: "memory_entry \<Rightarrow> nat set" where
  "usables e =
     (if me_kind e \<noteq> 1 \<or> me_size e = 0 \<or> (me_base e + PAGE - 1) AND NOT (PAGE - 1) \<ge> PHYSMAP_SIZE
      then {}
      else set (marcos_entre ((me_base e + PAGE - 1) AND NOT (PAGE - 1))
        (min ((me_base e + me_size e) AND NOT (PAGE - 1)) PHYSMAP_SIZE)))"

lemma marcos_entre_less: "fin \<le> PHYSMAP_SIZE \<Longrightarrow> f \<in> set (marcos_entre a fin) \<Longrightarrow> f < MARCOS"
  by (auto simp: marcos_entre_def unat_div word_le_nat_alt MARCOS_def)

lemma reserva_marcos_libres:
  "phys_ok s \<Longrightarrow> \<forall>f \<in> set fs. f < MARCOS \<Longrightarrow>
     phys_ok (reserva_marcos fs s) \<and> libres_de (reserva_marcos fs s) = libres_de s - set fs"
proof (induction fs arbitrary: s)
  case (Cons f fs)
  show ?case
  proof (cases "marco_libre (bitmap s) f")
    case True
    let ?s = "s\<lparr>bitmap := toma_bit f (bitmap s), free_frames := free_frames s - 1\<rparr>"
    have f: "f \<in> libres (bitmap s)"
      using True Cons.prems by (simp add: libres_def)
    have card: "card (libres (toma_bit f (bitmap s))) + 1 = card (libres (bitmap s))"
      by (rule card_libres_toma [OF f])
    then have "free_frames s \<noteq> 0"
      using Cons.prems(1) by (auto simp: phys_ok_def)
    then have "phys_ok ?s"
      using Cons.prems(1) card by (simp add: phys_ok_def unat_minus_one_pos)
    then show ?thesis
      using Cons.IH [of ?s] Cons.prems True by (auto simp: libres_de_def libres_toma)
  next
    case False
    then show ?thesis
      using Cons by (auto simp: libres_de_def libres_def)
  qed
qed simp

lemma reserve_range_libres:
  "phys_ok s \<Longrightarrow> phys_ok (reserve_range b n s) \<and> libres_de (reserve_range b n s) = libres_de s - reservados (b, n)"
  using reserva_marcos_libres [of s "marcos_entre (b AND NOT (PAGE - 1))
      (min ((b + n + PAGE - 1) AND NOT (PAGE - 1)) PHYSMAP_SIZE)"]
    marcos_entre_less [of "min ((b + n + PAGE - 1) AND NOT (PAGE - 1)) PHYSMAP_SIZE"]
  by (auto simp: reserve_range_def reservados_def Let_def)

lemma libera_marcos_libres:
  "phys_ok s \<Longrightarrow> \<forall>f \<in> set fs. f < MARCOS \<Longrightarrow>
     phys_ok (libera_marcos fs s) \<and> libres_de (libera_marcos fs s) = libres_de s \<union> set fs"
proof (induction fs arbitrary: s)
  case (Cons f fs)
  show ?case
  proof (cases "marco_libre (bitmap s) f")
    case True
    then have "f \<in> libres_de s"
      using Cons.prems by (simp add: libres_de_def libres_def)
    then show ?thesis
      using True Cons by auto
  next
    case False
    let ?s = "s\<lparr>bitmap := suelta_bit f (bitmap s), total_frames := total_frames s + 1,
        free_frames := free_frames s + 1\<rparr>"
    have "card (libres (suelta_bit f (bitmap s))) = card (libres (bitmap s)) + 1"
      using False Cons.prems by (intro card_libres_suelta) simp_all
    then have "phys_ok ?s"
      using Cons.prems(1) card_libres_le [of "bitmap s"] by (simp add: phys_ok_def unat_suc_small)
    then show ?thesis
      using Cons.IH [of ?s] Cons.prems False by (simp add: libres_de_def libres_suelta)
  qed
qed simp

lemma entrada_ram_libres:
  assumes "phys_ok s"
  shows "phys_ok (entrada_ram e s) \<and> libres_de (entrada_ram e s) = libres_de s \<union> usables e"
proof -
  let ?base = "(me_base e + PAGE - 1) AND NOT (PAGE - 1)"
  let ?fin = "min ((me_base e + me_size e) AND NOT (PAGE - 1)) PHYSMAP_SIZE"
  have "phys_ok (libera_marcos (marcos_entre ?base ?fin) s') \<and>
      libres_de (libera_marcos (marcos_entre ?base ?fin) s') = libres_de s \<union> set (marcos_entre ?base ?fin)"
    if "s' = s\<lparr>tramos_ram := ts\<rparr>" for s' ts
    using libera_marcos_libres [of s' "marcos_entre ?base ?fin"] marcos_entre_less [of ?fin] assms that
    by (simp add: phys_ok_def libres_de_def)
  from this [OF refl] this [of s "tramos_ram s"] show ?thesis
    using assms by (auto simp: entrada_ram_def usables_def Let_def phys_ok_def libres_de_def)
qed

lemma fold_entrada_ram:
  "phys_ok s \<Longrightarrow> phys_ok (fold entrada_ram es s) \<and>
     libres_de (fold entrada_ram es s) = libres_de s \<union> (\<Union>e \<in> set es. usables e)"
proof (induction es arbitrary: s)
  case (Cons e es)
  then show ?case
    using entrada_ram_libres [of s e] by auto
qed simp

text \<open>On the naturals: a range takes every frame it touches, an entry frees the frames it contains.\<close>

lemma PAGE_mask: "PAGE - 1 = mask 12"
  by (simp add: PAGE_def mask_eq_exp_minus_1)

lemma unat_page_down: "unat (x AND NOT (PAGE - 1)) = unat x - unat x mod 4096"
  unfolding PAGE_mask unat_and_not_mask by simp

lemma page_down_div: "unat (x AND NOT (PAGE - 1)) div 4096 = unat x div 4096"
  unfolding unat_page_down by (simp add: minus_mod_eq_mult_div)

lemma unat_plus_page:
  assumes "unat (x :: u64) + 4095 < 2 ^ 64"
  shows "unat (x + PAGE - 1) = unat x + 4095"
proof -
  have eq: "x + PAGE - 1 = x + 4095" and n: "unat (4095 :: u64) = 4095"
    by (simp_all add: PAGE_def)
  have "unat (x + 4095) = unat x + unat (4095 :: u64)"
    by (rule unat_add_small) (use assms in simp)
  then show ?thesis
    by (simp only: eq n)
qed

lemma div_min_PHYSMAP: "unat (min x PHYSMAP_SIZE) div 4096 = min (unat x div 4096) MARCOS"
proof -
  have "unat (min x PHYSMAP_SIZE) = min (unat x) (MARCOS * 4096)"
    by (simp add: min_def word_le_nat_alt MARCOS_def)
  moreover have "min a (m * 4096) div 4096 = min (a div 4096) m" for a m :: nat
    using div_le_mono [of a "m * 4096" 4096] div_le_mono [of "m * 4096" a 4096]
    by (cases "a \<le> m * 4096") (simp_all add: min_def)
  ultimately show ?thesis
    by simp
qed

lemma in_marcos_entre:
  "f \<in> set (marcos_entre a (min fin PHYSMAP_SIZE)) \<longleftrightarrow>
     unat a div 4096 \<le> f \<and> f < unat fin div 4096 \<and> f < MARCOS"
  by (auto simp: marcos_entre_def unat_div div_min_PHYSMAP)

lemma page_bounds:
  "b div 4096 \<le> f \<longleftrightarrow> b < (f + 1) * 4096"
  "(b + 4095) div 4096 \<le> f \<longleftrightarrow> b \<le> f * 4096"
  "f < c div 4096 \<longleftrightarrow> (f + 1) * 4096 \<le> c"
  "f < (c + 4095) div 4096 \<longleftrightarrow> f * 4096 < c" for b c f :: nat
  using div_less_iff_less_mult [of 4096 b "f + 1"] div_less_iff_less_mult [of 4096 "b + 4095" "f + 1"]
    less_eq_div_iff_mult_less_eq [of 4096 "f + 1" c] less_eq_div_iff_mult_less_eq [of 4096 "f + 1" "c + 4095"]
  by simp_all linarith+

lemma reservados_iff:
  assumes "unat b + unat n + 4095 < 2 ^ 64"
  shows "f \<in> reservados (b, n) \<longleftrightarrow>
    f < MARCOS \<and> n \<noteq> 0 \<and> f * 4096 < unat b + unat n \<and> unat b < (f + 1) * 4096"
proof -
  have bn: "unat (b + n) = unat b + unat n"
    using assms by (intro unat_add_small) simp
  then have fin: "unat (b + n + PAGE - 1) div 4096 = (unat b + unat n + 4095) div 4096"
    using assms by (subst unat_plus_page) simp_all
  have lejos: "PHYSMAP_SIZE \<le> b \<Longrightarrow> f < MARCOS \<Longrightarrow> \<not> unat b < (f + 1) * 4096"
    by (simp add: word_le_nat_alt MARCOS_def)
  show ?thesis
  proof (cases "n = 0 \<or> PHYSMAP_SIZE \<le> b")
    case True
    then show ?thesis
      using lejos by (auto simp: reservados_def)
  next
    case False
    then have "f \<in> reservados (b, n) \<longleftrightarrow>
        unat b div 4096 \<le> f \<and> f < (unat b + unat n + 4095) div 4096 \<and> f < MARCOS"
      by (simp only: reservados_def prod.case if_False in_marcos_entre page_down_div fin simp_thms
          split: if_split)
    then show ?thesis
      using False unfolding page_bounds(1,4) by blast
  qed
qed

lemma usables_iff:
  assumes "unat (me_base e) + unat (me_size e) < 2 ^ 64" and "unat (me_base e) + 4095 < 2 ^ 64"
  shows "f \<in> usables e \<longleftrightarrow>
    me_kind e = 1 \<and> f < MARCOS \<and> unat (me_base e) \<le> f * 4096 \<and>
    (f + 1) * 4096 \<le> unat (me_base e) + unat (me_size e)"
proof -
  let ?a = "(me_base e + PAGE - 1) AND NOT (PAGE - 1)"
  have a: "unat ?a div 4096 = (unat (me_base e) + 4095) div 4096"
    unfolding page_down_div by (simp only: unat_plus_page [OF assms(2)])
  have fin: "unat ((me_base e + me_size e) AND NOT (PAGE - 1)) div 4096
      = (unat (me_base e) + unat (me_size e)) div 4096"
    unfolding page_down_div using assms(1) by (subst unat_add_small) simp_all
  have nada: "\<not> (unat (me_base e) \<le> f * 4096 \<and> f < MARCOS)" if "PHYSMAP_SIZE \<le> ?a"
  proof
    assume r: "unat (me_base e) \<le> f * 4096 \<and> f < MARCOS"
    have "MARCOS \<le> unat ?a div 4096"
      using that by (simp add: word_le_nat_alt MARCOS_def)
    then show False
      using r unfolding a by (simp add: page_bounds(2) [symmetric])
  qed
  show ?thesis
  proof (cases "me_kind e \<noteq> 1 \<or> me_size e = 0 \<or> PHYSMAP_SIZE \<le> ?a")
    case True
    then show ?thesis
      using nada by (auto simp: usables_def)
  next
    case False
    then have "f \<in> usables e \<longleftrightarrow> (unat (me_base e) + 4095) div 4096 \<le> f \<and>
        f < (unat (me_base e) + unat (me_size e)) div 4096 \<and> f < MARCOS"
      by (simp only: usables_def if_False in_marcos_entre a fin simp_thms split: if_split)
    then show ?thesis
      using False unfolding page_bounds(2,3) by blast
  qed
qed

text \<open>The ranges \<open>init\<close> takes back, in its order.\<close>

definition reservas_init :: "u64 \<Rightarrow> u64 \<Rightarrow> u64 \<Rightarrow> boot_context \<Rightarrow> (u64 \<times> u64) list" where
  "reservas_init bss_end ctx_addr ctx_bytes ctx =
    [(0, 0x100000), (0x400000, ((bss_end + PAGE - 1) AND NOT (PAGE - 1)) - 0x400000)] @
    filter (\<lambda>r. fst r \<noteq> 0) (zip (stage_base ctx) (stage_size ctx)) @
    [(ctx_addr, ctx_bytes)] @
    (if fb_addr ctx \<noteq> 0
     then [(fb_addr ctx AND NOT (PAGE - 1),
            ucast (fb_stride ctx) * ucast (fb_height ctx) * 4 +
              (fb_addr ctx - (fb_addr ctx AND NOT (PAGE - 1))))] else []) @
    [(0xFEC00000, 0x1400000), (CAIDA_BASE, CAIDA_BYTES)] @
    (if ring3_payload_phys ctx \<noteq> 0 then [(ring3_payload_phys ctx, ring3_payload_size ctx)] else []) @
    (if ring3_workspace_phys ctx \<noteq> 0 then [(ring3_workspace_phys ctx, ring3_workspace_size ctx)] else [])"

lemma reserva_etapas_fold:
  "reserva_etapas rs s = fold (\<lambda>(b, n). reserve_range b n) (filter (\<lambda>r. fst r \<noteq> 0) rs) s"
  unfolding reserva_etapas_def
proof (induction rs arbitrary: s)
  case (Cons r rs)
  then show ?case
    by (cases r) (simp add: reserve_range_def)
qed simp

lemma init_phys_eq:
  "init_phys bss_end ctx_addr ctx_bytes ctx s =
    (if unat (memory_map_count ctx) > length (memory_map ctx) then None
     else Some (fold (\<lambda>(b, n). reserve_range b n) (reservas_init bss_end ctx_addr ctx_bytes ctx)
       (fold entrada_ram (take (unat (memory_map_count ctx)) (memory_map ctx))
         (s\<lparr>bitmap := (\<lambda>_. - 1), total_frames := 0, free_frames := 0, hint := 0, tramos_ram := []\<rparr>))))"
  by (simp add: init_phys_def Let_def reservas_init_def reserva_etapas_fold)

lemma fold_reserve_range:
  "phys_ok s \<Longrightarrow> phys_ok (fold (\<lambda>(b, n). reserve_range b n) rs s) \<and>
     libres_de (fold (\<lambda>(b, n). reserve_range b n) rs s) = libres_de s - (\<Union>r \<in> set rs. reservados r)"
proof (induction rs arbitrary: s)
  case (Cons r rs)
  obtain b n where "r = (b, n)"
    by fastforce
  then show ?case
    using Cons.IH [of "reserve_range b n s"] reserve_range_libres [OF Cons.prems, of b n] by auto
qed simp

lemma init_phys_libres:
  assumes "init_phys bss_end ctx_addr ctx_bytes ctx s = Some s'" and "titular_ok (duenos s)"
  shows "phys_ok s' \<and> libres_de s' =
    (\<Union>e \<in> set (take (unat (memory_map_count ctx)) (memory_map ctx)). usables e) -
    (\<Union>r \<in> set (reservas_init bss_end ctx_addr ctx_bytes ctx). reservados r)"
proof -
  define s0 where
    "s0 = s\<lparr>bitmap := (\<lambda>_. - 1), total_frames := 0, free_frames := 0, hint := 0, tramos_ram := []\<rparr>"
  define s1 where "s1 = fold entrada_ram (take (unat (memory_map_count ctx)) (memory_map ctx)) s0"
  have s0: "phys_ok s0" "libres_de s0 = {}"
    using assms(2) by (simp_all add: s0_def phys_ok_def libres_de_def libres_def marco_libre_bit)
  have s1: "phys_ok s1"
      "libres_de s1 = (\<Union>e \<in> set (take (unat (memory_map_count ctx)) (memory_map ctx)). usables e)"
    using fold_entrada_ram [OF s0(1)] s0(2) by (simp_all add: s1_def)
  have "s' = fold (\<lambda>(b, n). reserve_range b n) (reservas_init bss_end ctx_addr ctx_bytes ctx) s1"
    using assms(1) by (simp add: init_phys_eq s1_def s0_def split: if_splits)
  then show ?thesis
    using fold_reserve_range [OF s1(1)] s1(2) by simp
qed

section \<open>The properties\<close>

text \<open>
  C23: what start-up leaves free. After \<open>init\<close> a frame is free exactly when some usable entry of
  the firmware's map contains the whole of it and none of the kernel's own ranges touches it,
  and the counter of free frames is their number. No entry or range may run past the 64-bit
  space (rounding included), which is where the code's sums would wrap.
\<close>

theorem init_phys_exacto:
  assumes "init_phys bss_end ctx_addr ctx_bytes ctx s = Some s'"
    and "titular_ok (duenos s)"
    and "\<forall>e \<in> set (take (unat (memory_map_count ctx)) (memory_map ctx)).
      unat (me_base e) + unat (me_size e) < 2 ^ 64 \<and> unat (me_base e) + 4095 < 2 ^ 64"
    and "\<forall>(b, n) \<in> set (reservas_init bss_end ctx_addr ctx_bytes ctx). unat b + unat n + 4095 < 2 ^ 64"
  shows "unat (free_frames s') = card (libres_de s') \<and>
    (\<forall>f. f \<in> libres_de s' \<longleftrightarrow>
      f < MARCOS \<and>
      (\<exists>e \<in> set (take (unat (memory_map_count ctx)) (memory_map ctx)).
         me_kind e = 1 \<and> unat (me_base e) \<le> f * 4096 \<and>
         (f + 1) * 4096 \<le> unat (me_base e) + unat (me_size e)) \<and>
      (\<forall>(b, n) \<in> set (reservas_init bss_end ctx_addr ctx_bytes ctx).
         n = 0 \<or> unat b + unat n \<le> f * 4096 \<or> (f + 1) * 4096 \<le> unat b))"
proof (intro conjI allI)
  let ?es = "set (take (unat (memory_map_count ctx)) (memory_map ctx))"
  let ?rs = "set (reservas_init bss_end ctx_addr ctx_bytes ctx)"
  have l: "phys_ok s'" "libres_de s' = (\<Union>e \<in> ?es. usables e) - (\<Union>r \<in> ?rs. reservados r)"
    using init_phys_libres [OF assms(1,2)] by simp_all
  then show "unat (free_frames s') = card (libres_de s')"
    by (simp add: phys_ok_def libres_de_def)
  fix f
  have e: "f \<in> usables e \<longleftrightarrow> me_kind e = 1 \<and> f < MARCOS \<and> unat (me_base e) \<le> f * 4096 \<and>
      (f + 1) * 4096 \<le> unat (me_base e) + unat (me_size e)" if "e \<in> ?es" for e
    using assms(3) that by (intro usables_iff) blast+
  have r: "f < MARCOS \<Longrightarrow> f \<in> reservados (b, n) \<longleftrightarrow>
      \<not> (n = 0 \<or> unat b + unat n \<le> f * 4096 \<or> (f + 1) * 4096 \<le> unat b)" if "(b, n) \<in> ?rs" for b n
    using assms(4) that reservados_iff [of b n f] by (auto simp: not_less not_le)
  show "f \<in> libres_de s' \<longleftrightarrow> f < MARCOS \<and>
      (\<exists>e \<in> ?es. me_kind e = 1 \<and> unat (me_base e) \<le> f * 4096 \<and>
         (f + 1) * 4096 \<le> unat (me_base e) + unat (me_size e)) \<and>
      (\<forall>(b, n) \<in> ?rs. n = 0 \<or> unat b + unat n \<le> f * 4096 \<or> (f + 1) * 4096 \<le> unat b)"
    unfolding l(2) using e r by fastforce
qed

text \<open>A machine with RAM from 1 MiB to 64 MiB and a kernel that ends at 5 MiB.\<close>

definition ctx_prueba :: boot_context where
  "ctx_prueba =
    \<lparr>memory_map_count = 1, memory_map = [\<lparr>me_base = 0x100000, me_size = 0x3F00000, me_kind = 1\<rparr>],
     fb_addr = 0, fb_stride = 0, fb_height = 0, stage_base = [0], stage_size = [0],
     ring3_payload_phys = 0, ring3_payload_size = 0, ring3_workspace_phys = 0,
     ring3_workspace_size = 0\<rparr>"

definition phys_bss :: phys_st where
  "phys_bss =
    \<lparr>bitmap = (\<lambda>_. 0), total_frames = 0, free_frames = 0, hint = 0, tramos_ram = [],
     dobles = (\<lambda>_. \<lparr>df_phys = 0, df_tick = 0\<rparr>), dobles_n = 0, duenos = titular_inicial\<rparr>"

definition phys_prueba :: phys_st where
  "phys_prueba = the (init_phys 0x500000 0x300000 0x1000 ctx_prueba phys_bss)"

lemma phys_prueba_init: "init_phys 0x500000 0x300000 0x1000 ctx_prueba phys_bss = Some phys_prueba"
  by (simp add: phys_prueba_def init_phys_eq ctx_prueba_def)

lemma reservas_prueba:
  "reservas_init 0x500000 0x300000 0x1000 ctx_prueba =
    [(0, 0x100000), (0x400000, 0x100000), (0x300000, 0x1000), (0xFEC00000, 0x1400000),
     (0x4000000, 0x40000)]"
  by (simp add: reservas_init_def ctx_prueba_def PAGE_def CAIDA_BASE_def CAIDA_BYTES_def)

theorem init_phys_exacto_witness:
  "0x200 \<in> libres_de phys_prueba \<and> 0x300 \<notin> libres_de phys_prueba"
proof -
  have "\<forall>f. f \<in> libres_de phys_prueba \<longleftrightarrow>
      f < MARCOS \<and>
      (\<exists>e \<in> set (take (unat (memory_map_count ctx_prueba)) (memory_map ctx_prueba)).
         me_kind e = 1 \<and> unat (me_base e) \<le> f * 4096 \<and>
         (f + 1) * 4096 \<le> unat (me_base e) + unat (me_size e)) \<and>
      (\<forall>(b, n) \<in> set (reservas_init 0x500000 0x300000 0x1000 ctx_prueba).
         n = 0 \<or> unat b + unat n \<le> f * 4096 \<or> (f + 1) * 4096 \<le> unat b)"
  proof (rule conjunct2 [OF init_phys_exacto [OF phys_prueba_init]])
    show "titular_ok (duenos phys_bss)"
      by (simp add: phys_bss_def titular_inicial_ok)
  qed (simp_all add: reservas_prueba, simp add: ctx_prueba_def)
  then show ?thesis
    by (simp add: reservas_prueba) (simp add: ctx_prueba_def MARCOS_def)
qed

lemma phys_prueba_ok: "phys_ok phys_prueba"
  using init_phys_libres [OF phys_prueba_init] by (simp add: phys_bss_def titular_inicial_ok)

text \<open>
  One frame. In a state whose counter is right, \<open>alloc_frame\<close> fails exactly when no frame is
  free, and then changes nothing; otherwise it gives the address of a frame that was free,
  which is the only one to stop being so, and the counter stays right.
\<close>

theorem alloc_frame_exacto:
  assumes "phys_ok s"
  shows "(fst (alloc_frame s) = None \<longleftrightarrow> libres_de s = {}) \<and>
    (fst (alloc_frame s) = None \<longrightarrow> snd (alloc_frame s) = s) \<and>
    (\<forall>a. fst (alloc_frame s) = Some a \<longrightarrow>
      (\<exists>f \<in> libres_de s. indice_marco a = Some f \<and>
         libres_de (snd (alloc_frame s)) = libres_de s - {f} \<and>
         free_frames (snd (alloc_frame s)) = free_frames s - 1)) \<and>
    phys_ok (snd (alloc_frame s))"
proof (cases "fst (alloc_frame s)")
  case None
  then show ?thesis
    using alloc_frame_None [OF assms] assms by (simp add: libres_de_def)
next
  case (Some a)
  from alloc_frame_Some [OF assms Some] obtain f where
    "f \<in> libres (bitmap s)" "a = of_nat f * PAGE"
    "libres (bitmap (snd (alloc_frame s))) = libres (bitmap s) - {f}"
    "free_frames (snd (alloc_frame s)) = free_frames s - 1" "phys_ok (snd (alloc_frame s))"
    by metis
  then show ?thesis
    using Some by (auto simp: libres_de_def indice_marco_dir libres_def intro!: bexI [of _ f])
qed

theorem alloc_frame_exacto_witness:
  "\<exists>a f. fst (alloc_frame phys_prueba) = Some a \<and> f \<in> libres_de phys_prueba \<and>
     indice_marco a = Some f \<and> f \<notin> libres_de (snd (alloc_frame phys_prueba))"
proof -
  have "0x200 \<in> libres_de phys_prueba"
    using init_phys_libres [OF phys_prueba_init]
    by (simp add: phys_bss_def titular_inicial_ok reservas_prueba)
      (simp add: ctx_prueba_def usables_iff reservados_iff MARCOS_def)
  then obtain a where "fst (alloc_frame phys_prueba) = Some a"
    using alloc_frame_exacto [OF phys_prueba_ok] by auto
  then show ?thesis
    using alloc_frame_exacto [OF phys_prueba_ok] by fastforce
qed

text \<open>
  C22: a run of frames. \<open>alloc_frames_contig\<close> gives the lowest run of \<open>count\<close> free frames there is,
  those frames and no others stop being free, and it fails only when no such run exists: the
  jump over full words skips nothing.
\<close>

theorem alloc_frames_contig_exacto:
  assumes "phys_ok s" and "count \<noteq> 0"
  shows "(fst (alloc_frames_contig count s) = None \<longleftrightarrow>
      (\<nexists>x. {x ..< x + unat count} \<subseteq> libres_de s)) \<and>
    (\<forall>a. fst (alloc_frames_contig count s) = Some a \<longrightarrow>
      (\<exists>x. indice_marco a = Some x \<and> {x ..< x + unat count} \<subseteq> libres_de s \<and>
         (\<forall>y < x. \<not> {y ..< y + unat count} \<subseteq> libres_de s) \<and>
         libres_de (snd (alloc_frames_contig count s)) = libres_de s - {x ..< x + unat count})) \<and>
    phys_ok (snd (alloc_frames_contig count s))"
proof -
  have n: "0 < unat count"
    using assms(2) by (simp add: unat_gt_0)
  have run: "{x ..< x + unat count} \<subseteq> libres_de s \<longleftrightarrow>
      x + unat count \<le> MARCOS \<and> tramo_libre (bitmap s) x (unat count)" for x
  proof
    assume sub: "{x ..< x + unat count} \<subseteq> libres_de s"
    then have "x + unat count - 1 \<in> libres_de s"
      using n by auto
    then show "x + unat count \<le> MARCOS \<and> tramo_libre (bitmap s) x (unat count)"
      using sub n by (auto simp: tramo_libre_def libres_de_def libres_def)
  qed (auto simp: tramo_libre_def libres_de_def libres_def)
  show ?thesis
  proof (cases "fst (alloc_frames_contig count s)")
    case None
    then show ?thesis
      using alloc_frames_contig_None [OF assms(1) None assms(2)] assms(1) run by auto
  next
    case (Some a)
    from alloc_frames_contig_Some [OF assms(1) Some] obtain x where
      x: "a = of_nat x * PAGE" "x + unat count \<le> MARCOS" "{x ..< x + unat count} \<subseteq> libres (bitmap s)"
        "\<And>y. y < x \<Longrightarrow> \<not> tramo_libre (bitmap s) y (unat count)"
        "libres (bitmap (snd (alloc_frames_contig count s))) = libres (bitmap s) - {x ..< x + unat count}"
        "phys_ok (snd (alloc_frames_contig count s))"
      by metis
    then have "indice_marco a = Some x"
      using n by (simp add: indice_marco_dir)
    then show ?thesis
      using x Some run by (auto simp: libres_de_def intro!: exI [of _ x])
  qed
qed

theorem alloc_frames_contig_exacto_witness:
  "phys_ok (snd (alloc_frames_contig 16 phys_prueba))"
  using alloc_frames_contig_exacto [OF phys_prueba_ok, of 16] by simp

text \<open>
  C9: no frame is handed out twice. From any state whose counter is right, through any history
  of single and contiguous requests and of returns, a frame that was handed out is not handed
  out again by any kind of request until it is returned.
\<close>

theorem phys_sin_doble_entrega:
  assumes "phys_ok s" and "f \<in> fst (paso_phys x s)" and "\<forall>y \<in> set ops. f \<notin> devuelve_phys y"
  shows "\<forall>d \<in> set (fst (corre paso_phys ops (snd (paso_phys x s)))). f \<notin> d"
proof -
  have "f \<notin> devuelve_phys x"
    using assms(2) by (cases x) auto
  then show ?thesis
    using marcos.no_repite [OF assms(1,2) _ assms(3)] by blast
qed

theorem phys_sin_doble_entrega_witness:
  "\<exists>f. f \<in> fst (paso_phys PAlloc phys_prueba) \<and>
     (\<forall>d \<in> set (fst (corre paso_phys [PContig 4, PFree 7 0x1000, PAllocDe Tabla]
        (snd (paso_phys PAlloc phys_prueba)))). f \<notin> d)"
proof -
  have "0x200 \<in> libres_de phys_prueba" and bajo: "\<forall>f \<in> libres_de phys_prueba. 0x100 \<le> f"
    using init_phys_libres [OF phys_prueba_init]
    by (simp_all add: phys_bss_def titular_inicial_ok reservas_prueba)
      (simp_all add: ctx_prueba_def usables_iff reservados_iff MARCOS_def)
  then have "fst (alloc_frame phys_prueba) \<noteq> None"
    using alloc_frame_None [OF phys_prueba_ok] by (auto simp: libres_de_def)
  then obtain a where a: "fst (alloc_frame phys_prueba) = Some a"
    by blast
  from alloc_frame_Some [OF phys_prueba_ok a] obtain f where
    f: "f \<in> libres (bitmap phys_prueba)" "a = of_nat f * PAGE"
    by metis
  have "unat (a div PAGE) = f"
    using f by (simp add: dir_div libres_def)
  then have "f \<in> fst (paso_phys PAlloc phys_prueba)"
    by (simp add: case_prod_beta a marcos_de_def)
  moreover have "indice_marco 0x1000 = Some 1" "f \<noteq> 1"
    using bajo f(1) by (auto simp: indice_marco_def PAGE_def PHYSMAP_SIZE_def libres_de_def)
  ultimately show ?thesis
    using phys_sin_doble_entrega [OF phys_prueba_ok, of f PAlloc
        "[PContig 4, PFree 7 0x1000, PAllocDe Tabla]"] by auto
qed

text \<open>
  The counter of free frames never drifts. Through any history of requests and returns,
  double returns and returns of what is not a frame included, it is the number of zero bits of
  the bitmap, which is also what counting the bitmap again would give.
\<close>

theorem phys_contador:
  assumes "phys_ok s"
  shows "unat (free_frames (snd (corre paso_phys ops s)))
      = card {f. f < MARCOS \<and> marco_libre (bitmap (snd (corre paso_phys ops s))) f} \<and>
    contar_de_nuevo (snd (corre paso_phys ops s)) = free_frames (snd (corre paso_phys ops s))"
  using marcos.corre_inv [OF assms, of ops] contar_de_nuevo_libres [of "snd (corre paso_phys ops s)"]
  by (simp add: phys_ok_def libres_def word_unat_eq_iff)

theorem phys_contador_witness:
  "contar_de_nuevo (snd (corre paso_phys [PAlloc, PFree 1 0x5000, PFree 2 0x5000] phys_prueba))
     = free_frames (snd (corre paso_phys [PAlloc, PFree 1 0x5000, PFree 2 0x5000] phys_prueba))"
  using phys_contador [OF phys_prueba_ok] by blast

end
