(* ===== verification/Vmm.thy ===== *)
theory Vmm
  imports Phys
begin

text \<open>
  \<open>kernel/src/ring0/mm/vmm\<close>: four-level page tables. \<open>verde.rs\<close> reads them, \<open>amarilla.rs\<close> maps and
  unmaps one page, \<open>roja.rs\<close> makes and destroys address spaces.

  \<open>memoria a i\<close> is the \<open>i\<close>-th 64-bit word of the frame at physical address \<open>a\<close>: what
  \<open>table(a)[i]\<close> reads through the mirror. An index is nine bits of an address, so it is always
  below 512. The flush of the translation cache (\<open>invlpg\<close>, the write to CR3) is left out, and
  \<open>nx\<close> is what the processor answers when asked for the no-execute bit.
\<close>

section \<open>Entries\<close>

definition PTE_PRESENT :: u64 where "PTE_PRESENT = 1"
definition PTE_WRITABLE :: u64 where "PTE_WRITABLE = 2"
definition PTE_USER :: u64 where "PTE_USER = 4"
definition PTE_HUGE :: u64 where "PTE_HUGE = 0x80"
definition PTE_PAT_4K :: u64 where "PTE_PAT_4K = 0x80"
definition PTE_NUESTRA :: u64 where "PTE_NUESTRA = 0x200"
definition PTE_NX :: u64 where "PTE_NX = 0x8000000000000000"
definition ADDR_MASK :: u64 where "ADDR_MASK = 0x000FFFFFFFFFF000"

definition USER_IMAGE_BASE :: u64 where "USER_IMAGE_BASE = 0x40000000"
definition USER_STACK_TOP :: u64 where "USER_STACK_TOP = 0x80000000"
definition USER_STACK_SIZE :: u64 where "USER_STACK_SIZE = 0x10000"
definition USER_STACK_BOTTOM :: u64 where "USER_STACK_BOTTOM = USER_STACK_TOP - USER_STACK_SIZE"
definition CHANNEL_VA_BASE :: u64 where "CHANNEL_VA_BASE = 0xC0000000"
definition FRAMEBUFFER_VA_BASE :: u64 where "FRAMEBUFFER_VA_BASE = 0xD0000000"
definition MEMORIA_VA_BASE :: u64 where "MEMORIA_VA_BASE = 0xE0000000"

record vmm_st =
  memoria :: "u64 \<Rightarrow> nat \<Rightarrow> u64"
  fisico :: phys_st
  nx :: bool
  kernel_pml4 :: u64
  kernel_half_holes :: u32

definition presente :: "u64 \<Rightarrow> bool" where "presente e \<longleftrightarrow> e AND PTE_PRESENT \<noteq> 0"
definition enorme :: "u64 \<Rightarrow> bool" where "enorme e \<longleftrightarrow> e AND PTE_HUGE \<noteq> 0"

definition i4_de :: "u64 \<Rightarrow> nat" where "i4_de va = unat (drop_bit 39 va AND 0x1FF)"
definition i3_de :: "u64 \<Rightarrow> nat" where "i3_de va = unat (drop_bit 30 va AND 0x1FF)"
definition i2_de :: "u64 \<Rightarrow> nat" where "i2_de va = unat (drop_bit 21 va AND 0x1FF)"
definition i1_de :: "u64 \<Rightarrow> nat" where "i1_de va = unat (drop_bit 12 va AND 0x1FF)"

section \<open>Reading (verde.rs)\<close>

definition translate :: "vmm_st \<Rightarrow> u64 \<Rightarrow> u64 \<Rightarrow> u64 option" where
  "translate s pml4 va =
    (let e4 = memoria s pml4 (i4_de va) in
     if \<not> presente e4 then None
     else let e3 = memoria s (e4 AND ADDR_MASK) (i3_de va) in
     if \<not> presente e3 then None
     else if enorme e3 then Some ((e3 AND 0x000FFFFFC0000000) + (va AND 0x3FFFFFFF))
     else let e2 = memoria s (e3 AND ADDR_MASK) (i2_de va) in
     if \<not> presente e2 then None
     else if enorme e2 then Some ((e2 AND 0x000FFFFFFFE00000) + (va AND 0x1FFFFF))
     else let e1 = memoria s (e2 AND ADDR_MASK) (i1_de va) in
     if \<not> presente e1 then None
     else Some (e1 AND ADDR_MASK))"

definition fisica_exacta :: "vmm_st \<Rightarrow> u64 \<Rightarrow> u64 \<Rightarrow> u64 option" where
  "fisica_exacta s pml4 va =
    (let e4 = memoria s pml4 (i4_de va) in
     if \<not> presente e4 then None
     else let e3 = memoria s (e4 AND ADDR_MASK) (i3_de va) in
     if \<not> presente e3 then None
     else if enorme e3 then Some ((e3 AND 0x000FFFFFC0000000) + (va AND 0x3FFFFFFF))
     else let e2 = memoria s (e3 AND ADDR_MASK) (i2_de va) in
     if \<not> presente e2 then None
     else if enorme e2 then Some ((e2 AND 0x000FFFFFFFE00000) + (va AND 0x1FFFFF))
     else let e1 = memoria s (e2 AND ADDR_MASK) (i1_de va) in
     if \<not> presente e1 then None
     else Some ((e1 AND ADDR_MASK) + (va AND (PAGE - 1))))"

section \<open>Mapping (amarilla.rs)\<close>

text \<open>\<open>zero_frame\<close> on the words of a frame.\<close>

definition borra_marco :: "u64 \<Rightarrow> vmm_st \<Rightarrow> vmm_st" where
  "borra_marco f s =
    (if f mod PAGE \<noteq> 0 \<or> \<not> se_puede (se_puede_caminar f PHYSMAP_SIZE) then s
     else s\<lparr>memoria := (memoria s)(f := (\<lambda>_. 0))\<rparr>)"

definition escribe :: "u64 \<Rightarrow> nat \<Rightarrow> u64 \<Rightarrow> vmm_st \<Rightarrow> vmm_st" where
  "escribe a i e s = s\<lparr>memoria := (memoria s)(a := (memoria s a)(i := e))\<rparr>"

definition get_or_create :: "u64 \<Rightarrow> nat \<Rightarrow> u64 \<Rightarrow> vmm_st \<Rightarrow> u64 option \<times> vmm_st" where
  "get_or_create t i flags s =
    (let e = memoria s t i in
     if presente e then
       (if enorme e then (None, s) else (Some (e AND ADDR_MASK), s))
     else case alloc_frame_de Tabla (fisico s) of
       (None, p) \<Rightarrow> (None, s\<lparr>fisico := p\<rparr>)
     | (Some f, p) \<Rightarrow>
         (Some f, escribe t i ((f AND ADDR_MASK) OR flags) (borra_marco f (s\<lparr>fisico := p\<rparr>))))"

definition entrada_hoja :: "u64 \<Rightarrow> bool \<Rightarrow> bool \<Rightarrow> bool \<Rightarrow> bool \<Rightarrow> bool \<Rightarrow> bool \<Rightarrow> u64" where
  "entrada_hoja pa user writable ejecutable combinar nuestra hay_nx =
     (pa AND ADDR_MASK) OR PTE_PRESENT OR
     (if writable then PTE_WRITABLE else 0) OR
     (if user then PTE_USER else 0) OR
     (if combinar then PTE_PAT_4K else 0) OR
     (if nuestra then PTE_NUESTRA else 0) OR
     (if \<not> ejecutable \<and> hay_nx then PTE_NX else 0)"

text \<open>\<open>Ok(())\<close> is \<^const>\<open>True\<close>.\<close>

definition map_page_tipo ::
  "u64 \<Rightarrow> u64 \<Rightarrow> u64 \<Rightarrow> bool \<Rightarrow> bool \<Rightarrow> bool \<Rightarrow> bool \<Rightarrow> bool \<Rightarrow> vmm_st \<Rightarrow> bool \<times> vmm_st" where
  "map_page_tipo pml4 va pa user writable ejecutable combinar nuestra s =
    (if va mod PAGE \<noteq> 0 \<or> pa mod PAGE \<noteq> 0 then (False, s)
     else
       let mid = PTE_PRESENT OR PTE_WRITABLE OR (if user then PTE_USER else 0) in
       case get_or_create pml4 (i4_de va) mid s of
         (None, s1) \<Rightarrow> (False, s1)
       | (Some pdpt, s1) \<Rightarrow>
        (case get_or_create pdpt (i3_de va) mid s1 of
           (None, s2) \<Rightarrow> (False, s2)
         | (Some pd, s2) \<Rightarrow>
          (case get_or_create pd (i2_de va) mid s2 of
             (None, s3) \<Rightarrow> (False, s3)
           | (Some pt, s3) \<Rightarrow>
               (True, escribe pt (i1_de va)
                 (entrada_hoja pa user writable ejecutable combinar nuestra (nx s3)) s3))))"

datatype permiso_imagen = Codigo | Constantes | Datos

definition map_page_imagen :: "u64 \<Rightarrow> u64 \<Rightarrow> u64 \<Rightarrow> permiso_imagen \<Rightarrow> vmm_st \<Rightarrow> bool \<times> vmm_st" where
  "map_page_imagen pml4 va pa permiso =
    (let (escribible, ejecutable) =
       (case permiso of Codigo \<Rightarrow> (False, True) | Constantes \<Rightarrow> (False, False) | Datos \<Rightarrow> (True, False))
     in map_page_tipo pml4 va pa True escribible ejecutable False True)"

definition map_page :: "u64 \<Rightarrow> u64 \<Rightarrow> u64 \<Rightarrow> bool \<Rightarrow> bool \<Rightarrow> vmm_st \<Rightarrow> bool \<times> vmm_st" where
  "map_page pml4 va pa user writable =
     map_page_tipo pml4 va pa user writable (\<not> writable) False False"

definition map_page_propia :: "u64 \<Rightarrow> u64 \<Rightarrow> u64 \<Rightarrow> bool \<Rightarrow> bool \<Rightarrow> vmm_st \<Rightarrow> bool \<times> vmm_st" where
  "map_page_propia pml4 va pa user writable =
     map_page_tipo pml4 va pa user writable (\<not> writable) False True"

definition map_page_wc :: "u64 \<Rightarrow> u64 \<Rightarrow> u64 \<Rightarrow> bool \<Rightarrow> bool \<Rightarrow> vmm_st \<Rightarrow> bool \<times> vmm_st" where
  "map_page_wc pml4 va pa user writable =
     map_page_tipo pml4 va pa user writable (\<not> writable) True False"

definition unmap_page :: "u64 \<Rightarrow> u64 \<Rightarrow> vmm_st \<Rightarrow> u64 option \<times> vmm_st" where
  "unmap_page pml4 va s =
    (let e4 = memoria s pml4 (i4_de va) in
     if \<not> presente e4 \<or> enorme e4 then (None, s)
     else let e3 = memoria s (e4 AND ADDR_MASK) (i3_de va) in
     if \<not> presente e3 \<or> enorme e3 then (None, s)
     else let e2 = memoria s (e3 AND ADDR_MASK) (i2_de va) in
     if \<not> presente e2 \<or> enorme e2 then (None, s)
     else let e1 = memoria s (e2 AND ADDR_MASK) (i1_de va) in
     if \<not> presente e1 then (None, s)
     else (Some (e1 AND ADDR_MASK), escribe (e2 AND ADDR_MASK) (i1_de va) 0 s))"

section \<open>Address spaces (roja.rs)\<close>

fun copia_entradas :: "u64 \<Rightarrow> u64 \<Rightarrow> nat list \<Rightarrow> vmm_st \<Rightarrow> vmm_st" where
  "copia_entradas desde hasta [] s = s"
| "copia_entradas desde hasta (i # is) s =
     copia_entradas desde hasta is (escribe hasta i (memoria s desde i) s)"

text \<open>The clock is for the ledger of double frees, should the frame given back be free already.\<close>

definition new_address_space :: "u64 \<Rightarrow> vmm_st \<Rightarrow> u64 option \<times> vmm_st" where
  "new_address_space tick s =
    (case alloc_frame_de Tabla (fisico s) of
       (None, p) \<Rightarrow> (None, s\<lparr>fisico := p\<rparr>)
     | (Some pml4, p) \<Rightarrow>
        (case alloc_frame_de Tabla p of
           (None, p1) \<Rightarrow> (None, s\<lparr>fisico := snd (free_frame_de tick pml4 Tabla p1)\<rparr>)
         | (Some pdpt, p1) \<Rightarrow>
             let s1 = borra_marco pdpt (borra_marco pml4 (s\<lparr>fisico := p1\<rparr>));
                 s2 = copia_entradas (kernel_pml4 s1) pml4 [256..<512] s1;
                 s3 = escribe pml4 0 (pdpt OR PTE_PRESENT OR PTE_WRITABLE OR PTE_USER) s2;
                 kernel_pdpt = memoria s3 (kernel_pml4 s3) 0 AND ADDR_MASK;
                 s4 = escribe pdpt 0 (memoria s3 kernel_pdpt 0) s3
             in (Some pml4, s4)))"

fun rellena_kernel :: "u64 \<Rightarrow> nat list \<Rightarrow> vmm_st \<Rightarrow> vmm_st" where
  "rellena_kernel k [] s = s"
| "rellena_kernel k (i # is) s =
    (if \<not> presente (memoria s k i)
     then case alloc_frame_de Tabla (fisico s) of
            (Some f, p) \<Rightarrow>
              rellena_kernel k is
                (escribe k i ((f AND ADDR_MASK) OR PTE_PRESENT OR PTE_WRITABLE)
                  (borra_marco f (s\<lparr>fisico := p\<rparr>)))
          | (None, p) \<Rightarrow>
              rellena_kernel k is (s\<lparr>fisico := p, kernel_half_holes := kernel_half_holes s + 1\<rparr>)
     else rellena_kernel k is s)"

text \<open>\<open>init\<close>: \<open>cr3\<close> is what the register holds when the kernel starts.\<close>

definition init_vmm :: "u64 \<Rightarrow> vmm_st \<Rightarrow> vmm_st" where
  "init_vmm cr3 s =
    (let k = cr3 AND ADDR_MASK in rellena_kernel k [256..<512] (s\<lparr>kernel_pml4 := k\<rparr>))"

definition caminable :: "u64 \<Rightarrow> bool" where
  "caminable fisica \<longleftrightarrow> se_puede (se_puede_caminar fisica PHYSMAP_SIZE)"

definition es_tabla :: "u64 \<Rightarrow> vmm_st \<Rightarrow> bool" where
  "es_tabla f s =
    (let q = titular_de f (duenos (fisico s)) in q = Tabla \<or> q = Anonimo)"

definition suelta_tabla :: "u64 \<Rightarrow> u64 \<Rightarrow> vmm_st \<Rightarrow> vmm_st" where
  "suelta_tabla tick f s = s\<lparr>fisico := snd (free_frame_de tick f Tabla (fisico s))\<rparr>"

text \<open>\<open>destroy_address_space\<close>, level by level; the pair counts leaves and tables given back.\<close>

fun destruye_hojas :: "u64 \<Rightarrow> u64 \<Rightarrow> nat list \<Rightarrow> (u64 \<times> u64) \<times> vmm_st \<Rightarrow> (u64 \<times> u64) \<times> vmm_st" where
  "destruye_hojas tick pt [] cs = cs"
| "destruye_hojas tick pt (i # is) ((hojas, tablas), s) =
    (let hoja = memoria s pt i; marco = hoja AND ADDR_MASK in
     if \<not> presente hoja \<or> hoja AND PTE_NUESTRA = 0 then destruye_hojas tick pt is ((hojas, tablas), s)
     else if \<not> caminable marco then destruye_hojas tick pt is ((hojas, tablas), s)
     else if esta_libre marco (fisico s) = Some True then destruye_hojas tick pt is ((hojas, tablas), s)
     else let s1 = borra_marco marco s;
              s2 = s1\<lparr>fisico := free_frame tick marco (fisico s1)\<rparr>
          in destruye_hojas tick pt is ((hojas + 1, tablas), s2))"

definition salta_tabla :: "u64 \<Rightarrow> vmm_st \<Rightarrow> bool" where
  "salta_tabla f s \<longleftrightarrow> \<not> caminable f \<or> esta_libre f (fisico s) = Some True \<or> \<not> es_tabla f s"

fun destruye_pd :: "u64 \<Rightarrow> u64 \<Rightarrow> nat list \<Rightarrow> (u64 \<times> u64) \<times> vmm_st \<Rightarrow> (u64 \<times> u64) \<times> vmm_st" where
  "destruye_pd tick pd [] cs = cs"
| "destruye_pd tick pd (i # is) ((hojas, tablas), s) =
    (let e = memoria s pd i; pt = e AND ADDR_MASK in
     if \<not> presente e \<or> enorme e \<or> salta_tabla pt s then destruye_pd tick pd is ((hojas, tablas), s)
     else let ((h, t), s1) = destruye_hojas tick pt [0..<512] ((hojas, tablas), s) in
       destruye_pd tick pd is ((h, t + 1), suelta_tabla tick pt s1))"

fun destruye_pdpt :: "u64 \<Rightarrow> u64 \<Rightarrow> nat list \<Rightarrow> (u64 \<times> u64) \<times> vmm_st \<Rightarrow> (u64 \<times> u64) \<times> vmm_st" where
  "destruye_pdpt tick pdpt [] cs = cs"
| "destruye_pdpt tick pdpt (i # is) ((hojas, tablas), s) =
    (let e = memoria s pdpt i; pd = e AND ADDR_MASK in
     if \<not> presente e \<or> enorme e \<or> salta_tabla pd s then destruye_pdpt tick pdpt is ((hojas, tablas), s)
     else let ((h, t), s1) = destruye_pd tick pd [0..<512] ((hojas, tablas), s) in
       destruye_pdpt tick pdpt is ((h, t + 1), suelta_tabla tick pd s1))"

definition destroy_address_space :: "u64 \<Rightarrow> u64 \<Rightarrow> vmm_st \<Rightarrow> (u64 \<times> u64) \<times> vmm_st" where
  "destroy_address_space tick pml4 s =
    (if esta_libre pml4 (fisico s) = Some True \<or> \<not> caminable pml4 then ((0, 0), s)
     else
       let e0 = memoria s pml4 0; pdpt = e0 AND ADDR_MASK in
       if presente e0 then
         if salta_tabla pdpt s then ((0, 0), s)
         else
           let ((h, t), s1) = destruye_pdpt tick pdpt [1..<512] ((0, 0), s) in
           ((h, t + 2), suelta_tabla tick pml4 (suelta_tabla tick pdpt s1))
       else ((0, 1), suelta_tabla tick pml4 s))"

end
