(* ===== verification/Espacios.thy ===== *)
theory Espacios
  imports Vmm
begin

text \<open>
  What the page tables of the user half guarantee: the tables of the address spaces form a
  forest of taken frames that no two paths share, so mapping a page gives that page and
  changes no other page of any space.
\<close>

section \<open>Bits of an entry\<close>

lemma ADDR_MASK_eq: "ADDR_MASK = push_bit 12 (mask 40)"
  by (simp add: ADDR_MASK_def mask_eq_exp_minus_1)

lemma pte_eqs:
  "PTE_PRESENT = 2 ^ 0" "PTE_WRITABLE = 2 ^ 1" "PTE_USER = 2 ^ 2" "PTE_HUGE = 2 ^ 7"
  "PTE_PAT_4K = 2 ^ 7" "PTE_NUESTRA = 2 ^ 9" "PTE_NX = 2 ^ 63"
  by (simp_all add: PTE_PRESENT_def PTE_WRITABLE_def PTE_USER_def PTE_HUGE_def PTE_PAT_4K_def
      PTE_NUESTRA_def PTE_NX_def)

lemma pte_bits:
  "bit PTE_PRESENT k \<longleftrightarrow> k = 0" "bit PTE_WRITABLE k \<longleftrightarrow> k = 1" "bit PTE_USER k \<longleftrightarrow> k = 2"
  "bit PTE_HUGE k \<longleftrightarrow> k = 7" "bit PTE_PAT_4K k \<longleftrightarrow> k = 7" "bit PTE_NUESTRA k \<longleftrightarrow> k = 9"
  "bit PTE_NX k \<longleftrightarrow> k = 63"
  unfolding pte_eqs by (auto simp only: bit_exp_iff possible_bit_word len_bit0 len_num1)

lemma ADDR_MASK_bit: "bit ADDR_MASK k \<longleftrightarrow> 12 \<le> k \<and> k < 52"
  by (auto simp: ADDR_MASK_eq bit_simps)

lemma bit_if_0: "bit (if b then x else 0) k \<longleftrightarrow> b \<and> bit x k"
  by simp

lemma and_power_bit: "e AND 2 ^ n \<noteq> 0 \<longleftrightarrow> n < LENGTH('a) \<and> bit e n" for e :: "'a::len word"
  using bit_iff_and_push_bit_not_eq_0 [of e n] bit_imp_le_length [of e n] by (auto simp: push_bit_eq_mult)

lemma presente_bit: "presente e \<longleftrightarrow> bit e 0"
  unfolding presente_def pte_eqs and_power_bit by simp

lemma enorme_bit: "enorme e \<longleftrightarrow> bit e 7"
  unfolding enorme_def pte_eqs and_power_bit by simp

lemmas bits_pte = ADDR_MASK_bit pte_bits presente_bit enorme_bit bit_if_0 bit_and_iff bit_or_iff

lemma presente_0 [simp]: "\<not> presente 0"
  by (simp add: presente_bit)

text \<open>The address of a frame of the mirror.\<close>

lemma marco_bit:
  assumes "indice_marco f = Some n" "bit f k"
  shows "12 \<le> k \<and> k < 34"
proof
  have n: "n < MARCOS" "f = of_nat n * PAGE"
    using assms(1) indice_marco_less indice_marco_dir_of by blast+
  have "f = push_bit 12 (of_nat n)"
    by (simp add: n(2) PAGE_def push_bit_eq_mult)
  then show "12 \<le> k"
    using assms(2) by (simp add: bit_push_bit_iff)
  have "unat f < 2 ^ 34"
    using assms(1) by (simp add: indice_marco_Some_iff MARCOS_def)
  then have "take_bit 34 f = f"
    by (simp add: word_unat_eq_iff take_bit_eq_mod unat_mod)
  then show "k < 34"
    using assms(2) by (metis bit_take_bit_iff)
qed

lemma marco_mask: "indice_marco f = Some n \<Longrightarrow> f AND ADDR_MASK = f"
  by (rule bit_word_eqI) (auto simp: bits_pte dest: marco_bit)

definition mid_flags :: "bool \<Rightarrow> u64" where
  "mid_flags user = PTE_PRESENT OR PTE_WRITABLE OR (if user then PTE_USER else 0)"

lemma mid_flags_bit: "bit (mid_flags user) k \<Longrightarrow> k < 3"
  by (auto simp: mid_flags_def bits_pte)

lemma enlace_mask:
  "indice_marco f = Some n \<Longrightarrow> ((f AND ADDR_MASK) OR mid_flags user) AND ADDR_MASK = f"
  by (rule bit_word_eqI) (auto simp: bits_pte dest: marco_bit mid_flags_bit)

lemma enlace_presente: "presente ((f AND ADDR_MASK) OR mid_flags user)"
  by (simp add: mid_flags_def bits_pte)

lemma enlace_no_enorme: "indice_marco f = Some n \<Longrightarrow> \<not> enorme ((f AND ADDR_MASK) OR mid_flags user)"
  by (auto simp: bits_pte dest: marco_bit mid_flags_bit)

lemma entrada_hoja_mask: "entrada_hoja pa u w x c n h AND ADDR_MASK = pa AND ADDR_MASK"
  by (rule bit_word_eqI) (auto simp: entrada_hoja_def bits_pte)

lemma entrada_hoja_presente: "presente (entrada_hoja pa u w x c n h)"
  by (simp add: entrada_hoja_def bits_pte)

section \<open>Walks\<close>

type_synonym mem = "u64 \<Rightarrow> nat \<Rightarrow> u64"

text \<open>The table reached from \<open>a\<close> by the indices of a path.\<close>

fun nodo :: "mem \<Rightarrow> u64 \<Rightarrow> nat list \<Rightarrow> u64 option" where
  "nodo m a [] = Some a"
| "nodo m a (i # is) =
    (if presente (m a i) \<and> \<not> enorme (m a i) then nodo m (m a i AND ADDR_MASK) is else None)"

definition entrada :: "mem \<Rightarrow> u64 \<Rightarrow> nat list \<Rightarrow> nat \<Rightarrow> u64" where
  "entrada m r p i = (case nodo m r p of Some a \<Rightarrow> m a i | None \<Rightarrow> 0)"

lemma nodo_snoc:
  "nodo m a (p @ [i]) =
    (if presente (entrada m a p i) \<and> \<not> enorme (entrada m a p i)
     then Some (entrada m a p i AND ADDR_MASK) else None)"
  by (induction p arbitrary: a) (simp_all add: entrada_def)

lemma nodo_append_None: "nodo m a p = None \<Longrightarrow> nodo m a (p @ q) = None"
  by (induction p arbitrary: a) (auto split: if_splits)

text \<open>The paths of the user half: entry 0 of the root, then entries from 1 on.\<close>

fun camino :: "nat list \<Rightarrow> bool" where
  "camino [] = True"
| "camino [x] \<longleftrightarrow> x = 0"
| "camino [x, y] \<longleftrightarrow> x = 0 \<and> 1 \<le> y"
| "camino [x, y, z] \<longleftrightarrow> x = 0 \<and> 1 \<le> y"
| "camino _ = False"

lemma camino_prefix: "camino (p @ q) \<Longrightarrow> camino p"
proof -
  assume c: "camino (p @ q)"
  then have "length (p @ q) \<le> 3"
    by (cases "p @ q" rule: camino.cases) auto
  then show ?thesis
    using c by (cases p rule: camino.cases) (cases q rule: camino.cases; auto)+
qed

definition tomado :: "vmm_st \<Rightarrow> u64 \<Rightarrow> bool" where
  "tomado s a \<longleftrightarrow> (\<exists>f. indice_marco a = Some f \<and> f \<noteq> 0 \<and> f \<notin> libres_de (fisico s))"

definition espacios_ok :: "vmm_st \<Rightarrow> u64 set \<Rightarrow> bool" where
  "espacios_ok s R \<longleftrightarrow>
     phys_ok (fisico s) \<and> 0 \<notin> libres_de (fisico s) \<and>
     (\<forall>r \<in> R. \<not> enorme (memoria s r 0)) \<and>
     (\<forall>r \<in> R. \<forall>p a. camino p \<longrightarrow> nodo (memoria s) r p = Some a \<longrightarrow> tomado s a) \<and>
     (\<forall>r \<in> R. \<forall>r' \<in> R. \<forall>p q a. camino p \<longrightarrow> camino q \<longrightarrow>
        nodo (memoria s) r p = Some a \<longrightarrow> nodo (memoria s) r' q = Some a \<longrightarrow> r = r' \<and> p = q)"

lemma espacios_okD:
  assumes "espacios_ok s R"
  shows "phys_ok (fisico s)" "0 \<notin> libres_de (fisico s)" "r \<in> R \<Longrightarrow> \<not> enorme (memoria s r 0)"
    "r \<in> R \<Longrightarrow> camino p \<Longrightarrow> nodo (memoria s) r p = Some a \<Longrightarrow> tomado s a"
    "r \<in> R \<Longrightarrow> r' \<in> R \<Longrightarrow> camino p \<Longrightarrow> camino q \<Longrightarrow> nodo (memoria s) r p = Some a \<Longrightarrow>
       nodo (memoria s) r' q = Some a \<Longrightarrow> r = r' \<and> p = q"
  using assms unfolding espacios_ok_def by blast+

section \<open>Writes\<close>

text \<open>A write to a frame that is no table of these spaces changes no walk.\<close>

lemma nodo_fuera:
  assumes "\<And>p b. camino p \<Longrightarrow> nodo m r p = Some b \<Longrightarrow> b \<noteq> f" and "camino q"
  shows "nodo (m(f := g)) r q = nodo m r q"
  using assms(2)
proof (induction q rule: rev_induct)
  case (snoc j q)
  have c: "camino q"
    using snoc.prems by (rule camino_prefix)
  have "entrada (m(f := g)) r q j = entrada m r q j"
    unfolding entrada_def snoc.IH [OF c] using assms(1) [OF c] by (simp split: option.split)
  then show ?case
    by (simp only: nodo_snoc)
qed simp

text \<open>A write to entry \<open>i\<close> of the table at \<open>p\<close> changes only the walks that go through it.\<close>

lemma nodo_escribe:
  assumes inj: "\<And>q'. camino q' \<Longrightarrow> nodo m r' q' = Some a \<Longrightarrow> r' = r \<and> q' = p"
    and "camino q" and "\<not> (r' = r \<and> (\<exists>t. q = p @ [i] @ t))"
  shows "nodo (m(a := (m a)(i := e))) r' q = nodo m r' q"
  using assms(2,3)
proof (induction q rule: rev_induct)
  case (snoc j q)
  have c: "camino q"
    using snoc.prems(1) by (rule camino_prefix)
  have "\<not> (r' = r \<and> (\<exists>t. q = p @ [i] @ t))"
    using snoc.prems(2) by auto
  then have IH: "nodo (m(a := (m a)(i := e))) r' q = nodo m r' q"
    using snoc.IH c by blast
  have "entrada (m(a := (m a)(i := e))) r' q j = entrada m r' q j"
  proof (cases "nodo m r' q = Some a \<and> j = i")
    case True
    then have "r' = r \<and> q = p"
      using inj [OF c] by blast
    then show ?thesis
      using snoc.prems(2) True by auto
  next
    case False
    then show ?thesis
      unfolding entrada_def IH by (auto split: option.split)
  qed
  then show ?case
    by (simp only: nodo_snoc)
qed simp

section \<open>Translation as a function of four entries\<close>

definition trad :: "u64 \<Rightarrow> u64 \<Rightarrow> u64 \<Rightarrow> u64 \<Rightarrow> u64 \<Rightarrow> u64 option" where
  "trad va e4 e3 e2 e1 =
    (if \<not> presente e4 then None
     else if \<not> presente e3 then None
     else if enorme e3 then Some ((e3 AND 0x000FFFFFC0000000) + (va AND 0x3FFFFFFF))
     else if \<not> presente e2 then None
     else if enorme e2 then Some ((e2 AND 0x000FFFFFFFE00000) + (va AND 0x1FFFFF))
     else if \<not> presente e1 then None
     else Some (e1 AND ADDR_MASK))"

definition pagina_de :: "u64 \<Rightarrow> nat list" where
  "pagina_de va = [i4_de va, i3_de va, i2_de va, i1_de va]"

definition va_usuario :: "u64 \<Rightarrow> bool" where
  "va_usuario va \<longleftrightarrow> i4_de va = 0 \<and> 1 \<le> i3_de va"

text \<open>The entry read at level \<open>n\<close> of the walk for \<open>va\<close>.\<close>

definition nivel :: "mem \<Rightarrow> u64 \<Rightarrow> u64 \<Rightarrow> nat \<Rightarrow> u64" where
  "nivel m r va n = entrada m r (take n (pagina_de va)) (pagina_de va ! n)"

lemma camino_take: "va_usuario va \<Longrightarrow> n \<le> 3 \<Longrightarrow> camino (take n (pagina_de va))"
  by (cases n rule: nat.exhaust; simp add: pagina_de_def va_usuario_def numeral_eq_Suc)
    (auto simp: take_Cons' va_usuario_def le_Suc_eq)

lemma translate_trad:
  assumes "\<not> enorme (memoria s r 0)" "va_usuario va"
  shows "translate s r va = trad va (nivel (memoria s) r va 0) (nivel (memoria s) r va 1)
    (nivel (memoria s) r va 2) (nivel (memoria s) r va 3)"
  using assms
  by (simp add: translate_def trad_def nivel_def pagina_de_def entrada_def va_usuario_def Let_def
      numeral_eq_Suc)

text \<open>A walk that meets an absent entry translates nothing.\<close>

lemma translate_ausente:
  assumes "k \<le> 3" "nodo (memoria s) r (take k (pagina_de va)) = Some a"
    and "\<not> presente (memoria s a (pagina_de va ! k))"
  shows "translate s r va = None"
proof -
  consider "k = 0" | "k = 1" | "k = 2" | "k = 3"
    using assms(1) by linarith
  then show ?thesis
    by cases (use assms(2,3) in \<open>auto simp: translate_def Let_def pagina_de_def numeral_eq_Suc
        split: if_splits\<close>)
qed

lemma translate_cong:
  assumes "\<not> enorme (memoria s r 0)" "\<not> enorme (memoria s' r 0)" "va_usuario va"
    and "\<And>k. k \<le> 3 \<Longrightarrow> nivel (memoria s') r va k = nivel (memoria s) r va k"
  shows "translate s' r va = translate s r va"
  using assms by (simp add: translate_trad)

lemma tomado_no_libre:
  "tomado s a \<Longrightarrow> indice_marco f = Some n \<Longrightarrow> n \<in> libres_de (fisico s) \<Longrightarrow> a \<noteq> f"
  by (auto simp: tomado_def)

section \<open>A new table\<close>

text \<open>The state after \<open>get_or_create\<close> made a table at \<open>f\<close> for entry \<open>i\<close> of the table \<open>a\<close>.\<close>

definition enlazado :: "u64 \<Rightarrow> nat \<Rightarrow> u64 \<Rightarrow> bool \<Rightarrow> phys_st \<Rightarrow> vmm_st \<Rightarrow> vmm_st" where
  "enlazado a i f u ph s =
     s\<lparr>fisico := ph,
       memoria := ((memoria s)(f := (\<lambda>_. 0)))(a := (((memoria s)(f := (\<lambda>_. 0))) a)
         (i := (f AND ADDR_MASK) OR mid_flags u))\<rparr>"

lemma enlazado_campos [simp]:
  "nx (enlazado a i f u ph s) = nx s" "fisico (enlazado a i f u ph s) = ph"
  by (simp_all add: enlazado_def)

lemma borra_marco_enlazado:
  assumes "indice_marco f = Some n" "n \<noteq> 0"
  shows "escribe a i ((f AND ADDR_MASK) OR mid_flags u) (borra_marco f (s\<lparr>fisico := ph\<rparr>))
    = enlazado a i f u ph s"
proof -
  have "f mod PAGE = 0" "f < PHYSMAP_SIZE"
    using assms(1) by (auto simp: indice_marco_def not_le split: if_splits)
  moreover have "f \<noteq> 0"
    using assms by (auto simp: indice_marco_Some_iff)
  ultimately show ?thesis
    by (simp add: escribe_def borra_marco_def enlazado_def)
qed

text \<open>When it happens: \<open>a\<close> is the table at the path \<open>p\<close> of a space \<open>r\<close>, its entry \<open>i\<close> is empty, and
  \<open>f\<close> is the free frame the allocator gave.\<close>

definition enlace ::
  "vmm_st \<Rightarrow> u64 set \<Rightarrow> u64 \<Rightarrow> u64 \<Rightarrow> u64 \<Rightarrow> nat list \<Rightarrow> nat \<Rightarrow> nat \<Rightarrow> phys_st \<Rightarrow> bool" where
  "enlace s R r a f p i n ph \<longleftrightarrow>
     espacios_ok s R \<and> r \<in> R \<and> camino (p @ [i]) \<and>
     nodo (memoria s) r p = Some a \<and> \<not> presente (memoria s a i) \<and>
     indice_marco f = Some n \<and> n \<in> libres_de (fisico s) \<and>
     phys_ok ph \<and> libres_de ph = libres_de (fisico s) - {n}"

lemma enlaceD:
  assumes "enlace s R r a f p i n ph"
  shows "espacios_ok s R" "r \<in> R" "camino (p @ [i])" "nodo (memoria s) r p = Some a"
    "\<not> presente (memoria s a i)" "indice_marco f = Some n" "n \<in> libres_de (fisico s)"
    "phys_ok ph" "libres_de ph = libres_de (fisico s) - {n}" "camino p"
  using assms camino_prefix [of p "[i]"] unfolding enlace_def by blast+

abbreviation mem_borrada :: "u64 \<Rightarrow> vmm_st \<Rightarrow> mem" where
  "mem_borrada f s \<equiv> (memoria s)(f := (\<lambda>_. 0))"

abbreviation mem_enlazada :: "u64 \<Rightarrow> nat \<Rightarrow> u64 \<Rightarrow> bool \<Rightarrow> phys_st \<Rightarrow> vmm_st \<Rightarrow> mem" where
  "mem_enlazada a i f u ph s \<equiv> memoria (enlazado a i f u ph s)"

lemma mem_enlazada_eq:
  "mem_enlazada a i f u ph s =
     (mem_borrada f s)(a := (mem_borrada f s a)(i := (f AND ADDR_MASK) OR mid_flags u))"
  by (simp add: enlazado_def)

lemma enlace_no_f:
  assumes "enlace s R r a f p i n ph" "r' \<in> R" "camino q" "nodo (memoria s) r' q = Some b"
  shows "b \<noteq> f"
  using espacios_okD(4) [OF enlaceD(1) [OF assms(1)] assms(2-4)]
  by (rule tomado_no_libre) (use enlaceD [OF assms(1)] in blast)+

lemma enlace_a_no_f:
  assumes e: "enlace s R r a f p i n ph"
  shows "a \<noteq> f"
  using enlace_no_f [OF e enlaceD(2) [OF e] enlaceD(10) [OF e] enlaceD(4) [OF e]] .

lemma enlace_borrada:
  assumes "enlace s R r a f p i n ph" "r' \<in> R" "camino q"
  shows "nodo (mem_borrada f s) r' q = nodo (memoria s) r' q"
  using enlace_no_f [OF assms(1,2)] assms(3) by (rule nodo_fuera)

lemma enlace_otro:
  assumes e: "enlace s R r a f p i n ph" and "r' \<in> R" "camino q"
    and "\<not> (r' = r \<and> (\<exists>t. q = p @ [i] @ t))"
  shows "nodo (mem_enlazada a i f u ph s) r' q = nodo (memoria s) r' q"
proof -
  have "nodo (mem_enlazada a i f u ph s) r' q = nodo (mem_borrada f s) r' q"
    unfolding mem_enlazada_eq
  proof (rule nodo_escribe [OF _ assms(3,4)])
    fix q'
    assume "camino q'" "nodo (mem_borrada f s) r' q' = Some a"
    then show "r' = r \<and> q' = p"
      using espacios_okD(5) [OF enlaceD(1) [OF e] assms(2) enlaceD(2) [OF e] _ enlaceD(10) [OF e]
          _ enlaceD(4) [OF e]] enlace_borrada [OF e assms(2)] by metis
  qed
  then show ?thesis
    using enlace_borrada [OF e] assms by simp
qed

lemma enlace_nodo_p:
  assumes e: "enlace s R r a f p i n ph"
  shows "nodo (mem_enlazada a i f u ph s) r p = Some a"
  using enlace_otro [OF e enlaceD(2) [OF e] enlaceD(10) [OF e]] enlaceD(4) [OF e] by auto

lemma enlace_entradas:
  assumes e: "enlace s R r a f p i n ph"
  shows "mem_enlazada a i f u ph s a i = (f AND ADDR_MASK) OR mid_flags u"
    and "mem_enlazada a i f u ph s f j = 0"
  using enlace_a_no_f [OF e] by (simp_all add: mem_enlazada_eq)

lemma enlace_nuevo:
  assumes e: "enlace s R r a f p i n ph"
  shows "nodo (mem_enlazada a i f u ph s) r (p @ [i]) = Some f"
  unfolding nodo_snoc using enlace_nodo_p [OF e] enlace_entradas(1) [OF e] enlaceD(6) [OF e]
  by (simp add: entrada_def enlace_presente enlace_no_enorme enlace_mask)

lemma enlace_debajo:
  assumes e: "enlace s R r a f p i n ph" and "t \<noteq> []"
  shows "nodo (mem_enlazada a i f u ph s) r (p @ [i] @ t) = None"
proof -
  obtain j t' where t: "t = j # t'"
    using assms(2) by (cases t) auto
  have "nodo (mem_enlazada a i f u ph s) r ((p @ [i]) @ [j]) = None"
    unfolding nodo_snoc [of _ _ "p @ [i]"] using enlace_nuevo [OF e] enlace_entradas(2) [OF e]
    by (simp add: entrada_def)
  then show ?thesis
    using nodo_append_None [of _ r "(p @ [i]) @ [j]" t'] by (simp add: t)
qed

lemma enlace_debajo_antes:
  assumes e: "enlace s R r a f p i n ph"
  shows "nodo (memoria s) r (p @ [i] @ t) = None"
proof -
  have "nodo (memoria s) r (p @ [i]) = None"
    unfolding nodo_snoc using enlaceD(4,5) [OF e] by (simp add: entrada_def)
  then show ?thesis
    using nodo_append_None [of _ r "p @ [i]" t] by simp
qed

lemma enlace_nodo_iff:
  assumes e: "enlace s R r a f p i n ph" and "r' \<in> R" "camino q"
  shows "nodo (mem_enlazada a i f u ph s) r' q = Some b \<longleftrightarrow>
    nodo (memoria s) r' q = Some b \<or> r' = r \<and> q = p @ [i] \<and> b = f"
proof (cases "r' = r \<and> (\<exists>t. q = p @ [i] @ t)")
  case True
  then obtain t where "q = p @ [i] @ t" "r' = r"
    by blast
  then show ?thesis
    using enlace_nuevo [OF e] enlace_debajo [OF e, of t] enlace_debajo_antes [OF e, of t]
    by (cases "t = []") auto
next
  case False
  then show ?thesis
    using enlace_otro [OF assms] by auto
qed

lemma enlace_raiz:
  assumes e: "enlace s R r a f p i n ph" and "r' \<in> R"
  shows "\<not> enorme (mem_enlazada a i f u ph s r' 0)"
proof -
  have "r' \<noteq> f"
    using enlace_no_f [OF e assms(2), of "[]"] by simp
  then show ?thesis
    using espacios_okD(3) [OF enlaceD(1) [OF e] assms(2)] enlaceD(6) [OF e]
    by (auto simp: mem_enlazada_eq enlace_no_enorme)
qed

lemma enlace_ok:
  assumes e: "enlace s R r a f p i n ph"
  shows "espacios_ok (enlazado a i f u ph s) R"
  unfolding espacios_ok_def
proof (intro conjI ballI allI impI)
  show "phys_ok (fisico (enlazado a i f u ph s))" "0 \<notin> libres_de (fisico (enlazado a i f u ph s))"
    using enlaceD(8,9) [OF e] espacios_okD(2) [OF enlaceD(1) [OF e]] by (simp_all add: enlazado_def)
next
  fix r' q b
  assume "r' \<in> R" "camino q" "nodo (mem_enlazada a i f u ph s) r' q = Some b"
  then consider "nodo (memoria s) r' q = Some b" | "b = f"
    using enlace_nodo_iff [OF e] by blast
  then show "tomado (enlazado a i f u ph s) b"
  proof cases
    case 1
    then have "tomado s b"
      using espacios_okD(4) [OF enlaceD(1) [OF e] \<open>r' \<in> R\<close> \<open>camino q\<close>] by blast
    then show ?thesis
      using enlaceD(9) [OF e] by (auto simp: tomado_def enlazado_def)
  next
    case 2
    moreover have "n \<noteq> 0"
      using enlaceD(7) [OF e] espacios_okD(2) [OF enlaceD(1) [OF e]] by metis
    ultimately show ?thesis
      using enlaceD(6,9) [OF e] by (auto simp: tomado_def enlazado_def)
  qed
next
  fix r1 r2 q1 q2 b
  assume q: "r1 \<in> R" "r2 \<in> R" "camino q1" "camino q2"
    "nodo (mem_enlazada a i f u ph s) r1 q1 = Some b" "nodo (mem_enlazada a i f u ph s) r2 q2 = Some b"
  then show "r1 = r2" "q1 = q2"
    using enlace_nodo_iff [OF e] enlace_no_f [OF e] espacios_okD(5) [OF enlaceD(1) [OF e]] by metis+
qed (use enlace_raiz [OF e] in blast)

lemma camino_longitud: "camino p \<Longrightarrow> length p \<le> 3"
  by (cases p rule: camino.cases) simp_all

lemma length_pagina_de [simp]: "length (pagina_de va) = 4"
  by (simp add: pagina_de_def)

text \<open>The page read at level \<open>k\<close> is not the one written, off the path.\<close>

lemma nivel_igual:
  assumes inj: "\<And>q. camino q \<Longrightarrow> nodo (memoria s) r' q = Some a \<Longrightarrow> r' = r \<and> q = p"
    and n: "nodo m' r' (take k (pagina_de va)) = nodo (memoria s) r' (take k (pagina_de va))"
    and m': "\<And>b j. nodo (memoria s) r' (take k (pagina_de va)) = Some b \<Longrightarrow>
      \<not> (b = a \<and> j = i) \<Longrightarrow> m' b j = memoria s b j"
    and "va_usuario va" "k \<le> 3" "\<not> (r' = r \<and> take (k + 1) (pagina_de va) = p @ [i])"
  shows "nivel m' r' va k = nivel (memoria s) r' va k"
proof (cases "nodo (memoria s) r' (take k (pagina_de va))")
  case (Some b)
  have "\<not> (b = a \<and> pagina_de va ! k = i)"
  proof
    assume "b = a \<and> pagina_de va ! k = i"
    then have "r' = r" "take k (pagina_de va) = p" "pagina_de va ! k = i"
      using inj [OF camino_take [OF assms(4,5)]] Some by auto
    then show False
      using assms(5,6) by (simp add: take_Suc_conv_app_nth)
  qed
  then show ?thesis
    using m' [OF Some] by (simp add: nivel_def entrada_def n Some)
qed (simp add: nivel_def entrada_def n)

lemma enlace_translate:
  assumes e: "enlace s R r a f p i n ph" and "r' \<in> R" "va_usuario va"
  shows "translate (enlazado a i f u ph s) r' va = translate s r' va"
proof (cases "r' = r \<and> take (length p + 1) (pagina_de va) = p @ [i]")
  case True
  have long: "length p \<le> 2"
    using camino_longitud [OF enlaceD(3) [OF e]] by simp
  have p: "take (length p) (pagina_de va) = p" "pagina_de va ! length p = i"
    using True long take_Suc_conv_app_nth [of "length p" "pagina_de va"] by auto
  have "translate s r va = None"
    using translate_ausente [of "length p" s r va a] long p enlaceD(4,5) [OF e] by simp
  moreover have "translate (enlazado a i f u ph s) r va = None"
    using translate_ausente [of "length p + 1" "enlazado a i f u ph s" r va f] long True
      enlace_nuevo [OF e] enlace_entradas(2) [OF e] by simp
  ultimately show ?thesis
    using True by simp
next
  case False
  show ?thesis
  proof (rule translate_cong [OF espacios_okD(3) [OF enlaceD(1) [OF e] assms(2)]
        enlace_raiz [OF e assms(2)] assms(3)])
    fix k :: nat
    assume k: "k \<le> 3"
    have nt: "\<not> (r' = r \<and> (\<exists>t. take k (pagina_de va) = p @ [i] @ t))"
    proof
      assume "r' = r \<and> (\<exists>t. take k (pagina_de va) = p @ [i] @ t)"
      then obtain t where t: "r' = r" "take k (pagina_de va) = p @ [i] @ t"
        by blast
      have "k = length (p @ [i] @ t)"
        using arg_cong [OF t(2), of length] k by simp
      then have "take (length p + 1) (pagina_de va) = take (length p + 1) (take k (pagina_de va))"
        by simp
      then show False
        using t False by simp
    qed
    show "nivel (mem_enlazada a i f u ph s) r' va k = nivel (memoria s) r' va k"
    proof (rule nivel_igual [where r = r and p = p and a = a and i = i])
      show "r' = r \<and> q = p" if "camino q" "nodo (memoria s) r' q = Some a" for q
        using espacios_okD(5) [OF enlaceD(1) [OF e] assms(2) enlaceD(2) [OF e] that(1)
            enlaceD(10) [OF e] that(2) enlaceD(4) [OF e]] .
      show "mem_enlazada a i f u ph s b j = memoria s b j"
        if "nodo (memoria s) r' (take k (pagina_de va)) = Some b" "\<not> (b = a \<and> j = i)" for b j
        using enlace_no_f [OF e assms(2) camino_take [OF assms(3) k] that(1)] that(2)
        by (auto simp: mem_enlazada_eq)
      show "\<not> (r' = r \<and> take (k + 1) (pagina_de va) = p @ [i])"
      proof
        assume c: "r' = r \<and> take (k + 1) (pagina_de va) = p @ [i]"
        have "length (take (k + 1) (pagina_de va)) = length (p @ [i])"
          using c by (simp only:)
        then have "length p = k"
          using k by simp
        then show False
          using c False by simp
      qed
    qed (use enlace_otro [OF e assms(2) camino_take [OF assms(3) k] nt] assms k in auto)
  qed
qed

text \<open>The leaf entry of a page, 0 when its walk stops before the last table.\<close>

definition hoja_de :: "vmm_st \<Rightarrow> u64 \<Rightarrow> u64 \<Rightarrow> u64" where
  "hoja_de s r va = nivel (memoria s) r va 3"

lemma pagina_de_snoc: "pagina_de va = take 3 (pagina_de va) @ [i1_de va]"
  by (simp add: pagina_de_def numeral_eq_Suc)

lemma hoja_de_entrada: "hoja_de s r va = entrada (memoria s) r (take 3 (pagina_de va)) (i1_de va)"
  by (simp add: hoja_de_def nivel_def pagina_de_def numeral_eq_Suc)

lemma enlace_hoja:
  assumes e: "enlace s R r a f p i n ph" and "r' \<in> R" "va_usuario va"
  shows "hoja_de (enlazado a i f u ph s) r' va = hoja_de s r' va"
proof (cases "r' = r \<and> (\<exists>t. take 3 (pagina_de va) = p @ [i] @ t)")
  case True
  then obtain t where t: "r' = r" "take 3 (pagina_de va) = p @ [i] @ t"
    by blast
  have "hoja_de (enlazado a i f u ph s) r' va = 0"
  proof (cases "t = []")
    case True
    then have "nodo (mem_enlazada a i f u ph s) r' (take 3 (pagina_de va)) = Some f"
      using enlace_nuevo [OF e] t by (simp only: append_Nil2)
    then show ?thesis
      using enlace_entradas(2) [OF e] by (simp add: hoja_de_entrada entrada_def)
  next
    case False
    then have "nodo (mem_enlazada a i f u ph s) r' (take 3 (pagina_de va)) = None"
      using enlace_debajo [OF e] t by (simp only:)
    then show ?thesis
      by (simp add: hoja_de_entrada entrada_def)
  qed
  moreover have "hoja_de s r' va = 0"
    using enlace_debajo_antes [OF e] t by (simp only: hoja_de_entrada entrada_def option.case)
  ultimately show ?thesis
    by simp
next
  case False
  let ?q = "take 3 (pagina_de va)"
  have c: "camino ?q"
    using assms(3) by (rule camino_take) simp
  have n: "nodo (mem_enlazada a i f u ph s) r' ?q = nodo (memoria s) r' ?q"
    using enlace_otro [OF e assms(2) c False] .
  show ?thesis
  proof (cases "nodo (memoria s) r' ?q")
    case (Some b)
    have "b \<noteq> a"
    proof
      assume "b = a"
      then have "?q = p"
        using espacios_okD(5) [OF enlaceD(1) [OF e] assms(2) enlaceD(2) [OF e] c enlaceD(10) [OF e] Some]
          enlaceD(4) [OF e] by blast
      then have "length (p @ [i]) = 4"
        by (metis length_append_singleton length_pagina_de pagina_de_snoc)
      then show False
        using camino_longitud [OF enlaceD(3) [OF e]] by simp
    qed
    moreover have "b \<noteq> f"
      using enlace_no_f [OF e assms(2) c Some] .
    ultimately show ?thesis
      using n Some by (simp add: hoja_de_entrada entrada_def mem_enlazada_eq)
  qed (simp add: hoja_de_entrada entrada_def n)
qed

text \<open>No step makes an entry above the leaf that maps a large page.\<close>

definition sin_enormes :: "u64 set \<Rightarrow> vmm_st \<Rightarrow> bool" where
  "sin_enormes R s \<longleftrightarrow> (\<forall>r \<in> R. \<forall>va. \<forall>k \<in> {1, 2}. va_usuario va \<longrightarrow> \<not> enorme (nivel (memoria s) r va k))"

lemma enlace_nivel:
  assumes e: "enlace s R r a f p i n ph" and "r' \<in> R" "va_usuario va" "k \<le> 3"
  shows "nivel (mem_enlazada a i f u ph s) r' va k
    \<in> {nivel (memoria s) r' va k, 0, (f AND ADDR_MASK) OR mid_flags u}"
proof (cases "r' = r \<and> (\<exists>t. take k (pagina_de va) = p @ [i] @ t)")
  case True
  then obtain t where t: "r' = r" "take k (pagina_de va) = p @ [i] @ t"
    by blast
  then have "nodo (mem_enlazada a i f u ph s) r' (take k (pagina_de va)) = (if t = [] then Some f else None)"
    using enlace_nuevo [OF e, of u] enlace_debajo [OF e, of t u] by simp
  then show ?thesis
    using enlace_entradas(2) [OF e] by (simp add: nivel_def entrada_def)
next
  case False
  have c: "camino (take k (pagina_de va))"
    using assms(3,4) by (rule camino_take)
  have n: "nodo (mem_enlazada a i f u ph s) r' (take k (pagina_de va))
      = nodo (memoria s) r' (take k (pagina_de va))"
    using enlace_otro [OF e assms(2) c False] .
  show ?thesis
  proof (cases "nodo (memoria s) r' (take k (pagina_de va))")
    case (Some b)
    have "b \<noteq> f"
      using enlace_no_f [OF e assms(2) c Some] .
    then have "mem_enlazada a i f u ph s b j
        \<in> {memoria s b j, (f AND ADDR_MASK) OR mid_flags u}" for j
      by (simp add: mem_enlazada_eq)
    then show ?thesis
      by (auto simp: nivel_def entrada_def n Some)
  qed (simp add: nivel_def entrada_def n)
qed

lemma enorme_0 [simp]: "\<not> enorme 0"
  by (simp add: enorme_bit)

lemma enlace_sin_enormes:
  assumes e: "enlace s R r a f p i n ph" and "r' \<in> R" "va_usuario va" "k \<le> 3"
    and "enorme (nivel (mem_enlazada a i f u ph s) r' va k)"
  shows "enorme (nivel (memoria s) r' va k)"
  using enlace_nivel [OF assms(1-4), of u] assms(5) enlace_no_enorme [OF enlaceD(6) [OF e], of u] by auto

section \<open>One step down\<close>

lemma espacios_ok_fisico:
  assumes "espacios_ok s R" "phys_ok ph" "libres_de ph \<subseteq> libres_de (fisico s)"
  shows "espacios_ok (s\<lparr>fisico := ph\<rparr>) R"
proof -
  have "0 \<notin> libres_de ph"
    using assms(3) espacios_okD(2) [OF assms(1)] by blast
  moreover have "tomado (s\<lparr>fisico := ph\<rparr>) a" if "tomado s a" for a
    using that assms(3) by (auto simp: tomado_def)
  ultimately show ?thesis
    unfolding espacios_ok_def
    using assms(2) espacios_okD(3-5) [OF assms(1)] by auto
qed

lemma translate_fisico [simp]: "translate (s\<lparr>fisico := ph\<rparr>) r va = translate s r va"
  by (simp add: translate_def Let_def)

lemma hoja_fisico [simp]: "hoja_de (s\<lparr>fisico := ph\<rparr>) r va = hoja_de s r va"
  by (simp add: hoja_de_def)

text \<open>What \<open>alloc_frame_de\<close> does to the set of free frames.\<close>

lemma alloc_frame_de_cases:
  assumes "phys_ok s"
  obtains (lleno) ph where "alloc_frame_de q s = (None, ph)" "libres_de s = {}"
      "phys_ok ph" "libres_de ph = libres_de s"
    | (hay) f n ph where "alloc_frame_de q s = (Some f, ph)" "indice_marco f = Some n"
      "n \<in> libres_de s" "phys_ok ph" "libres_de ph = libres_de s - {n}"
proof (cases "fst (alloc_frame_de q s)")
  case None
  then have "libres (bitmap s) = {} \<and> snd (alloc_frame s) = s"
    using alloc_frame_None [OF assms] alloc_frame_de_eq(1) [where q = q and s = s] by simp
  then show ?thesis
    using lleno [of "snd (alloc_frame_de q s)"] None assms alloc_frame_de_eq [where q = q and s = s] by (simp add: libres_de_def prod_eq_iff)
next
  case (Some f)
  then have "fst (alloc_frame s) = Some f"
    by (simp add: alloc_frame_de_eq)
  from alloc_frame_Some [OF assms this] obtain n where
    n: "n \<in> libres (bitmap s)" "f = of_nat n * PAGE"
      "libres (bitmap (snd (alloc_frame s))) = libres (bitmap s) - {n}" "phys_ok (snd (alloc_frame s))"
    by metis
  then show ?thesis
    using hay [of f "snd (alloc_frame_de q s)" n] Some alloc_frame_de_eq [where q = q and s = s]
    by (simp add: libres_de_def prod_eq_iff indice_marco_dir libres_def)
qed

text \<open>The spaces are kept and no page changes its translation.\<close>

definition conserva :: "u64 set \<Rightarrow> vmm_st \<Rightarrow> vmm_st \<Rightarrow> bool" where
  "conserva R s s' \<longleftrightarrow> espacios_ok s' R \<and> nx s' = nx s \<and>
     (\<forall>r \<in> R. \<forall>va. va_usuario va \<longrightarrow>
        translate s' r va = translate s r va \<and> hoja_de s' r va = hoja_de s r va \<and>
        (\<forall>k \<in> {1, 2}. enorme (nivel (memoria s') r va k) \<longrightarrow> enorme (nivel (memoria s) r va k)))"

lemma conserva_refl: "espacios_ok s R \<Longrightarrow> conserva R s s"
  by (simp add: conserva_def)

lemma conserva_trans: "conserva R s s' \<Longrightarrow> conserva R s' s'' \<Longrightarrow> conserva R s s''"
  by (simp add: conserva_def)

lemma conservaD:
  assumes "conserva R s s'"
  shows "espacios_ok s' R" "nx s' = nx s"
    "r \<in> R \<Longrightarrow> va_usuario va \<Longrightarrow> translate s' r va = translate s r va"
    "r \<in> R \<Longrightarrow> va_usuario va \<Longrightarrow> hoja_de s' r va = hoja_de s r va"
    "r \<in> R \<Longrightarrow> va_usuario va \<Longrightarrow> k \<in> {1, 2} \<Longrightarrow> enorme (nivel (memoria s') r va k) \<Longrightarrow>
      enorme (nivel (memoria s) r va k)"
  using assms unfolding conserva_def by blast+

lemma get_or_create_paso:
  assumes ok: "espacios_ok s R" "r \<in> R" and c: "camino (p @ [i])"
    and a: "nodo (memoria s) r p = Some a"
  shows "conserva R s (snd (get_or_create a i (mid_flags u) s))"
    and "fst (get_or_create a i (mid_flags u) s) = Some f \<Longrightarrow>
      nodo (memoria (snd (get_or_create a i (mid_flags u) s))) r (p @ [i]) = Some f"
    and "fst (get_or_create a i (mid_flags u) s) = None \<Longrightarrow>
      enorme (memoria s a i) \<or> libres_de (fisico s) = {}"
    and "card (libres_de (fisico s)) \<le> card (libres_de (fisico (snd (get_or_create a i (mid_flags u) s)))) + 1"
proof -
  let ?g = "get_or_create a i (mid_flags u) s"
  have "conserva R s (snd ?g) \<and>
    (\<forall>f. fst ?g = Some f \<longrightarrow> nodo (memoria (snd ?g)) r (p @ [i]) = Some f) \<and>
    (fst ?g = None \<longrightarrow> enorme (memoria s a i) \<or> libres_de (fisico s) = {}) \<and>
    card (libres_de (fisico s)) \<le> card (libres_de (fisico (snd ?g))) + 1"
  proof (cases "presente (memoria s a i)")
    case True
    then show ?thesis
      using conserva_refl [OF ok(1)]
      by (simp add: get_or_create_def Let_def nodo_snoc entrada_def a)
  next
    case False
    show ?thesis
      using espacios_okD(1) [OF ok(1)]
    proof (cases rule: alloc_frame_de_cases [where q = Tabla, consumes 1, case_names lleno hay])
      case (lleno ph)
      then have "?g = (None, s\<lparr>fisico := ph\<rparr>)"
        using False by (simp add: get_or_create_def Let_def)
      then show ?thesis
        using espacios_ok_fisico [OF ok(1) lleno(3)] lleno(2,4) by (simp add: conserva_def)
    next
      case (hay f n ph)
      have e: "enlace s R r a f p i n ph"
        using ok c a False hay by (simp add: enlace_def)
      have "n \<noteq> 0"
        using hay(3) espacios_okD(2) [OF ok(1)] by metis
      then have "?g = (Some f, enlazado a i f u ph s)"
        using False hay(1) borra_marco_enlazado [OF hay(2)]
        by (simp add: get_or_create_def Let_def)
      then show ?thesis
        using enlace_ok [OF e] enlace_translate [OF e] enlace_hoja [OF e] enlace_nuevo [OF e]
          enlace_sin_enormes [OF e] hay(5) card_Diff_singleton [OF hay(3)]
        by (simp add: conserva_def)
    qed
  qed
  then show "conserva R s (snd ?g)"
    and "fst ?g = Some f \<Longrightarrow> nodo (memoria (snd ?g)) r (p @ [i]) = Some f"
    and "fst ?g = None \<Longrightarrow> enorme (memoria s a i) \<or> libres_de (fisico s) = {}"
    and "card (libres_de (fisico s)) \<le> card (libres_de (fisico (snd ?g))) + 1"
    by blast+
qed

section \<open>Writing a leaf\<close>

lemma translate_hoja:
  assumes "nodo (memoria s) r (take 3 (pagina_de va)) = Some a"
  shows "translate s r va =
    (if presente (memoria s a (i1_de va)) then Some (memoria s a (i1_de va) AND ADDR_MASK) else None)"
  using assms by (simp add: translate_def pagina_de_def Let_def numeral_eq_Suc split: if_splits)

lemma hoja_nodo:
  assumes ok: "espacios_ok s R" "r \<in> R" "va_usuario va" "r' \<in> R" "camino q"
    and a: "nodo (memoria s) r (take 3 (pagina_de va)) = Some a"
  shows "nodo (memoria (escribe a (i1_de va) e s)) r' q = nodo (memoria s) r' q"
proof -
  have c: "camino (take 3 (pagina_de va))"
    using ok(3) by (rule camino_take) simp
  have "q \<noteq> take 3 (pagina_de va) @ [i1_de va] @ t" for t
    using camino_longitud [OF ok(5)] by auto
  then have "nodo ((memoria s)(a := (memoria s a)(i1_de va := e))) r' q = nodo (memoria s) r' q"
    using espacios_okD(5) [OF ok(1,4,2) _ c _ a] ok(5) by (intro nodo_escribe) blast+
  then show ?thesis
    by (simp add: escribe_def)
qed

lemma hoja_raiz:
  assumes ok: "espacios_ok s R" "r \<in> R" "va_usuario va" "r' \<in> R"
    and a: "nodo (memoria s) r (take 3 (pagina_de va)) = Some a"
  shows "a \<noteq> r'"
proof
  assume "a = r'"
  then have "take 3 (pagina_de va) = []"
    using espacios_okD(5) [OF ok(1,4,2), of "[]" "take 3 (pagina_de va)" a] a
      camino_take [OF ok(3), of 3] by simp
  then show False
    by (simp add: pagina_de_def)
qed

lemma hoja_ok:
  assumes ok: "espacios_ok s R" "r \<in> R" "va_usuario va"
    and a: "nodo (memoria s) r (take 3 (pagina_de va)) = Some a"
  shows "espacios_ok (escribe a (i1_de va) e s) R"
  unfolding espacios_ok_def
proof (intro conjI ballI allI impI)
  show "phys_ok (fisico (escribe a (i1_de va) e s))" "0 \<notin> libres_de (fisico (escribe a (i1_de va) e s))"
    using espacios_okD(1,2) [OF ok(1)] by (simp_all add: escribe_def)
  show "\<not> enorme (memoria (escribe a (i1_de va) e s) r' 0)" if "r' \<in> R" for r'
    using hoja_raiz [OF ok that a] espacios_okD(3) [OF ok(1) that] by (simp add: escribe_def)
  show "tomado (escribe a (i1_de va) e s) b"
    if "r' \<in> R" "camino q" "nodo (memoria (escribe a (i1_de va) e s)) r' q = Some b" for r' q b
    using espacios_okD(4) [OF ok(1) that(1,2)] that(3) hoja_nodo [OF ok that(1,2) a]
    by (simp add: tomado_def) (simp add: escribe_def)
qed (use espacios_okD(5) [OF ok(1)] hoja_nodo [OF ok _ _ a] in \<open>metis+\<close>)

lemma hoja_escrita:
  assumes ok: "espacios_ok s R" "r \<in> R" "va_usuario va"
    and a: "nodo (memoria s) r (take 3 (pagina_de va)) = Some a"
  shows "hoja_de (escribe a (i1_de va) e s) r va = e"
proof -
  have "nodo (memoria (escribe a (i1_de va) e s)) r (take 3 (pagina_de va)) = Some a"
    using hoja_nodo [OF ok ok(2) _ a] camino_take [OF ok(3), of 3] a by simp
  then show ?thesis
    by (simp add: hoja_de_entrada entrada_def) (simp add: escribe_def)
qed

lemma hoja_translate:
  assumes ok: "espacios_ok s R" "r \<in> R" "va_usuario va"
    and a: "nodo (memoria s) r (take 3 (pagina_de va)) = Some a"
  shows "translate (escribe a (i1_de va) e s) r va = (if presente e then Some (e AND ADDR_MASK) else None)"
proof -
  have "nodo (memoria (escribe a (i1_de va) e s)) r (take 3 (pagina_de va)) = Some a"
    using hoja_nodo [OF ok ok(2) _ a] camino_take [OF ok(3), of 3] a by simp
  from translate_hoja [OF this] show ?thesis
    by (simp add: escribe_def)
qed

text \<open>The tables above the leaf are not written.\<close>

lemma hoja_nivel:
  assumes ok: "espacios_ok s R" "r \<in> R" "va_usuario va" "r' \<in> R" "va_usuario va'"
    and a: "nodo (memoria s) r (take 3 (pagina_de va)) = Some a" and k: "k \<le> 2"
  shows "nivel (memoria (escribe a (i1_de va) e s)) r' va' k = nivel (memoria s) r' va' k"
proof -
  have c: "camino (take k (pagina_de va'))"
    using k by (intro camino_take [OF ok(5)]) linarith
  have "b \<noteq> a" if "nodo (memoria s) r' (take k (pagina_de va')) = Some b" for b
  proof
    assume "b = a"
    then have "take k (pagina_de va') = take 3 (pagina_de va)"
      using espacios_okD(5) [OF ok(1,4,2) c camino_take [OF ok(3)] that] a by simp
    then have "length (take k (pagina_de va')) = length (take 3 (pagina_de va))"
      by (simp only:)
    then show False
      using k by simp
  qed
  then show ?thesis
    using hoja_nodo [OF ok(1-4) c a]
    by (simp add: nivel_def entrada_def split: option.split) (simp add: escribe_def)
qed

lemma hoja_otras:
  assumes ok: "espacios_ok s R" "r \<in> R" "va_usuario va" "r' \<in> R" "va_usuario va'"
    and a: "nodo (memoria s) r (take 3 (pagina_de va)) = Some a"
    and o: "\<not> (r' = r \<and> pagina_de va' = pagina_de va)"
  shows "translate (escribe a (i1_de va) e s) r' va' = translate s r' va'"
    and "hoja_de (escribe a (i1_de va) e s) r' va' = hoja_de s r' va'"
proof -
  have n: "nivel (memoria (escribe a (i1_de va) e s)) r' va' k = nivel (memoria s) r' va' k"
    if k: "k \<le> 3" for k
  proof (rule nivel_igual [where a = a and i = "i1_de va" and r = r and p = "take 3 (pagina_de va)",
        OF _ _ _ ok(5) k])
    show "r' = r \<and> q = take 3 (pagina_de va)" if "camino q" "nodo (memoria s) r' q = Some a" for q
      using espacios_okD(5) [OF ok(1,4,2) that(1) camino_take [OF ok(3)] that(2) a] by simp
    show "nodo (memoria (escribe a (i1_de va) e s)) r' (take k (pagina_de va'))
        = nodo (memoria s) r' (take k (pagina_de va'))"
      using hoja_nodo [OF ok(1-4) camino_take [OF ok(5) k] a] .
    show "memoria (escribe a (i1_de va) e s) b j = memoria s b j" if "\<not> (b = a \<and> j = i1_de va)" for b j
      using that by (auto simp: escribe_def)
    show "\<not> (r' = r \<and> take (k + 1) (pagina_de va') = take 3 (pagina_de va) @ [i1_de va])"
    proof
      assume h: "r' = r \<and> take (k + 1) (pagina_de va') = take 3 (pagina_de va) @ [i1_de va]"
      then have "length (take (k + 1) (pagina_de va')) = 4"
        using pagina_de_snoc [of va] length_pagina_de [of va] by metis
      then have "take (k + 1) (pagina_de va') = pagina_de va'"
        using k by simp
      then show False
        using h o pagina_de_snoc [of va] by metis
    qed
  qed
  show "translate (escribe a (i1_de va) e s) r' va' = translate s r' va'"
    by (rule translate_cong [OF espacios_okD(3) [OF ok(1,4)]
          espacios_okD(3) [OF hoja_ok [OF ok(1-3) a] ok(4)] ok(5) n])
  show "hoja_de (escribe a (i1_de va) e s) r' va' = hoja_de s r' va'"
    by (simp add: hoja_de_def n)
qed

end
