(* ===== verification/Paginas.thy ===== *)
theory Paginas
  imports Espacios
begin

text \<open>
  What the page tables promise to a program: \<open>map_page\<close> gives exactly the page asked for,
  \<open>unmap_page\<close> takes exactly it away, neither touches any other page of any space, and no page
  is ever writable and executable at once.
\<close>

section \<open>Mapping one page\<close>

lemma camino_usuario:
  assumes "va_usuario va"
  shows "i4_de va = 0" "camino [0]" "camino [0, i3_de va]" "camino [0, i3_de va, i2_de va]"
    "take 3 (pagina_de va) = [0, i3_de va, i2_de va]"
  using assms by (simp_all add: va_usuario_def pagina_de_def numeral_eq_Suc)

text \<open>The descent to the last table: it fails leaving every page as it was, or reaches it.\<close>

lemma map_page_tipo_cases:
  assumes ok: "espacios_ok s R" "r \<in> R" "va_usuario va"
  obtains (falla) s' where "map_page_tipo r va pa u w x c n s = (False, s')" "conserva R s s'"
      "va mod PAGE \<noteq> 0 \<or> pa mod PAGE \<noteq> 0 \<or> card (libres_de (fisico s)) \<le> 2 \<or> \<not> sin_enormes R s"
    | (entra) s3 pt where "map_page_tipo r va pa u w x c n s =
        (True, escribe pt (i1_de va) (entrada_hoja pa u w x c n (nx s)) s3)"
      "conserva R s s3" "nodo (memoria s3) r (take 3 (pagina_de va)) = Some pt"
      "va mod PAGE = 0" "pa mod PAGE = 0"
proof (cases "va mod PAGE \<noteq> 0 \<or> pa mod PAGE \<noteq> 0")
  case True
  then have "map_page_tipo r va pa u w x c n s = (False, s)"
    by (simp add: map_page_tipo_def)
  from falla [OF this conserva_refl [OF ok(1)]] show ?thesis
    using True by metis
next
  case al: False
  note va = camino_usuario [OF ok(3)]
  have fin: "libres_de x = {} \<Longrightarrow> card (libres_de x) = 0" for x
    by simp
  have nv: "nivel (memoria s') r va k = memoria s' b (pagina_de va ! k)"
    if "nodo (memoria s') r (take k (pagina_de va)) = Some b" for s' b k
    using that by (simp add: nivel_def entrada_def)
  obtain r1 s1 where g1: "get_or_create r 0 (mid_flags u) s = (r1, s1)"
    by fastforce
  have c1: "conserva R s s1" and n1: "r1 = Some f \<Longrightarrow> nodo (memoria s1) r [0] = Some f"
    and x1: "r1 = None \<Longrightarrow> enorme (memoria s r 0) \<or> libres_de (fisico s) = {}"
    and l1: "card (libres_de (fisico s)) \<le> card (libres_de (fisico s1)) + 1" for f
    using get_or_create_paso [OF ok(1,2), of "[]" 0 r u] va(2) g1 by simp_all
  show ?thesis
  proof (cases r1)
    case None
    then show ?thesis
      using falla [OF _ c1] al g1 va(1) x1 espacios_okD(3) [OF ok(1,2)] fin by (simp add: map_page_tipo_def mid_flags_def Let_def)
  next
    case r1: (Some pdpt)
    obtain r2 s2 where g2: "get_or_create pdpt (i3_de va) (mid_flags u) s1 = (r2, s2)"
      by fastforce
    have "conserva R s1 s2" and n2: "r2 = Some f \<Longrightarrow> nodo (memoria s2) r [0, i3_de va] = Some f"
      and x2: "r2 = None \<Longrightarrow> enorme (memoria s1 pdpt (i3_de va)) \<or> libres_de (fisico s1) = {}"
      and l2: "card (libres_de (fisico s1)) \<le> card (libres_de (fisico s2)) + 1" for f
      using get_or_create_paso [OF conservaD(1) [OF c1] ok(2), of "[0]" "i3_de va" pdpt u]
        va(3) n1 [OF r1] g2 by simp_all
    then have c2: "conserva R s s2"
      using conserva_trans [OF c1] by blast
    show ?thesis
    proof (cases r2)
      case None
      have "nivel (memoria s1) r va 1 = memoria s1 pdpt (i3_de va)"
        using nv [of s1 1 pdpt] n1 [OF r1] va(1) by (simp add: pagina_de_def)
      then have "card (libres_de (fisico s)) \<le> 2 \<or> \<not> sin_enormes R s"
        using x2 [OF None] l1 fin conservaD(5) [OF c1 ok(2,3), of 1] ok(2,3)
        by (fastforce simp: sin_enormes_def)
      then show ?thesis
        using falla [OF _ c2] al g1 g2 r1 va(1) None
        by (simp add: map_page_tipo_def mid_flags_def Let_def)
    next
      case r2: (Some pd)
      obtain r3 s3 where g3: "get_or_create pd (i2_de va) (mid_flags u) s2 = (r3, s3)"
        by fastforce
      have "conserva R s2 s3"
        and n3: "r3 = Some f \<Longrightarrow> nodo (memoria s3) r [0, i3_de va, i2_de va] = Some f"
        and x3: "r3 = None \<Longrightarrow> enorme (memoria s2 pd (i2_de va)) \<or> libres_de (fisico s2) = {}" for f
        using get_or_create_paso [OF conservaD(1) [OF c2] ok(2), of "[0, i3_de va]" "i2_de va" pd u]
          va(4) n2 [OF r2] g3 by simp_all
      then have c3: "conserva R s s3"
        using conserva_trans [OF c2] by blast
      show ?thesis
      proof (cases r3)
        case None
        have "nivel (memoria s2) r va 2 = memoria s2 pd (i2_de va)"
          using nv [of s2 2 pd] n2 [OF r2] va(1) by (simp add: pagina_de_def numeral_eq_Suc)
        then have "card (libres_de (fisico s)) \<le> 2 \<or> \<not> sin_enormes R s"
          using x3 [OF None] l1 l2 fin conservaD(5) [OF c2 ok(2,3), of 2] ok(2,3)
          by (fastforce simp: sin_enormes_def)
        then show ?thesis
          using falla [OF _ c3] al g1 g2 g3 r1 r2 va(1) None
          by (simp add: map_page_tipo_def mid_flags_def Let_def)
      next
        case r3: (Some pt)
        then show ?thesis
          using entra [OF _ c3, of pt] n3 [OF r3] al g1 g2 g3 r1 r2 va conservaD(2) [OF c3]
          by (simp add: map_page_tipo_def mid_flags_def Let_def)
      qed
    qed
  qed
qed

text \<open>What one page of one space became; the rest is as it was.\<close>

definition cambia_pagina ::
  "u64 set \<Rightarrow> u64 \<Rightarrow> u64 \<Rightarrow> u64 option \<Rightarrow> u64 \<Rightarrow> vmm_st \<Rightarrow> vmm_st \<Rightarrow> bool" where
  "cambia_pagina R r va dest e s s' \<longleftrightarrow>
     espacios_ok s' R \<and> nx s' = nx s \<and> translate s' r va = dest \<and> hoja_de s' r va = e \<and>
     (\<forall>r' \<in> R. \<forall>va'. va_usuario va' \<longrightarrow> \<not> (r' = r \<and> pagina_de va' = pagina_de va) \<longrightarrow>
        translate s' r' va' = translate s r' va' \<and> hoja_de s' r' va' = hoja_de s r' va') \<and>
     (sin_enormes R s \<longrightarrow> sin_enormes R s')"

lemma conserva_sin_enormes: "conserva R s s' \<Longrightarrow> sin_enormes R s \<Longrightarrow> sin_enormes R s'"
  unfolding sin_enormes_def using conservaD(5) by blast

lemma escribe_cambia:
  assumes "conserva R s s3" "r \<in> R" "va_usuario va"
    "nodo (memoria s3) r (take 3 (pagina_de va)) = Some a"
  shows "cambia_pagina R r va (if presente e then Some (e AND ADDR_MASK) else None) e s
    (escribe a (i1_de va) e s3)"
proof -
  note ok3 = conservaD(1) [OF assms(1)]
  have "nx (escribe a (i1_de va) e s3) = nx s"
    using conservaD(2) [OF assms(1)] by (simp add: escribe_def)
  moreover have "sin_enormes R s \<longrightarrow> sin_enormes R (escribe a (i1_de va) e s3)"
    using conserva_sin_enormes [OF assms(1)] hoja_nivel [OF ok3 assms(2,3) _ _ assms(4), of _ _ _ e]
    by (auto simp: sin_enormes_def)
  ultimately show ?thesis
    unfolding cambia_pagina_def
    using hoja_ok [OF ok3 assms(2-4)] hoja_translate [OF ok3 assms(2-4)]
      hoja_escrita [OF ok3 assms(2-4)] hoja_otras [OF ok3 assms(2,3) _ _ assms(4)]
      conservaD(3,4) [OF assms(1)] by simp
qed

lemma map_page_tipo_cambia:
  assumes ok: "espacios_ok s R" "r \<in> R" "va_usuario va"
  shows "(case map_page_tipo r va pa u w x c n s of
      (True, s') \<Rightarrow> va mod PAGE = 0 \<and> pa mod PAGE = 0 \<and>
        cambia_pagina R r va (Some (pa AND ADDR_MASK)) (entrada_hoja pa u w x c n (nx s)) s s'
    | (False, s') \<Rightarrow> conserva R s s')"
  using ok
proof (cases rule: map_page_tipo_cases [consumes 3, case_names falla entra,
      where pa = pa and u = u and w = w and x = x and c = c and n = n])
  case (entra s3 pt)
  then show ?thesis
    using escribe_cambia [OF entra(2) ok(2,3) entra(3), of "entrada_hoja pa u w x c n (nx s)"]
    by (simp add: entrada_hoja_mask entrada_hoja_presente)
qed simp

text \<open>Three frames are always enough: a walk makes at most three tables.\<close>

lemma map_page_tipo_cabe:
  assumes ok: "espacios_ok s R" "r \<in> R" "va_usuario va"
    and "sin_enormes R s" "3 \<le> card (libres_de (fisico s))" "va mod PAGE = 0" "pa mod PAGE = 0"
  shows "fst (map_page_tipo r va pa u w x c n s)"
  using ok
proof (cases rule: map_page_tipo_cases [consumes 3, case_names falla entra,
      where pa = pa and u = u and w = w and x = x and c = c and n = n])
  case (falla s')
  then show ?thesis
    using assms(4-7) by linarith
qed simp

section \<open>Unmapping one page\<close>

lemma unmap_page_cases:
  assumes ok: "espacios_ok s R" "r \<in> R" "va_usuario va"
  obtains (nada) "unmap_page r va s = (None, s)" "\<not> presente (hoja_de s r va)"
    | (quita) pt where "nodo (memoria s) r (take 3 (pagina_de va)) = Some pt"
      "presente (hoja_de s r va)" "translate s r va = Some (hoja_de s r va AND ADDR_MASK)"
      "unmap_page r va s = (Some (hoja_de s r va AND ADDR_MASK), escribe pt (i1_de va) 0 s)"
proof (cases "nodo (memoria s) r (take 3 (pagina_de va))")
  case None
  then have "\<not> presente (hoja_de s r va)"
    by (simp add: hoja_de_entrada entrada_def)
  moreover have "unmap_page r va s = (None, s)"
    using None by (simp add: camino_usuario [OF ok(3)] unmap_page_def Let_def split: if_splits)
  ultimately show ?thesis
    by (rule nada [rotated])
next
  case (Some pt)
  then have h: "hoja_de s r va = memoria s pt (i1_de va)"
    by (simp add: hoja_de_entrada entrada_def)
  have u: "unmap_page r va s =
      (if \<not> presente (memoria s pt (i1_de va)) then (None, s)
       else (Some (memoria s pt (i1_de va) AND ADDR_MASK), escribe pt (i1_de va) 0 s))"
    using Some by (simp add: camino_usuario [OF ok(3)] unmap_page_def Let_def split: if_splits)
  show ?thesis
  proof (cases "presente (hoja_de s r va)")
    case True
    then show ?thesis
      using quita [OF Some] u h translate_hoja [OF Some] by simp
  next
    case False
    then show ?thesis
      using nada u h by simp
  qed
qed

lemma unmap_page_cambia:
  assumes ok: "espacios_ok s R" "r \<in> R" "va_usuario va"
  shows "(case unmap_page r va s of
      (None, s') \<Rightarrow> s' = s \<and> \<not> presente (hoja_de s r va)
    | (Some pa, s') \<Rightarrow> translate s r va = Some pa \<and> cambia_pagina R r va None 0 s s')"
  using ok
proof (cases rule: unmap_page_cases [consumes 3, case_names nada quita])
  case (quita pt)
  then show ?thesis
    using escribe_cambia [OF conserva_refl [OF ok(1)] ok(2,3) quita(1), of 0] by simp
qed simp

section \<open>Addresses of the user half\<close>

definition FIN_USUARIO :: nat where "FIN_USUARIO = 2 ^ 39"

text \<open>The addresses where programs, stacks and channels live: from \<open>USER_IMAGE_BASE\<close> to the end of
  the first entry of the root.\<close>

definition en_usuario :: "u64 \<Rightarrow> bool" where
  "en_usuario va \<longleftrightarrow> unat USER_IMAGE_BASE \<le> unat va \<and> unat va < FIN_USUARIO"

lemma mask9: "(0x1FF :: u64) = mask 9"
  by (simp add: mask_eq_exp_minus_1)

lemma campo_unat: "unat (drop_bit n va AND 0x1FF) = unat va div 2 ^ n mod 512" for va :: u64
proof -
  have "unat (drop_bit n va) = drop_bit n (unat va)"
    by (simp add: unsigned_drop_bit_eq take_bit_nat_eq_self)
  then have "unat (drop_bit n va) = unat va div 2 ^ n"
    by (simp only: drop_bit_eq_div)
  then show ?thesis
    unfolding mask9 unat_and_mask by simp
qed

lemma campos_unat:
  "i4_de va = unat va div 2 ^ 39 mod 512" "i3_de va = unat va div 2 ^ 30 mod 512"
  "i2_de va = unat va div 2 ^ 21 mod 512" "i1_de va = unat va div 2 ^ 12 mod 512"
  by (simp_all only: i4_de_def i3_de_def i2_de_def i1_de_def campo_unat)

lemma en_usuario_va: "en_usuario va \<Longrightarrow> va_usuario va"
proof -
  assume "en_usuario va"
  then have b: "2 ^ 30 \<le> unat va" "unat va < 2 ^ 39"
    by (simp_all add: en_usuario_def FIN_USUARIO_def USER_IMAGE_BASE_def)
  have "2 ^ 30 div 2 ^ 30 \<le> unat va div (2 ^ 30 :: nat)"
    using b(1) by (rule div_le_mono)
  moreover have "unat va div 2 ^ 30 < 512"
    using b(2) by (intro less_mult_imp_div_less) simp
  ultimately show ?thesis
    unfolding va_usuario_def campos_unat using b(2) by simp
qed

lemma div_div_2: "n div 2 ^ a div 2 ^ b = n div 2 ^ (a + b)" for n :: nat
  by (simp add: div_mult2_eq power_add)

text \<open>Below that end the four indices are the page number.\<close>

lemma pagina_de_iff:
  assumes "en_usuario va" "en_usuario va'"
  shows "pagina_de va' = pagina_de va \<longleftrightarrow> unat va' div 4096 = unat va div 4096"
proof -
  define p q where "p = unat va div 4096" and "q = unat va' div 4096"
  have pq: "p < 2 ^ 27" "q < 2 ^ 27"
    using assms by (auto simp: p_def q_def en_usuario_def FIN_USUARIO_def)
  have i: "pagina_de va = [p div 2 ^ 27 mod 512, p div 2 ^ 18 mod 512, p div 2 ^ 9 mod 512, p mod 512]"
    "pagina_de va' = [q div 2 ^ 27 mod 512, q div 2 ^ 18 mod 512, q div 2 ^ 9 mod 512, q mod 512]"
    using div_div_2 [of _ 12 27] div_div_2 [of _ 12 18] div_div_2 [of _ 12 9]
    by (simp_all add: pagina_de_def campos_unat p_def q_def)
  have "p = q" if "pagina_de va' = pagina_de va"
  proof -
    have h: "q div 2 ^ 18 mod 512 = p div 2 ^ 18 mod 512" "q div 2 ^ 9 mod 512 = p div 2 ^ 9 mod 512"
      "q mod 512 = p mod 512"
      using that unfolding i by simp_all
    have "x = x div 2 ^ 18 mod 512 * 2 ^ 18 + x div 2 ^ 9 mod 512 * 2 ^ 9 + x mod 512"
      if "x < 2 ^ 27" for x :: nat
    proof -
      have "x div 512 div 512 < 512"
        using that by (intro less_mult_imp_div_less) simp
      moreover have "x = x div 512 * 512 + x mod 512"
          "x div 512 = x div 512 div 512 * 512 + x div 512 mod 512"
        by (simp_all only: div_mult_mod_eq)
      ultimately have "x = x div 512 div 512 mod 512 * 262144 + x div 512 mod 512 * 512 + x mod 512"
        unfolding mod_less [OF \<open>x div 512 div 512 < 512\<close>] by linarith
      moreover have "x div 512 div 512 = x div 262144" "(2 :: nat) ^ 18 = 262144" "(2 :: nat) ^ 9 = 512"
        using div_div_2 [of x 9 9] by simp_all
      ultimately show ?thesis
        by (simp only:)
    qed
    then show ?thesis
      using pq h by metis
  qed
  moreover have "pagina_de va' = pagina_de va" if "p = q"
    using that by (simp only: i)
  ultimately have "pagina_de va' = pagina_de va \<longleftrightarrow> q = p"
    by blast
  then show ?thesis
    by (simp only: p_def q_def)
qed

end
