(* ===== verification/Espacio_Nuevo.thy ===== *)
theory Espacio_Nuevo
  imports Paginas
begin

text \<open>
  \<open>roja.rs\<close>, \<open>new_address_space\<close>: what a new space is made of, and that making it disturbs no other.
\<close>

section \<open>Copying the kernel half\<close>

lemma copia_entradas_otros:
  "b \<noteq> hasta \<Longrightarrow> memoria (copia_entradas desde hasta is s) b = memoria s b"
  by (induction desde hasta "is" s rule: copia_entradas.induct) (simp_all add: escribe_def)

lemma copia_entradas_campos [simp]:
  "fisico (copia_entradas desde hasta is s) = fisico s" "nx (copia_entradas desde hasta is s) = nx s"
  "kernel_pml4 (copia_entradas desde hasta is s) = kernel_pml4 s"
  by (induction desde hasta "is" s rule: copia_entradas.induct) (simp_all add: escribe_def)

lemma copia_entradas_hasta:
  "desde \<noteq> hasta \<Longrightarrow> distinct is \<Longrightarrow> memoria (copia_entradas desde hasta is s) hasta i =
    (if i \<in> set is then memoria s desde i else memoria s hasta i)"
  by (induction desde hasta "is" s rule: copia_entradas.induct) (auto simp: escribe_def)

lemma copia_entradas_fuera:
  "i \<notin> set is \<Longrightarrow> memoria (copia_entradas desde hasta is s) hasta i = memoria s hasta i"
  by (induction desde hasta "is" s rule: copia_entradas.induct) (auto simp: escribe_def)

section \<open>Walks in a memory that agrees on the tables\<close>

lemma nodo_cong:
  assumes "\<And>p b. camino p \<Longrightarrow> nodo m r p = Some b \<Longrightarrow> m' b = m b" and "camino q"
  shows "nodo m' r q = nodo m r q"
  using assms(2)
proof (induction q rule: rev_induct)
  case (snoc j q)
  have c: "camino q"
    using snoc.prems by (rule camino_prefix)
  have "entrada m' r q j = entrada m r q j"
    unfolding entrada_def snoc.IH [OF c] using assms(1) [OF c] by (simp split: option.split)
  then show ?case
    by (simp only: nodo_snoc)
qed simp

lemma conserva_cong:
  assumes "espacios_ok s R" "phys_ok (fisico s')" "libres_de (fisico s') \<subseteq> libres_de (fisico s)"
    and m: "\<And>b. tomado s b \<Longrightarrow> memoria s' b = memoria s b" and "nx s' = nx s"
  shows "conserva R s s'"
proof -
  have t: "memoria s' b = memoria s b" if "r \<in> R" "camino p" "nodo (memoria s) r p = Some b" for r p b
    using m espacios_okD(4) [OF assms(1) that] .
  have n: "nodo (memoria s') r q = nodo (memoria s) r q" if "r \<in> R" "camino q" for r q
    using nodo_cong [OF t [OF that(1)] that(2)] .
  have raiz: "memoria s' r = memoria s r" if "r \<in> R" for r
    using t [OF that, of "[]"] by simp
  have ok: "espacios_ok s' R"
    unfolding espacios_ok_def
  proof (intro conjI ballI allI impI)
    show "phys_ok (fisico s')" "0 \<notin> libres_de (fisico s')"
      using assms(2,3) espacios_okD(2) [OF assms(1)] by auto
    show "\<not> enorme (memoria s' r 0)" if "r \<in> R" for r
      using espacios_okD(3) [OF assms(1) that] raiz [OF that] by simp
    show "tomado s' a" if "r \<in> R" "camino p" "nodo (memoria s') r p = Some a" for r p a
      using espacios_okD(4) [OF assms(1) that(1,2)] that n assms(3) by (auto simp: tomado_def)
  qed (use espacios_okD(5) [OF assms(1)] n in \<open>metis+\<close>)
  have l: "nivel (memoria s') r va k = nivel (memoria s) r va k" if "r \<in> R" "va_usuario va" "k \<le> 3" for r va k
    using n [OF that(1) camino_take [OF that(2,3)]] t [OF that(1) camino_take [OF that(2,3)]]
    by (simp add: nivel_def entrada_def split: option.split)
  have "translate s' r va = translate s r va" if "r \<in> R" "va_usuario va" for r va
    using translate_cong [OF espacios_okD(3) [OF assms(1) that(1)] espacios_okD(3) [OF ok that(1)] that(2)]
      l [OF that] by blast
  then show ?thesis
    using ok assms(5) l unfolding conserva_def hoja_de_def by auto
qed

section \<open>The new space\<close>

text \<open>A space with nothing in its user half: a root, one table under its entry 0, and entries from 1
  on absent in it.\<close>

definition espacio_vacio :: "vmm_st \<Rightarrow> u64 \<Rightarrow> bool" where
  "espacio_vacio s r \<longleftrightarrow>
     (\<exists>t. presente (memoria s r 0) \<and> \<not> enorme (memoria s r 0) \<and>
        memoria s r 0 AND ADDR_MASK = t \<and> (\<forall>j. 1 \<le> j \<longrightarrow> memoria s t j = 0))"

lemma espacio_vacio_nodo:
  assumes "espacio_vacio s r" "camino p" "nodo (memoria s) r p = Some a"
  shows "p = [] \<and> a = r \<or> p = [0] \<and> a = memoria s r 0 AND ADDR_MASK"
  using assms by (cases p rule: camino.cases) (auto simp: espacio_vacio_def split: if_splits)

lemma espacio_vacio_translate:
  assumes "espacio_vacio s r" "va_usuario va"
  shows "translate s r va = None"
  using assms by (auto simp: espacio_vacio_def va_usuario_def translate_def Let_def)

lemma espacio_vacio_hoja:
  assumes "espacio_vacio s r" "va_usuario va"
  shows "hoja_de s r va = 0"
  using assms by (auto simp: espacio_vacio_def va_usuario_def hoja_de_entrada entrada_def pagina_de_def
      numeral_eq_Suc)

lemma inserta_espacio:
  assumes ok: "espacios_ok s R" and v: "espacio_vacio s r" "tomado s r" "tomado s t" "r \<noteq> t"
    and t: "memoria s r 0 AND ADDR_MASK = t"
    and f: "\<And>r' p b. r' \<in> R \<Longrightarrow> camino p \<Longrightarrow> nodo (memoria s) r' p = Some b \<Longrightarrow> b \<noteq> r \<and> b \<noteq> t"
  shows "espacios_ok s (insert r R)"
  unfolding espacios_ok_def
proof (intro conjI ballI allI impI)
  show "phys_ok (fisico s)" "0 \<notin> libres_de (fisico s)"
    using espacios_okD(1,2) [OF ok] .
  show "\<not> enorme (memoria s r' 0)" if "r' \<in> insert r R" for r'
    using that espacios_okD(3) [OF ok] v(1) by (auto simp: espacio_vacio_def)
  show "tomado s a" if "r' \<in> insert r R" "camino p" "nodo (memoria s) r' p = Some a" for r' p a
    using that espacios_okD(4) [OF ok] espacio_vacio_nodo [OF v(1) that(2)] v t by auto
next
  fix r1 r2 p q a
  assume h: "r1 \<in> insert r R" "r2 \<in> insert r R" "camino p" "camino q"
    "nodo (memoria s) r1 p = Some a" "nodo (memoria s) r2 q = Some a"
  have n: "p' = [] \<and> b = r \<or> p' = [0] \<and> b = t" if "camino p'" "nodo (memoria s) r p' = Some b" for p' b
    using espacio_vacio_nodo [OF v(1) that] t by simp
  consider "r1 = r" "r2 = r" | "r1 = r" "r2 \<in> R" | "r1 \<in> R" "r2 = r" | "r1 \<in> R" "r2 \<in> R"
    using h(1,2) by blast
  then have "r1 = r2 \<and> p = q"
  proof cases
    case 1
    then show ?thesis
      using n [OF h(3), of a] n [OF h(4), of a] h v(4) by auto
  next
    case 2
    then show ?thesis
      using n [OF h(3), of a] f [OF 2(2) h(4), of a] h by auto
  next
    case 3
    then show ?thesis
      using n [OF h(4), of a] f [OF 3(1) h(3), of a] h by auto
  next
    case 4
    then show ?thesis
      using espacios_okD(5) [OF ok _ _ h(3,4)] h(5,6) by blast
  qed
  then show "r1 = r2" "p = q"
    by simp_all
qed

section \<open>new\_address\_space\<close>

lemma borra_marco_marco:
  assumes "indice_marco f = Some n" "n \<noteq> 0"
  shows "borra_marco f s = s\<lparr>memoria := (memoria s)(f := (\<lambda>_. 0))\<rparr>"
proof -
  have "f mod PAGE = 0" "f < PHYSMAP_SIZE"
    using assms(1) by (auto simp: indice_marco_def not_le split: if_splits)
  moreover have "f \<noteq> 0"
    using assms by (auto simp: indice_marco_Some_iff)
  ultimately show ?thesis
    by (simp add: borra_marco_def)
qed

lemma entrada_espacio:
  assumes "indice_marco f = Some n"
  defines "e \<equiv> f OR PTE_PRESENT OR PTE_WRITABLE OR PTE_USER"
  shows "presente e" "\<not> enorme e" "e AND ADDR_MASK = f"
proof -
  have "e = (f AND ADDR_MASK) OR mid_flags True"
    using marco_mask [OF assms(1)] by (simp add: e_def mid_flags_def or.assoc)
  then show "presente e" "\<not> enorme e" "e AND ADDR_MASK = f"
    using enlace_presente enlace_no_enorme [OF assms(1)] enlace_mask [OF assms(1)] by simp_all
qed

text \<open>The two frames taken, the memory they get, and what is left of the rest.\<close>

lemma new_address_space_cases:
  assumes ok: "espacios_ok s R"
  obtains (falla) s' where "new_address_space tick s = (None, s')" "conserva R s s'"
      "card (libres_de (fisico s)) \<le> 1"
    | (nuevo) s' r where "new_address_space tick s = (Some r, s')" "r \<notin> R"
      "conserva R s s'" "espacios_ok s' (insert r R)" "espacio_vacio s' r"
      "\<And>i. tomado s (kernel_pml4 s) \<Longrightarrow> i \<in> {256..<512} \<Longrightarrow>
        memoria s' r i = memoria s (kernel_pml4 s) i"
      "card (libres_de (fisico s)) \<le> card (libres_de (fisico s')) + 2"
  using espacios_okD(1) [OF ok]
proof (cases rule: alloc_frame_de_cases [where q = Tabla, consumes 1, case_names lleno hay])
  case (lleno ph)
  have "conserva R s (s\<lparr>fisico := ph\<rparr>)"
    using ok lleno by (intro conserva_cong) simp_all
  then show ?thesis
    using falla lleno by (simp add: new_address_space_def)
next
  case (hay f1 n1 ph1)
  note h1 = hay
  show ?thesis
    using h1(4)
  proof (cases rule: alloc_frame_de_cases [where q = Tabla, consumes 1, case_names lleno hay])
    case (lleno ph)
    let ?ph = "snd (free_frame_de tick f1 Tabla ph)"
    have sub: "libres_de (fisico s) \<subseteq> {n1}"
      using lleno(2) h1(5) by auto
    have "phys_ok ?ph \<and> libres_de ?ph \<subseteq> libres_de (fisico s)"
      using free_frame_de_eq [of tick f1 Tabla ph] lleno(2,3,4) h1(2,3)
        free_frame_ok [OF lleno(3), of tick f1] free_frame_libres [of tick f1 ph]
      by (elim disjE) (simp_all add: libres_de_def)
    then have "conserva R s (s\<lparr>fisico := ?ph\<rparr>)"
      using ok by (intro conserva_cong) simp_all
    moreover have "card (libres_de (fisico s)) \<le> 1"
      using card_mono [OF _ sub] by simp
    ultimately show ?thesis
      using falla h1(1) lleno(1) by (simp add: new_address_space_def)
  next
    case (hay f2 n2 ph2)
    note h2 = hay
    have n2: "n2 \<in> libres_de (fisico s) - {n1}"
      using h2(3) h1(5) by (simp only:)
    then have n: "n1 \<noteq> n2" "n1 \<noteq> 0" "n2 \<noteq> 0" "n2 \<in> libres_de (fisico s)"
      by (blast, metis h1(3) espacios_okD(2) [OF ok], metis DiffD1 espacios_okD(2) [OF ok], blast)
    have "f1 \<noteq> f2"
      using h1(2) h2(2) n(1) by auto
    note n = n this
    define s1 where "s1 = s\<lparr>fisico := ph2, memoria := (memoria s)(f1 := (\<lambda>_. 0), f2 := (\<lambda>_. 0))\<rparr>"
    define s2 where "s2 = copia_entradas (kernel_pml4 s1) f1 [256..<512] s1"
    define s3 where "s3 = escribe f1 0 (f2 OR PTE_PRESENT OR PTE_WRITABLE OR PTE_USER) s2"
    define s4 where "s4 = escribe f2 0 (memoria s3 (memoria s3 (kernel_pml4 s3) 0 AND ADDR_MASK) 0) s3"
    have eq: "new_address_space tick s = (Some f1, s4)"
      using h1(1) h2(1) borra_marco_marco [OF h1(2) n(2)] borra_marco_marco [OF h2(2) n(3)]
      by (simp add: new_address_space_def Let_def s4_def s3_def s2_def s1_def del: upt_rec_numeral)
    have f1: "memoria s4 f1 = (memoria s2 f1)(0 := f2 OR PTE_PRESENT OR PTE_WRITABLE OR PTE_USER)"
      using n(5) by (simp add: s4_def s3_def escribe_def)
    have f2: "memoria s4 f2 j = 0" if "1 \<le> j" for j
      using that n(5) copia_entradas_otros [of f2 f1]
      by (simp add: s4_def s3_def s2_def s1_def escribe_def del: upt_rec_numeral)
    have otros: "memoria s4 b = memoria s b" if "b \<noteq> f1" "b \<noteq> f2" for b
      using that copia_entradas_otros [of b f1]
      by (simp add: s4_def s3_def s2_def s1_def escribe_def del: upt_rec_numeral)
    have campos: "fisico s4 = ph2" "nx s4 = nx s"
      by (simp_all add: s4_def s3_def s2_def s1_def escribe_def del: upt_rec_numeral)
    have no12: "b \<noteq> f1" "b \<noteq> f2" if "tomado s b" for b
      using that tomado_no_libre [OF that h1(2,3)] tomado_no_libre [OF that h2(2) n(4)] by simp_all
    have c: "conserva R s s4"
    proof (rule conserva_cong [OF ok])
      show "phys_ok (fisico s4)" "libres_de (fisico s4) \<subseteq> libres_de (fisico s)"
        using h2(4,5) h1(5) by (auto simp: campos)
    qed (use otros no12 campos in auto)
    have f1R: "f1 \<notin> R"
      using espacios_okD(4) [OF ok, of f1 "[]" f1] no12(1) by auto
    have v: "espacio_vacio s4 f1"
      unfolding espacio_vacio_def f1 using entrada_espacio [OF h2(2)] f2 by simp
    have tom: "tomado s4 f1" "tomado s4 f2"
      using h1(2) h2(2,5) h1(5) n by (auto simp: tomado_def campos)
    have "espacios_ok s4 (insert f1 R)"
    proof (rule inserta_espacio [OF conservaD(1) [OF c] v tom n(5)])
      show "memoria s4 f1 0 AND ADDR_MASK = f2"
        unfolding f1 using entrada_espacio [OF h2(2)] by simp
      fix r' p b
      assume r': "r' \<in> R" "camino p" "nodo (memoria s4) r' p = Some b"
      have "nodo (memoria s4) r' p = nodo (memoria s) r' p"
        using otros no12 espacios_okD(4) [OF ok r'(1)] by (intro nodo_cong [OF _ r'(2)]) blast
      then show "b \<noteq> f1 \<and> b \<noteq> f2"
        using no12 espacios_okD(4) [OF ok r'(1,2)] r'(3) by simp
    qed
    moreover have "memoria s4 f1 i = memoria s (kernel_pml4 s) i"
      if "tomado s (kernel_pml4 s)" "i \<in> {256..<512}" for i
    proof -
      have k: "kernel_pml4 s1 = kernel_pml4 s" "kernel_pml4 s \<noteq> f1" "kernel_pml4 s \<noteq> f2"
        using no12 [OF that(1)] by (simp_all add: s1_def)
      have "memoria s2 f1 i = memoria s1 (kernel_pml4 s) i"
        using copia_entradas_hasta [OF k(2), of "[256..<512]" s1 i] that(2) by (simp add: s2_def k(1) del: upt_rec_numeral)
      then show ?thesis
        unfolding f1 using that(2) k by (simp add: s1_def)
    qed
    moreover have "card (libres_de (fisico s)) \<le> card (libres_de (fisico s4)) + 2"
      using card_Diff_singleton [OF h1(3)] card_Diff_singleton [OF h2(3)] h1(5) h2(5)
      by (simp add: campos)
    ultimately show ?thesis
      using nuevo [OF eq f1R c _ v] by blast
  qed
qed

section \<open>A machine with one space\<close>

text \<open>Memory of zeros, the frames of \<^const>\<open>phys_prueba\<close>, the kernel's root in the first page.\<close>

definition vmm_prueba :: vmm_st where
  "vmm_prueba = \<lparr>memoria = (\<lambda>_ _. 0), fisico = phys_prueba, nx = True, kernel_pml4 = 0x1000,
     kernel_half_holes = 0\<rparr>"

definition raiz_prueba :: u64 where "raiz_prueba = the (fst (new_address_space 0 vmm_prueba))"
definition con_espacio :: vmm_st where "con_espacio = snd (new_address_space 0 vmm_prueba)"

lemma phys_prueba_libres:
  "{0x200 ..< 0x240} \<subseteq> libres_de phys_prueba" "0 \<notin> libres_de phys_prueba" "1 \<notin> libres_de phys_prueba"
proof -
  have "f \<in> libres_de phys_prueba" if "0x200 \<le> f" "f < 0x240" for f
    using init_phys_libres [OF phys_prueba_init] that
    by (simp add: phys_bss_def titular_inicial_ok reservas_prueba)
      (simp add: ctx_prueba_def usables_iff reservados_iff MARCOS_def)
  then show "{0x200 ..< 0x240} \<subseteq> libres_de phys_prueba"
    by auto
qed (use init_phys_libres [OF phys_prueba_init] in
    \<open>simp_all add: phys_bss_def titular_inicial_ok reservas_prueba,
     simp_all add: ctx_prueba_def usables_iff reservados_iff MARCOS_def\<close>)

lemma phys_prueba_card: "64 \<le> card (libres_de phys_prueba)"
  using card_mono [OF _ phys_prueba_libres(1)] by (simp add: libres_de_def)

lemma vmm_prueba_ok: "espacios_ok vmm_prueba {}"
  using phys_prueba_ok phys_prueba_libres(2) by (simp add: espacios_ok_def vmm_prueba_def)

lemma con_espacio_eq:
  "new_address_space 0 vmm_prueba = (Some raiz_prueba, con_espacio)"
  "espacios_ok con_espacio {raiz_prueba}" "espacio_vacio con_espacio raiz_prueba"
  "nx con_espacio" "62 \<le> card (libres_de (fisico con_espacio))"
proof -
  have f: "fisico vmm_prueba = phys_prueba" "nx vmm_prueba"
    by (simp_all add: vmm_prueba_def)
  have no: "\<not> card (libres_de (fisico vmm_prueba)) \<le> 1"
    using phys_prueba_card by (simp add: f)
  have "new_address_space 0 vmm_prueba = (Some raiz_prueba, con_espacio) \<and>
    espacios_ok con_espacio {raiz_prueba} \<and> espacio_vacio con_espacio raiz_prueba \<and> nx con_espacio \<and>
    62 \<le> card (libres_de (fisico con_espacio))"
    using vmm_prueba_ok
  proof (cases rule: new_address_space_cases [where tick = 0, consumes 1, case_names falla nuevo])
    case (nuevo s' r)
    then show ?thesis
      using f phys_prueba_card by (simp add: raiz_prueba_def con_espacio_def conserva_def)
  qed (use no in simp)
  then show "new_address_space 0 vmm_prueba = (Some raiz_prueba, con_espacio)"
    "espacios_ok con_espacio {raiz_prueba}" "espacio_vacio con_espacio raiz_prueba" "nx con_espacio" "62 \<le> card (libres_de (fisico con_espacio))"
    by simp_all
qed

end
