(* ===== verification/Aislamiento.thy ===== *)
theory Aislamiento
  imports Espacio_Nuevo
begin

text \<open>
  The properties of the page tables, over any history of the operations of \<open>amarilla.rs\<close> and
  \<open>new_address_space\<close>.
\<close>

section \<open>Histories\<close>

datatype op_vmm =
    MapImagen u64 u64 permiso_imagen
  | MapPage u64 u64 bool bool
  | MapPropia u64 u64 bool bool
  | MapWc u64 u64 bool bool
  | Unmap u64

fun va_op :: "op_vmm \<Rightarrow> u64" where
  "va_op (MapImagen va _ _) = va"
| "va_op (MapPage va _ _ _) = va"
| "va_op (MapPropia va _ _ _) = va"
| "va_op (MapWc va _ _ _) = va"
| "va_op (Unmap va) = va"

fun aplica_op :: "op_vmm \<Rightarrow> u64 \<Rightarrow> vmm_st \<Rightarrow> vmm_st" where
  "aplica_op (MapImagen va pa p) r s = snd (map_page_imagen r va pa p s)"
| "aplica_op (MapPage va pa u w) r s = snd (map_page r va pa u w s)"
| "aplica_op (MapPropia va pa u w) r s = snd (map_page_propia r va pa u w s)"
| "aplica_op (MapWc va pa u w) r s = snd (map_page_wc r va pa u w s)"
| "aplica_op (Unmap va) r s = snd (unmap_page r va s)"

text \<open>From spaces \<open>R\<close> in state \<open>s\<close>, the spaces and states some history of calls leads to.\<close>

inductive alcanza :: "u64 set \<Rightarrow> vmm_st \<Rightarrow> u64 set \<Rightarrow> vmm_st \<Rightarrow> bool" for R s where
  inicio: "alcanza R s R s"
| nuevo: "alcanza R s R' s' \<Longrightarrow> new_address_space tick s' = (Some r, s'') \<Longrightarrow> alcanza R s (insert r R') s''"
| sin_memoria: "alcanza R s R' s' \<Longrightarrow> new_address_space tick s' = (None, s'') \<Longrightarrow> alcanza R s R' s''"
| pagina: "alcanza R s R' s' \<Longrightarrow> r \<in> R' \<Longrightarrow> en_usuario (va_op op) \<Longrightarrow>
    alcanza R s R' (aplica_op op r s')"

section \<open>One step\<close>

definition escribible :: "u64 \<Rightarrow> bool" where "escribible e \<longleftrightarrow> e AND PTE_WRITABLE \<noteq> 0"
definition ejecutable :: "u64 \<Rightarrow> bool" where "ejecutable e \<longleftrightarrow> e AND PTE_NX = 0"

lemma escribible_bit: "escribible e \<longleftrightarrow> bit e 1"
  unfolding escribible_def pte_eqs and_power_bit by simp

lemma ejecutable_bit: "ejecutable e \<longleftrightarrow> \<not> bit e 63"
  using and_power_bit [of e 63] unfolding ejecutable_def pte_eqs by auto

lemma entrada_hoja_permisos:
  "escribible (entrada_hoja pa u w x c n h) \<longleftrightarrow> w"
  "ejecutable (entrada_hoja pa u w x c n h) \<longleftrightarrow> \<not> (\<not> x \<and> h)"
  by (simp_all add: escribible_bit ejecutable_bit entrada_hoja_def bits_pte)

definition hoja_segura :: "u64 \<Rightarrow> bool" where
  "hoja_segura e \<longleftrightarrow> presente e \<longrightarrow> \<not> (escribible e \<and> ejecutable e)"

definition escritura_xor :: "u64 set \<Rightarrow> vmm_st \<Rightarrow> bool" where
  "escritura_xor R s \<longleftrightarrow> (\<forall>r \<in> R. \<forall>va. va_usuario va \<longrightarrow> hoja_segura (hoja_de s r va))"

definition mundo_ok :: "u64 set \<Rightarrow> vmm_st \<Rightarrow> bool" where
  "mundo_ok R s \<longleftrightarrow> espacios_ok s R \<and> nx s \<and> escritura_xor R s \<and> sin_enormes R s"

lemma mundo_okD:
  assumes "mundo_ok R s"
  shows "espacios_ok s R" "nx s" "escritura_xor R s" "sin_enormes R s"
  using assms by (simp_all add: mundo_ok_def)

lemma hoja_segura_0 [simp]: "hoja_segura 0"
  by (simp add: hoja_segura_def)

lemma hoja_segura_entrada: "\<not> (w \<and> x) \<Longrightarrow> hoja_segura (entrada_hoja pa u w x c n True)"
  by (auto simp: hoja_segura_def entrada_hoja_permisos)

lemma hoja_de_pagina:
  "pagina_de va' = pagina_de va \<Longrightarrow> hoja_de s r va' = hoja_de s r va"
  by (simp add: hoja_de_def nivel_def)

lemma conserva_mundo: "conserva R s s' \<Longrightarrow> mundo_ok R s \<Longrightarrow> mundo_ok R s'"
  using conserva_sin_enormes [of R s s'] by (auto simp: mundo_ok_def escritura_xor_def conserva_def)

lemma cambia_mundo:
  assumes "cambia_pagina R r va d e s s'" "mundo_ok R s" "hoja_segura e"
  shows "mundo_ok R s'"
proof -
  have "hoja_segura (hoja_de s' r' va')" if "r' \<in> R" "va_usuario va'" for r' va'
    using assms that hoja_de_pagina [of va' va s' r]
    by (cases "r' = r \<and> pagina_de va' = pagina_de va")
      (simp_all add: cambia_pagina_def mundo_ok_def escritura_xor_def)
  then show ?thesis
    using assms(1,2) by (simp add: mundo_ok_def escritura_xor_def cambia_pagina_def)
qed

lemma map_page_tipo_mundo:
  assumes m: "mundo_ok R s" "r \<in> R" "va_usuario va" and "\<not> (w \<and> x)"
  shows "mundo_ok R (snd (map_page_tipo r va pa u w x c n s))"
proof -
  have "espacios_ok s R" "nx s"
    using m(1) by (simp_all add: mundo_ok_def)
  then show ?thesis
    using map_page_tipo_cambia [OF _ m(2,3), of s pa u w x c n] hoja_segura_entrada [OF assms(4)]
      conserva_mundo [OF _ m(1)] cambia_mundo [OF _ m(1)]
    by (auto split: prod.splits bool.splits)
qed

lemma aplica_op_mundo:
  assumes m: "mundo_ok R s" "r \<in> R" "va_usuario (va_op op)"
  shows "mundo_ok R (aplica_op op r s)"
proof (cases op)
  case (MapImagen va pa p)
  then show ?thesis
    using map_page_tipo_mundo [OF m(1,2)] m(3)
    by (cases p) (simp_all add: map_page_imagen_def)
next
  case (Unmap va)
  have "espacios_ok s R" "va_usuario va"
    using m Unmap by (simp_all add: mundo_ok_def)
  then show ?thesis
    using unmap_page_cambia [OF _ m(2), of s va] cambia_mundo [OF _ m(1)] m(1) Unmap
    by (auto split: prod.splits option.splits)
qed (use map_page_tipo_mundo [OF m(1,2)] m(3) in
    \<open>simp_all add: map_page_def map_page_propia_def map_page_wc_def\<close>)

lemma espacio_vacio_sin_enormes:
  assumes "espacio_vacio s r" "va_usuario va"
  shows "nivel (memoria s) r va 2 = 0" "nivel (memoria s) r va 1 = 0"
proof -
  obtain t where t: "presente (memoria s r 0)" "\<not> enorme (memoria s r 0)"
    "memoria s r 0 AND ADDR_MASK = t" "\<And>j. 1 \<le> j \<Longrightarrow> memoria s t j = 0"
    using assms(1) by (auto simp: espacio_vacio_def)
  then show "nivel (memoria s) r va 2 = 0" "nivel (memoria s) r va 1 = 0"
    using assms(2) by (simp_all add: nivel_def pagina_de_def va_usuario_def entrada_def numeral_eq_Suc)
qed

lemma nuevo_mundo:
  assumes "mundo_ok R s"
  shows "case new_address_space tick s of (Some r, s') \<Rightarrow> mundo_ok (insert r R) s'
    | (None, s') \<Rightarrow> mundo_ok R s'"
proof -
  have "espacios_ok s R"
    using assms by (simp add: mundo_ok_def)
  then show ?thesis
  proof (cases rule: new_address_space_cases [where tick = tick, consumes 1, case_names falla nuevo])
    case (falla s')
    then show ?thesis
      using conserva_mundo [OF falla(2) assms] by simp
  next
    case (nuevo s' r)
    have "mundo_ok R s'"
      using conserva_mundo [OF nuevo(3) assms] .
    then have "mundo_ok (insert r R) s'"
      using nuevo(4) espacio_vacio_hoja [OF nuevo(5)] espacio_vacio_sin_enormes [OF nuevo(5)]
      by (simp add: mundo_ok_def escritura_xor_def sin_enormes_def)
    then show ?thesis
      using nuevo(1) by simp
  qed
qed

lemma alcanza_mundo: "alcanza R s R' s' \<Longrightarrow> mundo_ok R s \<Longrightarrow> mundo_ok R' s'"
proof (induction rule: alcanza.induct)
  case (nuevo R' s' tick r s'')
  then show ?case
    using nuevo_mundo [of R' s' tick] by simp
next
  case (sin_memoria R' s' tick s'')
  then show ?case
    using nuevo_mundo [of R' s' tick] by simp
qed (use aplica_op_mundo en_usuario_va in blast)+

lemma con_espacio_mundo: "mundo_ok {raiz_prueba} con_espacio"
  using con_espacio_eq espacio_vacio_hoja [OF con_espacio_eq(3)]
    espacio_vacio_sin_enormes [OF con_espacio_eq(3)]
  by (simp add: mundo_ok_def escritura_xor_def sin_enormes_def)

lemma fisica_exacta_trad:
  assumes "\<not> enorme (memoria s r 0)" "va_usuario va"
  shows "fisica_exacta s r va =
    (if \<not> presente (nivel (memoria s) r va 0) then None
     else if \<not> presente (nivel (memoria s) r va 1) then None
     else if enorme (nivel (memoria s) r va 1)
     then Some ((nivel (memoria s) r va 1 AND 0x000FFFFFC0000000) + (va AND 0x3FFFFFFF))
     else if \<not> presente (nivel (memoria s) r va 2) then None
     else if enorme (nivel (memoria s) r va 2)
     then Some ((nivel (memoria s) r va 2 AND 0x000FFFFFFFE00000) + (va AND 0x1FFFFF))
     else if \<not> presente (nivel (memoria s) r va 3) then None
     else Some ((nivel (memoria s) r va 3 AND ADDR_MASK) + (va AND (PAGE - 1))))"
  using assms
  by (simp add: fisica_exacta_def nivel_def pagina_de_def entrada_def va_usuario_def Let_def
      numeral_eq_Suc)

text \<open>Without large pages the leaf is all there is to a translation.\<close>

lemma translate_de_hoja:
  assumes m: "mundo_ok R s" "r \<in> R" and va: "va_usuario va"
  shows "translate s r va =
    (if presente (hoja_de s r va) then Some (hoja_de s r va AND ADDR_MASK) else None)"
    and "fisica_exacta s r va =
    (if presente (hoja_de s r va) then Some ((hoja_de s r va AND ADDR_MASK) + (va AND (PAGE - 1))) else None)"
proof -
  let ?n = "nivel (memoria s) r va"
  have e0: "\<not> enorme (memoria s r 0)" and e: "\<not> enorme (?n 1)" "\<not> enorme (?n 2)"
    using espacios_okD(3) [OF mundo_okD(1) [OF m(1)] m(2)] mundo_okD(4) [OF m(1)] m(2) va
    by (auto simp: sin_enormes_def)
  have c: "\<not> presente (?n k) \<Longrightarrow> ?n (k + 1) = 0" if "k < 3" for k
    using nodo_snoc [of "memoria s" r "take k (pagina_de va)" "pagina_de va ! k"] that
    by (simp add: nivel_def take_Suc_conv_app_nth entrada_def split: if_splits)
  have "?n 1 = 0" if "\<not> presente (?n 0)"
    using c [of 0] that by simp
  moreover have "?n 2 = 0" if "\<not> presente (?n 1)"
    using c [of 1] that by (simp add: numeral_2_eq_2)
  moreover have "?n 3 = 0" if "\<not> presente (?n 2)"
    using c [of 2] that by (simp add: numeral_3_eq_3 numeral_2_eq_2)
  ultimately have p: "presente (?n 3) \<Longrightarrow> presente (?n 0) \<and> presente (?n 1) \<and> presente (?n 2)"
    by (metis presente_0)
  show "translate s r va =
    (if presente (hoja_de s r va) then Some (hoja_de s r va AND ADDR_MASK) else None)"
    unfolding translate_trad [OF e0 va] trad_def hoja_de_def using e p by simp
  show "fisica_exacta s r va =
    (if presente (hoja_de s r va) then Some ((hoja_de s r va AND ADDR_MASK) + (va AND (PAGE - 1))) else None)"
    unfolding fisica_exacta_trad [OF e0 va] hoja_de_def using e p by simp
qed

lemma translate_sin_hoja:
  "mundo_ok R s \<Longrightarrow> r \<in> R \<Longrightarrow> va_usuario va \<Longrightarrow> \<not> presente (hoja_de s r va) \<Longrightarrow> translate s r va = None"
  using translate_de_hoja(1) by simp

section \<open>Properties\<close>

lemma mask_pa:
  assumes "pa mod PAGE = 0" "unat pa < 2 ^ 52"
  shows "pa AND ADDR_MASK = pa"
proof -
  have "take_bit 12 pa = 0"
    using assms(1) by (simp add: PAGE_def take_bit_eq_mod)
  then have "bit pa k \<Longrightarrow> 12 \<le> k" for k
    by (metis bit_0_eq bit_take_bit_iff bot_apply bot_bool_def not_less)
  moreover have "take_bit 52 pa = pa"
    using assms(2) by (simp add: word_unat_eq_iff take_bit_eq_mod unat_mod)
  then have "bit pa k \<Longrightarrow> k < 52" for k
    by (metis bit_take_bit_iff)
  ultimately show ?thesis
    by (intro bit_word_eqI) (auto simp: bits_pte not_less)
qed

text \<open>
  C25: \<open>map_page_tipo\<close> gives exactly the page asked for. On success the two addresses were aligned,
  that page of that space translates to that frame, and every other user page of every space
  translates as before; on failure every page does. The tables stay a forest of taken frames.
\<close>

theorem map_page_exacto:
  assumes "espacios_ok s R" "r \<in> R" "en_usuario va" "unat pa < 2 ^ 52"
  shows "let (hecho, s') = map_page_tipo r va pa u w x c n s in
    espacios_ok s' R \<and>
    (hecho \<longrightarrow> va mod PAGE = 0 \<and> pa mod PAGE = 0 \<and> translate s' r va = Some pa) \<and>
    (\<forall>r' \<in> R. \<forall>va'. en_usuario va' \<longrightarrow>
       \<not> (hecho \<and> r' = r \<and> unat va' div 4096 = unat va div 4096) \<longrightarrow>
       translate s' r' va' = translate s r' va')"
proof -
  obtain hecho s' where m: "map_page_tipo r va pa u w x c n s = (hecho, s')"
    by fastforce
  show ?thesis
    using map_page_tipo_cambia [OF assms(1,2) en_usuario_va [OF assms(3)], of pa u w x c n] m
      mask_pa [OF _ assms(4)] pagina_de_iff [OF assms(3)] en_usuario_va
    by (cases hecho) (simp_all add: cambia_pagina_def conserva_def)
qed

theorem map_page_exacto_witness:
  "let (hecho, s') = map_page_tipo raiz_prueba 0x40000000 0x300000 True True False False True con_espacio in
    espacios_ok s' {raiz_prueba} \<and>
    (hecho \<longrightarrow> translate s' raiz_prueba 0x40000000 = Some 0x300000) \<and>
    translate s' raiz_prueba 0x40001000 = translate con_espacio raiz_prueba 0x40001000"
  using map_page_exacto [OF con_espacio_eq(2), where r = raiz_prueba and va = "0x40000000"
      and pa = "0x300000" and u = True and w = True and x = False and c = False and n = True]
  by (auto simp: en_usuario_def FIN_USUARIO_def USER_IMAGE_BASE_def)

text \<open>
  \<open>unmap_page\<close> takes exactly that page away: when it returns a frame, that was the page's
  frame, the page translates to nothing afterwards, and every other user page of every space
  is as before; when it returns nothing, nothing was written and the page had no leaf.
\<close>

theorem unmap_page_exacto:
  assumes "espacios_ok s R" "r \<in> R" "en_usuario va"
  shows "case unmap_page r va s of
      (None, s') \<Rightarrow> s' = s \<and> \<not> presente (hoja_de s r va)
    | (Some pa, s') \<Rightarrow> translate s r va = Some pa \<and> translate s' r va = None \<and> espacios_ok s' R \<and>
        (\<forall>r' \<in> R. \<forall>va'. en_usuario va' \<longrightarrow> \<not> (r' = r \<and> unat va' div 4096 = unat va div 4096) \<longrightarrow>
          translate s' r' va' = translate s r' va')"
  using unmap_page_cambia [OF assms(1,2) en_usuario_va [OF assms(3)]]
    pagina_de_iff [OF assms(3)] en_usuario_va
  by (auto simp: cambia_pagina_def split: prod.splits option.splits)

theorem unmap_page_exacto_witness:
  "unmap_page raiz_prueba 0x40000000 con_espacio = (None, con_espacio)"
proof -
  have "en_usuario 0x40000000"
    by (simp add: en_usuario_def FIN_USUARIO_def USER_IMAGE_BASE_def)
  then show ?thesis
    using unmap_page_exacto [OF con_espacio_eq(2), of raiz_prueba "0x40000000"]
      espacio_vacio_translate [OF con_espacio_eq(3) en_usuario_va]
    by (auto split: prod.splits option.splits)
qed

text \<open>
  C26: a new space starts empty and shares only the kernel half. \<open>new_address_space\<close> fails only with
  fewer than two frames free; otherwise its root is no space there was, every user page of it is
  absent, its entries 256 to 511 are the kernel's, and no user page of any other space changes.
\<close>

theorem new_address_space_exacto:
  assumes "espacios_ok s R" "tomado s (kernel_pml4 s)"
  shows "case new_address_space tick s of
      (None, s') \<Rightarrow> card (libres_de (fisico s)) \<le> 1 \<and> espacios_ok s' R \<and>
        (\<forall>r \<in> R. \<forall>va. en_usuario va \<longrightarrow> translate s' r va = translate s r va)
    | (Some r0, s') \<Rightarrow> r0 \<notin> R \<and> espacios_ok s' (insert r0 R) \<and>
        (\<forall>va. en_usuario va \<longrightarrow> translate s' r0 va = None) \<and>
        (\<forall>i \<in> {256..<512}. memoria s' r0 i = memoria s (kernel_pml4 s) i) \<and>
        (\<forall>r \<in> R. \<forall>va. en_usuario va \<longrightarrow> translate s' r va = translate s r va)"
  using assms(1)
proof (cases rule: new_address_space_cases [where tick = tick, consumes 1, case_names falla nuevo])
  case (falla s')
  then show ?thesis
    using conservaD [OF falla(2)] en_usuario_va by simp
next
  case (nuevo s' r0)
  then show ?thesis
    using conservaD(3) [OF nuevo(3)] espacio_vacio_translate [OF nuevo(5)] en_usuario_va assms(2)
    by simp
qed

theorem new_address_space_exacto_witness:
  "memoria con_espacio raiz_prueba 300 = memoria vmm_prueba 0x1000 300"
proof -
  have "tomado vmm_prueba (kernel_pml4 vmm_prueba)"
    using phys_prueba_libres(3)
    by (auto simp: tomado_def vmm_prueba_def indice_marco_Some_iff MARCOS_def)
  moreover have "kernel_pml4 vmm_prueba = 0x1000"
    by (simp add: vmm_prueba_def)
  ultimately show ?thesis
    using new_address_space_exacto [OF vmm_prueba_ok, of 0] con_espacio_eq(1) by simp
qed

text \<open>
  C8: nothing is writable and executable. Starting with no space, on a processor that has the
  no-execute bit, after any history of new spaces and of the five operations on their user
  pages every leaf present is read-only or not executable.
\<close>

theorem escritura_o_ejecucion:
  assumes "espacios_ok s {}" "nx s" "alcanza {} s R s'"
    and "r \<in> R" "en_usuario va" "presente (hoja_de s' r va)"
  shows "\<not> (escribible (hoja_de s' r va) \<and> ejecutable (hoja_de s' r va))"
proof -
  have "mundo_ok {} s"
    using assms(1,2) by (simp add: mundo_ok_def escritura_xor_def sin_enormes_def)
  then have "mundo_ok R s'"
    using alcanza_mundo [OF assms(3)] by blast
  then show ?thesis
    using assms(4,6) en_usuario_va [OF assms(5)]
    by (simp add: mundo_ok_def escritura_xor_def hoja_segura_def)
qed

text \<open>One program page mapped in the space of the example.\<close>

definition con_pagina :: vmm_st where
  "con_pagina = aplica_op (MapPropia 0x40000000 0x300000 True True) raiz_prueba con_espacio"

lemma en_usuario_prueba: "en_usuario 0x40000000"
  by (simp add: en_usuario_def FIN_USUARIO_def USER_IMAGE_BASE_def)

lemma con_espacio_alcanza: "alcanza {} vmm_prueba {raiz_prueba} con_espacio"
  using alcanza.nuevo [OF alcanza.inicio con_espacio_eq(1)] .

lemma con_pagina_alcanza: "alcanza {} vmm_prueba {raiz_prueba} con_pagina"
  unfolding con_pagina_def
  using alcanza.pagina [OF con_espacio_alcanza, of raiz_prueba "MapPropia 0x40000000 0x300000 True True"]
    en_usuario_prueba by simp

lemma con_pagina_hecha:
  "fst (map_page_propia raiz_prueba 0x40000000 0x300000 True True con_espacio)"
  unfolding map_page_propia_def
  using mundo_okD [OF con_espacio_mundo] con_espacio_eq(5) en_usuario_va [OF en_usuario_prueba]
  by (intro map_page_tipo_cabe [where R = "{raiz_prueba}"]) (simp_all add: PAGE_def)

lemma con_pagina_hoja:
  "presente (hoja_de con_pagina raiz_prueba 0x40000000)"
  "escribible (hoja_de con_pagina raiz_prueba 0x40000000)"
  "translate con_pagina raiz_prueba 0x40000000 = Some 0x300000"
proof -
  have "(0x300000 :: u64) AND ADDR_MASK = 0x300000"
    by (rule mask_pa) (simp_all add: PAGE_def)
  then have "hoja_de con_pagina raiz_prueba 0x40000000 =
      entrada_hoja 0x300000 True True False False True True \<and>
    translate con_pagina raiz_prueba 0x40000000 = Some 0x300000"
    using map_page_tipo_cambia [OF con_espacio_eq(2) _ en_usuario_va [OF en_usuario_prueba],
        of raiz_prueba "0x300000" True True False False True]
      con_pagina_hecha con_espacio_eq(4)
    by (auto simp: con_pagina_def map_page_propia_def cambia_pagina_def split: prod.splits)
  then show "presente (hoja_de con_pagina raiz_prueba 0x40000000)"
    "escribible (hoja_de con_pagina raiz_prueba 0x40000000)"
    "translate con_pagina raiz_prueba 0x40000000 = Some 0x300000"
    by (simp_all add: entrada_hoja_presente entrada_hoja_permisos)
qed

lemma vmm_prueba_nx: "nx vmm_prueba"
  by (simp add: vmm_prueba_def)

theorem escritura_o_ejecucion_witness:
  "escribible (hoja_de con_pagina raiz_prueba 0x40000000) \<and>
   \<not> ejecutable (hoja_de con_pagina raiz_prueba 0x40000000)"
  using escritura_o_ejecucion [OF vmm_prueba_ok vmm_prueba_nx con_pagina_alcanza _ en_usuario_prueba]
    con_pagina_hoja by simp

text \<open>
  Three free frames are always enough to map a page. In any state some history leads to,
  \<open>map_page_tipo\<close> of two aligned addresses succeeds if at least three frames are free: no large
  page can stand in the way and a walk makes at most three tables.
\<close>

theorem map_page_cabe:
  assumes "espacios_ok s {}" "nx s" "alcanza {} s R s'"
    and "r \<in> R" "en_usuario va" "va mod PAGE = 0" "pa mod PAGE = 0"
    and "3 \<le> card (libres_de (fisico s'))"
  shows "fst (map_page_tipo r va pa u w x c n s')"
proof -
  have "mundo_ok {} s"
    using assms(1,2) by (simp add: mundo_ok_def escritura_xor_def sin_enormes_def)
  then have "mundo_ok R s'"
    using alcanza_mundo [OF assms(3)] by blast
  then show ?thesis
    using map_page_tipo_cabe [OF _ assms(4) en_usuario_va [OF assms(5)] _ assms(8,6,7)] mundo_okD
    by blast
qed

theorem map_page_cabe_witness:
  "fst (map_page_tipo raiz_prueba 0x40000000 0x5000 True False True False True con_espacio)"
  using con_espacio_eq(5) by (intro map_page_cabe [OF vmm_prueba_ok vmm_prueba_nx con_espacio_alcanza _
      en_usuario_prueba]) (simp_all add: PAGE_def)

end
