(* ===== verification/Planificador.thy ===== *)
theory Planificador
  imports Aislamiento
begin

text \<open>
  \<open>kernel/src/ring0/task/scheduler\<close>: the 64 task slots and who runs next. \<open>roja.rs\<close> decides and
  writes, \<open>verde.rs\<close> reads.

  The state holds the scheduler, the registers of the processor it sets (the published context,
  the system-call stack, RSP0 of the TSS, CR3) and the memory a finished task gives back. What
  comes from outside is an argument: the time stamp \<open>tsc\<close>, the stack pointer \<open>rsp\<close> and the tick.
  The lock makes every operation atomic. The seal a context carries and the snapshot of the last
  switch are diagnostics written into the context itself; only their counter is kept.
\<close>

section \<open>Tasks\<close>

definition MAX_TASKS :: nat where "MAX_TASKS = 64"
definition DEFAULT_QUANTUM_TICKS :: u16 where "DEFAULT_QUANTUM_TICKS = 4"
definition QUANTUM_DELANTE :: u16 where "QUANTUM_DELANTE = 8"
definition TASK_STACK_PAGES :: u64 where "TASK_STACK_PAGES = 4"

datatype task_state = Empty | Ready | Running | Blocked | Exited

record task =
  t_tid :: u32
  t_pid :: u32
  t_state :: task_state
  t_priority :: u8
  t_remaining :: u16
  t_quantum :: u16
  t_context_rsp :: u64
  t_stack_phys :: u64
  t_stack_pages :: u64
  t_wait_key :: u64
  t_wait_deadline :: u64
  t_is_user :: bool
  t_cr3 :: u64
  t_kernel_stack_top :: u64
  t_cpu_ciclos :: u64
  t_entro_en :: u64

definition EMPTY_TASK :: task where
  "EMPTY_TASK =
    \<lparr>t_tid = 0, t_pid = 0, t_state = Empty, t_priority = 0, t_remaining = 0,
     t_quantum = DEFAULT_QUANTUM_TICKS, t_context_rsp = 0, t_stack_phys = 0, t_stack_pages = 0,
     t_wait_key = 0, t_wait_deadline = 0, t_is_user = False, t_cr3 = 0, t_kernel_stack_top = 0,
     t_cpu_ciclos = 0, t_entro_en = 0\<rparr>"

record pila_muerta =
  pm_tid :: u32
  pm_base :: u64
  pm_paginas :: u64
  pm_tick :: u64
  pm_motivo :: u8

definition MORGUE_FICHAS :: nat where "MORGUE_FICHAS = 32"

record planificador =
  vm :: vmm_st
  tasks :: "task list"
  current :: nat
  next_tid :: u32
  idle :: nat
  morgue :: "pila_muerta list"
  morgue_n :: u64
  tsc_freq :: u64
  trap_rsp :: u64
  syscall_stack_top :: u64
  tss_rsp0 :: u64
  cr3 :: u64
  user_switches :: u64
  latidos :: u64

definition pon_task :: "nat \<Rightarrow> (task \<Rightarrow> task) \<Rightarrow> 'a planificador_scheme \<Rightarrow> 'a planificador_scheme" where
  "pon_task i f s = s\<lparr>tasks := (tasks s)[i := f (tasks s ! i)]\<rparr>"

definition actual :: "'a planificador_scheme \<Rightarrow> task" where
  "actual s = tasks s ! current s"

section \<open>Choosing (roja.rs)\<close>

fun elige :: "task list \<Rightarrow> nat \<Rightarrow> nat list \<Rightarrow> nat option \<times> u8 \<Rightarrow> nat option \<times> u8" where
  "elige ts ociosa [] b = b"
| "elige ts ociosa (i # is) (best, best_priority) =
    (if i = ociosa then elige ts ociosa is (best, best_priority)
     else if t_state (ts ! i) = Ready \<and> (best = None \<or> t_priority (ts ! i) > best_priority)
     then elige ts ociosa is (Some i, t_priority (ts ! i))
     else elige ts ociosa is (best, best_priority))"

definition choose_next :: "'a planificador_scheme \<Rightarrow> nat" where
  "choose_next s =
    (let orden = map (\<lambda>offset. (current s + offset) mod MAX_TASKS) [1 ..< MAX_TASKS + 1] in
     case fst (elige (tasks s) (idle s) orden (None, 0)) of
       Some i \<Rightarrow> i
     | None \<Rightarrow>
        if idle s < MAX_TASKS \<and> t_state (tasks s ! idle s) = Ready then idle s else current s)"

section \<open>Recycling (roja.rs)\<close>

definition anotar_muerta ::
  "u64 \<Rightarrow> u32 \<Rightarrow> u64 \<Rightarrow> u64 \<Rightarrow> u8 \<Rightarrow> 'a planificador_scheme \<Rightarrow> 'a planificador_scheme" where
  "anotar_muerta tick tid base paginas motivo s =
    s\<lparr>morgue := (morgue s)[unat (morgue_n s) mod MORGUE_FICHAS :=
        \<lparr>pm_tid = tid, pm_base = base, pm_paginas = paginas, pm_tick = tick, pm_motivo = motivo\<rparr>],
      morgue_n := morgue_n s + 1\<rparr>"

definition en_pila :: "u64 \<Rightarrow> u64 \<Rightarrow> u64 \<Rightarrow> bool" where
  "en_pila stack_phys stack_pages p \<longleftrightarrow>
     phys_to_virt stack_phys \<le> p \<and> p < phys_to_virt stack_phys + stack_pages * PAGE"

definition motivo_de :: "nat \<Rightarrow> 'a planificador_scheme \<Rightarrow> u8" where
  "motivo_de i s =
    (let t = tasks s ! i; dentro = en_pila (t_stack_phys t) (t_stack_pages t) in
     (if dentro (tss_rsp0 s) then 1 else 0) OR
     (if dentro (syscall_stack_top s) then 2 else 0) OR
     (if dentro (trap_rsp s) then 4 else 0) OR
     (if \<exists>j < length (tasks s). j \<noteq> i \<and> t_state (tasks s ! j) \<noteq> Empty \<and>
           dentro (t_context_rsp (tasks s ! j)) then 8 else 0))"

definition suelta_pila :: "u64 \<Rightarrow> u64 \<Rightarrow> u64 \<Rightarrow> vmm_st \<Rightarrow> vmm_st" where
  "suelta_pila tick base paginas v =
    v\<lparr>fisico := fold (\<lambda>p. free_frame tick (base + of_nat p * PAGE)) [0 ..< unat paginas] (fisico v)\<rparr>"

text \<open>The body of the loop for slot \<open>i\<close>; \<open>muerto\<close> is \<open>current_tid\<close>.\<close>

definition compartido :: "nat \<Rightarrow> 'a planificador_scheme \<Rightarrow> bool" where
  "compartido i s \<longleftrightarrow>
     (\<exists>j < length (tasks s). j \<noteq> i \<and> t_state (tasks s ! j) \<noteq> Empty \<and>
        t_tid (tasks s ! j) \<noteq> t_tid (tasks s ! i) \<and> t_cr3 (tasks s ! j) = t_cr3 (tasks s ! i))"

definition reap_slot :: "u64 \<Rightarrow> u64 \<Rightarrow> u32 \<Rightarrow> nat \<Rightarrow> 'a planificador_scheme \<Rightarrow> 'a planificador_scheme" where
  "reap_slot rsp tick current_tid i s =
    (let t = tasks s ! i in
     if t_state t \<noteq> Exited \<or> t_tid t = current_tid then s
     else if t_stack_phys t \<noteq> 0 \<and> en_pila (t_stack_phys t) (t_stack_pages t) rsp then s
     else
       let s1 = (if t_stack_phys t = 0 then s
                 else (anotar_muerta tick (t_tid t) (t_stack_phys t) (t_stack_pages t) (motivo_de i s) s)
                   \<lparr>vm := suelta_pila tick (t_stack_phys t) (t_stack_pages t) (vm s)\<rparr>);
           s2 = (if t_is_user t \<and> t_cr3 t \<noteq> 0 \<and> t_cr3 t \<noteq> kernel_pml4 (vm s1) \<and> \<not> compartido i s1
                 then s1\<lparr>vm := snd (destroy_address_space tick (t_cr3 t) (vm s1))\<rparr> else s1)
       in pon_task i (\<lambda>_. EMPTY_TASK) s2)"

definition reap :: "u64 \<Rightarrow> u64 \<Rightarrow> 'a planificador_scheme \<Rightarrow> 'a planificador_scheme" where
  "reap rsp tick s = fold (reap_slot rsp tick (t_tid (actual s))) [0 ..< length (tasks s)] s"

section \<open>Switching (roja.rs)\<close>

definition init_planificador :: "u64 \<Rightarrow> 'a planificador_scheme \<Rightarrow> 'a planificador_scheme" where
  "init_planificador tsc_hz s =
    s\<lparr>tsc_freq := tsc_hz,
      tasks := (replicate MAX_TASKS EMPTY_TASK)
        [0 := EMPTY_TASK\<lparr>t_tid := 1, t_pid := 0, t_state := Running, t_priority := 0,
                t_remaining := DEFAULT_QUANTUM_TICKS, t_quantum := DEFAULT_QUANTUM_TICKS\<rparr>],
      current := 0, next_tid := 2\<rparr>"

datatype saliente = Publicado | Ninguno

text \<open>The processor time of the task that leaves.\<close>

definition cierra_cuenta :: "u64 \<Rightarrow> task \<Rightarrow> task" where
  "cierra_cuenta ahora t =
    (if t_entro_en t \<noteq> 0
     then t\<lparr>t_cpu_ciclos := t_cpu_ciclos t + (ahora - t_entro_en t), t_entro_en := 0\<rparr> else t)"

text \<open>What the processor is told of the task that enters.\<close>

definition publica :: "'a planificador_scheme \<Rightarrow> 'a planificador_scheme" where
  "publica s =
    (let t = actual s;
         next_cr3 = (if t_is_user t then t_cr3 t else kernel_pml4 (vm s));
         s1 = s\<lparr>trap_rsp := t_context_rsp t, cr3 := next_cr3\<rparr>;
         s2 = (if t_kernel_stack_top t \<noteq> 0
               then s1\<lparr>tss_rsp0 := t_kernel_stack_top t, syscall_stack_top := t_kernel_stack_top t\<rparr>
               else s1)
     in if t_is_user t then s2\<lparr>user_switches := user_switches s2 + 1\<rparr> else s2)"

definition schedule_locked ::
  "u64 \<Rightarrow> u64 \<Rightarrow> u64 \<Rightarrow> saliente \<Rightarrow> 'a planificador_scheme \<Rightarrow> 'a planificador_scheme" where
  "schedule_locked ahora rsp tick sal s =
    (let outgoing = trap_rsp s;
         s1 = (if t_state (actual s) = Running
               then pon_task (current s) (t_state_update (\<lambda>_. Ready)) s else s);
         next = choose_next s1 in
     if next = current s1 then
       reap rsp tick
         (if t_state (tasks s1 ! next) = Ready
          then pon_task next (t_state_update (\<lambda>_. Running)) s1 else s1)
     else if t_context_rsp (tasks s1 ! next) = 0 then
       (if t_state (actual s1) \<noteq> Running
        then pon_task (current s1) (t_state_update (\<lambda>_. Running)) s1 else s1)
     else
       let s2 = (if sal = Publicado \<and> outgoing \<noteq> 0
                 then pon_task (current s1) (t_context_rsp_update (\<lambda>_. outgoing)) s1 else s1);
           s3 = pon_task (current s2) (cierra_cuenta ahora) s2;
           s4 = pon_task next (\<lambda>t. t\<lparr>t_entro_en := ahora, t_state := Running,
                                   t_remaining := t_quantum t\<rparr>) s3;
           s5 = publica (s4\<lparr>current := next\<rparr>)
       in reap rsp tick s5)"

definition kill_current_and_pick ::
  "u64 \<Rightarrow> u64 \<Rightarrow> u64 \<Rightarrow> 'a planificador_scheme \<Rightarrow> u64 \<times> 'a planificador_scheme" where
  "kill_current_and_pick ahora rsp tick s =
    (let s1 = (if current s \<noteq> 0 \<and> t_state (actual s) = Running
               then pon_task (current s) (t_state_update (\<lambda>_. Exited)) s else s);
         s2 = schedule_locked ahora rsp tick Ninguno s1
     in (trap_rsp s2, s2))"

section \<open>The clock (roja.rs)\<close>

definition LLAVE :: u64 where "LLAVE = 0x1A71D0"

definition despierta :: "task \<Rightarrow> task" where
  "despierta t = t\<lparr>t_wait_deadline := 0, t_wait_key := 0, t_state := Ready\<rparr>"

definition vence :: "u64 \<Rightarrow> task \<Rightarrow> task" where
  "vence now t =
    (if t_state t = Blocked \<and> t_wait_deadline t \<noteq> 0 \<and> now \<ge> t_wait_deadline t then despierta t
     else if t_state t = Blocked \<and> t_wait_key t = LLAVE then despierta t
     else t)"

definition on_timer :: "u64 \<Rightarrow> u64 \<Rightarrow> u64 \<Rightarrow> u64 \<Rightarrow> 'a planificador_scheme \<Rightarrow> 'a planificador_scheme" where
  "on_timer now ahora rsp tick s =
    (let s1 = s\<lparr>latidos := latidos s + 1, tasks := map (vence now) (tasks s)\<rparr> in
     if t_state (actual s1) = Running \<and> t_remaining (actual s1) > 1
     then pon_task (current s1) (\<lambda>t. t\<lparr>t_remaining := t_remaining t - 1\<rparr>) s1
     else schedule_locked ahora rsp tick Publicado
            (pon_task (current s1) (\<lambda>t. t\<lparr>t_remaining := t_quantum t\<rparr>) s1))"

definition wake_by_key :: "u64 \<Rightarrow> 'a planificador_scheme \<Rightarrow> 'a planificador_scheme" where
  "wake_by_key key s =
    s\<lparr>tasks := map (\<lambda>t. if t_state t = Blocked \<and> t_wait_key t = key then despierta t else t) (tasks s)\<rparr>"

section \<open>New tasks (roja.rs, plat/trap.rs)\<close>

definition XSAVE_AREA :: u64 where "XSAVE_AREA = 1024"

text \<open>Where \<open>fabricate\<close> puts the first context of a task: its result, and the frame above it.\<close>

definition gpr_base :: "u64 \<Rightarrow> u64" where
  "gpr_base stack_top = ((stack_top - 168) AND NOT 0xF) OR 0x8"

definition fabricate :: "u64 \<Rightarrow> u64" where
  "fabricate stack_top = (gpr_base stack_top - (XSAVE_AREA + 8)) AND NOT 63"

fun hueco :: "task list \<Rightarrow> nat option" where
  "hueco [] = None"
| "hueco (t # ts) = (if t_state t = Empty then Some 0 else map_option Suc (hueco ts))"

definition siguiente_tid :: "u32 \<Rightarrow> u32" where
  "siguiente_tid n = max (n + 1) 2"

definition pon_nueva :: "nat \<Rightarrow> task \<Rightarrow> 'a planificador_scheme \<Rightarrow> u32 option \<times> 'a planificador_scheme" where
  "pon_nueva index t s =
    (Some (next_tid s),
     pon_task index (\<lambda>_. t\<lparr>t_tid := next_tid s\<rparr>) (s\<lparr>next_tid := siguiente_tid (next_tid s)\<rparr>))"

definition spawn_kernel :: "u8 \<Rightarrow> 'a planificador_scheme \<Rightarrow> u32 option \<times> 'a planificador_scheme" where
  "spawn_kernel priority s =
    (case alloc_frames_contig_de TASK_STACK_PAGES Pila (fisico (vm s)) of
       (None, p) \<Rightarrow> (None, s\<lparr>vm := (vm s)\<lparr>fisico := p\<rparr>\<rparr>)
     | (Some stack_base, p) \<Rightarrow>
        let s1 = s\<lparr>vm := (vm s)\<lparr>fisico := p\<rparr>\<rparr>;
            stack_top = phys_to_virt stack_base + TASK_STACK_PAGES * PAGE in
        (case hueco (tasks s1) of
           None \<Rightarrow> (None, s1)
         | Some index \<Rightarrow>
             pon_nueva index
               \<lparr>t_tid = 0, t_pid = 0, t_state = Ready, t_priority = min priority 31,
                t_remaining = DEFAULT_QUANTUM_TICKS, t_quantum = DEFAULT_QUANTUM_TICKS,
                t_context_rsp = fabricate stack_top, t_stack_phys = stack_base,
                t_stack_pages = TASK_STACK_PAGES, t_wait_key = 0, t_wait_deadline = 0,
                t_is_user = False, t_cr3 = 0, t_kernel_stack_top = stack_top,
                t_cpu_ciclos = 0, t_entro_en = 0\<rparr> s1))"

definition spawn_user ::
  "u32 \<Rightarrow> u64 \<Rightarrow> u64 \<Rightarrow> u64 \<Rightarrow> u64 \<Rightarrow> u64 \<Rightarrow> u8 \<Rightarrow> 'a planificador_scheme \<Rightarrow>
    u32 option \<times> 'a planificador_scheme" where
  "spawn_user pid context kernel_stack_phys kernel_stack_pages kernel_stack_top espacio priority s =
    (case hueco (tasks s) of
       None \<Rightarrow> (None, s)
     | Some index \<Rightarrow>
         pon_nueva index
           \<lparr>t_tid = 0, t_pid = pid, t_state = Ready, t_priority = min priority 31,
            t_remaining = DEFAULT_QUANTUM_TICKS, t_quantum = DEFAULT_QUANTUM_TICKS,
            t_context_rsp = context, t_stack_phys = kernel_stack_phys,
            t_stack_pages = kernel_stack_pages, t_wait_key = 0, t_wait_deadline = 0,
            t_is_user = True, t_cr3 = espacio, t_kernel_stack_top = kernel_stack_top,
            t_cpu_ciclos = 0, t_entro_en = 0\<rparr> s)"

section \<open>What a task asks for (roja.rs)\<close>

definition mark_yield :: "'a planificador_scheme \<Rightarrow> 'a planificador_scheme" where
  "mark_yield s =
    (if t_state (actual s) = Running then pon_task (current s) (t_state_update (\<lambda>_. Ready)) s else s)"

definition mark_exit :: "'a planificador_scheme \<Rightarrow> 'a planificador_scheme" where
  "mark_exit s =
    (if current s \<noteq> 0 \<and> t_state (actual s) = Running
     then pon_task (current s) (t_state_update (\<lambda>_. Exited)) s else s)"

definition mark_wait :: "u64 \<Rightarrow> u64 \<Rightarrow> 'a planificador_scheme \<Rightarrow> 'a planificador_scheme" where
  "mark_wait key deadline s =
    (if t_state (actual s) = Running
     then pon_task (current s)
       (\<lambda>t. t\<lparr>t_state := Blocked, t_wait_key := key, t_wait_deadline := deadline\<rparr>) s else s)"

definition cpu_propio :: "u64 \<Rightarrow> 'a planificador_scheme \<Rightarrow> u64" where
  "cpu_propio tsc s =
    (let t = actual s; abierto = (if t_entro_en t \<noteq> 0 then tsc - t_entro_en t else 0)
     in t_cpu_ciclos t + abierto)"

definition yield_current :: "u64 \<Rightarrow> u64 \<Rightarrow> u64 \<Rightarrow> 'a planificador_scheme \<Rightarrow> 'a planificador_scheme" where
  "yield_current ahora rsp tick s = schedule_locked ahora rsp tick Publicado (mark_yield s)"

definition exit_current :: "u64 \<Rightarrow> u64 \<Rightarrow> u64 \<Rightarrow> 'a planificador_scheme \<Rightarrow> 'a planificador_scheme" where
  "exit_current ahora rsp tick s = schedule_locked ahora rsp tick Publicado (mark_exit s)"

definition wait_current ::
  "u64 \<Rightarrow> u64 \<Rightarrow> u64 \<Rightarrow> u64 \<Rightarrow> u64 \<Rightarrow> 'a planificador_scheme \<Rightarrow> 'a planificador_scheme" where
  "wait_current key deadline_tsc ahora rsp tick s =
     schedule_locked ahora rsp tick Publicado (mark_wait key deadline_tsc s)"

text \<open>\<open>seq\<close> is what the closure reads under the lock.\<close>

definition wait_current_checked ::
  "u64 \<Rightarrow> u64 \<Rightarrow> u64 \<Rightarrow> u64 \<Rightarrow> u64 \<Rightarrow> u64 \<Rightarrow> u64 \<Rightarrow> 'a planificador_scheme \<Rightarrow> u64 \<times> 'a planificador_scheme" where
  "wait_current_checked key deadline_tsc observed seq ahora rsp tick s =
    (if seq \<noteq> observed then (seq, s)
     else (observed, schedule_locked ahora rsp tick Publicado (mark_wait key deadline_tsc s)))"

text \<open>\<open>delante\<close>: the long turn for one task, the normal one for the other tasks of Ring 3.\<close>

definition delante_task :: "u32 \<Rightarrow> task \<Rightarrow> task" where
  "delante_task tid t =
    (if \<not> t_is_user t \<or> t_state t = Empty then t
     else if t_tid t = tid then t\<lparr>t_quantum := QUANTUM_DELANTE\<rparr>
     else t\<lparr>t_quantum := DEFAULT_QUANTUM_TICKS\<rparr>)"

definition delante :: "u32 \<Rightarrow> 'a planificador_scheme \<Rightarrow> bool \<times> 'a planificador_scheme" where
  "delante tid s =
    (list_ex (\<lambda>t. t_is_user t \<and> t_state t \<noteq> Empty \<and> t_tid t = tid) (tasks s),
     s\<lparr>tasks := map (delante_task tid) (tasks s)\<rparr>)"

fun termina_desde :: "u32 \<Rightarrow> nat list \<Rightarrow> 'a planificador_scheme \<Rightarrow> bool \<times> 'a planificador_scheme" where
  "termina_desde tid [] s = (False, s)"
| "termina_desde tid (i # is) s =
    (let t = tasks s ! i in
     if t_tid t \<noteq> tid \<or> i = 0 then termina_desde tid is s
     else if \<not> t_is_user t then (False, s)
     else if t_state t = Empty \<or> t_state t = Exited then (False, s)
     else (True, pon_task i (t_state_update (\<lambda>_. Exited)) s))"

definition terminar :: "u32 \<Rightarrow> 'a planificador_scheme \<Rightarrow> bool \<times> 'a planificador_scheme" where
  "terminar tid s = termina_desde tid [0 ..< length (tasks s)] s"

fun ranura_de_tid :: "u32 \<Rightarrow> nat \<Rightarrow> task list \<Rightarrow> nat option" where
  "ranura_de_tid tid i [] = None"
| "ranura_de_tid tid i (t # ts) = (if t_tid t = tid then Some i else ranura_de_tid tid (i + 1) ts)"

definition init_idle :: "'a planificador_scheme \<Rightarrow> u32 option \<times> 'a planificador_scheme" where
  "init_idle s =
    (case spawn_kernel 0 s of
       (None, s1) \<Rightarrow> (None, s1)
     | (Some tid, s1) \<Rightarrow>
         (Some tid, case ranura_de_tid tid 0 (tasks s1) of Some i \<Rightarrow> s1\<lparr>idle := i\<rparr> | None \<Rightarrow> s1))"

section \<open>Reading (verde.rs)\<close>

definition ns_to_tsc :: "u64 \<Rightarrow> 'a planificador_scheme \<Rightarrow> u64" where
  "ns_to_tsc ns s =
    (if tsc_freq s = 0 then 0 else of_nat (unat ns * unat (tsc_freq s) div 1000000000))"

definition estado_u8 :: "task_state \<Rightarrow> u8" where
  "estado_u8 e = (case e of Empty \<Rightarrow> 0 | Ready \<Rightarrow> 1 | Running \<Rightarrow> 2 | Blocked \<Rightarrow> 3 | Exited \<Rightarrow> 4)"

definition tid_state :: "u32 \<Rightarrow> 'a planificador_scheme \<Rightarrow> u8" where
  "tid_state tid s =
    (case find (\<lambda>t. t_tid t = tid \<and> t_state t \<noteq> Empty) (tasks s) of
       Some t \<Rightarrow> estado_u8 (t_state t) | None \<Rightarrow> 255)"

definition quien_corre :: "'a planificador_scheme \<Rightarrow> u32 \<times> bool" where
  "quien_corre s = (t_tid (actual s), t_is_user (actual s))"

definition titular_de_pila :: "u64 \<Rightarrow> 'a planificador_scheme \<Rightarrow> (u32 \<times> bool) option" where
  "titular_de_pila rsp s =
    map_option (\<lambda>t. (t_tid t, t_is_user t))
      (find (\<lambda>t. t_stack_phys t \<noteq> 0 \<and> t_stack_pages t \<noteq> 0 \<and>
                 en_pila (t_stack_phys t) (t_stack_pages t) rsp) (tasks s))"

definition fue_de_quien :: "u64 \<Rightarrow> 'a planificador_scheme \<Rightarrow> (u32 \<times> u64 \<times> u8) option" where
  "fue_de_quien rsp s =
    map_option (\<lambda>f. (pm_tid f, pm_tick f, pm_motivo f))
      (find (\<lambda>f. pm_paginas f \<noteq> 0 \<and> en_pila (pm_base f) (pm_paginas f) rsp) (morgue s))"

definition context_rsp_of :: "u32 \<Rightarrow> 'a planificador_scheme \<Rightarrow> u64" where
  "context_rsp_of tid s =
    (case find (\<lambda>t. t_tid t = tid \<and> t_state t = Blocked) (tasks s) of
       Some t \<Rightarrow> t_context_rsp t | None \<Rightarrow> 0)"

definition queda_alguna_de_ring3 :: "'a planificador_scheme \<Rightarrow> bool" where
  "queda_alguna_de_ring3 s = list_ex (\<lambda>t. t_is_user t \<and> t_state t \<noteq> Empty) (tasks s)"

definition hay_hueco :: "'a planificador_scheme \<Rightarrow> bool" where
  "hay_hueco s = list_ex (\<lambda>t. t_state t = Empty) (tasks s)"

definition huecos_libres :: "'a planificador_scheme \<Rightarrow> nat" where
  "huecos_libres s = length (filter (\<lambda>t. t_state t = Empty) (tasks s))"

definition cr3_de_pid :: "u32 \<Rightarrow> 'a planificador_scheme \<Rightarrow> u64 option" where
  "cr3_de_pid pid s =
    map_option t_cr3 (find (\<lambda>t. t_pid t = pid \<and> t_state t \<noteq> Empty \<and> t_is_user t) (tasks s))"

definition vive :: "u32 \<Rightarrow> 'a planificador_scheme \<Rightarrow> bool" where
  "vive tid s = list_ex (\<lambda>t. t_tid t = tid \<and> t_state t \<noteq> Empty) (tasks s)"

definition pid_de_tid :: "u32 \<Rightarrow> 'a planificador_scheme \<Rightarrow> u32 option" where
  "pid_de_tid tid s =
    map_option t_pid (find (\<lambda>t. t_tid t = tid \<and> t_state t \<noteq> Empty) (tasks s))"

definition tid_de :: "u32 \<Rightarrow> 'a planificador_scheme \<Rightarrow> u32 option" where
  "tid_de pid s =
    map_option t_tid
      (find (\<lambda>t. t_pid t = pid \<and> t_state t \<noteq> Empty \<and> t_state t \<noteq> Exited) (tasks s))"

definition counts :: "'a planificador_scheme \<Rightarrow> nat \<times> nat" where
  "counts s =
    (length (filter (\<lambda>t. t_state t \<noteq> Empty) (tasks s)),
     length (filter (\<lambda>t. t_state t = Ready \<or> t_state t = Running) (tasks s)))"

end
