(* ===== verification/Equidad.thy ===== *)
theory Equidad
  imports Turnos
begin

text \<open>The properties of the scheduler.\<close>

section \<open>Taking turns\<close>

text \<open>A task that can run, with no task of a higher priority that can.\<close>

definition puede_correr :: "'a planificador_scheme \<Rightarrow> nat \<Rightarrow> bool" where
  "puede_correr s j \<longleftrightarrow> j \<noteq> idle s \<and> t_state (tasks s ! j) \<in> {Ready, Running}"

definition primera :: "'a planificador_scheme \<Rightarrow> nat \<Rightarrow> bool" where
  "primera s i \<longleftrightarrow> i < MAX_TASKS \<and> puede_correr s i \<and>
     (\<forall>j < MAX_TASKS. puede_correr s j \<longrightarrow> t_priority (tasks s ! j) \<le> t_priority (tasks s ! i))"

definition contextos_ok :: "'a planificador_scheme \<Rightarrow> bool" where
  "contextos_ok s \<longleftrightarrow> (\<forall>j < MAX_TASKS. j \<noteq> current s \<longrightarrow> t_state (tasks s ! j) = Ready \<longrightarrow>
     t_context_rsp (tasks s ! j) \<noteq> 0)"

text \<open>A system call that yields: the entry publishes the context, then the scheduler runs.\<close>

definition cede :: "u64 \<times> u64 \<times> u64 \<times> u64 \<Rightarrow> 'a planificador_scheme \<Rightarrow> 'a planificador_scheme" where
  "cede x s = (case x of (trap, ahora, rsp, tick) \<Rightarrow> yield_current ahora rsp tick (s\<lparr>trap_rsp := trap\<rparr>))"

lemma mark_yield_cedido: "mark_yield s = cedido s"
  by (simp add: mark_yield_def cedido_def)

lemma cedido_idem:
  assumes "plan_ok s"
  shows "cedido (cedido s) = cedido s"
  using cedido_nadie_corre [OF assms plan_okD(2) [OF assms]] by (simp add: cedido_def [of "cedido s"] actual_def)

lemma cedido_trap [simp]: "tasks (cedido (s\<lparr>trap_rsp := r\<rparr>)) = tasks (cedido s)"
  by (simp add: cedido_def actual_def pon_task_def)

lemma cedido_prioridad [simp]:
  "plan_ok s \<Longrightarrow> t_priority (tasks (cedido s) ! j) = t_priority (tasks s ! j)"
  using plan_okD(1,2) [of s] by (simp add: cedido_nth actual_def)

lemma compite_cedido:
  assumes "plan_ok s" "j < MAX_TASKS"
  shows "compite (tasks (cedido s)) (idle s) j \<longleftrightarrow> puede_correr s j"
  using plan_okD(1-3) [OF assms(1)] assms(2)
  by (auto simp: compite_def puede_correr_def cedido_nth actual_def)

text \<open>One yield: the first in line runs, or is nearer than it was.\<close>

lemma cede_paso:
  assumes ok: "plan_ok s" and p: "primera s i" "current s \<noteq> i" and c: "contextos_ok s" and trap: "trap \<noteq> 0"
    and s'_def: "s' = cede (trap, ahora, rsp, tick) s"
  shows "plan_ok s'" "primera s' i" "contextos_ok s'"
    "current s' = i \<or> distancia (current s') i < distancia (current s) i"
proof -
  let ?t = "s\<lparr>trap_rsp := trap\<rparr>"
  define s1 where "s1 = cedido ?t"
  have okt: "plan_ok ?t"
    using ok by simp
  have ok1: "plan_ok s1"
    unfolding s1_def by (rule cedido_ok [OF okt])
  have f1: "current s1 = current s" "idle s1 = idle s" "trap_rsp s1 = trap" "length (tasks s1) = MAX_TASKS"
    using plan_okD(1) [OF ok1] by (simp_all add: s1_def)
  have cur: "current s < MAX_TASKS" and i: "i < MAX_TASKS"
    using plan_okD(2) [OF ok] p(1) by (simp_all add: primera_def)
  have co: "compite (tasks s1) (idle s) j \<longleftrightarrow> puede_correr s j" if "j < MAX_TASKS" for j
    using compite_cedido [OF ok that] by (simp add: s1_def)
  have pr: "t_priority (tasks s1 ! j) = t_priority (tasks s ! j)" for j
    using ok by (simp add: s1_def)
  have ci: "compite (tasks s1) (idle s) i"
    using co [OF i] p(1) by (simp add: primera_def)
  have s': "s' = schedule_locked ahora rsp tick Publicado s1"
    by (simp add: s'_def cede_def yield_current_def mark_yield_cedido s1_def)
  have cc: "cedido s1 = s1"
    unfolding s1_def by (rule cedido_idem [OF okt])
  obtain k where k: "choose_next s1 = k" "mejor (tasks s1) (idle s) (orden (current s)) k"
    by (rule choose_next_cases [of s1]) (use cur f1 ci i in auto)
  have km: "k < MAX_TASKS" "compite (tasks s1) (idle s) k"
    and kp: "t_priority (tasks s1 ! i) \<le> t_priority (tasks s1 ! k)"
    using mejor_orden(1-3) [OF cur k(2)] ci i by blast+
  have "t_priority (tasks s1 ! k) \<le> t_priority (tasks s1 ! i)"
    using p(1) km co [OF km(1)] by (simp add: primera_def pr)
  then have kd: "distancia (current s) k \<le> distancia (current s) i"
    using mejor_orden(4) [OF cur k(2) i ci] kp by simp
  have kc: "k \<noteq> current s"
  proof
    assume e: "k = current s"
    have "distancia (current s) i < MAX_TASKS - 1"
      using p(2) cur i by (auto simp: distancia_def)
    moreover have "distancia (current s) (current s) = MAX_TASKS - 1"
      by (simp add: distancia_def)
    ultimately show False
      using kd e by simp
  qed
  have kctx: "t_context_rsp (tasks s1 ! k) \<noteq> 0"
    using c km kc cedido_nth [of s k] plan_okD(1,2) [OF ok]
    by (simp add: contextos_ok_def compite_def s1_def)
  define s2 where "s2 = cambio ahora Publicado k s1"
  have r: "s' = reap rsp tick s2"
    unfolding s' schedule_locked_eq Let_def cc k(1) f1(1) s2_def using kc kctx by simp
  have nth: "tasks s2 ! j =
    (if j = k then (tasks s1 ! j)\<lparr>t_entro_en := ahora, t_state := Running, t_remaining := t_quantum (tasks s1 ! j)\<rparr>
     else if j = current s then cierra_cuenta ahora ((tasks s1 ! j)\<lparr>t_context_rsp := trap\<rparr>)
     else tasks s1 ! j)" for j
    using cambio_nth [of s1 k ahora Publicado j] f1 cur km(1) kc trap by (simp add: s2_def)
  have f2: "current s2 = k" "idle s2 = idle s" "length (tasks s2) = MAX_TASKS"
    using f1 by (simp_all add: s2_def)
  have st: "t_state (tasks s' ! j) = Empty \<or> tasks s' ! j = tasks s2 ! j" if "j < MAX_TASKS" for j
    using reap_nth [of j s2 rsp tick] that f2(3) by (auto simp: r EMPTY_TASK_def)
  have pc: "puede_correr s2 j \<longleftrightarrow> puede_correr s j" if "j < MAX_TASKS" for j
  proof -
    have "t_state (tasks s2 ! j) \<in> {Ready, Running} \<longleftrightarrow> t_state (tasks s1 ! j) \<in> {Ready, Running}"
      using km(2) by (auto simp: nth compite_def)
    moreover have "t_state (tasks s1 ! j) \<noteq> Running"
      using cedido_nadie_corre [OF okt that] by (simp add: s1_def)
    ultimately show ?thesis
      using co [OF that] by (auto simp: puede_correr_def f2(2) compite_def)
  qed
  have vivo: "tasks s' ! j = tasks s2 ! j" if "puede_correr s2 j" "j < MAX_TASKS" for j
    using that f2(3) unfolding r puede_correr_def by (intro reap_vivo) auto
  show "plan_ok s'"
    unfolding s' by (rule schedule_ok [OF ok1])
  have i2: "puede_correr s2 i" "t_priority (tasks s2 ! j) = t_priority (tasks s ! j)" for j
    using pc [OF i] p(1) by (simp_all add: primera_def nth pr)
  show "primera s' i"
    unfolding primera_def
  proof (intro conjI allI impI)
    show "i < MAX_TASKS"
      by (rule i)
    show "puede_correr s' i"
      using i2(1) vivo [OF i2(1) i] f2(2) by (simp add: puede_correr_def r)
    fix j
    assume j: "j < MAX_TASKS" "puede_correr s' j"
    then have e: "tasks s' ! j = tasks s2 ! j"
      using st [OF j(1)] by (auto simp: puede_correr_def)
    then have "puede_correr s j"
      using j f2(2) pc [OF j(1)] by (simp add: puede_correr_def r)
    then show "t_priority (tasks s' ! j) \<le> t_priority (tasks s' ! i)"
      using p(1) j(1) by (simp add: primera_def e vivo [OF i2(1) i] i2(2))
  qed
  show "contextos_ok s'"
    unfolding contextos_ok_def
  proof (intro allI impI)
    fix j
    assume j: "j < MAX_TASKS" "j \<noteq> current s'" "t_state (tasks s' ! j) = Ready"
    then have e: "tasks s' ! j = tasks s2 ! j"
      using st [OF j(1)] by auto
    have jk: "j \<noteq> k"
      using j(2) f2(1) by (simp add: r)
    show "t_context_rsp (tasks s' ! j) \<noteq> 0"
      using c j(1,3) jk trap cedido_nth [of s j] plan_okD(1,2) [OF ok]
      by (auto simp: e nth contextos_ok_def s1_def)
  qed
  show "current s' = i \<or> distancia (current s') i < distancia (current s) i"
  proof (cases "k = i")
    case False
    then have "distancia (current s) k \<noteq> distancia (current s) i"
      using orden_distancia [OF cur km(1)] orden_distancia [OF cur i] by metis
    then have "distancia k i < distancia (current s) i"
      using kd distancia_siguiente [OF cur i km(1)] by simp
    then show ?thesis
      by (simp add: r f2(1))
  qed (simp add: r f2(1))
qed

lemma cede_llega:
  assumes "plan_ok s" "primera s i" "contextos_ok s" "\<forall>x \<in> set xs. fst x \<noteq> 0"
    and "current s \<noteq> i \<longrightarrow> distancia (current s) i < length xs"
  shows "\<exists>k \<le> length xs. current (fold cede (take k xs) s) = i"
  using assms
proof (induction xs arbitrary: s)
  case Nil
  then show ?case
    by simp
next
  case (Cons x xs)
  obtain trap ahora rsp tick where x: "x = (trap, ahora, rsp, tick)"
    by (cases x)
  show ?case
  proof (cases "current s = i")
    case True
    then show ?thesis
      by (intro exI [of _ 0]) simp
  next
    case False
    have "trap \<noteq> 0"
      using Cons.prems(4) by (simp add: x)
    note p = cede_paso [OF Cons.prems(1,2) False Cons.prems(3) this refl, of ahora rsp tick, folded x]
    have "\<exists>k \<le> length xs. current (fold cede (take k xs) (cede x s)) = i"
      using p Cons.prems(4,5) False by (intro Cons.IH) auto
    then obtain k where "k \<le> length xs" "current (fold cede (take k xs) (cede x s)) = i"
      by blast
    then show ?thesis
      by (intro exI [of _ "Suc k"]) simp
  qed
qed

section \<open>Blocking\<close>

lemma bloquea_paso:
  assumes ok: "plan_ok s" and c: "contextos_ok s"
    and run: "t_state (actual s) = Running" "idle s \<noteq> current s"
    and id: "idle s < MAX_TASKS" "t_state (tasks s ! idle s) = Ready"
    and s'_def: "s' = schedule_locked ahora rsp tick Publicado (mark_wait key deadline s)"
  shows "plan_ok s'" "current s' \<noteq> current s" "t_state (actual s') = Running"
    "t_state (tasks s' ! current s) = Blocked" "t_wait_key (tasks s' ! current s) = key"
    "t_wait_deadline (tasks s' ! current s) = deadline"
proof -
  define s1 where "s1 = mark_wait key deadline s"
  have ok1: "plan_ok s1"
    unfolding s1_def by (rule mark_ok(3) [OF ok])
  have cur: "current s < MAX_TASKS" "length (tasks s) = MAX_TASKS"
    using plan_okD(1,2) [OF ok] by simp_all
  have n1: "tasks s1 ! j = (if j = current s
      then (tasks s ! j)\<lparr>t_state := Blocked, t_wait_key := key, t_wait_deadline := deadline\<rparr> else tasks s ! j)" for j
    using run(1) cur by (auto simp: s1_def mark_wait_def pon_task_nth)
  have f1: "current s1 = current s" "idle s1 = idle s" "length (tasks s1) = MAX_TASKS"
    using cur by (simp_all add: s1_def mark_wait_def)
  have cc: "cedido s1 = s1"
    by (simp add: cedido_def actual_def f1 n1)
  obtain k where k: "choose_next s1 = k" "k < MAX_TASKS" "t_state (tasks s1 ! k) = Ready"
  proof (rule choose_next_cases [of s1])
    show "current s1 < MAX_TASKS"
      using cur f1 by simp
    fix i
    assume "choose_next s1 = i" "mejor (tasks s1) (idle s1) (orden (current s1)) i"
    then show thesis
      using that [of i] mejor_orden(1,2) [of "current s1" "tasks s1" "idle s1" i] cur f1
      by (simp add: compite_def)
  next
    assume "choose_next s1 = idle s1" "idle s1 < MAX_TASKS" "t_state (tasks s1 ! idle s1) = Ready"
    then show thesis
      using that by blast
  next
    assume "\<not> (idle s1 < MAX_TASKS \<and> t_state (tasks s1 ! idle s1) = Ready)"
    then show thesis
      using id run(2) f1 n1 by simp
  qed
  have kc: "k \<noteq> current s"
    using k(3) n1 by auto
  then have kctx: "t_context_rsp (tasks s1 ! k) \<noteq> 0"
    using c k(2,3) n1 by (simp add: contextos_ok_def)
  define s2 where "s2 = cambio ahora Publicado k s1"
  have r: "s' = reap rsp tick s2"
    unfolding s'_def schedule_locked_eq Let_def s1_def [symmetric] cc k(1) f1(1) s2_def
    using kc kctx by simp
  have nth: "tasks s2 ! j =
    (if j = k then (tasks s1 ! j)\<lparr>t_entro_en := ahora, t_state := Running, t_remaining := t_quantum (tasks s1 ! j)\<rparr>
     else if j = current s then cierra_cuenta ahora
       (if trap_rsp s1 \<noteq> 0 then (tasks s1 ! j)\<lparr>t_context_rsp := trap_rsp s1\<rparr> else tasks s1 ! j)
     else tasks s1 ! j)" for j
    using cambio_nth [of s1 k ahora Publicado j] f1 cur(1) k(2) kc by (simp add: s2_def)
  have l2: "length (tasks s2) = MAX_TASKS" "current s2 = k"
    using f1 by (simp_all add: s2_def)
  have "tasks s' ! current s = tasks s2 ! current s" "tasks s' ! k = tasks s2 ! k"
    unfolding r using cur(1) k(2) l2(1) kc by (auto simp: nth n1 simp del: fun_upd_apply intro!: reap_vivo [THEN trans])
  moreover have "current s' = k"
    by (simp add: r l2)
  ultimately show "current s' \<noteq> current s" "t_state (actual s') = Running"
    "t_state (tasks s' ! current s) = Blocked" "t_wait_key (tasks s' ! current s) = key"
    "t_wait_deadline (tasks s' ! current s) = deadline"
    using kc by (simp_all add: actual_def nth n1)
  show "plan_ok s'"
    unfolding s'_def s1_def [symmetric] by (rule schedule_ok [OF ok1])
qed

section \<open>A machine with three tasks\<close>

definition plan_cero :: planificador where
  "plan_cero =
    \<lparr>vm = vmm_prueba, tasks = [], current = 0, next_tid = 0, idle = MAX_TASKS, morgue = [],
     morgue_n = 0, tsc_freq = 0, trap_rsp = 0, syscall_stack_top = 0, tss_rsp0 = 0, cr3 = 0,
     user_switches = 0, latidos = 0\<rparr>"

definition lista :: "u32 \<Rightarrow> u8 \<Rightarrow> u64 \<Rightarrow> task" where
  "lista tid prio ctx = EMPTY_TASK\<lparr>t_tid := tid, t_state := Ready, t_priority := prio, t_context_rsp := ctx\<rparr>"

text \<open>Slot 0 runs, slot 1 is the idle task, slots 2 and 5 are ready.\<close>

definition plan_tres :: planificador where
  "plan_tres = plan_cero
    \<lparr>tasks := (replicate MAX_TASKS EMPTY_TASK)
        [0 := EMPTY_TASK\<lparr>t_tid := 1, t_state := Running\<rparr>, 1 := lista 2 0 0x1000,
         2 := lista 3 0 0x2000, 5 := lista 4 0 0x3000],
      idle := 1, next_tid := 5\<rparr>"

lemma plan_tres_nth:
  "j < MAX_TASKS \<Longrightarrow> tasks plan_tres ! j =
    (if j = 0 then EMPTY_TASK\<lparr>t_tid := 1, t_state := Running\<rparr> else if j = 1 then lista 2 0 0x1000
     else if j = 2 then lista 3 0 0x2000 else if j = 5 then lista 4 0 0x3000 else EMPTY_TASK)"
  by (simp add: plan_tres_def nth_list_update MAX_TASKS_def)

lemma plan_tres_simps [simp]:
  "current plan_tres = 0" "idle plan_tres = 1" "length (tasks plan_tres) = MAX_TASKS"
  by (simp_all add: plan_tres_def plan_cero_def)

lemma lista_simps [simp]:
  "t_state (lista t p c) = Ready" "t_priority (lista t p c) = p" "t_context_rsp (lista t p c) = c"
  "t_state EMPTY_TASK = Empty" "t_priority EMPTY_TASK = 0" "\<not> t_is_user EMPTY_TASK"
  by (simp_all add: lista_def EMPTY_TASK_def)

lemma plan_tres_ok: "plan_ok plan_tres" "contextos_ok plan_tres" "primera plan_tres 5"
proof -
  have m: "0 < MAX_TASKS" "1 < MAX_TASKS" "5 < MAX_TASKS"
    by (simp_all add: MAX_TASKS_def)
  show "plan_ok plan_tres" "contextos_ok plan_tres" "primera plan_tres 5"
    using m by (auto simp: plan_ok_def contextos_ok_def primera_def puede_correr_def plan_tres_nth)
qed

section \<open>Properties\<close>

text \<open>
  C29: who runs next. If some task other than the idle one is ready, \<open>choose_next\<close> picks a ready one
  of the highest priority, and among those the first after the current slot in the circle; if
  none is, the idle task when it is ready, and else nobody new.
\<close>

theorem choose_next_exacto:
  assumes "plan_ok s"
  shows "((\<exists>j < MAX_TASKS. j \<noteq> idle s \<and> t_state (tasks s ! j) = Ready) \<longrightarrow>
      choose_next s < MAX_TASKS \<and> choose_next s \<noteq> idle s \<and> t_state (tasks s ! choose_next s) = Ready \<and>
      (\<forall>j < MAX_TASKS. j \<noteq> idle s \<longrightarrow> t_state (tasks s ! j) = Ready \<longrightarrow>
         t_priority (tasks s ! j) < t_priority (tasks s ! choose_next s) \<or>
         t_priority (tasks s ! j) = t_priority (tasks s ! choose_next s) \<and>
         distancia (current s) (choose_next s) \<le> distancia (current s) j)) \<and>
    ((\<forall>j < MAX_TASKS. j \<noteq> idle s \<longrightarrow> t_state (tasks s ! j) \<noteq> Ready) \<longrightarrow>
      choose_next s = (if idle s < MAX_TASKS \<and> t_state (tasks s ! idle s) = Ready
                       then idle s else current s))"
proof (rule choose_next_cases [OF plan_okD(2) [OF assms]])
  fix i
  assume "choose_next s = i" "mejor (tasks s) (idle s) (orden (current s)) i"
  then show ?thesis
    using mejor_orden [OF plan_okD(2) [OF assms], of "tasks s" "idle s" i]
    by (auto simp: compite_def le_less)
qed (auto simp: compite_def)

theorem choose_next_exacto_witness: "choose_next plan_tres \<in> {2, 5}"
proof -
  have "2 < MAX_TASKS \<and> 2 \<noteq> idle plan_tres \<and> t_state (tasks plan_tres ! 2) = Ready"
    by (simp add: plan_tres_nth MAX_TASKS_def)
  then have "choose_next plan_tres < MAX_TASKS" "choose_next plan_tres \<noteq> 1"
    "t_state (tasks plan_tres ! choose_next plan_tres) = Ready"
    using choose_next_exacto [OF plan_tres_ok(1)] by auto
  then show ?thesis
    by (auto simp: plan_tres_nth split: if_splits)
qed

text \<open>
  C30: only the current task runs. After start-up and any history of traps, timer ticks, yields,
  waits, exits, kills, wake-ups and new tasks, the current slot exists, no other slot is in the
  state Running, and slot 0, the kernel's own task, is alive and not a user's.
\<close>

theorem plan_invariante:
  "let s = fold paso_plan ops (init_planificador hz s0) in
     length (tasks s) = MAX_TASKS \<and> current s < MAX_TASKS \<and>
     (\<forall>i < MAX_TASKS. t_state (tasks s ! i) = Running \<longrightarrow> i = current s) \<and>
     t_state (tasks s ! 0) \<noteq> Empty \<and> t_state (tasks s ! 0) \<noteq> Exited \<and> \<not> t_is_user (tasks s ! 0)"
proof -
  have "plan_ok (fold paso_plan ops s)" if "plan_ok s" for s :: "'a planificador_scheme"
    using that by (induction ops arbitrary: s) (simp_all add: paso_plan_ok)
  then have "plan_ok (fold paso_plan ops (init_planificador hz s0))"
    using init_ok by blast
  then show ?thesis
    unfolding Let_def plan_ok_def by auto
qed

theorem plan_invariante_witness:
  "current (fold paso_plan [OSpawnUser 1 0x9000 0 0 0x5000 0x7000 0, OTrap 0x8000, OYield 10 20 30,
      OTerminar 1, OTimer 40 50 60 70] (init_planificador 3000 plan_cero)) < MAX_TASKS"
  using plan_invariante [of "[OSpawnUser 1 0x9000 0 0 0x5000 0x7000 0, OTrap 0x8000, OYield 10 20 30,
      OTerminar 1, OTimer 40 50 60 70]" 3000 plan_cero] by (simp add: Let_def)

text \<open>
  C15: no task of the highest priority starves. If a task can run and none of a higher priority
  can, it gets the processor within 64 yields, whatever the time stamps and stack pointers.
\<close>

theorem turno_llega:
  assumes "plan_ok s" "contextos_ok s" and "i < MAX_TASKS" "puede_correr s i"
    and "\<forall>j < MAX_TASKS. puede_correr s j \<longrightarrow> t_priority (tasks s ! j) \<le> t_priority (tasks s ! i)"
    and "length xs = MAX_TASKS" "\<forall>x \<in> set xs. fst x \<noteq> 0"
  shows "\<exists>k \<le> MAX_TASKS. current (fold cede (take k xs) s) = i"
proof -
  have "primera s i"
    using assms(3-5) by (simp add: primera_def)
  moreover have "distancia (current s) i < length xs"
    using distancia_less [OF plan_okD(2) [OF assms(1)] assms(3)] assms(6) by simp
  ultimately show ?thesis
    using cede_llega [OF assms(1) _ assms(2,7), of i] assms(6) by simp
qed

theorem turno_llega_witness:
  "\<exists>k \<le> MAX_TASKS. current (fold cede (take k (replicate MAX_TASKS (0x8000, 1, 2, 3))) plan_tres) = 5"
  using plan_tres_ok by (intro turno_llega) (auto simp: primera_def)

text \<open>
  A wait blocks, and no wake-up is lost. With an idle task ready, \<open>wait_current_checked\<close> that
  finds the sequence moved returns it and changes nothing; otherwise the caller is Blocked under
  its key, another task is current and running, and a later \<open>wake_by_key\<close> of that key makes the
  caller ready.
\<close>

theorem espera_bloquea:
  assumes "plan_ok s" "contextos_ok s" "t_state (actual s) = Running" "idle s \<noteq> current s"
    and "idle s < MAX_TASKS" "t_state (tasks s ! idle s) = Ready"
  shows "case wait_current_checked key deadline observed seq ahora rsp tick s of (v, s') \<Rightarrow>
    if seq \<noteq> observed then v = seq \<and> s' = s
    else v = observed \<and> current s' \<noteq> current s \<and> t_state (actual s') = Running \<and>
      t_state (tasks s' ! current s) = Blocked \<and>
      t_state (tasks (wake_by_key key s') ! current s) = Ready"
proof -
  note b = bloquea_paso [OF assms refl, of ahora rsp tick key deadline]
  have "current s < length (tasks (schedule_locked ahora rsp tick Publicado (mark_wait key deadline s)))"
    using plan_okD(1) [OF b(1)] plan_okD(2) [OF assms(1)] by simp
  then show ?thesis
    using b by (simp add: wait_current_checked_def wake_by_key_def despierta_def)
qed

theorem espera_bloquea_witness:
  "t_state (actual (snd (wait_current_checked 0xC0 0 7 7 1 2 3 plan_tres))) = Running \<and>
   current (snd (wait_current_checked 0xC0 0 7 7 1 2 3 plan_tres)) \<noteq> 0"
proof -
  have "t_state (actual plan_tres) = Running" "idle plan_tres < MAX_TASKS"
    "t_state (tasks plan_tres ! idle plan_tres) = Ready"
    by (simp_all add: actual_def plan_tres_nth MAX_TASKS_def)
  then show ?thesis
    using espera_bloquea [OF plan_tres_ok(1,2), where key = "0xC0" and deadline = 0 and observed = 7
      and seq = 7 and ahora = 1 and rsp = 2 and tick = 3] by (simp add: case_prod_beta)
qed

end
