(* ===== verification/Cap.thy ===== *)
theory Cap
  imports Reparto
begin

text \<open>
  \<open>kernel/src/ring0/obj/cap.rs\<close>: the capability tables, 64 slots for each of 16 processes. A
  handle names a slot, the kind it was granted for and the slot's generation; every use of a
  kernel object by ring 3 goes through \<open>resolve\<close>. Every operation runs under one spin lock.
\<close>

section \<open>Handles\<close>

definition MAX_PROCS :: nat where "MAX_PROCS = 16"
definition SLOTS_PER_PROC :: nat where "SLOTS_PER_PROC = 64"

definition KIND_FRAMEBUFFER :: u8 where "KIND_FRAMEBUFFER = 0x0F"
definition KIND_AUDIO :: u8 where "KIND_AUDIO = 0x10"
definition KIND_INPUT :: u8 where "KIND_INPUT = 0x20"
definition KIND_CONSOLE :: u8 where "KIND_CONSOLE = 0x30"
definition KIND_DIRECTORIO :: u8 where "KIND_DIRECTORIO = 0x40"
definition KIND_ARCHIVO :: u8 where "KIND_ARCHIVO = 0x41"
definition KIND_MEMORIA :: u8 where "KIND_MEMORIA = 0x50"
definition KIND_PRESTADO :: u8 where "KIND_PRESTADO = 0x51"
definition KIND_CHANNEL :: u8 where "KIND_CHANNEL = 0x60"
definition KIND_ENDPOINT :: u8 where "KIND_ENDPOINT = 0x70"
definition KIND_REPLY :: u8 where "KIND_REPLY = 0x71"
definition KIND_MMIO :: u8 where "KIND_MMIO = 0x74"
definition KIND_LATIDO :: u8 where "KIND_LATIDO = 0x75"
definition KIND_RED :: u8 where "KIND_RED = 0x76"
definition KIND_TAREA :: u8 where "KIND_TAREA = 0x55"

definition RIGHT_READ :: u64 where "RIGHT_READ = 1"
definition RIGHT_WRITE :: u64 where "RIGHT_WRITE = 2"
definition RIGHT_WAIT :: u64 where "RIGHT_WAIT = 64"

definition ERROR_INVALID_HANDLE :: u32 where "ERROR_INVALID_HANDLE = 2"
definition ERROR_PERMISSION_DENIED :: u32 where "ERROR_PERMISSION_DENIED = 3"
definition FLAG_NEEDS_CAP :: u32 where "FLAG_NEEDS_CAP = 16"

definition HANDLE_TAG_SHIFT :: nat where "HANDLE_TAG_SHIFT = 63"
definition HANDLE_KIND_SHIFT :: nat where "HANDLE_KIND_SHIFT = 56"
definition HANDLE_KIND_MASK :: u64 where "HANDLE_KIND_MASK = 0x7F"
definition HANDLE_GEN_SHIFT :: nat where "HANDLE_GEN_SHIFT = 40"
definition HANDLE_GEN_MASK :: u64 where "HANDLE_GEN_MASK = 0xFFFF"
definition HANDLE_INDEX_MASK :: u64 where "HANDLE_INDEX_MASK = 0xFFFFFFFFFF"

definition kind_tag :: "u8 \<Rightarrow> u64" where
  "kind_tag kind = (if kind = KIND_CHANNEL then 1 else 0)"

definition encode_handle :: "u8 \<Rightarrow> u16 \<Rightarrow> u64 \<Rightarrow> u64" where
  "encode_handle kind generation index =
     push_bit HANDLE_TAG_SHIFT (kind_tag kind) OR
     push_bit HANDLE_KIND_SHIFT (ucast kind AND HANDLE_KIND_MASK) OR
     push_bit HANDLE_GEN_SHIFT (ucast generation AND HANDLE_GEN_MASK) OR
     (index AND HANDLE_INDEX_MASK)"

text \<open>The fields \<open>resolve\<close> and \<open>revoke\<close> take out of a handle.\<close>

definition handle_kind :: "u64 \<Rightarrow> u8" where
  "handle_kind h = ucast (drop_bit HANDLE_KIND_SHIFT h AND HANDLE_KIND_MASK)"

definition handle_gen :: "u64 \<Rightarrow> u16" where
  "handle_gen h = ucast (drop_bit HANDLE_GEN_SHIFT h AND HANDLE_GEN_MASK)"

definition handle_index :: "u64 \<Rightarrow> nat" where
  "handle_index h = unat (h AND HANDLE_INDEX_MASK)"

section \<open>Tables\<close>

record cap_slot =
  cs_kind :: u8
  cs_live :: bool
  cs_generation :: u16
  cs_rights :: u64
  cs_object :: u64

definition FREE_SLOT :: cap_slot where
  "FREE_SLOT = \<lparr>cs_kind = 0, cs_live = False, cs_generation = 0, cs_rights = 0, cs_object = 0\<rparr>"

record resolved =
  r_kind :: u8
  r_rights :: u64
  r_object :: u64

type_synonym cap_tables = "cap_slot list list"

definition cap_inicial :: cap_tables where
  "cap_inicial = replicate MAX_PROCS (replicate SLOTS_PER_PROC FREE_SLOT)"

definition pon_slot :: "nat \<Rightarrow> nat \<Rightarrow> cap_slot \<Rightarrow> cap_tables \<Rightarrow> cap_tables" where
  "pon_slot pid i c s = s[pid := (s ! pid)[i := c]]"

text \<open>\<open>iter().position(|s| !s.live)\<close>\<close>

fun slot_libre :: "cap_slot list \<Rightarrow> nat option" where
  "slot_libre [] = None"
| "slot_libre (c # cs) = (if \<not> cs_live c then Some 0 else map_option Suc (slot_libre cs))"

definition siguiente_gen :: "u16 \<Rightarrow> u16" where
  "siguiente_gen g = (let g' = g + 1 in if g' = 0 then 1 else g')"

definition grant :: "u32 \<Rightarrow> u8 \<Rightarrow> u64 \<Rightarrow> u64 \<Rightarrow> cap_tables \<Rightarrow> u64 option \<times> cap_tables" where
  "grant pid kind rights object s =
    (if unat pid \<ge> MAX_PROCS then (None, s)
     else case slot_libre (s ! unat pid) of
       None \<Rightarrow> (None, s)
     | Some i \<Rightarrow>
        let g = siguiente_gen (cs_generation (s ! unat pid ! i)) in
        (Some (encode_handle kind g (of_nat i)),
         pon_slot (unat pid) i
           \<lparr>cs_kind = kind, cs_live = True, cs_generation = g, cs_rights = rights, cs_object = object\<rparr> s))"

definition resolve :: "u32 \<Rightarrow> u64 \<Rightarrow> u64 \<Rightarrow> cap_tables \<Rightarrow> (u32 \<times> u32) + resolved" where
  "resolve pid handle required s =
    (if unat pid \<ge> MAX_PROCS then Inl (ERROR_INVALID_HANDLE, 0)
     else
       let kind = handle_kind handle; generation = handle_gen handle; index = handle_index handle in
       if index \<ge> SLOTS_PER_PROC \<or> generation = 0 then Inl (ERROR_INVALID_HANDLE, 0)
       else
         let slot = s ! unat pid ! index in
         if \<not> cs_live slot \<or> cs_generation slot \<noteq> generation \<or> cs_kind slot \<noteq> kind \<or>
             kind_tag kind \<noteq> drop_bit HANDLE_TAG_SHIFT handle
         then Inl (ERROR_INVALID_HANDLE, 0)
         else if cs_rights slot AND required \<noteq> required then Inl (ERROR_PERMISSION_DENIED, FLAG_NEEDS_CAP)
         else Inr \<lparr>r_kind = cs_kind slot, r_rights = cs_rights slot, r_object = cs_object slot\<rparr>)"

fun busca_cap :: "u8 \<Rightarrow> u64 \<Rightarrow> nat \<Rightarrow> cap_slot list \<Rightarrow> u64 option" where
  "busca_cap kind object i [] = None"
| "busca_cap kind object i (c # cs) =
    (if cs_live c \<and> cs_kind c = kind \<and> cs_object c = object
     then Some (encode_handle (cs_kind c) (cs_generation c) (of_nat i))
     else busca_cap kind object (i + 1) cs)"

definition find_cap :: "u32 \<Rightarrow> u8 \<Rightarrow> u64 \<Rightarrow> cap_tables \<Rightarrow> u64 option" where
  "find_cap pid kind object s =
    (if unat pid \<ge> MAX_PROCS then None else busca_cap kind object 0 (s ! unat pid))"

definition apaga :: "cap_slot \<Rightarrow> cap_slot" where
  "apaga c = c\<lparr>cs_live := False, cs_rights := 0, cs_kind := 0, cs_object := 0\<rparr>"

definition revoke :: "u32 \<Rightarrow> u64 \<Rightarrow> cap_tables \<Rightarrow> bool \<times> cap_tables" where
  "revoke pid handle s =
    (if unat pid \<ge> MAX_PROCS then (False, s)
     else
       let generation = handle_gen handle; index = handle_index handle in
       if index \<ge> SLOTS_PER_PROC \<or> generation = 0 then (False, s)
       else
         let slot = s ! unat pid ! index in
         if \<not> cs_live slot \<or> cs_generation slot \<noteq> generation then (False, s)
         else (True, pon_slot (unat pid) index (apaga slot) s))"

definition live_count_of :: "u32 \<Rightarrow> cap_tables \<Rightarrow> nat" where
  "live_count_of pid s =
    (if unat pid \<ge> MAX_PROCS then 0 else length (filter cs_live (s ! unat pid)))"

definition revoke_all_slots :: "u32 \<Rightarrow> cap_tables \<Rightarrow> cap_tables" where
  "revoke_all_slots pid s =
    (if unat pid \<ge> MAX_PROCS then s else s[unat pid := map apaga (s ! unat pid)])"

text \<open>\<open>seed_init\<close> grants the channels; the count is what the log would say.\<close>

fun siembra :: "u32 \<Rightarrow> nat list \<Rightarrow> nat \<times> cap_tables \<Rightarrow> nat \<times> cap_tables" where
  "siembra pid [] (fallidas, s) = (fallidas, s)"
| "siembra pid (i # is) (fallidas, s) =
    (case grant pid KIND_CHANNEL (RIGHT_READ OR RIGHT_WRITE OR RIGHT_WAIT) (of_nat i) s of
       (None, s1) \<Rightarrow> siembra pid is (fallidas + 1, s1)
     | (Some h, s1) \<Rightarrow> siembra pid is (fallidas, s1))"

definition MAX_CHANNEL_PAGES :: nat where "MAX_CHANNEL_PAGES = 16"

definition seed_init :: "u32 \<Rightarrow> cap_tables \<Rightarrow> nat \<times> cap_tables" where
  "seed_init pid s = siembra pid [0..<MAX_CHANNEL_PAGES] (0, s)"

section \<open>A handle says what was granted\<close>

lemma handle_masks:
  "HANDLE_KIND_MASK = mask 7" "HANDLE_GEN_MASK = mask 16" "HANDLE_INDEX_MASK = mask 40"
  by (simp_all add: HANDLE_KIND_MASK_def HANDLE_GEN_MASK_def HANDLE_INDEX_MASK_def
      mask_eq_exp_minus_1)

lemmas handle_defs = encode_handle_def handle_kind_def handle_gen_def handle_index_def handle_masks
  HANDLE_TAG_SHIFT_def HANDLE_KIND_SHIFT_def HANDLE_GEN_SHIFT_def

lemma kind_tag_bit: "bit (kind_tag k) n \<longleftrightarrow> n = 0 \<and> k = KIND_CHANNEL"
  by (simp add: kind_tag_def bit_1_iff)

lemma handle_gen_encode [simp]: "handle_gen (encode_handle k g i) = g"
  by (rule bit_word_eqI) (auto simp: handle_defs bit_simps kind_tag_bit)

lemma handle_kind_encode:
  assumes "k \<le> 0x7F"
  shows "handle_kind (encode_handle k g i) = k"
proof -
  have "take_bit 7 k = k"
    using assms by (simp add: word_unat_eq_iff take_bit_eq_mod unat_mod word_le_nat_alt)
  then have "\<And>n. bit k n \<Longrightarrow> n < 7"
    by (metis bit_take_bit_iff)
  then show ?thesis
    by (intro bit_word_eqI) (auto simp: handle_defs bit_simps kind_tag_bit)
qed

lemma handle_index_encode [simp]: "i < 64 \<Longrightarrow> handle_index (encode_handle k g (of_nat i)) = i"
proof -
  assume i: "i < 64"
  have "encode_handle k g (of_nat i) AND mask 40 = of_nat i AND mask 40"
    by (rule bit_word_eqI) (auto simp: handle_defs bit_simps)
  then show ?thesis
    using i by (simp add: handle_index_def handle_masks unat_and_mask unat_word_of_nat)
qed

lemma handle_index_encode_0 [simp]: "handle_index (encode_handle k g 0) = 0"
  using handle_index_encode [of 0 k g] by simp

lemma handle_tag_encode [simp]: "drop_bit HANDLE_TAG_SHIFT (encode_handle k g i) = kind_tag k"
  by (rule bit_word_eqI) (auto simp: handle_defs bit_simps kind_tag_bit dest: bit_imp_le_length)

section \<open>The slots, one by one\<close>

definition cap_ok :: "cap_tables \<Rightarrow> bool" where
  "cap_ok s \<longleftrightarrow> length s = MAX_PROCS \<and> (\<forall>t \<in> set s. length t = SLOTS_PER_PROC)"

lemma cap_ok_nth: "cap_ok s \<Longrightarrow> p < MAX_PROCS \<Longrightarrow> length (s ! p) = SLOTS_PER_PROC"
  by (simp add: cap_ok_def)

lemma cap_inicial_ok: "cap_ok cap_inicial"
  by (simp add: cap_ok_def cap_inicial_def)

lemma cap_ok_update:
  "cap_ok s \<Longrightarrow> length t = SLOTS_PER_PROC \<Longrightarrow> cap_ok (s[p := t])"
  using set_update_subset_insert [of s p t] by (auto simp: cap_ok_def)

lemma pon_slot_ok [simp]: "cap_ok s \<Longrightarrow> p < MAX_PROCS \<Longrightarrow> cap_ok (pon_slot p i c s)"
  by (simp add: pon_slot_def cap_ok_update cap_ok_nth)

lemma pon_slot_nth:
  "cap_ok s \<Longrightarrow> p < MAX_PROCS \<Longrightarrow> i < SLOTS_PER_PROC \<Longrightarrow>
     pon_slot p i c s ! q ! j = (if q = p \<and> j = i then c else s ! q ! j)"
  using cap_ok_nth [of s p] by (auto simp: pon_slot_def cap_ok_def nth_list_update)

lemma revoke_all_slots_ok [simp]: "cap_ok s \<Longrightarrow> cap_ok (revoke_all_slots pid s)"
  by (simp add: revoke_all_slots_def cap_ok_update cap_ok_nth)

lemma revoke_all_slots_nth:
  "cap_ok s \<Longrightarrow> q < MAX_PROCS \<Longrightarrow> j < SLOTS_PER_PROC \<Longrightarrow>
     revoke_all_slots pid s ! q ! j = (if unat pid = q then apaga (s ! q ! j) else s ! q ! j)"
  using cap_ok_nth [of s q] by (auto simp: revoke_all_slots_def cap_ok_def nth_list_update)

lemma slot_libre_Some:
  "slot_libre cs = Some i \<Longrightarrow> i < length cs \<and> \<not> cs_live (cs ! i) \<and> (\<forall>j < i. cs_live (cs ! j))"
  by (induction cs arbitrary: i) (auto split: if_splits simp: less_Suc_eq_0_disj)

lemma slot_libre_None: "slot_libre cs = None \<longleftrightarrow> (\<forall>c \<in> set cs. cs_live c)"
  by (induction cs) auto

lemma grant_cases [consumes 1, case_names no si]:
  assumes "cap_ok s"
  obtains (no) "grant pid k r ob s = (None, s)"
      "unat pid \<ge> MAX_PROCS \<or> (\<forall>c \<in> set (s ! unat pid). cs_live c)"
    | (si) i where "unat pid < MAX_PROCS" "i < SLOTS_PER_PROC" "\<not> cs_live (s ! unat pid ! i)"
      "grant pid k r ob s =
        (Some (encode_handle k (siguiente_gen (cs_generation (s ! unat pid ! i))) (of_nat i)),
         pon_slot (unat pid) i
           \<lparr>cs_kind = k, cs_live = True, cs_generation = siguiente_gen (cs_generation (s ! unat pid ! i)),
            cs_rights = r, cs_object = ob\<rparr> s)"
proof (cases "unat pid \<ge> MAX_PROCS \<or> slot_libre (s ! unat pid) = None")
  case True
  then have "grant pid k r ob s = (None, s)"
    by (auto simp: grant_def)
  moreover have "unat pid \<ge> MAX_PROCS \<or> (\<forall>c \<in> set (s ! unat pid). cs_live c)"
    using True by (simp add: slot_libre_None)
  ultimately show ?thesis
    by (rule no)
next
  case False
  then obtain i where i: "slot_libre (s ! unat pid) = Some i"
    by auto
  then have "i < SLOTS_PER_PROC" "\<not> cs_live (s ! unat pid ! i)"
    using slot_libre_Some [OF i] cap_ok_nth [OF assms, of "unat pid"] False by simp_all
  then show ?thesis
    using False i by (intro si [of i]) (simp_all add: grant_def Let_def)
qed

lemma revoke_cases:
  obtains (no) "revoke pid h s = (False, s)"
    | (si) "unat pid < MAX_PROCS" "handle_index h < SLOTS_PER_PROC" "handle_gen h \<noteq> 0"
      "cs_live (s ! unat pid ! handle_index h)"
      "cs_generation (s ! unat pid ! handle_index h) = handle_gen h"
      "revoke pid h s = (True, pon_slot (unat pid) (handle_index h) (apaga (s ! unat pid ! handle_index h)) s)"
proof (cases "unat pid < MAX_PROCS \<and> handle_index h < SLOTS_PER_PROC \<and> handle_gen h \<noteq> 0 \<and>
    cs_live (s ! unat pid ! handle_index h) \<and>
    cs_generation (s ! unat pid ! handle_index h) = handle_gen h")
  case True
  then show ?thesis
    by (intro si) (simp_all add: revoke_def Let_def)
next
  case False
  then show ?thesis
    by (intro no) (auto simp: revoke_def Let_def)
qed

lemma resolve_Inr_iff:
  "resolve pid h req s = Inr x \<longleftrightarrow>
     unat pid < MAX_PROCS \<and> handle_index h < SLOTS_PER_PROC \<and> handle_gen h \<noteq> 0 \<and>
     cs_live (s ! unat pid ! handle_index h) \<and>
     cs_generation (s ! unat pid ! handle_index h) = handle_gen h \<and>
     cs_kind (s ! unat pid ! handle_index h) = handle_kind h \<and>
     kind_tag (handle_kind h) = drop_bit HANDLE_TAG_SHIFT h \<and>
     cs_rights (s ! unat pid ! handle_index h) AND req = req \<and>
     x = \<lparr>r_kind = handle_kind h, r_rights = cs_rights (s ! unat pid ! handle_index h),
          r_object = cs_object (s ! unat pid ! handle_index h)\<rparr>"
  by (auto simp: resolve_def Let_def)

lemma resolve_cong:
  "s' ! unat pid ! handle_index h = s ! unat pid ! handle_index h \<Longrightarrow>
     resolve pid h req s' = resolve pid h req s"
  by (simp add: resolve_def Let_def)

lemma siguiente_gen_nz [simp]: "siguiente_gen g \<noteq> 0"
  by (simp add: siguiente_gen_def Let_def)

lemma unat_siguiente_gen:
  "g \<noteq> 0 \<Longrightarrow> unat (siguiente_gen g) = unat g mod 65535 + 1"
proof -
  assume g: "g \<noteq> 0"
  have m: "unat (- 1 :: u16) = 65535"
    by (simp add: unsigned_minus_1_eq_mask mask_eq_exp_minus_1)
  show ?thesis
  proof (cases "g = - 1")
    case True
    then show ?thesis
      by (simp add: siguiente_gen_def m)
  next
    case False
    then have "g + 1 \<noteq> 0"
      by (simp add: eq_neg_iff_add_eq_0)
    moreover from this have "unat (g + 1) = unat g + 1"
      using unatSuc [of g] by (simp add: add.commute)
    moreover have "unat g \<noteq> 65535"
      using False m by (metis word_unat_eq_iff)
    then have "unat g < 65535"
      using unsigned_less [of g, where ?'a = nat] by simp
    ultimately show ?thesis
      by (simp add: siguiente_gen_def)
  qed
qed

section \<open>Histories\<close>

datatype op_cap =
    CGrant u32 u8 u64 u64
  | CRevoke u32 u64
  | CRevokeAll u32

fun paso_cap :: "op_cap \<Rightarrow> cap_tables \<Rightarrow> (nat \<times> nat) set \<times> cap_tables" where
  "paso_cap (CGrant pid k r ob) s =
    (case grant pid k r ob s of
       (None, s1) \<Rightarrow> ({}, s1)
     | (Some h, s1) \<Rightarrow> ({(unat pid, handle_index h)}, s1))"
| "paso_cap (CRevoke pid h) s = ({}, snd (revoke pid h s))"
| "paso_cap (CRevokeAll pid) s = ({}, revoke_all_slots pid s)"

fun devuelve_cap :: "op_cap \<Rightarrow> (nat \<times> nat) set" where
  "devuelve_cap (CGrant pid k r ob) = {}"
| "devuelve_cap (CRevoke pid h) = {(unat pid, handle_index h)}"
| "devuelve_cap (CRevokeAll pid) = {unat pid} \<times> UNIV"

definition slots_libres :: "cap_tables \<Rightarrow> (nat \<times> nat) set" where
  "slots_libres s = {(p, i). p < MAX_PROCS \<and> i < SLOTS_PER_PROC \<and> \<not> cs_live (s ! p ! i)}"

lemma apaga_simps [simp]:
  "\<not> cs_live (apaga c)" "cs_generation (apaga c) = cs_generation c"
  by (simp_all add: apaga_def)

lemma paso_cap_reparto:
  assumes "cap_ok s"
  shows "cap_ok (snd (paso_cap x s)) \<and> fst (paso_cap x s) \<subseteq> slots_libres s \<and>
    slots_libres (snd (paso_cap x s)) \<subseteq> (slots_libres s - fst (paso_cap x s)) \<union> devuelve_cap x"
proof (cases x)
  case (CGrant pid k r ob)
  from assms show ?thesis
  proof (cases rule: grant_cases [where pid = pid and k = k and r = r and ob = ob])
    case no
    then show ?thesis
      using assms CGrant by simp
  next
    case (si i)
    then show ?thesis
      using assms CGrant
      by (auto simp: slots_libres_def pon_slot_nth SLOTS_PER_PROC_def split: if_splits)
  qed
next
  case (CRevoke pid h)
  show ?thesis
    by (cases rule: revoke_cases [of pid h s])
      (use assms CRevoke in \<open>auto simp: slots_libres_def pon_slot_nth split: if_splits\<close>)
next
  case (CRevokeAll pid)
  then show ?thesis
    using assms by (auto simp: slots_libres_def revoke_all_slots_nth split: if_splits)
qed

interpretation ranuras: reparto cap_ok slots_libres paso_cap devuelve_cap
  by unfold_locales (use paso_cap_reparto in blast)+

definition historia_cap :: "op_cap list \<Rightarrow> cap_tables \<Rightarrow> cap_tables" where
  "historia_cap ops s = snd (corre paso_cap ops s)"

lemma historia_cap_simps [simp]:
  "historia_cap [] s = s"
  "historia_cap (x # xs) s = historia_cap xs (snd (paso_cap x s))"
  by (simp_all add: historia_cap_def)

lemma historia_cap_ok: "cap_ok s \<Longrightarrow> cap_ok (historia_cap ops s)"
  unfolding historia_cap_def by (rule ranuras.corre_inv)

section \<open>What a history does to one slot\<close>

fun pid_de :: "op_cap \<Rightarrow> nat" where
  "pid_de (CGrant pid k r ob) = unat pid"
| "pid_de (CRevoke pid h) = unat pid"
| "pid_de (CRevokeAll pid) = unat pid"

lemma paso_cap_otro:
  assumes "cap_ok s" "pid_de x \<noteq> p"
  shows "snd (paso_cap x s) ! p = s ! p"
proof (cases x)
  case (CGrant pid k r ob)
  from assms(1) show ?thesis
    by (cases rule: grant_cases [where pid = pid and k = k and r = r and ob = ob])
      (use assms CGrant in \<open>simp_all add: pon_slot_def\<close>)
next
  case (CRevoke pid h)
  show ?thesis
    by (cases rule: revoke_cases [of pid h s]) (use assms CRevoke in \<open>simp_all add: pon_slot_def\<close>)
next
  case (CRevokeAll pid)
  then show ?thesis
    using assms by (simp add: revoke_all_slots_def)
qed

lemma historia_cap_otro:
  "cap_ok s \<Longrightarrow> \<forall>x \<in> set ops. pid_de x \<noteq> p \<Longrightarrow> historia_cap ops s ! p = s ! p"
  by (induction ops arbitrary: s) (simp_all add: paso_cap_otro paso_cap_reparto)

text \<open>Whether a step revokes the slot \<open>(p, i)\<close> at generation \<open>g\<close>.\<close>

fun revoca :: "nat \<Rightarrow> nat \<Rightarrow> u16 \<Rightarrow> op_cap \<Rightarrow> bool" where
  "revoca p i g (CGrant pid k r ob) \<longleftrightarrow> False"
| "revoca p i g (CRevoke pid h) \<longleftrightarrow> unat pid = p \<and> handle_index h = i \<and> handle_gen h = g"
| "revoca p i g (CRevokeAll pid) \<longleftrightarrow> unat pid = p"

lemma paso_cap_vivo:
  assumes "cap_ok s" "p < MAX_PROCS" "i < SLOTS_PER_PROC" "cs_live (s ! p ! i)"
    and "\<not> revoca p i (cs_generation (s ! p ! i)) x"
  shows "snd (paso_cap x s) ! p ! i = s ! p ! i"
proof (cases x)
  case (CGrant pid k r ob)
  from assms(1) show ?thesis
    by (cases rule: grant_cases [where pid = pid and k = k and r = r and ob = ob])
      (use assms CGrant in \<open>auto simp: pon_slot_nth\<close>)
next
  case (CRevoke pid h)
  show ?thesis
    by (cases rule: revoke_cases [of pid h s]) (use assms CRevoke in \<open>auto simp: pon_slot_nth\<close>)
next
  case (CRevokeAll pid)
  then show ?thesis
    using assms by (simp add: revoke_all_slots_nth)
qed

lemma historia_cap_vivo:
  "cap_ok s \<Longrightarrow> p < MAX_PROCS \<Longrightarrow> i < SLOTS_PER_PROC \<Longrightarrow> cs_live (s ! p ! i) \<Longrightarrow>
     \<forall>x \<in> set ops. \<not> revoca p i (cs_generation (s ! p ! i)) x \<Longrightarrow>
     historia_cap ops s ! p ! i = s ! p ! i"
  by (induction ops arbitrary: s) (simp_all add: paso_cap_vivo paso_cap_reparto)

section \<open>Generations\<close>

text \<open>The slot has been granted \<open>n\<close> times, \<open>n\<close> at most \<open>m\<close>, since it was free at generation \<open>g\<close>.\<close>

definition gen_tras :: "u16 \<Rightarrow> nat \<Rightarrow> cap_slot \<Rightarrow> bool" where
  "gen_tras g m c \<longleftrightarrow>
     (\<exists>n \<le> m. unat (cs_generation c) = (unat g - 1 + n) mod 65535 + 1 \<and> (cs_live c \<longrightarrow> 1 \<le> n))"

fun concede_a :: "nat \<Rightarrow> op_cap \<Rightarrow> bool" where
  "concede_a p (CGrant pid k r ob) \<longleftrightarrow> unat pid = p"
| "concede_a p _ \<longleftrightarrow> False"

lemma gen_tras_mono: "gen_tras g m c \<Longrightarrow> m \<le> m' \<Longrightarrow> gen_tras g m' c"
  by (auto simp: gen_tras_def intro: le_trans)

lemma gen_tras_apaga: "gen_tras g m c \<Longrightarrow> gen_tras g m (apaga c)"
  by (auto simp: gen_tras_def)

lemma gen_tras_grant:
  assumes "gen_tras g m c"
  shows "gen_tras g (Suc m) \<lparr>cs_kind = k, cs_live = True,
    cs_generation = siguiente_gen (cs_generation c), cs_rights = r, cs_object = ob\<rparr>"
proof -
  obtain n where n: "n \<le> m" "unat (cs_generation c) = (unat g - 1 + n) mod 65535 + 1"
    using assms by (auto simp: gen_tras_def)
  then have "cs_generation c \<noteq> 0"
    by auto
  then have "unat (siguiente_gen (cs_generation c)) = ((unat g - 1 + n) mod 65535 + 1) mod 65535 + 1"
    unfolding n(2) [symmetric] by (rule unat_siguiente_gen)
  also have "((unat g - 1 + n) mod 65535 + 1) mod 65535 = (unat g - 1 + Suc n) mod 65535"
    by (simp add: mod_Suc_eq)
  finally show ?thesis
    using n(1) unfolding gen_tras_def by (intro exI [of _ "Suc n"]) simp
qed

lemma paso_cap_gen:
  assumes "cap_ok s" "p < MAX_PROCS" "i < SLOTS_PER_PROC" "gen_tras g m (s ! p ! i)"
  shows "gen_tras g (m + (if concede_a p x then 1 else 0)) (snd (paso_cap x s) ! p ! i)"
proof (cases x)
  case (CGrant pid k r ob)
  from assms(1) show ?thesis
  proof (cases rule: grant_cases [where pid = pid and k = k and r = r and ob = ob])
    case no
    then show ?thesis
      using CGrant assms gen_tras_mono [OF assms(4)] by simp
  next
    case (si j)
    then show ?thesis
      using CGrant assms gen_tras_mono [OF assms(4)] gen_tras_grant [OF assms(4), of k r ob]
      by (auto simp: pon_slot_nth)
  qed
next
  case (CRevoke pid h)
  show ?thesis
    by (cases rule: revoke_cases [of pid h s])
      (use CRevoke assms gen_tras_apaga [OF assms(4)] in \<open>auto simp: pon_slot_nth\<close>)
next
  case (CRevokeAll pid)
  then show ?thesis
    using assms gen_tras_apaga [OF assms(4)] by (simp add: revoke_all_slots_nth)
qed

lemma historia_cap_gen:
  "cap_ok s \<Longrightarrow> p < MAX_PROCS \<Longrightarrow> i < SLOTS_PER_PROC \<Longrightarrow> gen_tras g m (s ! p ! i) \<Longrightarrow>
     gen_tras g (m + length (filter (concede_a p) ops)) (historia_cap ops s ! p ! i)"
proof (induction ops arbitrary: s m)
  case (Cons x ops)
  show ?case
    using Cons.IH [OF _ Cons.prems(2,3) paso_cap_gen [OF Cons.prems, of x]]
      paso_cap_reparto [OF Cons.prems(1), of x]
    by (cases "concede_a p x") simp_all
qed simp

lemma gen_tras_no_vuelve:
  assumes "gen_tras g m c" "g \<noteq> 0" "m < 65535" "cs_live c"
  shows "cs_generation c \<noteq> g"
proof
  assume eq: "cs_generation c = g"
  obtain n where n: "n \<le> m" "unat g = (unat g - 1 + n) mod 65535 + 1" "1 \<le> n"
    using assms eq by (auto simp: gen_tras_def)
  define a where "a = unat g - 1"
  have "0 < unat g"
    using assms(2) by (simp add: unat_gt_0)
  then have "a = (a + n) mod 65535"
    using n(2) unfolding a_def by linarith
  moreover have "a < 65535"
    using unsigned_less [of g, where ?'a = nat] \<open>0 < unat g\<close> by (simp add: a_def)
  moreover have "n < 65535"
    using n(1) assms(3) by simp
  moreover have "(a + n) mod 65535 = (if a + n < 65535 then a + n else a + n - 65535)"
    if "a < 65535" "n < 65535"
    using that by (simp add: le_mod_geq)
  ultimately show False
    using n(3) by (simp split: if_splits)
qed

lemma revoke_muerto:
  assumes "cap_ok s" "fst (revoke p h s)"
    and "length (filter (concede_a (unat p)) ops) < 65535"
  shows "resolve p h req (historia_cap ops (snd (revoke p h s))) = Inl (ERROR_INVALID_HANDLE, 0)"
proof (cases rule: revoke_cases [of p h s])
  case si
  let ?i = "handle_index h" and ?g = "handle_gen h"
  let ?s = "snd (revoke p h s)"
  have slot: "?s ! unat p ! ?i = apaga (s ! unat p ! ?i)"
    using si assms(1) by (simp add: pon_slot_nth)
  have "0 < unat ?g" "unat ?g < 65536"
    using si(3) unsigned_less [of ?g, where ?'a = nat] by (simp_all add: unat_gt_0)
  then have "gen_tras ?g 0 (?s ! unat p ! ?i)"
    using si(5) by (simp add: slot gen_tras_def)
  then have "gen_tras ?g (length (filter (concede_a (unat p)) ops)) (historia_cap ops ?s ! unat p ! ?i)"
    using historia_cap_gen [of ?s "unat p" ?i ?g 0 ops] si assms(1) by simp
  from gen_tras_no_vuelve [OF this si(3) assms(3)] show ?thesis
    by (auto simp: resolve_def Let_def)
qed (use assms(2) in simp)

text \<open>The first grant of a process.\<close>

lemma grant_inicial:
  assumes "unat pid < MAX_PROCS"
  shows "grant pid k r ob cap_inicial = (Some (encode_handle k 1 (of_nat 0)),
    pon_slot (unat pid) 0 \<lparr>cs_kind = k, cs_live = True, cs_generation = 1, cs_rights = r, cs_object = ob\<rparr>
      cap_inicial)"
proof -
  have "slot_libre (replicate n FREE_SLOT) = Some 0" if "0 < n" for n
    using that by (cases n) (simp_all add: FREE_SLOT_def)
  then have "slot_libre (cap_inicial ! unat pid) = Some 0"
    using assms by (simp add: cap_inicial_def SLOTS_PER_PROC_def)
  moreover have "cs_generation (cap_inicial ! unat pid ! 0) = 0"
    using assms by (simp add: cap_inicial_def SLOTS_PER_PROC_def FREE_SLOT_def)
  ultimately show ?thesis
    using assms by (simp add: grant_def siguiente_gen_def)
qed

lemma grant_lo_resuelve:
  assumes "cap_ok s" "k \<le> 0x7F" "fst (grant pid k r ob s) = Some h"
  shows "resolve pid h req (snd (grant pid k r ob s)) =
    (if r AND req = req then Inr \<lparr>r_kind = k, r_rights = r, r_object = ob\<rparr>
     else Inl (ERROR_PERMISSION_DENIED, FLAG_NEEDS_CAP))"
  using assms(1)
proof (cases rule: grant_cases [where pid = pid and k = k and r = r and ob = ob])
  case (si i)
  have "i < 64"
    using si(2) by (simp add: SLOTS_PER_PROC_def)
  then show ?thesis
    using si assms by (auto simp: resolve_def Let_def pon_slot_nth handle_kind_encode)
qed (use assms in simp)

section \<open>The properties\<close>

text \<open>
  What is granted is what is resolved. The handle \<open>grant\<close> gives resolves, for its process, to
  the kind, rights and object it was granted with, and to nothing when the operation asks for a
  right it lacks; no handle that resolved before, of this process or another, is disturbed; and
  \<open>grant\<close> fails only for a process number out of range or with 64 live capabilities.
\<close>

theorem grant_resolve:
  assumes "cap_ok s" and "k \<le> 0x7F"
  shows "(fst (grant pid k r ob s) = None \<longleftrightarrow>
      unat pid \<ge> MAX_PROCS \<or> live_count_of pid s = SLOTS_PER_PROC) \<and>
    (\<forall>h req. fst (grant pid k r ob s) = Some h \<longrightarrow>
      resolve pid h req (snd (grant pid k r ob s)) =
        (if r AND req = req then Inr \<lparr>r_kind = k, r_rights = r, r_object = ob\<rparr>
         else Inl (ERROR_PERMISSION_DENIED, FLAG_NEEDS_CAP))) \<and>
    (\<forall>q h req x. resolve q h req s = Inr x \<longrightarrow>
      resolve q h req (snd (grant pid k r ob s)) = Inr x)"
  using assms(1)
proof (cases rule: grant_cases [where pid = pid and k = k and r = r and ob = ob])
  case no
  have "unat pid < MAX_PROCS \<Longrightarrow> \<forall>c \<in> set (s ! unat pid). cs_live c \<Longrightarrow>
      live_count_of pid s = SLOTS_PER_PROC"
    using cap_ok_nth [OF assms(1), of "unat pid"] by (simp add: live_count_of_def)
  then have "unat pid \<ge> MAX_PROCS \<or> live_count_of pid s = SLOTS_PER_PROC"
    using no(2) not_le by blast
  then show ?thesis
    using no(1) by simp
next
  case (si i)
  have "\<not> (unat pid \<ge> MAX_PROCS \<or> live_count_of pid s = SLOTS_PER_PROC)"
  proof -
    have "length (filter cs_live (s ! unat pid)) < length (s ! unat pid)"
      using si(1-3) cap_ok_nth [OF assms(1) si(1)] by (intro length_filter_less [of "s ! unat pid ! i"]) simp_all
    then show ?thesis
      using si(1) cap_ok_nth [OF assms(1) si(1)] by (simp add: live_count_of_def)
  qed
  moreover have "resolve pid h req (snd (grant pid k r ob s)) =
        (if r AND req = req then Inr \<lparr>r_kind = k, r_rights = r, r_object = ob\<rparr>
         else Inl (ERROR_PERMISSION_DENIED, FLAG_NEEDS_CAP))"
    if "fst (grant pid k r ob s) = Some h" for h req
    by (rule grant_lo_resuelve [OF assms that])
  moreover have "resolve q h req (snd (grant pid k r ob s)) = Inr x" if "resolve q h req s = Inr x" for q h req x
  proof -
    have "handle_index h < SLOTS_PER_PROC" "cs_live (s ! unat q ! handle_index h)"
      using that by (simp_all add: resolve_Inr_iff)
    then have "snd (grant pid k r ob s) ! unat q ! handle_index h = s ! unat q ! handle_index h"
      using si assms(1) by (auto simp: pon_slot_nth)
    then show ?thesis
      using that resolve_cong by metis
  qed
  ultimately show ?thesis
    using si(4) by auto
qed

theorem grant_resolve_witness:
  "\<exists>h. fst (grant 3 KIND_MEMORIA 1 0xABC cap_inicial) = Some h \<and>
     resolve 3 h 1 (snd (grant 3 KIND_MEMORIA 1 0xABC cap_inicial))
       = Inr \<lparr>r_kind = KIND_MEMORIA, r_rights = 1, r_object = 0xABC\<rparr> \<and>
     resolve 3 h 2 (snd (grant 3 KIND_MEMORIA 1 0xABC cap_inicial))
       = Inl (ERROR_PERMISSION_DENIED, FLAG_NEEDS_CAP)"
proof -
  have k: "KIND_MEMORIA \<le> 0x7F"
    by (simp add: KIND_MEMORIA_def)
  have "fst (grant 3 KIND_MEMORIA 1 0xABC cap_inicial) = Some (encode_handle KIND_MEMORIA 1 (of_nat 0))"
    by (subst grant_inicial) (simp_all add: MAX_PROCS_def)
  then show ?thesis
    using grant_resolve [OF cap_inicial_ok k, where pid = 3 and r = 1 and ob = "0xABC"] by auto
qed

text \<open>
  C10: a capability stands until it is revoked. A handle that resolves keeps resolving to the
  same kind, rights and object through any history that does not revoke that slot at that
  generation and does not tear its process down.
\<close>

theorem cap_firme:
  assumes "cap_ok s" and "resolve p h req s = Inr x"
    and "\<forall>y \<in> set ops. \<not> revoca (unat p) (handle_index h) (handle_gen h) y"
  shows "resolve p h req (historia_cap ops s) = Inr x"
proof -
  have "historia_cap ops s ! unat p ! handle_index h = s ! unat p ! handle_index h"
    using assms by (intro historia_cap_vivo) (simp_all add: resolve_Inr_iff)
  then show ?thesis
    using assms(2) resolve_cong by metis
qed

theorem cap_firme_witness:
  "\<exists>h. resolve 3 h 1 (historia_cap [CGrant 3 KIND_INPUT 1 5, CRevoke 2 h, CRevokeAll 4]
      (snd (grant 3 KIND_MEMORIA 1 0xABC cap_inicial)))
    = Inr \<lparr>r_kind = KIND_MEMORIA, r_rights = 1, r_object = 0xABC\<rparr>"
proof -
  let ?h = "encode_handle KIND_MEMORIA 1 (of_nat 0)" and ?s = "snd (grant 3 KIND_MEMORIA 1 0xABC cap_inicial)"
  have s: "?s = pon_slot 3 0 \<lparr>cs_kind = KIND_MEMORIA, cs_live = True, cs_generation = 1,
      cs_rights = 1, cs_object = 0xABC\<rparr> cap_inicial"
    by (subst grant_inicial) (simp_all add: MAX_PROCS_def)
  have "resolve 3 ?h 1 ?s = Inr \<lparr>r_kind = KIND_MEMORIA, r_rights = 1, r_object = 0xABC\<rparr>"
    unfolding resolve_Inr_iff s
    by (simp add: pon_slot_nth cap_inicial_ok MAX_PROCS_def SLOTS_PER_PROC_def
        handle_kind_encode KIND_MEMORIA_def del: of_nat_0)
  then show ?thesis
    using cap_firme [of ?s 3 ?h 1 _ "[CGrant 3 KIND_INPUT 1 5, CRevoke 2 ?h, CRevokeAll 4]"]
    by (auto simp: s cap_inicial_ok MAX_PROCS_def)
qed

text \<open>
  C27: a revoked handle is dead. After \<open>revoke\<close> answers yes, the handle resolves to nothing, with
  no rights asked or any, through every history in which its process is granted fewer than
  65535 capabilities, however grants, revocations and tear-downs interleave.
\<close>

theorem revoke_sin_uaf:
  assumes "cap_ok s" and "fst (revoke p h s)"
    and "length (filter (concede_a (unat p)) ops) < 65535"
  shows "resolve p h req (historia_cap ops (snd (revoke p h s))) = Inl (ERROR_INVALID_HANDLE, 0)"
  using assms by (rule revoke_muerto)

theorem revoke_sin_uaf_witness:
  "resolve 3 (encode_handle KIND_MEMORIA 1 0) 0
     (historia_cap [CGrant 3 KIND_MEMORIA 1 0xDEF, CGrant 3 KIND_INPUT 1 7]
       (snd (revoke 3 (encode_handle KIND_MEMORIA 1 0) (snd (grant 3 KIND_MEMORIA 1 0xABC cap_inicial)))))
   = Inl (ERROR_INVALID_HANDLE, 0)"
proof (rule revoke_sin_uaf)
  have s: "snd (grant 3 KIND_MEMORIA 1 0xABC cap_inicial)
      = pon_slot 3 0 \<lparr>cs_kind = KIND_MEMORIA, cs_live = True, cs_generation = 1,
          cs_rights = 1, cs_object = 0xABC\<rparr> cap_inicial"
    by (subst grant_inicial) (simp_all add: MAX_PROCS_def)
  then show "cap_ok (snd (grant 3 KIND_MEMORIA 1 0xABC cap_inicial))"
    by (simp add: cap_inicial_ok MAX_PROCS_def)
  show "fst (revoke 3 (encode_handle KIND_MEMORIA 1 0) (snd (grant 3 KIND_MEMORIA 1 0xABC cap_inicial)))"
    by (simp add: s revoke_def Let_def pon_slot_nth cap_inicial_ok MAX_PROCS_def SLOTS_PER_PROC_def)
qed simp

text \<open>
  C28: processes do not see each other. Nothing another process is granted, revokes or loses
  changes what any handle of this process resolves to; and tearing a process down leaves it
  with no live capability and no handle that resolves.
\<close>

theorem cap_aislamiento:
  assumes "cap_ok s" and "\<forall>x \<in> set ops. pid_de x \<noteq> unat p"
  shows "resolve p h req (historia_cap ops s) = resolve p h req s \<and>
    find_cap p k ob (historia_cap ops s) = find_cap p k ob s \<and>
    live_count_of p (revoke_all_slots p s) = 0 \<and>
    resolve p h req (revoke_all_slots p s) = Inl (ERROR_INVALID_HANDLE, 0)"
proof -
  have "historia_cap ops s ! unat p = s ! unat p"
    using assms by (rule historia_cap_otro)
  moreover have "live_count_of p (revoke_all_slots p s) = 0"
    using assms(1) by (auto simp: live_count_of_def revoke_all_slots_def cap_ok_def filter_empty_conv)
  moreover have "resolve p h req (revoke_all_slots p s) = Inl (ERROR_INVALID_HANDLE, 0)"
    using revoke_all_slots_nth [OF assms(1), of "unat p" "handle_index h" p]
    by (auto simp: resolve_def Let_def not_le)
  ultimately show ?thesis
    using resolve_cong [of "historia_cap ops s" p h s req] by (simp add: find_cap_def)
qed

theorem cap_aislamiento_witness:
  "resolve 3 7 0 (historia_cap [CGrant 4 KIND_MEMORIA 1 9, CRevokeAll 5, CRevoke 6 7] cap_inicial)
     = resolve 3 7 0 cap_inicial"
  using cap_aislamiento [OF cap_inicial_ok, of "[CGrant 4 KIND_MEMORIA 1 9, CRevokeAll 5, CRevoke 6 7]" 3 7 0]
  by simp

section \<open>Where the generation wraps\<close>

text \<open>One turn of a slot: granted and revoked.\<close>

definition vuelta :: "cap_tables \<Rightarrow> cap_tables" where
  "vuelta s =
    (case grant 1 KIND_MEMORIA RIGHT_READ 0xAAA s of
       (Some h, s1) \<Rightarrow> snd (revoke 1 h s1)
     | (None, s1) \<Rightarrow> s1)"

definition slot_en :: "u16 \<Rightarrow> cap_tables \<Rightarrow> bool" where
  "slot_en g s \<longleftrightarrow> cap_ok s \<and> slot_libre (s ! 1) = Some 0 \<and> cs_generation (s ! 1 ! 0) = g"

lemma grant_slot_en:
  assumes "slot_en g s"
  shows "grant 1 k r ob s = (Some (encode_handle k (siguiente_gen g) 0),
    pon_slot 1 0 \<lparr>cs_kind = k, cs_live = True, cs_generation = siguiente_gen g, cs_rights = r,
      cs_object = ob\<rparr> s)"
  using assms by (simp add: slot_en_def grant_def MAX_PROCS_def Let_def)

lemma vuelta_slot_en: "slot_en g s \<Longrightarrow> slot_en (siguiente_gen g) (vuelta s)"
proof -
  assume e: "slot_en g s"
  let ?c = "\<lparr>cs_kind = KIND_MEMORIA, cs_live = True, cs_generation = siguiente_gen g,
      cs_rights = RIGHT_READ, cs_object = 0xAAA\<rparr>"
  let ?s1 = "pon_slot 1 0 ?c s"
  have ok: "cap_ok ?s1" and nth: "?s1 ! 1 ! 0 = ?c"
    using e by (simp_all add: slot_en_def pon_slot_nth MAX_PROCS_def SLOTS_PER_PROC_def)
  have v: "vuelta s = pon_slot 1 0 (apaga ?c) ?s1"
    by (simp add: vuelta_def grant_slot_en [OF e] revoke_def Let_def nth [simplified] MAX_PROCS_def
        SLOTS_PER_PROC_def)
  have "length (?s1 ! 1) = SLOTS_PER_PROC" "length ?s1 = MAX_PROCS"
    using cap_ok_nth [OF ok, of 1] ok by (simp_all add: MAX_PROCS_def cap_ok_def)
  then obtain c cs where cs: "?s1 ! 1 = c # cs"
    by (cases "?s1 ! 1") (simp_all add: SLOTS_PER_PROC_def)
  then have "vuelta s ! 1 = apaga ?c # cs"
    using \<open>length ?s1 = MAX_PROCS\<close> unfolding v pon_slot_def [of _ _ _ ?s1]
    by (simp add: MAX_PROCS_def)
  moreover have "cap_ok (vuelta s)"
    unfolding v using ok by (simp add: MAX_PROCS_def)
  ultimately show ?thesis
    by (simp add: slot_en_def)
qed

lemma vueltas_slot_en:
  "slot_en g s \<Longrightarrow> slot_en ((siguiente_gen ^^ n) g) ((vuelta ^^ n) s)"
  by (induction n) (simp_all add: vuelta_slot_en)

lemma siguiente_gen_vueltas:
  "g \<noteq> 0 \<Longrightarrow> unat ((siguiente_gen ^^ n) g) = (unat g - 1 + n) mod 65535 + 1"
proof (induction n)
  case 0
  have "unat g - 1 < 65535" "0 < unat g"
    using 0 unsigned_less [of g, where ?'a = nat] by (simp_all add: unat_gt_0)
  then show ?case
    by simp
next
  case (Suc n)
  have nz: "(siguiente_gen ^^ n) g \<noteq> 0"
    using Suc by auto
  have "unat ((siguiente_gen ^^ Suc n) g) = ((unat g - 1 + n) mod 65535 + 1) mod 65535 + 1"
    using unat_siguiente_gen [OF nz] Suc.IH [OF Suc.prems] by simp
  then show ?case
    by (simp add: mod_Suc_eq)
qed

text \<open>
  A handle comes back. After 65535 grants and revocations of one slot the generation has
  gone all the way round: the next grant gives, for another object and with other rights, the
  very handle the first grant gave, and whoever kept that revoked handle now reaches the new
  object through it.
\<close>

theorem handle_reciclado:
  "fst (grant 1 KIND_MEMORIA RIGHT_READ 0xAAA cap_inicial) = Some (encode_handle KIND_MEMORIA 1 0) \<and>
   resolve 1 (encode_handle KIND_MEMORIA 1 0) 0 (vuelta cap_inicial) = Inl (ERROR_INVALID_HANDLE, 0) \<and>
   resolve 1 (encode_handle KIND_MEMORIA 1 0) RIGHT_WRITE
     (snd (grant 1 KIND_MEMORIA RIGHT_WRITE 0xBBB ((vuelta ^^ 65535) cap_inicial)))
   = Inr \<lparr>r_kind = KIND_MEMORIA, r_rights = RIGHT_WRITE, r_object = 0xBBB\<rparr>"
proof -
  have g1: "grant 1 k r ob cap_inicial = (Some (encode_handle k 1 0),
      pon_slot 1 0 \<lparr>cs_kind = k, cs_live = True, cs_generation = 1, cs_rights = r, cs_object = ob\<rparr> cap_inicial)"
    for k r ob
    using grant_inicial [of 1] by (simp add: MAX_PROCS_def)
  have "slot_libre (cap_inicial ! 1) = Some 0"
  proof -
    have "fst (grant 1 KIND_MEMORIA 1 0 cap_inicial) = Some (encode_handle KIND_MEMORIA 1 0)"
      by (simp add: g1)
    then show ?thesis
      by (simp add: cap_inicial_def MAX_PROCS_def SLOTS_PER_PROC_def FREE_SLOT_def
          replicate_Suc [of 63, simplified])
  qed
  then have e0: "slot_en 0 cap_inicial"
    by (simp add: slot_en_def cap_inicial_ok)
      (simp add: cap_inicial_def MAX_PROCS_def SLOTS_PER_PROC_def FREE_SLOT_def)
  have e1: "slot_en 1 (vuelta cap_inicial)"
    using vuelta_slot_en [OF e0] by (simp add: siguiente_gen_def)
  have "(siguiente_gen ^^ 65534) 1 = - 1"
  proof -
    have "unat ((siguiente_gen ^^ 65534) 1) = 65535"
      by (simp add: siguiente_gen_vueltas)
    then show ?thesis
      by (simp add: word_unat_eq_iff unsigned_minus_1_eq_mask mask_eq_exp_minus_1)
  qed
  then have "slot_en (- 1) ((vuelta ^^ 65534) (vuelta cap_inicial))"
    using vueltas_slot_en [OF e1, of 65534] by simp
  then have e: "slot_en (- 1) ((vuelta ^^ 65535) cap_inicial)"
    by (simp add: funpow_swap1 [symmetric] flip: funpow.simps(2) [THEN fun_cong, unfolded comp_def])
  have g2: "snd (grant 1 KIND_MEMORIA RIGHT_WRITE 0xBBB ((vuelta ^^ 65535) cap_inicial)) =
      pon_slot 1 0 \<lparr>cs_kind = KIND_MEMORIA, cs_live = True, cs_generation = 1,
        cs_rights = RIGHT_WRITE, cs_object = 0xBBB\<rparr> ((vuelta ^^ 65535) cap_inicial)"
    by (subst grant_slot_en [OF e]) (simp add: siguiente_gen_def)
  have "resolve 1 (encode_handle KIND_MEMORIA 1 0) RIGHT_WRITE
      (snd (grant 1 KIND_MEMORIA RIGHT_WRITE 0xBBB ((vuelta ^^ 65535) cap_inicial)))
      = Inr \<lparr>r_kind = KIND_MEMORIA, r_rights = RIGHT_WRITE, r_object = 0xBBB\<rparr>"
    unfolding resolve_Inr_iff g2 using e
    by (simp add: slot_en_def pon_slot_nth MAX_PROCS_def SLOTS_PER_PROC_def handle_kind_encode
        KIND_MEMORIA_def)
  moreover have "resolve 1 (encode_handle KIND_MEMORIA 1 0) 0 (vuelta cap_inicial)
      = Inl (ERROR_INVALID_HANDLE, 0)"
    using e1 slot_libre_Some [of "vuelta cap_inicial ! 1" 0]
    by (simp add: resolve_def Let_def slot_en_def)
  ultimately show ?thesis
    by (simp add: g1)
qed

end
