(* ===== verification/Tramos.thy ===== *)
theory Tramos
  imports Aislamiento
begin

text \<open>
  The loops of \<open>obj/memory.rs\<close> and \<open>obj/loan.rs\<close> over a run of pages: map page after page until
  one fails, and unmap what was mapped. \<open>fuente\<close> says which frame goes to an offset: a run of
  frames for a block, the owner's page tables for a loan.
\<close>

section \<open>The loops\<close>

text \<open>The offsets of \<open>while off < tope\<close> with steps of a page.\<close>

definition paginas_de :: "u64 \<Rightarrow> nat list" where
  "paginas_de tope = [0 ..< (unat tope + 4095) div 4096]"

definition desplaza :: "u64 \<Rightarrow> nat \<Rightarrow> u64" where
  "desplaza va k = va + of_nat k * PAGE"

text \<open>\<open>Some k\<close> is the page it stopped at.\<close>

fun mapea_paginas ::
  "(vmm_st \<Rightarrow> nat \<Rightarrow> u64 option) \<Rightarrow> u64 \<Rightarrow> u64 \<Rightarrow> nat list \<Rightarrow> vmm_st \<Rightarrow> nat option \<times> vmm_st" where
  "mapea_paginas fuente aspace va [] s = (None, s)"
| "mapea_paginas fuente aspace va (k # ks) s =
    (case fuente s k of
       None \<Rightarrow> (Some k, s)
     | Some fisica \<Rightarrow>
        (case map_page aspace (desplaza va k) fisica True True s of
           (False, s') \<Rightarrow> (Some k, s')
         | (True, s') \<Rightarrow> mapea_paginas fuente aspace va ks s'))"

fun desmapea_paginas :: "u64 \<Rightarrow> u64 \<Rightarrow> nat list \<Rightarrow> vmm_st \<Rightarrow> vmm_st" where
  "desmapea_paginas aspace va [] s = s"
| "desmapea_paginas aspace va (k # ks) s =
    desmapea_paginas aspace va ks (snd (unmap_page aspace (desplaza va k) s))"

section \<open>Runs of user pages\<close>

text \<open>\<open>n\<close> pages from an aligned \<open>va\<close>, all in the user half.\<close>

definition ventana_ok :: "u64 \<Rightarrow> nat \<Rightarrow> bool" where
  "ventana_ok va n \<longleftrightarrow> unat va mod 4096 = 0 \<and> unat USER_IMAGE_BASE \<le> unat va \<and>
     unat va + n * 4096 \<le> FIN_USUARIO"

lemma unat_desplaza:
  assumes "ventana_ok va n" "k < n"
  shows "unat (desplaza va k) = unat va + k * 4096"
proof -
  have "k * 4096 + 4096 \<le> n * 4096"
    using assms(2) by linarith
  moreover have "unat va + n * 4096 \<le> 2 ^ 39"
    using assms(1) unfolding ventana_ok_def FIN_USUARIO_def by blast
  ultimately have k: "unat va + k * 4096 < 2 ^ 39"
    by simp
  then have u: "unat (word_of_nat (k * 4096) :: u64) = k * 4096"
    by (intro unat_word_of_nat) simp
  have "desplaza va k = va + word_of_nat (k * 4096)"
    by (simp add: desplaza_def PAGE_def)
  moreover have "unat (va + word_of_nat (k * 4096)) = unat va + k * 4096"
    using k u by (subst unat_add_small) simp_all
  ultimately show ?thesis
    by (simp only:)
qed

lemma desplaza_usuario:
  assumes "ventana_ok va n" "k < n"
  shows "en_usuario (desplaza va k)" "desplaza va k mod PAGE = 0"
    "unat (desplaza va k) div 4096 = unat va div 4096 + k"
proof -
  have u: "unat (desplaza va k) = unat va + k * 4096"
    by (rule unat_desplaza [OF assms])
  then show "en_usuario (desplaza va k)"
    using assms by (auto simp: en_usuario_def ventana_ok_def FIN_USUARIO_def)
  have "unat (desplaza va k) mod 4096 = 0"
    using u assms(1) by (auto simp: ventana_ok_def)
  then show "desplaza va k mod PAGE = 0"
    by (simp add: word_unat_eq_iff unat_mod)
  show "unat (desplaza va k) div 4096 = unat va div 4096 + k"
    using u by simp
qed

text \<open>The page of a space that is the \<open>k\<close>-th of the window.\<close>

definition es_de :: "u64 \<Rightarrow> u64 \<Rightarrow> nat \<Rightarrow> u64 \<Rightarrow> u64 \<Rightarrow> bool" where
  "es_de aspace va k r va' \<longleftrightarrow> r = aspace \<and> unat va' div 4096 = unat va div 4096 + k"

text \<open>One page, seen from the world: mapped, or nothing changed.\<close>

lemma map_page_mundo:
  assumes m: "mundo_ok R s" "aspace \<in> R" and v: "ventana_ok va n" "k < n"
    and pa: "unat pa < 2 ^ 52"
  shows "mundo_ok R (snd (map_page aspace (desplaza va k) pa True True s))"
    and "fst (map_page aspace (desplaza va k) pa True True s) \<Longrightarrow>
      translate (snd (map_page aspace (desplaza va k) pa True True s)) aspace (desplaza va k) = Some pa"
    and "r \<in> R \<Longrightarrow> en_usuario va' \<Longrightarrow>
      \<not> (fst (map_page aspace (desplaza va k) pa True True s) \<and> es_de aspace va k r va') \<Longrightarrow>
      translate (snd (map_page aspace (desplaza va k) pa True True s)) r va' = translate s r va'"
proof -
  note d = desplaza_usuario [OF v]
  show "mundo_ok R (snd (map_page aspace (desplaza va k) pa True True s))"
    using aplica_op_mundo [OF m, of "MapPage (desplaza va k) pa True True"] en_usuario_va [OF d(1)] by simp
  have x: "let (hecho, s') = map_page aspace (desplaza va k) pa True True s in
      espacios_ok s' R \<and>
      (hecho \<longrightarrow> desplaza va k mod PAGE = 0 \<and> pa mod PAGE = 0 \<and>
        translate s' aspace (desplaza va k) = Some pa) \<and>
      (\<forall>r' \<in> R. \<forall>va'. en_usuario va' \<longrightarrow> \<not> (hecho \<and> es_de aspace va k r' va') \<longrightarrow>
        translate s' r' va' = translate s r' va')"
    using map_page_tipo_cambia [OF mundo_okD(1) [OF m(1)] m(2) en_usuario_va [OF d(1)],
        of pa True True False False False] mask_pa [OF _ pa] pagina_de_iff [OF d(1)] en_usuario_va d(3)
    unfolding map_page_def es_de_def
    by (cases "map_page_tipo aspace (desplaza va k) pa True True False False False s";
        cases "fst (map_page_tipo aspace (desplaza va k) pa True True False False False s)")
      (simp_all add: cambia_pagina_def conserva_def)
  show "fst (map_page aspace (desplaza va k) pa True True s) \<Longrightarrow>
      translate (snd (map_page aspace (desplaza va k) pa True True s)) aspace (desplaza va k) = Some pa"
    using x by (auto simp: case_prod_beta)
  show "r \<in> R \<Longrightarrow> en_usuario va' \<Longrightarrow>
      \<not> (fst (map_page aspace (desplaza va k) pa True True s) \<and> es_de aspace va k r va') \<Longrightarrow>
      translate (snd (map_page aspace (desplaza va k) pa True True s)) r va' = translate s r va'"
    using x by (auto simp: case_prod_beta)
qed

lemma unmap_page_mundo:
  assumes m: "mundo_ok R s" "aspace \<in> R" and v: "ventana_ok va n" "k < n"
  shows "mundo_ok R (snd (unmap_page aspace (desplaza va k) s))"
    and "translate (snd (unmap_page aspace (desplaza va k) s)) aspace (desplaza va k) = None"
    and "r \<in> R \<Longrightarrow> en_usuario va' \<Longrightarrow> \<not> es_de aspace va k r va' \<Longrightarrow>
      translate (snd (unmap_page aspace (desplaza va k) s)) r va' = translate s r va'"
proof -
  note d = desplaza_usuario [OF v]
  note u = unmap_page_cambia [OF mundo_okD(1) [OF m(1)] m(2) en_usuario_va [OF d(1)]]
  show "mundo_ok R (snd (unmap_page aspace (desplaza va k) s))"
    using aplica_op_mundo [OF m, of "Unmap (desplaza va k)"] en_usuario_va [OF d(1)] by simp
  show "translate (snd (unmap_page aspace (desplaza va k) s)) aspace (desplaza va k) = None"
    using u translate_sin_hoja [OF m en_usuario_va [OF d(1)]]
    by (auto simp: cambia_pagina_def split: prod.splits option.splits)
  show "r \<in> R \<Longrightarrow> en_usuario va' \<Longrightarrow> \<not> es_de aspace va k r va' \<Longrightarrow>
      translate (snd (unmap_page aspace (desplaza va k) s)) r va' = translate s r va'"
    using u pagina_de_iff [OF d(1)] en_usuario_va d(3) unfolding es_de_def
    by (auto simp: cambia_pagina_def split: prod.splits option.splits)
qed

section \<open>The runs\<close>

text \<open>User pages outside the listed pages of the window are as they were.\<close>

definition iguales_fuera :: "u64 set \<Rightarrow> u64 \<Rightarrow> u64 \<Rightarrow> nat set \<Rightarrow> vmm_st \<Rightarrow> vmm_st \<Rightarrow> bool" where
  "iguales_fuera R aspace va K s s' \<longleftrightarrow>
     (\<forall>r \<in> R. \<forall>va'. en_usuario va' \<longrightarrow> (\<forall>k \<in> K. \<not> es_de aspace va k r va') \<longrightarrow>
        translate s' r va' = translate s r va')"

lemma iguales_fueraD:
  "iguales_fuera R aspace va K s s' \<Longrightarrow> r \<in> R \<Longrightarrow> en_usuario va' \<Longrightarrow>
     (\<And>k. k \<in> K \<Longrightarrow> \<not> es_de aspace va k r va') \<Longrightarrow> translate s' r va' = translate s r va'"
  by (simp add: iguales_fuera_def)

lemma iguales_fuera_refl [simp]: "iguales_fuera R aspace va K s s"
  by (simp add: iguales_fuera_def)

lemma iguales_fuera_trans:
  "iguales_fuera R aspace va K s s' \<Longrightarrow> iguales_fuera R aspace va K' s' s'' \<Longrightarrow>
     K \<union> K' \<subseteq> L \<Longrightarrow> iguales_fuera R aspace va L s s''"
  unfolding iguales_fuera_def by (metis Un_iff subsetD)

lemma es_de_desplaza:
  assumes "ventana_ok va n" "k < n" "es_de aspace va j aspace (desplaza va k)"
  shows "j = k"
  using assms(3) desplaza_usuario(3) [OF assms(1,2)] by (simp add: es_de_def)

text \<open>A source that answers the same whatever happens to the pages of the window.\<close>

definition fuente_ok :: "(vmm_st \<Rightarrow> nat \<Rightarrow> u64 option) \<Rightarrow> u64 set \<Rightarrow> u64 \<Rightarrow> u64 \<Rightarrow> nat \<Rightarrow> vmm_st \<Rightarrow> bool" where
  "fuente_ok fuente R aspace va n s \<longleftrightarrow>
     (\<forall>k < n. \<forall>fisica. fuente s k = Some fisica \<longrightarrow> unat fisica < 2 ^ 52) \<and>
     (\<forall>s'. mundo_ok R s' \<longrightarrow> iguales_fuera R aspace va {..<n} s s' \<longrightarrow> (\<forall>k < n. fuente s' k = fuente s k))"

lemma fuente_ok_paso:
  assumes "fuente_ok fuente R aspace va n s" "mundo_ok R s'" "iguales_fuera R aspace va {..<n} s s'"
  shows "fuente_ok fuente R aspace va n s'" "\<And>k. k < n \<Longrightarrow> fuente s' k = fuente s k"
proof -
  have e: "fuente s' k = fuente s k" if "k < n" for k
    using assms that by (simp add: fuente_ok_def)
  then show "\<And>k. k < n \<Longrightarrow> fuente s' k = fuente s k" .
  have "iguales_fuera R aspace va {..<n} s s''" if "iguales_fuera R aspace va {..<n} s' s''" for s''
    using iguales_fuera_trans [OF assms(3) that] by simp
  then show "fuente_ok fuente R aspace va n s'"
    using assms(1) e unfolding fuente_ok_def by metis
qed

lemma mapea_paginas_mundo:
  assumes "mundo_ok R s" "aspace \<in> R" and v: "ventana_ok va n"
    and "fuente_ok fuente R aspace va n s" "set ks \<subseteq> {..<n}" "distinct ks"
  shows "mundo_ok R (snd (mapea_paginas fuente aspace va ks s)) \<and>
    (case fst (mapea_paginas fuente aspace va ks s) of
      None \<Rightarrow> iguales_fuera R aspace va (set ks) s (snd (mapea_paginas fuente aspace va ks s)) \<and>
        (\<forall>k \<in> set ks. \<exists>fisica. fuente s k = Some fisica \<and>
           translate (snd (mapea_paginas fuente aspace va ks s)) aspace (desplaza va k) = Some fisica)
    | Some j \<Rightarrow> j \<in> set ks \<and>
        iguales_fuera R aspace va (set (takeWhile (\<lambda>k. k \<noteq> j) ks)) s (snd (mapea_paginas fuente aspace va ks s)))"
  using assms(1,4-6)
proof (induction ks arbitrary: s)
  case (Cons k ks)
  have k: "k < n"
    using Cons.prems(3) by simp
  show ?case
  proof (cases "fuente s k")
    case None
    then show ?thesis
      using Cons.prems(1) by simp
  next
    case (Some fisica)
    obtain hecho s1 where m: "map_page aspace (desplaza va k) fisica True True s = (hecho, s1)"
      by fastforce
    have "unat fisica < 2 ^ 52"
      using Cons.prems(2) Some k unfolding fuente_ok_def by blast
    note p = map_page_mundo [OF Cons.prems(1) assms(2) v k this, unfolded m fst_conv snd_conv]
    show ?thesis
    proof (cases hecho)
      case False
      have "iguales_fuera R aspace va {} s s1"
        unfolding iguales_fuera_def using p(3) False by blast
      then show ?thesis
        using p(1) False by (simp add: Some m)
    next
      case True
      have f1: "iguales_fuera R aspace va {k} s s1"
        unfolding iguales_fuera_def using p(3) by blast
      have fn: "iguales_fuera R aspace va {..<n} s s1"
        using iguales_fuera_trans [OF f1 iguales_fuera_refl [where K = "{}"]] k by simp
      note src = fuente_ok_paso [OF Cons.prems(2) p(1) fn]
      let ?r = "mapea_paginas fuente aspace va ks s1"
      have IH: "mundo_ok R (snd ?r) \<and>
        (case fst ?r of
          None \<Rightarrow> iguales_fuera R aspace va (set ks) s1 (snd ?r) \<and>
            (\<forall>k \<in> set ks. \<exists>fisica. fuente s1 k = Some fisica \<and>
               translate (snd ?r) aspace (desplaza va k) = Some fisica)
        | Some j \<Rightarrow> j \<in> set ks \<and>
            iguales_fuera R aspace va (set (takeWhile (\<lambda>k. k \<noteq> j) ks)) s1 (snd ?r))"
        using Cons.prems by (intro Cons.IH p(1) src(1)) simp_all
      have eq: "mapea_paginas fuente aspace va (k # ks) s = ?r"
        using True by (simp add: Some m)
      show ?thesis
      proof (cases "fst ?r")
        case None
        have ig: "iguales_fuera R aspace va (set ks) s1 (snd ?r)"
          and res: "\<forall>k \<in> set ks. \<exists>fisica. fuente s1 k = Some fisica \<and>
               translate (snd ?r) aspace (desplaza va k) = Some fisica"
          using IH None by simp_all
        have "translate (snd ?r) aspace (desplaza va k) = translate s1 aspace (desplaza va k)"
        proof (rule iguales_fueraD [OF ig assms(2) desplaza_usuario(1) [OF v k]])
          show "\<not> es_de aspace va k' aspace (desplaza va k)" if "k' \<in> set ks" for k'
            using es_de_desplaza [OF v k] that Cons.prems(4) by auto
        qed
        then have "translate (snd ?r) aspace (desplaza va k) = Some fisica"
          using p(2) True by simp
        moreover have "iguales_fuera R aspace va (set (k # ks)) s (snd ?r)"
          by (rule iguales_fuera_trans [OF f1 ig]) auto
        moreover have "fuente s1 k' = fuente s k'" if "k' \<in> set ks" for k'
          using src(2) that Cons.prems(3) by auto
        ultimately show ?thesis
          unfolding eq using IH None res Some by simp
      next
        case (Some j)
        have j: "j \<in> set ks" "iguales_fuera R aspace va (set (takeWhile (\<lambda>k. k \<noteq> j) ks)) s1 (snd ?r)"
          using IH Some by simp_all
        have "iguales_fuera R aspace va (set (takeWhile (\<lambda>k. k \<noteq> j) (k # ks))) s (snd ?r)"
          by (rule iguales_fuera_trans [OF f1 j(2)]) (use j(1) Cons.prems(4) in auto)
        then show ?thesis
          unfolding eq using IH Some j(1) by simp
      qed
    qed
  qed
qed simp

lemma desmapea_paginas_mundo:
  assumes "mundo_ok R s" "aspace \<in> R" and v: "ventana_ok va n" and "set ks \<subseteq> {..<n}"
  shows "mundo_ok R (desmapea_paginas aspace va ks s)"
    "iguales_fuera R aspace va (set ks) s (desmapea_paginas aspace va ks s)"
    "\<forall>k \<in> set ks. translate (desmapea_paginas aspace va ks s) aspace (desplaza va k) = None"
proof -
  have "mundo_ok R (desmapea_paginas aspace va ks s) \<and>
    iguales_fuera R aspace va (set ks) s (desmapea_paginas aspace va ks s) \<and>
    (\<forall>k \<in> set ks. translate (desmapea_paginas aspace va ks s) aspace (desplaza va k) = None)"
    using assms(1,4)
  proof (induction ks arbitrary: s)
    case (Cons k ks)
    have k: "k < n"
      using Cons.prems(2) by simp
    let ?s1 = "snd (unmap_page aspace (desplaza va k) s)"
    let ?s2 = "desmapea_paginas aspace va ks ?s1"
    note p = unmap_page_mundo [OF Cons.prems(1) assms(2) v k]
    have f1: "iguales_fuera R aspace va {k} s ?s1"
      unfolding iguales_fuera_def using p(3) by blast
    have IH: "mundo_ok R ?s2" "iguales_fuera R aspace va (set ks) ?s1 ?s2"
      "\<forall>k \<in> set ks. translate ?s2 aspace (desplaza va k) = None"
      using Cons.IH [OF p(1)] Cons.prems(2) by simp_all
    have "translate ?s2 aspace (desplaza va k) = None"
    proof (cases "k \<in> set ks")
      case False
      have "translate ?s2 aspace (desplaza va k) = translate ?s1 aspace (desplaza va k)"
      proof (rule iguales_fueraD [OF IH(2) assms(2) desplaza_usuario(1) [OF v k]])
        show "\<not> es_de aspace va k' aspace (desplaza va k)" if "k' \<in> set ks" for k'
          using es_de_desplaza [OF v k] that False by blast
      qed
      then show ?thesis
        using p(2) by simp
    qed (use IH(3) in blast)
    moreover have "iguales_fuera R aspace va (set (k # ks)) s ?s2"
      by (rule iguales_fuera_trans [OF f1 IH(2)]) auto
    ultimately show ?case
      using IH by simp
  qed simp
  then show "mundo_ok R (desmapea_paginas aspace va ks s)"
    "iguales_fuera R aspace va (set ks) s (desmapea_paginas aspace va ks s)"
    "\<forall>k \<in> set ks. translate (desmapea_paginas aspace va ks s) aspace (desplaza va k) = None"
    by blast+
qed

section \<open>The frames they cost\<close>

text \<open>One page costs at most three tables.\<close>

lemma get_or_create_gasta:
  assumes "phys_ok (fisico s)"
  shows "phys_ok (fisico (snd (get_or_create t i fl s)))"
    "libres_de (fisico (snd (get_or_create t i fl s))) \<subseteq> libres_de (fisico s)"
    "card (libres_de (fisico s)) \<le> card (libres_de (fisico (snd (get_or_create t i fl s)))) + 1"
proof -
  have "phys_ok (fisico (snd (get_or_create t i fl s))) \<and>
    libres_de (fisico (snd (get_or_create t i fl s))) \<subseteq> libres_de (fisico s) \<and>
    card (libres_de (fisico s)) \<le> card (libres_de (fisico (snd (get_or_create t i fl s)))) + 1"
    using assms
  proof (cases rule: alloc_frame_de_cases [where q = Tabla, consumes 1, case_names lleno hay])
    case (lleno ph)
    then show ?thesis
      using assms by (simp add: get_or_create_def Let_def)
  next
    case (hay f n ph)
    have "card (libres_de (fisico s)) \<le> card (libres_de (fisico s) - {n}) + 1"
      using hay(3) by (simp add: card_Diff_singleton_if)
    then show ?thesis
      using assms hay by (simp add: get_or_create_def Let_def escribe_def borra_marco_def)
  qed
  then show "phys_ok (fisico (snd (get_or_create t i fl s)))"
    "libres_de (fisico (snd (get_or_create t i fl s))) \<subseteq> libres_de (fisico s)"
    "card (libres_de (fisico s)) \<le> card (libres_de (fisico (snd (get_or_create t i fl s)))) + 1"
    by blast+
qed

lemma map_page_gasta:
  assumes "phys_ok (fisico s)"
  shows "phys_ok (fisico (snd (map_page r va pa u w s)))"
    "libres_de (fisico (snd (map_page r va pa u w s))) \<subseteq> libres_de (fisico s)"
    "card (libres_de (fisico s)) \<le> card (libres_de (fisico (snd (map_page r va pa u w s)))) + 3"
proof -
  let ?m = "PTE_PRESENT OR PTE_WRITABLE OR (if u then PTE_USER else 0)"
  obtain r1 s1 where 1: "get_or_create r (i4_de va) ?m s = (r1, s1)" by fastforce
  obtain r2 s2 where 2: "get_or_create (the r1) (i3_de va) ?m s1 = (r2, s2)" by fastforce
  obtain r3 s3 where 3: "get_or_create (the r2) (i2_de va) ?m s2 = (r3, s3)" by fastforce
  note g1 = get_or_create_gasta [OF assms, of r "i4_de va" ?m, unfolded 1 snd_conv]
  note g2 = get_or_create_gasta [OF g1(1), of "the r1" "i3_de va" ?m, unfolded 2 snd_conv]
  note g3 = get_or_create_gasta [OF g2(1), of "the r2" "i2_de va" ?m, unfolded 3 snd_conv]
  have "fisico (snd (map_page r va pa u w s)) \<in> {fisico s, fisico s1, fisico s2, fisico s3}"
    using 1 2 3 by (cases r1; cases r2; cases r3)
      (simp_all add: map_page_def map_page_tipo_def Let_def escribe_def)
  moreover have "phys_ok p \<and> libres_de p \<subseteq> libres_de (fisico s) \<and> card (libres_de (fisico s)) \<le> card (libres_de p) + 3"
    if "p \<in> {fisico s, fisico s1, fisico s2, fisico s3}" for p
    using that assms g1 g2 g3 by (elim insertE emptyE) (simp_all add: subset_trans [OF g3(2)] subset_trans [OF g2(2)])
  ultimately have "phys_ok (fisico (snd (map_page r va pa u w s))) \<and>
    libres_de (fisico (snd (map_page r va pa u w s))) \<subseteq> libres_de (fisico s) \<and>
    card (libres_de (fisico s)) \<le> card (libres_de (fisico (snd (map_page r va pa u w s)))) + 3"
    by blast
  then show "phys_ok (fisico (snd (map_page r va pa u w s)))"
    "libres_de (fisico (snd (map_page r va pa u w s))) \<subseteq> libres_de (fisico s)"
    "card (libres_de (fisico s)) \<le> card (libres_de (fisico (snd (map_page r va pa u w s)))) + 3"
    by blast+
qed

lemma unmap_page_fisico [simp]: "fisico (snd (unmap_page r va s)) = fisico s"
  by (simp add: unmap_page_def Let_def escribe_def)

lemma desmapea_paginas_fisico [simp]: "fisico (desmapea_paginas aspace va ks s) = fisico s"
  by (induction ks arbitrary: s) simp_all

lemma mapea_paginas_gasta:
  assumes "phys_ok (fisico s)"
  shows "phys_ok (fisico (snd (mapea_paginas fuente aspace va ks s))) \<and>
    libres_de (fisico (snd (mapea_paginas fuente aspace va ks s))) \<subseteq> libres_de (fisico s)"
  using assms
proof (induction ks arbitrary: s)
  case (Cons k ks)
  show ?case
  proof (cases "fuente s k")
    case (Some f)
    obtain hecho s1 where m: "map_page aspace (desplaza va k) f True True s = (hecho, s1)"
      by fastforce
    note g = map_page_gasta [OF Cons.prems, of aspace "desplaza va k" f True True, unfolded m snd_conv]
    show ?thesis
      using g(1,2) Cons.IH [OF g(1)] by (cases hecho) (auto simp: Some m)
  qed (use Cons.prems in simp)
qed simp

section \<open>Bytes of a page\<close>

lemma mod_PAGE_0 [simp]: "unat va mod 4096 = 0 \<Longrightarrow> va mod PAGE = 0"
  by (simp add: word_unat_eq_iff unat_mod)

lemma unat_mascara: "unat (x AND ADDR_MASK) < 2 ^ 52"
proof -
  have "x AND ADDR_MASK = take_bit 52 (x AND ADDR_MASK)"
    by (rule bit_word_eqI) (auto simp: bits_pte bit_take_bit_iff)
  then have "unat (x AND ADDR_MASK) = take_bit 52 (unat (x AND ADDR_MASK))"
    by (metis unsigned_take_bit_eq)
  then show ?thesis
    by (metis take_bit_nat_less_exp)
qed

lemma translate_52:
  assumes "mundo_ok R v" "r \<in> R" "en_usuario va" "translate v r va = Some f"
  shows "unat f < 2 ^ 52"
  using translate_de_hoja(1) [OF assms(1,2) en_usuario_va [OF assms(3)]] assms(4) unat_mascara
  by (auto split: if_splits)

lemma byte_de_pagina:
  assumes m: "mundo_ok R v" "r \<in> R" and w: "ventana_ok va n" "k < n" and d: "d < 4096"
  shows "fisica_exacta v r (desplaza va k + of_nat d) =
    map_option (\<lambda>f. f + of_nat d) (translate v r (desplaza va k))"
proof -
  let ?p = "desplaza va k"
  note dp = desplaza_usuario [OF w]
  have up: "unat ?p = unat va + k * 4096"
    by (rule unat_desplaza [OF w])
  have lim: "unat va + n * 4096 \<le> 2 ^ 39" "unat va mod 4096 = 0" "2 ^ 30 \<le> unat va"
    using w(1) by (auto simp: ventana_ok_def FIN_USUARIO_def USER_IMAGE_BASE_def)
  have "k * 4096 + 4096 \<le> n * 4096"
    using w(2) by linarith
  then have pd: "unat ?p + d < 2 ^ 39"
    using lim d up by simp
  have ud: "unat (of_nat d :: u64) = d"
    using d by (intro unat_word_of_nat) simp
  have u: "unat (?p + of_nat d) = unat ?p + d"
    using pd ud by (subst unat_add_small) simp_all
  have pm: "unat ?p mod 4096 = 0"
    using up lim(2) by simp
  then have q: "unat (?p + of_nat d) div 4096 = unat ?p div 4096"
    using d unfolding u by (auto elim!: dvdE simp: mod_eq_0_iff_dvd)
  have eu: "en_usuario (?p + of_nat d)"
    using pd lim(3) up u by (simp add: en_usuario_def FIN_USUARIO_def USER_IMAGE_BASE_def)
  have h: "hoja_de v r (?p + of_nat d) = hoja_de v r ?p"
    using pagina_de_iff [OF dp(1) eu] q by (intro hoja_de_pagina) simp
  have "unat ((?p + of_nat d) AND (PAGE - 1)) = (unat ?p + d) mod 4096"
    unfolding PAGE_mask unat_and_mask u by simp
  also have "\<dots> = d"
    using pm d by (metis mod_add_left_eq add_0 mod_less)
  finally have "(?p + of_nat d) AND (PAGE - 1) = of_nat d"
    using ud by (simp add: word_unat_eq_iff)
  then show ?thesis
    using translate_de_hoja(2) [OF m en_usuario_va [OF eu]] translate_de_hoja(1) [OF m en_usuario_va [OF dp(1)]]
    by (simp add: h)
qed

text \<open>A byte offset splits into a page and a place in it.\<close>

lemma parte_desplazamiento:
  "va + of_nat c = desplaza va (c div 4096) + of_nat (c mod 4096)"
proof -
  have "(of_nat c :: u64) = of_nat (c div 4096 * 4096 + c mod 4096)"
    by simp
  then show ?thesis
    by (simp only: desplaza_def of_nat_add of_nat_mult PAGE_def of_nat_numeral add.assoc)
qed

section \<open>Windows\<close>

lemma div_pagina_iff: "(x :: nat) div 4096 = m \<longleftrightarrow> m * 4096 \<le> x \<and> x < (m + 1) * 4096"
  using less_eq_div_iff_mult_less_eq [of 4096 m x] div_less_iff_less_mult [of 4096 x "m + 1"] by auto

lemma pagina_de_ventana_iff:
  assumes "ventana_ok va n" "k < n" "en_usuario va'"
  shows "unat va' div 4096 = unat va div 4096 + k \<longleftrightarrow>
    unat va + k * 4096 \<le> unat va' \<and> unat va' < unat va + k * 4096 + 4096"
proof -
  obtain p where p: "unat va = 4096 * p"
    using assms(1) by (auto simp: ventana_ok_def)
  have "unat va' div 4096 = p + k \<longleftrightarrow> (p + k) * 4096 \<le> unat va' \<and> unat va' < (p + k + 1) * 4096"
    by (simp add: div_pagina_iff mult.commute)
  then show ?thesis
    by (simp add: p algebra_simps)
qed

lemma iguales_fuera_ventana:
  assumes "iguales_fuera R aspace va {..<n} v v'" "ventana_ok va n" "r \<in> R" "en_usuario va'"
    and "\<not> (r = aspace \<and> unat va \<le> unat va' \<and> unat va' < unat va + n * 4096)"
  shows "translate v' r va' = translate v r va'"
proof (rule iguales_fueraD [OF assms(1,3,4)])
  fix k
  assume "k \<in> {..<n}"
  then have k: "k < n" "k * 4096 + 4096 \<le> n * 4096"
    by auto
  show "\<not> es_de aspace va k r va'"
    using pagina_de_ventana_iff [OF assms(2) k(1) assms(4)] assms(5) k(2) by (auto simp: es_de_def)
qed

end
