(* ===== verification/Prestamo_Juicio.thy ===== *)
theory Prestamo_Juicio
  imports Prelude
begin

text \<open>
  \<open>platform/shared/bmo-prestamo-juicio/src/lib.rs\<close>: which pages have to be mapped to lend
  \<open>bytes\<close> bytes that start at \<open>origen\<close>, in the middle of a page. \<open>obj/loan.rs\<close> maps, unmaps
  and answers \<open>OP_BASE\<close> with this one computation.
\<close>

section \<open>The computation\<close>

definition PAGINA :: u64 where
  "PAGINA = 4096"

record tramo =
  pagina :: u64
  dentro :: u64
  mapeado :: u64

definition base_para :: "tramo \<Rightarrow> u64 \<Rightarrow> u64" where
  "base_para t va = va + dentro t"

definition cabe_en :: "tramo \<Rightarrow> u64 \<Rightarrow> bool" where
  "cabe_en t ventana \<longleftrightarrow> mapeado t \<le> ventana"

definition tramo :: "u64 \<Rightarrow> u64 \<Rightarrow> tramo option" where
  "tramo origen bytes =
    (if bytes = 0 then None
     else do {
       _ \<leftarrow> checked_add origen bytes;
       let dentro = origen AND (PAGINA - 1);
       let pagina = origen - dentro;
       crudo \<leftarrow> checked_add dentro bytes;
       redondo \<leftarrow> checked_add crudo (PAGINA - 1);
       let mapeado = redondo AND NOT (PAGINA - 1);
       _ \<leftarrow> checked_add pagina mapeado;
       Some \<lparr>pagina = pagina, dentro = dentro, mapeado = mapeado\<rparr>
     })"

section \<open>What it guarantees\<close>

lemma pagina_mask: "PAGINA - 1 = mask 12"
  by (simp add: PAGINA_def mask_eq_exp_minus_1)

text \<open>The span of pages, on the naturals: from the page of \<open>origen\<close> to the end of the last page.\<close>

definition tramo_exacto :: "u64 \<Rightarrow> u64 \<Rightarrow> tramo \<Rightarrow> bool" where
  "tramo_exacto origen bytes t \<longleftrightarrow>
     unat (pagina t) mod 4096 = 0 \<and>
     unat (dentro t) < 4096 \<and>
     unat origen = unat (pagina t) + unat (dentro t) \<and>
     unat (mapeado t) mod 4096 = 0 \<and>
     unat (dentro t) + unat bytes \<le> unat (mapeado t) \<and>
     unat (mapeado t) < unat (dentro t) + unat bytes + 4096 \<and>
     unat (pagina t) + unat (mapeado t) < 2 ^ 64"

text \<open>The computation with its four checks read on the naturals.\<close>

lemma tramo_nat:
  "tramo origen bytes = Some t \<longleftrightarrow>
     bytes \<noteq> 0 \<and> unat origen + unat bytes < 2 ^ 64 \<and>
     unat origen mod 4096 + unat bytes + 4095 < 2 ^ 64 \<and>
     unat (dentro t) = unat origen mod 4096 \<and>
     unat (pagina t) = unat origen - unat origen mod 4096 \<and>
     unat (mapeado t) = (unat origen mod 4096 + unat bytes + 4095) div 4096 * 4096 \<and>
     unat (pagina t) + unat (mapeado t) < 2 ^ 64"
proof -
  let ?d = "origen AND mask 12"
  have d: "unat ?d = unat origen mod 4096"
    by (simp add: unat_and_mask)
  have le: "?d \<le> origen"
    by (simp add: word_and_le2)
  have p: "unat (origen - ?d) = unat origen - unat origen mod 4096"
    by (simp add: unat_diff_small le d)
  have m: "unat ((?d + bytes + mask 12) AND NOT (mask 12))
      = (unat origen mod 4096 + unat bytes + 4095) div 4096 * 4096"
    if "unat origen mod 4096 + unat bytes + 4095 < 2 ^ 64"
  proof -
    have "unat (?d + bytes) = unat ?d + unat bytes"
      using that by (intro unat_add_small) (simp add: d)
    moreover have "unat (mask 12 :: u64) = 4095"
      by (simp add: mask_eq_exp_minus_1)
    ultimately have "unat (?d + bytes + mask 12) = unat origen mod 4096 + unat bytes + 4095"
      using that by (subst unat_add_small) (simp_all add: d)
    then show ?thesis
      by (simp add: unat_and_not_mask minus_mod_eq_div_mult)
  qed
  have "tramo origen bytes = Some t \<longleftrightarrow>
      bytes \<noteq> 0 \<and> unat origen + unat bytes < 2 ^ 64 \<and> unat ?d + unat bytes < 2 ^ 64 \<and>
      unat (?d + bytes) + 4095 < 2 ^ 64 \<and>
      dentro t = ?d \<and> pagina t = origen - ?d \<and>
      mapeado t = (?d + bytes + mask 12) AND NOT (mask 12) \<and>
      unat (pagina t) + unat (mapeado t) < 2 ^ 64"
    unfolding tramo_def
    by (cases t)
      (auto simp: pagina_mask Let_def Option.bind_eq_Some_conv checked_add_Some_iff
        mask_eq_exp_minus_1)
  moreover have "unat ?d + unat bytes < 2 ^ 64 \<Longrightarrow> unat (?d + bytes) = unat ?d + unat bytes"
    by (simp add: unat_add_small)
  ultimately show ?thesis
    using m by (auto simp: d p word_unat_eq_iff)
qed

lemma tramo_Some_iff:
  "tramo origen bytes = Some t \<longleftrightarrow>
     bytes \<noteq> 0 \<and> unat origen + unat bytes < 2 ^ 64 \<and> tramo_exacto origen bytes t"
proof -
  have round: "m = (c + 4095) div 4096 * 4096 \<longleftrightarrow> m mod 4096 = 0 \<and> c \<le> m \<and> m < c + 4096"
    for m c :: nat
    using round_up_iff [of 4096 m c] by (simp add: mod_eq_0_iff_dvd)
  let ?en_pagina = "unat (dentro t) = unat origen mod 4096 \<and>
    unat (pagina t) = unat origen - unat origen mod 4096"
  have part: "4096 dvd unat (pagina t) \<and> unat (dentro t) < 4096 \<and>
      unat origen = unat (pagina t) + unat (dentro t) \<longleftrightarrow> ?en_pagina"
    using page_split_iff [of 4096 "unat (pagina t)" "unat (dentro t)" "unat origen"] by simp
  show ?thesis
  proof (cases ?en_pagina)
    case True
    have "unat origen mod 4096 + unat bytes + 4095 < 2 ^ 64"
      if le: "unat origen mod 4096 + unat bytes \<le> unat (mapeado t)"
        and dvd: "unat (mapeado t) mod 4096 = 0"
    proof -
      obtain q where q: "unat (mapeado t) = 4096 * q"
        using dvd by auto
      then have "4096 * q < 4096 * 2 ^ 52"
        using unat_less_64 [of "mapeado t"] by simp
      then have "q \<le> 2 ^ 52 - 1"
        by simp
      then show ?thesis
        using le q by simp
    qed
    moreover have "unat (pagina t) mod 4096 = 0" "unat (dentro t) < 4096"
      "unat origen = unat (pagina t) + unat (dentro t)"
      using iffD2 [OF part True] by (blast intro: dvd_imp_mod_0)+
    ultimately show ?thesis
      unfolding tramo_nat tramo_exacto_def round using True by metis
  next
    case False
    then show ?thesis
      unfolding tramo_nat tramo_exacto_def mod_eq_0_iff_dvd using part by blast
  qed
qed

text \<open>When it refuses: nothing to lend, or the end of the last page is not a 64-bit number.\<close>

lemma tramo_None_iff:
  "tramo origen bytes = None \<longleftrightarrow>
     bytes = 0 \<or> 2 ^ 64 \<le> (unat origen + unat bytes + 4095) div 4096 * 4096"
proof -
  define d where "d = unat origen mod 4096"
  define b where "b = unat origen - d"
  have o: "unat origen = b + d" and dvd: "4096 dvd b"
    by (simp_all add: b_def d_def dvd_minus_mod)
  have whole: "(unat origen + unat bytes + 4095) div 4096 * 4096
      = b + (d + unat bytes + 4095) div 4096 * 4096"
    using dvd by (simp add: o add.assoc algebra_simps div_plus_div_distrib_dvd_left)
  define m where "m = (d + unat bytes + 4095) div 4096 * 4096"
  have m: "d + unat bytes \<le> m" "m mod 4096 = 0"
    using round_up_page(1) [of "d + unat bytes"] by (simp_all only: m_def mod_mult_self2_is_0)
  have some: "(\<exists>t. tramo origen bytes = Some t) \<longleftrightarrow> bytes \<noteq> 0 \<and> b + m < 2 ^ 64"
  proof
    assume "\<exists>t. tramo origen bytes = Some t"
    then show "bytes \<noteq> 0 \<and> b + m < 2 ^ 64"
      by (auto simp: tramo_nat m_def b_def d_def)
  next
    assume r: "bytes \<noteq> 0 \<and> b + m < 2 ^ 64"
    define t where "t = \<lparr>pagina = word_of_nat b, dentro = word_of_nat d, mapeado = word_of_nat m\<rparr>"
    have "b < 2 ^ LENGTH(64)" "m < 2 ^ LENGTH(64)" "d < 2 ^ LENGTH(64)"
      using r o unat_less_64 [of origen] by simp_all
    then have "unat (pagina t) = b" "unat (mapeado t) = m" "unat (dentro t) = d"
      by (simp_all only: t_def tramo.simps unat_word_of_nat)
    moreover have "d < 4096" "m < d + unat bytes + 4096"
      using round_up_page(2) [of "d + unat bytes"] by (simp_all only: m_def) (simp add: d_def)
    ultimately have "tramo_exacto origen bytes t"
      using r m o dvd unfolding tramo_exacto_def by (simp only: dvd_imp_mod_0)
    then have "tramo origen bytes = Some t"
      using r m o by (simp add: tramo_Some_iff)
    then show "\<exists>t. tramo origen bytes = Some t"
      by blast
  qed
  show ?thesis
    using some by (auto simp: whole m_def not_less)
qed

text \<open>
  C18: the pages of a loan. \<open>tramo\<close> answers exactly when there is something to lend and the end
  of its last page is a 64-bit number; the answer is the page-aligned span that starts at the
  page of \<open>origen\<close>, says how far inside it the first lent byte lies, covers every lent byte, and
  is not one page longer than that.
\<close>

theorem tramo_correcto:
  "(tramo origen bytes = Some t \<longleftrightarrow>
      bytes \<noteq> 0 \<and> unat origen + unat bytes < 2 ^ 64 \<and> tramo_exacto origen bytes t) \<and>
   (tramo origen bytes = None \<longleftrightarrow>
      bytes = 0 \<or> 2 ^ 64 \<le> (unat origen + unat bytes + 4095) div 4096 * 4096)"
  using tramo_Some_iff tramo_None_iff by blast

end
