(* ===== verification/Loan.thy ===== *)
theory Loan
  imports Cap Tramos Planificador Prestamo_Juicio
begin

text \<open>
  \<open>kernel/src/ring0/obj/loan.rs\<close>: a process offers a piece of its memory, another takes it. The
  state is the machine of the scheduler with the capability tables and the 16 offers; the log
  lines are left out.
\<close>

section \<open>Offers\<close>

definition MAX_OFERTAS :: nat where "MAX_OFERTAS = 16"
definition PRESTAMO_VA_BASE :: u64 where "PRESTAMO_VA_BASE = 0x0000000100000000"
definition PRESTAMO_VENTANA :: u64 where "PRESTAMO_VENTANA = 64 * 1024 * 1024"

definition OP_BASE :: u64 where "OP_BASE = 0x01"
definition OP_BYTES :: u64 where "OP_BYTES = 0x02"
definition OP_DUENO :: u64 where "OP_DUENO = 0x03"
definition OP_SOLTAR :: u64 where "OP_SOLTAR = 0x04"

definition OFRECIDO :: u32 where "OFRECIDO = 0"
definition NO_CABE_EN_EL_BLOQUE :: u32 where "NO_CABE_EN_EL_BLOQUE = 1"
definition NO_CABE_EN_LA_VENTANA :: u32 where "NO_CABE_EN_LA_VENTANA = 2"
definition A_MI_MISMO :: u32 where "A_MI_MISMO = 3"
definition SIN_RANURAS :: u32 where "SIN_RANURAS = 4"

record offer =
  o_viva :: bool
  o_owner :: u32
  o_aspace_dueno :: u64
  o_origen :: u64
  o_bytes :: u64
  o_destino :: u32
  o_tomada :: bool
  o_va_destino :: u64
  o_dentro :: u64
  o_huerfana :: bool

definition NOTHING :: offer where
  "NOTHING =
    \<lparr>o_viva = False, o_owner = 0, o_aspace_dueno = 0, o_origen = 0, o_bytes = 0, o_destino = 0,
     o_tomada = False, o_va_destino = 0, o_dentro = 0, o_huerfana = False\<rparr>"

record nucleo = planificador +
  caps :: cap_tables
  ofertas :: "offer list"
  negadas :: u64

definition mapeado_de :: "offer \<Rightarrow> u64" where
  "mapeado_de q = (case tramo (o_dentro q) (o_bytes q) of None \<Rightarrow> 0 | Some t \<Rightarrow> mapeado t)"

definition va_de_ranura :: "nat \<Rightarrow> u64" where
  "va_de_ranura i = PRESTAMO_VA_BASE + of_nat i * PRESTAMO_VENTANA"

fun posicion_oferta :: "(offer \<Rightarrow> bool) \<Rightarrow> offer list \<Rightarrow> nat option" where
  "posicion_oferta p [] = None"
| "posicion_oferta p (q # qs) = (if p q then Some 0 else map_option Suc (posicion_oferta p qs))"

definition resumen :: "'a nucleo_scheme \<Rightarrow> u64" where
  "resumen s =
    (let vivas = filter o_viva (ofertas s) in
     of_nat (length vivas) OR
     push_bit 8 (of_nat (length (filter o_tomada vivas))) OR
     push_bit 16 (of_nat (length (filter o_huerfana vivas))) OR
     push_bit 32 (min (negadas s) 0xFFFFFFFF))"

definition negada :: "u32 \<Rightarrow> 'a nucleo_scheme \<Rightarrow> u32 \<times> 'a nucleo_scheme" where
  "negada motivo s = (motivo, s\<lparr>negadas := negadas s + 1\<rparr>)"

definition offer_loan ::
  "u32 \<Rightarrow> u64 \<Rightarrow> u64 \<Rightarrow> u64 \<Rightarrow> u64 \<Rightarrow> u64 \<Rightarrow> u32 \<Rightarrow> 'a nucleo_scheme \<Rightarrow> u32 \<times> 'a nucleo_scheme" where
  "offer_loan owner aspace base entregado desde bytes destino s =
    (if bytes = 0 \<or> (case checked_add desde bytes of None \<Rightarrow> True | Some f \<Rightarrow> f > entregado)
     then negada NO_CABE_EN_EL_BLOQUE s
     else if \<not> (case tramo (base + desde) bytes of None \<Rightarrow> False
                | Some t \<Rightarrow> cabe_en t PRESTAMO_VENTANA)
     then negada NO_CABE_EN_LA_VENTANA s
     else if destino = owner then negada A_MI_MISMO s
     else case posicion_oferta
            (\<lambda>q. o_viva q \<and> o_owner q = owner \<and> o_destino q = destino \<and> \<not> o_tomada q) (ofertas s) of
       Some i \<Rightarrow>
         (OFRECIDO, s\<lparr>ofertas := (ofertas s)[i := (ofertas s ! i)
            \<lparr>o_origen := base + desde, o_bytes := bytes, o_aspace_dueno := aspace\<rparr>]\<rparr>)
     | None \<Rightarrow>
        (case posicion_oferta (\<lambda>q. \<not> o_viva q) (ofertas s) of
           Some i \<Rightarrow>
             (OFRECIDO, s\<lparr>ofertas := (ofertas s)[i :=
                \<lparr>o_viva = True, o_owner = owner, o_aspace_dueno = aspace, o_origen = base + desde,
                 o_bytes = bytes, o_destino = destino, o_tomada = False, o_va_destino = 0,
                 o_dentro = 0, o_huerfana = False\<rparr>]\<rparr>)
         | None \<Rightarrow> negada SIN_RANURAS s))"

section \<open>Taking\<close>

definition undo_loan :: "u64 \<Rightarrow> u64 \<Rightarrow> u64 \<Rightarrow> 'a nucleo_scheme \<Rightarrow> 'a nucleo_scheme" where
  "undo_loan aspace va hasta s = s\<lparr>vm := desmapea_paginas aspace va (paginas_de hasta) (vm s)\<rparr>"

text \<open>The frame under a page of the lender.\<close>

definition de_dueno :: "u64 \<Rightarrow> u64 \<Rightarrow> vmm_st \<Rightarrow> nat \<Rightarrow> u64 option" where
  "de_dueno dueno pag v k = translate v dueno (desplaza pag k)"

definition take_loan :: "u32 \<Rightarrow> u64 \<Rightarrow> 'a nucleo_scheme \<Rightarrow> u64 option \<times> 'a nucleo_scheme" where
  "take_loan pid aspace s =
    (case posicion_oferta (\<lambda>q. o_viva q \<and> o_destino q = pid \<and> \<not> o_tomada q) (ofertas s) of
       None \<Rightarrow> (None, s)
     | Some i \<Rightarrow>
        let q = ofertas s ! i; va = va_de_ranura i in
        (case tramo (o_origen q) (o_bytes q) of
           None \<Rightarrow> (None, s)
         | Some t \<Rightarrow>
            (case mapea_paginas (de_dueno (o_aspace_dueno q) (pagina t)) aspace va
                    (paginas_de (mapeado t)) (vm s) of
               (Some k, v) \<Rightarrow> (None, undo_loan aspace va (of_nat k * PAGE) (s\<lparr>vm := v\<rparr>))
             | (None, v) \<Rightarrow>
                (case grant pid KIND_PRESTADO (RIGHT_READ OR RIGHT_WRITE) va (caps s) of
                   (None, c) \<Rightarrow> (None, undo_loan aspace va (mapeado t) (s\<lparr>vm := v, caps := c\<rparr>))
                 | (Some h, c) \<Rightarrow>
                     (Some h, s\<lparr>vm := v, caps := c,
                        ofertas := (ofertas s)[i := q\<lparr>o_tomada := True, o_va_destino := va,
                                                     o_dentro := dentro t\<rparr>]\<rparr>)))))"

section \<open>Using and returning\<close>

definition operation_loan ::
  "u64 \<Rightarrow> u64 \<Rightarrow> u32 \<Rightarrow> 'a nucleo_scheme \<Rightarrow> u64 option \<times> 'a nucleo_scheme" where
  "operation_loan base op pid s =
    (case posicion_oferta (\<lambda>q. o_viva q \<and> o_tomada q \<and> o_destino q = pid \<and> o_va_destino q = base)
            (ofertas s) of
       None \<Rightarrow> (None, s)
     | Some i \<Rightarrow>
        let q = ofertas s ! i in
        if op = OP_BASE then (Some (o_va_destino q + o_dentro q), s)
        else if op = OP_BYTES then (Some (o_bytes q), s)
        else if op = OP_DUENO then
          (if o_huerfana q then (Some 0, s)
           else (Some (case tid_de (o_owner q) s of Some t \<Rightarrow> ucast t | None \<Rightarrow> 0), s))
        else if op = OP_SOLTAR then
          let s1 = undo_loan (cr3 s) (o_va_destino q) (mapeado_de q) s;
              s2 = s1\<lparr>ofertas := (ofertas s1)[i := NOTHING]\<rparr>;
              s3 = (case find_cap pid KIND_PRESTADO base (caps s2) of
                      Some h \<Rightarrow> s2\<lparr>caps := snd (revoke pid h (caps s2))\<rparr> | None \<Rightarrow> s2)
          in (Some 1, s3)
        else (None, s))"

definition hay_prestado_en :: "u32 \<Rightarrow> u64 \<Rightarrow> u64 \<Rightarrow> 'a nucleo_scheme \<Rightarrow> bool" where
  "hay_prestado_en pid base bytes s =
    (let fin = saturating_add base bytes in
     list_ex (\<lambda>q. o_viva q \<and> o_owner q = pid \<and> o_tomada q \<and>
                  o_origen q < fin \<and> base < saturating_add (o_origen q) (o_bytes q)) (ofertas s))"

fun process_died_loan :: "u32 \<Rightarrow> u64 \<Rightarrow> nat list \<Rightarrow> 'a nucleo_scheme \<Rightarrow> 'a nucleo_scheme" where
  "process_died_loan pid aspace [] s = s"
| "process_died_loan pid aspace (i # is) s =
    (let q = ofertas s ! i in
     process_died_loan pid aspace is
       (if \<not> o_viva q then s
        else if o_destino q = pid \<and> o_tomada q then
          (undo_loan aspace (o_va_destino q) (mapeado_de q) s)\<lparr>ofertas := (ofertas s)[i := NOTHING]\<rparr>
        else if o_owner q = pid \<and> \<not> o_tomada q then s\<lparr>ofertas := (ofertas s)[i := NOTHING]\<rparr>
        else if o_owner q = pid then s\<lparr>ofertas := (ofertas s)[i := q\<lparr>o_huerfana := True\<rparr>]\<rparr>
        else s))"

definition process_died_prestamo :: "u32 \<Rightarrow> u64 \<Rightarrow> 'a nucleo_scheme \<Rightarrow> 'a nucleo_scheme" where
  "process_died_prestamo pid aspace s = process_died_loan pid aspace [0 ..< length (ofertas s)] s"

end
