(* ===== verification/Prestamo.thy ===== *)
theory Prestamo
  imports Loan
begin

text \<open>
  What a loan is: the borrower sees the lender's bytes, and nothing else of anybody's memory
  changes. The proof puts together the page arithmetic of \<open>bmo-prestamo-juicio\<close>, the runs of
  pages and the capability tables.
\<close>

section \<open>The windows of the loans\<close>

lemma unat_va_de_ranura:
  "i < MAX_OFERTAS \<Longrightarrow> unat (va_de_ranura i) = 0x100000000 + i * 0x4000000"
proof -
  assume i: "i < MAX_OFERTAS"
  then have u: "unat (word_of_nat (i * 0x4000000) :: u64) = i * 0x4000000"
    by (intro unat_word_of_nat) (simp add: MAX_OFERTAS_def)
  have "va_de_ranura i = 0x100000000 + word_of_nat (i * 0x4000000)"
    by (simp add: va_de_ranura_def PRESTAMO_VA_BASE_def PRESTAMO_VENTANA_def)
  moreover have "unat (0x100000000 + word_of_nat (i * 0x4000000) :: u64) = 0x100000000 + i * 0x4000000"
    using i u by (subst unat_add_small) (simp_all add: MAX_OFERTAS_def)
  ultimately show ?thesis
    by (simp only:)
qed

lemma ventana_ranura:
  assumes "i < MAX_OFERTAS" "n \<le> 16384"
  shows "ventana_ok (va_de_ranura i) n"
proof -
  have "0x100000000 + i * 0x4000000 = 4096 * (0x100000 + i * 16384)"
    by simp
  then have "(0x100000000 + i * 0x4000000) mod 4096 = (0 :: nat)"
    by (simp only: mod_mult_self1_is_0)
  then show ?thesis
    using assms unat_va_de_ranura [OF assms(1)]
    by (simp add: ventana_ok_def USER_IMAGE_BASE_def FIN_USUARIO_def MAX_OFERTAS_def)
qed

lemma ranuras_disjuntas:
  assumes "i < MAX_OFERTAS" "j < MAX_OFERTAS" "i \<noteq> j" "a < 0x4000000" "b < 0x4000000"
  shows "unat (va_de_ranura i) + a \<noteq> unat (va_de_ranura j) + b"
proof -
  have "i * 0x4000000 + a = j * 0x4000000 + b \<Longrightarrow> (i * 0x4000000 + a) div 0x4000000 = (j * 0x4000000 + b) div 0x4000000"
    by simp
  then show ?thesis
    using assms by (auto simp: unat_va_de_ranura)
qed

section \<open>Taking\<close>

lemma posicion_oferta_Some:
  "posicion_oferta p qs = Some i \<Longrightarrow> i < length qs \<and> p (qs ! i) \<and> (\<forall>j < i. \<not> p (qs ! j))"
  by (induction qs arbitrary: i) (auto split: if_splits simp: less_Suc_eq_0_disj)

lemma posicion_oferta_None: "posicion_oferta p qs = None \<longleftrightarrow> (\<forall>q \<in> set qs. \<not> p q)"
  by (induction qs) auto

lemma de_dueno_ok:
  assumes m: "mundo_ok R v" "dueno \<in> R" "aspace \<noteq> dueno" and w: "ventana_ok pag n"
  shows "fuente_ok (de_dueno dueno pag) R aspace va n v"
  unfolding fuente_ok_def de_dueno_def
proof (intro conjI allI impI)
  show "unat f < 2 ^ 52" if "k < n" "translate v dueno (desplaza pag k) = Some f" for k f
    using translate_52 [OF m(1,2) desplaza_usuario(1) [OF w that(1)] that(2)] .
  show "translate v' dueno (desplaza pag k) = translate v dueno (desplaza pag k)"
    if "iguales_fuera R aspace va {..<n} v v'" "k < n" for v' k
    using iguales_fueraD [OF that(1) m(2) desplaza_usuario(1) [OF w that(2)]] m(3)
    by (simp add: es_de_def)
qed

lemma paginas_de_tramo:
  assumes "tramo origen bytes = Some t" "cabe_en t PRESTAMO_VENTANA"
  shows "paginas_de (mapeado t) = [0 ..< unat (mapeado t) div 4096]" "unat (mapeado t) div 4096 \<le> 16384"
proof -
  have "unat (mapeado t) mod 4096 = 0"
    using assms(1) by (simp add: tramo_Some_iff tramo_exacto_def)
  then obtain q where "unat (mapeado t) = 4096 * q"
    by auto
  then have "(unat (mapeado t) + 4095) div 4096 = unat (mapeado t) div 4096"
    by simp
  then show "paginas_de (mapeado t) = [0 ..< unat (mapeado t) div 4096]"
    by (simp add: paginas_de_def)
  have "unat (mapeado t) \<le> 0x4000000"
    using assms(2) by (simp add: cabe_en_def PRESTAMO_VENTANA_def word_le_nat_alt)
  then show "unat (mapeado t) div 4096 \<le> 16384"
    by simp
qed

text \<open>A taken offer is mapped in the window of its own slot.\<close>

definition ofertas_ok :: "'a nucleo_scheme \<Rightarrow> bool" where
  "ofertas_ok s \<longleftrightarrow> length (ofertas s) = MAX_OFERTAS \<and>
     (\<forall>i < MAX_OFERTAS. o_viva (ofertas s ! i) \<longrightarrow> o_tomada (ofertas s ! i) \<longrightarrow>
        o_va_destino (ofertas s ! i) = va_de_ranura i)"

lemma ofertas_okD:
  assumes "ofertas_ok s"
  shows "length (ofertas s) = MAX_OFERTAS"
    "i < MAX_OFERTAS \<Longrightarrow> o_viva (ofertas s ! i) \<Longrightarrow> o_tomada (ofertas s ! i) \<Longrightarrow>
      o_va_destino (ofertas s ! i) = va_de_ranura i"
  using assms by (simp_all add: ofertas_ok_def)

lemma va_de_ranura_inj: "i < MAX_OFERTAS \<Longrightarrow> j < MAX_OFERTAS \<Longrightarrow> va_de_ranura i = va_de_ranura j \<Longrightarrow> i = j"
  using ranuras_disjuntas [of i j 0 0] by fastforce

text \<open>The offer \<open>take\<close> goes for, and what makes it takeable: its span fits the window and lies in the
  user half of the lender.\<close>

definition oferta_para :: "u32 \<Rightarrow> 'a nucleo_scheme \<Rightarrow> nat option" where
  "oferta_para pid s = posicion_oferta (\<lambda>q. o_viva q \<and> o_destino q = pid \<and> \<not> o_tomada q) (ofertas s)"

definition prestable :: "u64 set \<Rightarrow> u64 \<Rightarrow> offer \<Rightarrow> tramo \<Rightarrow> bool" where
  "prestable R aspace q t \<longleftrightarrow> tramo (o_origen q) (o_bytes q) = Some t \<and> cabe_en t PRESTAMO_VENTANA \<and>
     en_usuario (o_origen q) \<and> unat (o_origen q) + unat (o_bytes q) + 4096 \<le> FIN_USUARIO \<and>
     aspace \<in> R \<and> o_aspace_dueno q \<in> R \<and> aspace \<noteq> o_aspace_dueno q"

abbreviation n_paginas :: "tramo \<Rightarrow> nat" where
  "n_paginas t \<equiv> unat (mapeado t) div 4096"

lemma ventana_dueno:
  assumes "prestable R aspace q t"
  shows "ventana_ok (pagina t) (n_paginas t)"
proof -
  have x: "tramo_exacto (o_origen q) (o_bytes q) t"
    using assms by (simp add: prestable_def tramo_Some_iff)
  have "unat (o_origen q) = unat (pagina t) + unat (dentro t)" "unat (dentro t) < 4096"
    "unat (pagina t) mod 4096 = 0" "unat (mapeado t) mod 4096 = 0"
    "unat (mapeado t) < unat (dentro t) + unat (o_bytes q) + 4096"
    using x by (simp_all add: tramo_exacto_def)
  moreover have "0x40000000 \<le> unat (o_origen q)" "unat (o_origen q) + unat (o_bytes q) + 4096 \<le> FIN_USUARIO"
    using assms by (simp_all add: prestable_def en_usuario_def USER_IMAGE_BASE_def)
  moreover have "0x40000000 \<le> unat (pagina t)"
  proof -
    obtain p where p: "unat (pagina t) = 4096 * p"
      using \<open>unat (pagina t) mod 4096 = 0\<close> by auto
    have "4096 * 0x40000 < 4096 * (p + 1)"
      using calculation p by simp
    then show ?thesis
      unfolding p by simp
  qed
  ultimately show ?thesis
    unfolding ventana_ok_def USER_IMAGE_BASE_def by (simp add: minus_mod_eq_div_mult [symmetric])
qed

lemma mapea_prestamo:
  assumes m: "mundo_ok R (vm s)" and p: "prestable R aspace q t" and i: "i < MAX_OFERTAS"
    and r: "mapea_paginas (de_dueno (o_aspace_dueno q) (pagina t)) aspace (va_de_ranura i)
      (paginas_de (mapeado t)) (vm s) = (res, v)"
  shows "mundo_ok R v"
    "res = None \<Longrightarrow> iguales_fuera R aspace (va_de_ranura i) {..< n_paginas t} (vm s) v"
    "res = None \<Longrightarrow> k < n_paginas t \<Longrightarrow>
      translate v aspace (desplaza (va_de_ranura i) k)
        = translate (vm s) (o_aspace_dueno q) (desplaza (pagina t) k) \<and>
      translate (vm s) (o_aspace_dueno q) (desplaza (pagina t) k) \<noteq> None"
    "res = Some j \<Longrightarrow> j < n_paginas t \<and> iguales_fuera R aspace (va_de_ranura i) {..<j} (vm s) v"
proof -
  have t: "tramo (o_origen q) (o_bytes q) = Some t" "cabe_en t PRESTAMO_VENTANA" "aspace \<in> R"
    "o_aspace_dueno q \<in> R" "aspace \<noteq> o_aspace_dueno q"
    using p by (simp_all add: prestable_def)
  note n = paginas_de_tramo [OF t(1,2)]
  note w = ventana_ranura [OF i n(2)]
  have tw: "set (takeWhile (\<lambda>k. k \<noteq> j) [0 ..< n_paginas t]) = {..<j}" if "j < n_paginas t" for j
  proof -
    have "takeWhile (\<lambda>k. k \<noteq> j) ([0 ..< j] @ [j ..< n_paginas t]) = [0 ..< j]"
      using that by (subst takeWhile_append2) (auto simp: upt_conv_Cons)
    moreover have "[0 ..< j] @ [j ..< n_paginas t] = [0 ..< n_paginas t]"
      using that upt_add_eq_append [of 0 j "n_paginas t - j"] by simp
    ultimately show ?thesis
      by (simp add: lessThan_atLeast0)
  qed
  have "mundo_ok R v \<and> (case res of
      None \<Rightarrow> iguales_fuera R aspace (va_de_ranura i) {..< n_paginas t} (vm s) v \<and>
        (\<forall>k < n_paginas t. \<exists>f. translate (vm s) (o_aspace_dueno q) (desplaza (pagina t) k) = Some f \<and>
           translate v aspace (desplaza (va_de_ranura i) k) = Some f)
    | Some j \<Rightarrow> j < n_paginas t \<and> iguales_fuera R aspace (va_de_ranura i) {..<j} (vm s) v)"
    using mapea_paginas_mundo [OF m t(3) w de_dueno_ok [OF m t(4,5) ventana_dueno [OF p], of "va_de_ranura i"],
        of "[0 ..< n_paginas t]"] r tw
    by (auto simp: n(1) de_dueno_def lessThan_atLeast0 split: option.splits)
  then show "mundo_ok R v"
    "res = None \<Longrightarrow> iguales_fuera R aspace (va_de_ranura i) {..< n_paginas t} (vm s) v"
    "res = None \<Longrightarrow> k < n_paginas t \<Longrightarrow>
      translate v aspace (desplaza (va_de_ranura i) k)
        = translate (vm s) (o_aspace_dueno q) (desplaza (pagina t) k) \<and>
      translate (vm s) (o_aspace_dueno q) (desplaza (pagina t) k) \<noteq> None"
    "res = Some j \<Longrightarrow> j < n_paginas t \<and> iguales_fuera R aspace (va_de_ranura i) {..<j} (vm s) v"
    by (auto split: option.splits)
qed

lemma take_loan_Some:
  assumes "take_loan pid aspace s = (Some h, s')" "oferta_para pid s = Some i"
    "prestable R aspace (ofertas s ! i) t"
  obtains v c where "mapea_paginas (de_dueno (o_aspace_dueno (ofertas s ! i)) (pagina t)) aspace
      (va_de_ranura i) (paginas_de (mapeado t)) (vm s) = (None, v)"
    "grant pid KIND_PRESTADO (RIGHT_READ OR RIGHT_WRITE) (va_de_ranura i) (caps s) = (Some h, c)"
    "s' = s\<lparr>vm := v, caps := c, ofertas := (ofertas s)[i := (ofertas s ! i)
       \<lparr>o_tomada := True, o_va_destino := va_de_ranura i, o_dentro := dentro t\<rparr>]\<rparr>"
  using assms unfolding take_loan_def oferta_para_def prestable_def
  by (auto simp: Let_def split: option.splits prod.splits)

lemma byte_prestado:
  assumes m: "mundo_ok R (vm s)" and p: "prestable R aspace q t" and i: "i < MAX_OFERTAS"
    and r: "mapea_paginas (de_dueno (o_aspace_dueno q) (pagina t)) aspace (va_de_ranura i)
      (paginas_de (mapeado t)) (vm s) = (None, v)"
    and k: "k < unat (o_bytes q)"
  shows "fisica_exacta v aspace (va_de_ranura i + dentro t + of_nat k)
      = fisica_exacta (vm s) (o_aspace_dueno q) (o_origen q + of_nat k) \<and>
    fisica_exacta v aspace (va_de_ranura i + dentro t + of_nat k) \<noteq> None"
proof -
  have t: "tramo (o_origen q) (o_bytes q) = Some t" "cabe_en t PRESTAMO_VENTANA" "aspace \<in> R"
    "o_aspace_dueno q \<in> R"
    using p by (simp_all add: prestable_def)
  note n = paginas_de_tramo [OF t(1,2)]
  note mp = mapea_prestamo [OF m p i r]
  have x: "tramo_exacto (o_origen q) (o_bytes q) t"
    using t(1) by (simp add: tramo_Some_iff)
  define c where "c = unat (dentro t) + k"
  have "c < unat (mapeado t)" "unat (mapeado t) mod 4096 = 0"
    using x k by (simp_all add: tramo_exacto_def c_def)
  then have "c < n_paginas t * 4096"
    using div_mult_mod_eq [of "unat (mapeado t)" 4096] by linarith
  then have j: "c div 4096 < n_paginas t"
    by (rule less_mult_imp_div_less)
  have oc: "(of_nat c :: u64) = dentro t + of_nat k"
    by (simp add: c_def)
  have ol: "o_origen q = pagina t + dentro t"
    using x by (simp add: tramo_exacto_def word_unat_eq_iff unat_word_ariths)
  have "va_de_ranura i + dentro t + of_nat k = va_de_ranura i + of_nat c"
    by (simp add: oc add.assoc)
  then have d1: "va_de_ranura i + dentro t + of_nat k
      = desplaza (va_de_ranura i) (c div 4096) + of_nat (c mod 4096)"
    by (rule trans [OF _ parte_desplazamiento])
  have "o_origen q + of_nat k = pagina t + of_nat c"
    by (simp add: oc ol add.assoc)
  then have d2: "o_origen q + of_nat k = desplaza (pagina t) (c div 4096) + of_nat (c mod 4096)"
    by (rule trans [OF _ parte_desplazamiento])
  show ?thesis
    unfolding d1 d2
    using byte_de_pagina [OF mp(1) t(3) ventana_ranura [OF i n(2)] j, of "c mod 4096"]
      byte_de_pagina [OF m t(4) ventana_dueno [OF p] j, of "c mod 4096"] mp(3) [OF refl j]
    by simp
qed

lemma take_tomada:
  assumes "ofertas_ok s" "oferta_para pid s = Some i"
    and s': "s' = s\<lparr>vm := v, caps := c, ofertas := (ofertas s)[i := (ofertas s ! i)
       \<lparr>o_tomada := True, o_va_destino := va_de_ranura i, o_dentro := d\<rparr>]\<rparr>"
  shows "ofertas_ok s'"
    "operation_loan (va_de_ranura i) OP_BASE pid s' = (Some (va_de_ranura i + d), s')"
proof -
  let ?q = "ofertas s ! i"
  let ?p = "\<lambda>q. o_viva q \<and> o_tomada q \<and> o_destino q = pid \<and> o_va_destino q = va_de_ranura i"
  have i: "i < MAX_OFERTAS" "o_viva ?q" "o_destino ?q = pid"
    using posicion_oferta_Some [OF assms(2) [unfolded oferta_para_def]] ofertas_okD(1) [OF assms(1)] by simp_all
  have of': "ofertas s' ! j = (if j = i then ?q\<lparr>o_tomada := True, o_va_destino := va_de_ranura i, o_dentro := d\<rparr>
      else ofertas s ! j)" if "j < MAX_OFERTAS" for j
    using that i(1) ofertas_okD(1) [OF assms(1)] by (auto simp: s' nth_list_update)
  show ok': "ofertas_ok s'"
    using ofertas_okD [OF assms(1)] of' by (auto simp: ofertas_ok_def) (simp add: s')
  have "posicion_oferta ?p (ofertas s') = Some i"
  proof (cases "posicion_oferta ?p (ofertas s')")
    case None
    have "ofertas s' ! i \<in> set (ofertas s')"
      using i(1) ofertas_okD(1) [OF ok'] by (intro nth_mem) simp
    then show ?thesis
      using None i of' [OF i(1)] unfolding posicion_oferta_None by fastforce
  next
    case (Some j)
    have j: "j < MAX_OFERTAS" "o_viva (ofertas s' ! j)" "o_tomada (ofertas s' ! j)"
      "o_va_destino (ofertas s' ! j) = va_de_ranura i"
      using posicion_oferta_Some [OF Some] ofertas_okD(1) [OF ok'] by auto
    then have "va_de_ranura j = va_de_ranura i"
      using ofertas_okD(2) [OF ok'] by metis
    then show ?thesis
      using Some va_de_ranura_inj [OF j(1) i(1)] by simp
  qed
  then show "operation_loan (va_de_ranura i) OP_BASE pid s' = (Some (va_de_ranura i + d), s')"
    using of' [OF i(1)] by (simp add: operation_loan_def OP_BASE_def Let_def)
qed

text \<open>
  C2: the borrower reads the lender's bytes. When \<open>take\<close> succeeds, \<open>OP_BASE\<close> of the new handle's
  window answers an address from which each of the lent bytes is, in the borrower's space, the
  same physical byte as in the lender's; and no user page of any space changes its translation
  but the pages of that window of the borrower.
\<close>

theorem prestamo_bytes:
  assumes "mundo_ok R (vm s)" "ofertas_ok s" "oferta_para pid s = Some i"
    and "prestable R aspace (ofertas s ! i) t" "take_loan pid aspace s = (Some h, s')"
  shows "(\<exists>base. operation_loan (va_de_ranura i) OP_BASE pid s' = (Some base, s') \<and>
      (\<forall>k < unat (o_bytes (ofertas s ! i)).
         fisica_exacta (vm s') aspace (base + of_nat k)
           = fisica_exacta (vm s) (o_aspace_dueno (ofertas s ! i)) (o_origen (ofertas s ! i) + of_nat k) \<and>
         fisica_exacta (vm s') aspace (base + of_nat k) \<noteq> None)) \<and>
    (\<forall>r \<in> R. \<forall>va. en_usuario va \<longrightarrow>
      \<not> (r = aspace \<and> unat (va_de_ranura i) \<le> unat va \<and> unat va < unat (va_de_ranura i) + 0x4000000) \<longrightarrow>
      translate (vm s') r va = translate (vm s) r va) \<and>
    mundo_ok R (vm s') \<and> ofertas_ok s'"
proof -
  let ?q = "ofertas s ! i"
  have i: "i < MAX_OFERTAS" "o_viva ?q" "o_destino ?q = pid" "\<not> o_tomada ?q"
    using posicion_oferta_Some [OF assms(3) [unfolded oferta_para_def]] ofertas_okD(1) [OF assms(2)] by simp_all
  from take_loan_Some [OF assms(5,3,4)] obtain v c where
    r: "mapea_paginas (de_dueno (o_aspace_dueno ?q) (pagina t)) aspace (va_de_ranura i)
      (paginas_de (mapeado t)) (vm s) = (None, v)"
    and s': "s' = s\<lparr>vm := v, caps := c, ofertas := (ofertas s)[i := ?q
       \<lparr>o_tomada := True, o_va_destino := va_de_ranura i, o_dentro := dentro t\<rparr>]\<rparr>"
    by metis
  have vm': "vm s' = v"
    by (simp add: s')
  note mp = mapea_prestamo [OF assms(1,4) i(1) r]
  note tp = take_tomada [OF assms(2,3) s']
  have 3: "mundo_ok R (vm s') \<and> ofertas_ok s'"
    using mp(1) tp(1) by (simp add: s')
  have "fisica_exacta (vm s') aspace (va_de_ranura i + dentro t + of_nat k)
        = fisica_exacta (vm s) (o_aspace_dueno ?q) (o_origen ?q + of_nat k) \<and>
      fisica_exacta (vm s') aspace (va_de_ranura i + dentro t + of_nat k) \<noteq> None"
    if "k < unat (o_bytes ?q)" for k
    unfolding vm' by (rule byte_prestado [OF assms(1,4) i(1) r that])
  then have 1: "\<exists>base. operation_loan (va_de_ranura i) OP_BASE pid s' = (Some base, s') \<and>
      (\<forall>k < unat (o_bytes (ofertas s ! i)).
         fisica_exacta (vm s') aspace (base + of_nat k)
           = fisica_exacta (vm s) (o_aspace_dueno (ofertas s ! i)) (o_origen (ofertas s ! i) + of_nat k) \<and>
         fisica_exacta (vm s') aspace (base + of_nat k) \<noteq> None)"
    using tp(2) by blast
  have n: "n_paginas t \<le> 16384"
    using assms(4) paginas_de_tramo(2) by (auto simp: prestable_def)
  have 2: "\<forall>r \<in> R. \<forall>va. en_usuario va \<longrightarrow>
      \<not> (r = aspace \<and> unat (va_de_ranura i) \<le> unat va \<and> unat va < unat (va_de_ranura i) + 0x4000000) \<longrightarrow>
      translate (vm s') r va = translate (vm s) r va"
  proof (intro ballI allI impI)
    fix r va
    assume a: "r \<in> R" "en_usuario va" "\<not> (r = aspace \<and> unat (va_de_ranura i) \<le> unat va \<and>
      unat va < unat (va_de_ranura i) + 0x4000000)"
    then have "\<not> (r = aspace \<and> unat (va_de_ranura i) \<le> unat va \<and>
        unat va < unat (va_de_ranura i) + n_paginas t * 4096)"
      using n by auto
    then show "translate (vm s') r va = translate (vm s) r va"
      using iguales_fuera_ventana [OF mp(2) [OF refl] ventana_ranura [OF i(1) n] a(1,2)] by (simp add: s')
  qed
  show ?thesis
    using 1 2 3 by blast
qed

text \<open>Two programs: the first has a page, and has offered 256 bytes of it to the second.\<close>

definition raiz_dos :: u64 where "raiz_dos = the (fst (new_address_space 0 con_espacio))"
definition dos_espacios :: vmm_st where "dos_espacios = snd (new_address_space 0 con_espacio)"

definition con_prestable :: vmm_st where
  "con_prestable = snd (map_page raiz_prueba 0x40000000 0x300000 True True dos_espacios)"

definition nucleo_prueba :: nucleo where
  "nucleo_prueba =
    \<lparr>vm = con_prestable, tasks = [], current = 0, next_tid = 1, idle = 0, morgue = [], morgue_n = 0,
     tsc_freq = 0, trap_rsp = 0, syscall_stack_top = 0, tss_rsp0 = 0, cr3 = raiz_dos,
     user_switches = 0, latidos = 0, caps = cap_inicial,
     ofertas = NOTHING\<lparr>o_viva := True, o_owner := 1, o_aspace_dueno := raiz_prueba,
         o_origen := 0x40000010, o_bytes := 0x100, o_destino := 2\<rparr> # replicate 15 NOTHING,
     negadas = 0\<rparr>"

lemma dos_espacios_eq:
  "raiz_dos \<noteq> raiz_prueba" "mundo_ok {raiz_dos, raiz_prueba} dos_espacios"
  "60 \<le> card (libres_de (fisico dos_espacios))"
proof -
  have "raiz_dos \<noteq> raiz_prueba \<and> mundo_ok {raiz_dos, raiz_prueba} dos_espacios \<and>
    60 \<le> card (libres_de (fisico dos_espacios))"
    using con_espacio_eq(2)
  proof (cases rule: new_address_space_cases [where tick = 0, consumes 1, case_names falla nuevo])
    case (nuevo s' r)
    have "mundo_ok (insert r {raiz_prueba}) s'"
      using nuevo_mundo [OF con_espacio_mundo, of 0] nuevo(1) by simp
    then show ?thesis
      using nuevo con_espacio_eq(5) by (simp add: raiz_dos_def dos_espacios_def)
  qed (use con_espacio_eq(5) in simp)
  then show "raiz_dos \<noteq> raiz_prueba" "mundo_ok {raiz_dos, raiz_prueba} dos_espacios"
    "60 \<le> card (libres_de (fisico dos_espacios))"
    by blast+
qed

lemma con_prestable_eq:
  "mundo_ok {raiz_dos, raiz_prueba} con_prestable"
  "translate con_prestable raiz_prueba 0x40000000 = Some 0x300000"
  "57 \<le> card (libres_de (fisico con_prestable))"
proof -
  note m = dos_espacios_eq(2)
  have v: "ventana_ok 0x40000000 1"
    by (simp add: ventana_ok_def USER_IMAGE_BASE_def FIN_USUARIO_def)
  have h: "fst (map_page raiz_prueba 0x40000000 0x300000 True True dos_espacios)"
    unfolding map_page_def using mundo_okD [OF m] dos_espacios_eq(3) en_usuario_va [OF en_usuario_prueba]
    by (intro map_page_tipo_cabe [where R = "{raiz_dos, raiz_prueba}"]) (simp_all add: PAGE_def)
  have d: "desplaza 0x40000000 0 = 0x40000000"
    by (simp add: desplaza_def)
  note p = map_page_mundo [OF m _ v, of raiz_prueba 0 "0x300000", unfolded d]
  show "mundo_ok {raiz_dos, raiz_prueba} con_prestable"
    "translate con_prestable raiz_prueba 0x40000000 = Some 0x300000"
    unfolding con_prestable_def using p(1,2) h by simp_all
  show "57 \<le> card (libres_de (fisico con_prestable))"
    unfolding con_prestable_def
    using map_page_gasta(3) [OF espacios_okD(1) [OF mundo_okD(1) [OF m]], of raiz_prueba "0x40000000"
        "0x300000" True True] dos_espacios_eq(3) by linarith
qed

text \<open>The second program takes the loan.\<close>

lemma tramo_prueba_eq:
  "tramo 0x40000010 0x100 = Some \<lparr>pagina = 0x40000000, dentro = 0x10, mapeado = 0x1000\<rparr>"
  by (simp add: tramo_def PAGINA_def checked_add_def Let_def)

lemma nucleo_prueba_ofertas:
  "oferta_para 2 nucleo_prueba = Some 0"
  "ofertas_ok nucleo_prueba"
proof -
  show "oferta_para 2 nucleo_prueba = Some 0"
    by (simp add: oferta_para_def nucleo_prueba_def NOTHING_def)
  have "\<not> (o_viva (ofertas nucleo_prueba ! i) \<and> o_tomada (ofertas nucleo_prueba ! i))" if "i < MAX_OFERTAS" for i
    using that by (cases i) (simp_all add: nucleo_prueba_def NOTHING_def MAX_OFERTAS_def)
  then show "ofertas_ok nucleo_prueba"
    by (auto simp: ofertas_ok_def) (simp add: nucleo_prueba_def MAX_OFERTAS_def)
qed

lemma nucleo_prueba_prestable:
  "prestable {raiz_dos, raiz_prueba} raiz_dos (ofertas nucleo_prueba ! 0)
     \<lparr>pagina = 0x40000000, dentro = 0x10, mapeado = 0x1000\<rparr>"
  using dos_espacios_eq(1) tramo_prueba_eq
  by (simp add: prestable_def nucleo_prueba_def en_usuario_def FIN_USUARIO_def USER_IMAGE_BASE_def
      cabe_en_def PRESTAMO_VENTANA_def)

lemma nucleo_prueba_toma:
  "\<exists>h s'. take_loan 2 raiz_dos nucleo_prueba = (Some h, s')"
proof -
  have d: "desplaza 0x40000000 0 = 0x40000000" "desplaza (va_de_ranura 0) 0 = va_de_ranura 0"
    by (simp_all add: desplaza_def)
  have "en_usuario (va_de_ranura 0)" "va_de_ranura 0 mod PAGE = 0"
    using desplaza_usuario [OF ventana_ranura [of 0 1]] d(2) by (simp_all add: MAX_OFERTAS_def)
  then have "fst (map_page raiz_dos (va_de_ranura 0) 0x300000 True True con_prestable)"
    unfolding map_page_def using mundo_okD [OF con_prestable_eq(1)] con_prestable_eq(3) en_usuario_va
    by (intro map_page_tipo_cabe [where R = "{raiz_dos, raiz_prueba}"]) (simp_all add: PAGE_def)
  then obtain v where "map_page raiz_dos (va_de_ranura 0) 0x300000 True True con_prestable = (True, v)"
    by (cases "map_page raiz_dos (va_de_ranura 0) 0x300000 True True con_prestable") auto
  moreover have "paginas_de 0x1000 = [0]"
    by (simp add: paginas_de_def)
  ultimately have "mapea_paginas (de_dueno raiz_prueba 0x40000000) raiz_dos (va_de_ranura 0)
      (paginas_de 0x1000) con_prestable = (None, v)"
    using con_prestable_eq(2) d by (simp add: de_dueno_def)
  moreover have "\<exists>h c. grant 2 KIND_PRESTADO (RIGHT_READ OR RIGHT_WRITE) (va_de_ranura 0) cap_inicial = (Some h, c)"
    using grant_inicial [of 2 KIND_PRESTADO "RIGHT_READ OR RIGHT_WRITE" "va_de_ranura 0"]
    by (simp add: MAX_PROCS_def)
  ultimately show ?thesis
    using nucleo_prueba_ofertas(1) tramo_prueba_eq unfolding oferta_para_def
    by (auto simp: take_loan_def Let_def) (auto simp: nucleo_prueba_def)
qed

theorem prestamo_bytes_witness:
  "\<exists>h s'. take_loan 2 raiz_dos nucleo_prueba = (Some h, s') \<and>
     (\<exists>base. operation_loan (va_de_ranura 0) OP_BASE 2 s' = (Some base, s') \<and>
       fisica_exacta (vm s') raiz_dos (base + of_nat 7)
         = fisica_exacta con_prestable raiz_prueba (0x40000010 + of_nat 7))"
proof -
  from nucleo_prueba_toma obtain h s' where t: "take_loan 2 raiz_dos nucleo_prueba = (Some h, s')"
    by blast
  have q: "vm nucleo_prueba = con_prestable" "unat (o_bytes (ofertas nucleo_prueba ! 0)) = 0x100"
    "o_aspace_dueno (ofertas nucleo_prueba ! 0) = raiz_prueba" "o_origen (ofertas nucleo_prueba ! 0) = 0x40000010"
    by (simp_all add: nucleo_prueba_def)
  note p = prestamo_bytes [OF _ nucleo_prueba_ofertas(2,1) nucleo_prueba_prestable t, unfolded q, OF con_prestable_eq(1)]
  from conjunct1 [OF p] obtain base where b: "operation_loan (va_de_ranura 0) OP_BASE 2 s' = (Some base, s')"
    "\<forall>k < 0x100. fisica_exacta (vm s') raiz_dos (base + of_nat k)
       = fisica_exacta con_prestable raiz_prueba (0x40000010 + of_nat k) \<and>
       fisica_exacta (vm s') raiz_dos (base + of_nat k) \<noteq> None"
    by blast
  have "fisica_exacta (vm s') raiz_dos (base + of_nat 7)
         = fisica_exacta con_prestable raiz_prueba (0x40000010 + of_nat 7)"
    using b(2) by (elim allE [of _ 7]) simp
  then show ?thesis
    using t b(1) by blast
qed

end
