(* ===== verification/Memory.thy ===== *)
theory Memory
  imports Loan
begin

text \<open>
  \<open>kernel/src/ring0/obj/memory.rs\<close>: a process asks for memory and gets a contiguous block mapped in
  its space. The state is the one of the loans with the 16 accounts of the processes and the
  total handed over; the log lines are left out.
\<close>

section \<open>Accounts\<close>

definition MAX_BYTES :: u64 where "MAX_BYTES = 64 * 1024 * 1024"
definition MAX_PETICIONES :: nat where "MAX_PETICIONES = 4"
definition MEM_OP_BASE :: u64 where "MEM_OP_BASE = 0x01"
definition MEM_OP_BYTES :: u64 where "MEM_OP_BYTES = 0x02"
definition MEM_OP_FISICA :: u64 where "MEM_OP_FISICA = 0x04"
definition ERROR_TOO_BIG :: u32 where "ERROR_TOO_BIG = 0xE001"
definition ERROR_NO_RAM :: u32 where "ERROR_NO_RAM = 0xE002"
definition ERROR_TOO_MANY :: u32 where "ERROR_TOO_MANY = 0xE003"
definition ERROR_NO_SLOT :: u32 where "ERROR_NO_SLOT = 0xE004"
definition MAX_CUENTAS :: nat where "MAX_CUENTAS = 16"

record bloque =
  b_base :: u64
  b_fisica :: u64
  b_bytes :: u64

definition SIN_BLOQUE :: bloque where
  "SIN_BLOQUE = \<lparr>b_base = 0, b_fisica = 0, b_bytes = 0\<rparr>"

record cuenta_mem =
  c_pid :: u32
  c_cursor :: u64
  c_peticiones :: nat
  c_entregados :: u64
  c_bloques :: "bloque list"

definition CUENTA_LIBRE :: cuenta_mem where
  "CUENTA_LIBRE =
    \<lparr>c_pid = 0, c_cursor = 0, c_peticiones = 0, c_entregados = 0,
     c_bloques = replicate MAX_PETICIONES SIN_BLOQUE\<rparr>"

record nucleo_mem = nucleo +
  cuentas :: "cuenta_mem list"
  total_mem :: u64

definition pon_cuenta :: "nat \<Rightarrow> (cuenta_mem \<Rightarrow> cuenta_mem) \<Rightarrow> 'a nucleo_mem_scheme \<Rightarrow> 'a nucleo_mem_scheme" where
  "pon_cuenta i f s = s\<lparr>cuentas := (cuentas s)[i := f (cuentas s ! i)]\<rparr>"

fun posicion_cuenta :: "u32 \<Rightarrow> cuenta_mem list \<Rightarrow> nat option" where
  "posicion_cuenta pid [] = None"
| "posicion_cuenta pid (c # cs) =
    (if c_pid c = pid then Some 0 else map_option Suc (posicion_cuenta pid cs))"

definition slot_mem :: "u32 \<Rightarrow> 'a nucleo_mem_scheme \<Rightarrow> nat option" where
  "slot_mem pid s = (if pid = 0 then None else posicion_cuenta pid (cuentas s))"

definition slot_or_new :: "u32 \<Rightarrow> 'a nucleo_mem_scheme \<Rightarrow> nat option \<times> 'a nucleo_mem_scheme" where
  "slot_or_new pid s =
    (if pid = 0 then (None, s)
     else case slot_mem pid s of
       Some i \<Rightarrow> (Some i, s)
     | None \<Rightarrow>
        (case posicion_cuenta 0 (cuentas s) of
           None \<Rightarrow> (None, s)
         | Some i \<Rightarrow> (Some i, pon_cuenta i (\<lambda>_. CUENTA_LIBRE\<lparr>c_pid := pid\<rparr>) s)))"

section \<open>Reading\<close>

text \<open>The frames of a block, as \<open>titular_de_fisica\<close> looks for them.\<close>

definition en_bloque :: "u64 \<Rightarrow> bloque \<Rightarrow> bool" where
  "en_bloque fisica b \<longleftrightarrow> b_base b \<noteq> 0 \<and> b_bytes b \<noteq> 0 \<and> fisica \<ge> b_fisica b \<and> fisica < b_fisica b + b_bytes b"

fun titular_de_fisica_en :: "u64 \<Rightarrow> cuenta_mem list \<Rightarrow> (u32 \<times> u64) option" where
  "titular_de_fisica_en fisica [] = None"
| "titular_de_fisica_en fisica (c # cs) =
    (if c_pid c = 0 then titular_de_fisica_en fisica cs
     else case find (en_bloque fisica) (c_bloques c) of
       Some b \<Rightarrow> Some (c_pid c, fisica - b_fisica b)
     | None \<Rightarrow> titular_de_fisica_en fisica cs)"

definition titular_de_fisica :: "u64 \<Rightarrow> 'a nucleo_mem_scheme \<Rightarrow> (u32 \<times> u64) option" where
  "titular_de_fisica fisica s = titular_de_fisica_en fisica (cuentas s)"

definition handed_over_by :: "u32 \<Rightarrow> 'a nucleo_mem_scheme \<Rightarrow> u64" where
  "handed_over_by pid s = (case slot_mem pid s of Some i \<Rightarrow> c_entregados (cuentas s ! i) | None \<Rightarrow> 0)"

definition processes_with_memory :: "'a nucleo_mem_scheme \<Rightarrow> nat" where
  "processes_with_memory s = length (filter (\<lambda>c. c_pid c \<noteq> 0) (cuentas s))"

definition ranura :: "nat \<Rightarrow> 'a nucleo_mem_scheme \<Rightarrow> (u32 \<times> u64 \<times> nat) option" where
  "ranura n s =
    (let vivas = filter (\<lambda>c. c_pid c \<noteq> 0) (cuentas s) in
     if n < length vivas
     then Some (c_pid (vivas ! n), c_entregados (vivas ! n), c_peticiones (vivas ! n)) else None)"

definition bytes_de_bloque :: "u32 \<Rightarrow> u64 \<Rightarrow> 'a nucleo_mem_scheme \<Rightarrow> u64 option" where
  "bytes_de_bloque pid base s =
    (case slot_mem pid s of None \<Rightarrow> None
     | Some i \<Rightarrow>
        map_option b_bytes (find (\<lambda>b. b_base b \<noteq> 0 \<and> b_base b = base) (c_bloques (cuentas s ! i))))"

definition fisica_de :: "u32 \<Rightarrow> u64 \<Rightarrow> u64 \<Rightarrow> 'a nucleo_mem_scheme \<Rightarrow> u64 option" where
  "fisica_de pid va len s =
    (case slot_mem pid s of None \<Rightarrow> None
     | Some i \<Rightarrow>
        (case checked_add va len of None \<Rightarrow> None
         | Some fin \<Rightarrow>
            map_option (\<lambda>b. b_fisica b + (va - b_base b))
              (find (\<lambda>b. b_base b \<noteq> 0 \<and> va \<ge> b_base b \<and> fin \<le> b_base b + b_bytes b)
                (c_bloques (cuentas s ! i)))))"

definition operation_memory :: "u64 \<Rightarrow> u64 \<Rightarrow> u32 \<Rightarrow> 'a nucleo_mem_scheme \<Rightarrow> u64 option" where
  "operation_memory base op pid s =
    (if op = MEM_OP_BASE then Some base
     else if op = MEM_OP_BYTES then Some (handed_over_by pid s)
     else if op = MEM_OP_FISICA then fisica_de pid base 1 s
     else None)"

section \<open>Asking\<close>

definition n_paginas_de :: "u64 \<Rightarrow> u64" where
  "n_paginas_de bytes = (bytes + PAGE - 1) div PAGE"

text \<open>The frame of the \<open>k\<close>-th page of a block that starts at \<open>fisica\<close>.\<close>

definition de_bloque :: "u64 \<Rightarrow> vmm_st \<Rightarrow> nat \<Rightarrow> u64 option" where
  "de_bloque fisica v k = Some (desplaza fisica k)"

text \<open>Where the next block of an account goes.\<close>

definition toma_cursor :: "cuenta_mem \<Rightarrow> cuenta_mem" where
  "toma_cursor c = (if c_cursor c = 0 then c\<lparr>c_cursor := MEMORIA_VA_BASE\<rparr> else c)"

text \<open>The account after a block was handed over.\<close>

definition anota_bloque :: "u64 \<Rightarrow> u64 \<Rightarrow> u64 \<Rightarrow> cuenta_mem \<Rightarrow> cuenta_mem" where
  "anota_bloque base fisica bytes c =
    c\<lparr>c_cursor := base + bytes,
      c_bloques := (if c_peticiones c < MAX_PETICIONES
        then (c_bloques c)[c_peticiones c := \<lparr>b_base = base, b_fisica = fisica, b_bytes = bytes\<rparr>]
        else c_bloques c),
      c_peticiones := c_peticiones c + 1, c_entregados := c_entregados c + bytes\<rparr>"

definition request ::
  "u32 \<Rightarrow> u64 \<Rightarrow> u64 \<Rightarrow> 'a nucleo_mem_scheme \<Rightarrow> (u32 + u64) \<times> 'a nucleo_mem_scheme" where
  "request pid aspace bytes s0 =
    (if bytes = 0 \<or> bytes > MAX_BYTES then (Inl ERROR_TOO_BIG, s0)
     else case slot_or_new pid s0 of
       (None, s) \<Rightarrow> (Inl ERROR_NO_SLOT, s)
     | (Some i, s) \<Rightarrow>
        if c_peticiones (cuentas s ! i) \<ge> MAX_PETICIONES then (Inl ERROR_TOO_MANY, s)
        else let paginas = n_paginas_de bytes in
        (case alloc_frames_contig paginas (fisico (vm s)) of
           (None, ph) \<Rightarrow> (Inl ERROR_NO_RAM, s\<lparr>vm := (vm s)\<lparr>fisico := ph\<rparr>\<rparr>)
         | (Some fisica, ph) \<Rightarrow>
            let s1 = pon_cuenta i toma_cursor (s\<lparr>vm := (vm s)\<lparr>fisico := ph\<rparr>\<rparr>);
                base = c_cursor (cuentas s1 ! i);
                tope = paginas * PAGE in
            (case mapea_paginas (de_bloque fisica) aspace base (paginas_de tope) (vm s1) of
               (Some k, v) \<Rightarrow>
                 (Inl ERROR_NO_RAM, s1\<lparr>vm := desmapea_paginas aspace base (paginas_de (of_nat k * PAGE)) v\<rparr>)
             | (None, v) \<Rightarrow>
                (case grant pid KIND_MEMORIA (RIGHT_READ OR RIGHT_WRITE) base (caps s1) of
                   (None, c) \<Rightarrow>
                     (Inl ERROR_PERMISSION_DENIED,
                      s1\<lparr>vm := desmapea_paginas aspace base (paginas_de tope) v, caps := c\<rparr>)
                 | (Some h, c) \<Rightarrow>
                     (Inr h, pon_cuenta i (anota_bloque base fisica tope)
                               (s1\<lparr>vm := v, caps := c, total_mem := total_mem s1 + tope\<rparr>))))))"

section \<open>The end of a process\<close>

definition suelta_marco :: "u64 \<Rightarrow> u64 \<Rightarrow> vmm_st \<Rightarrow> vmm_st" where
  "suelta_marco tick marco v =
    (let v1 = borra_marco marco v in v1\<lparr>fisico := free_frame tick marco (fisico v1)\<rparr>)"

definition suelta_bloque :: "u64 \<Rightarrow> bloque \<Rightarrow> vmm_st \<Rightarrow> vmm_st" where
  "suelta_bloque tick b =
    fold (\<lambda>p. suelta_marco tick (desplaza (b_fisica b) p)) [0 ..< unat (b_bytes b div PAGE)]"

definition muere_bloque :: "u64 \<Rightarrow> u32 \<Rightarrow> bloque \<Rightarrow> 'a nucleo_mem_scheme \<Rightarrow> 'a nucleo_mem_scheme" where
  "muere_bloque tick pid b s =
    (if b_base b = 0 \<or> b_bytes b = 0 then s
     else if hay_prestado_en pid (b_base b) (b_bytes b) s then s
     else s\<lparr>vm := suelta_bloque tick b (vm s)\<rparr>)"

definition process_died_memory :: "u64 \<Rightarrow> u32 \<Rightarrow> 'a nucleo_mem_scheme \<Rightarrow> 'a nucleo_mem_scheme" where
  "process_died_memory tick pid s =
    (case slot_mem pid s of None \<Rightarrow> s
     | Some i \<Rightarrow>
        pon_cuenta i (\<lambda>_. CUENTA_LIBRE) (fold (muere_bloque tick pid) (c_bloques (cuentas s ! i)) s))"

section \<open>Process numbers (task/proc.rs)\<close>

text \<open>The answer, and the counter afterwards.\<close>

definition next_pid :: "u32 \<Rightarrow> u32 \<times> u32" where
  "next_pid n = (n, max (n + 1) 1)"

end
