(* ===== verification/Memoria.thy ===== *)
theory Memoria
  imports Memory
begin

text \<open>
  What a block of memory is: contiguous frames that were free, mapped at consecutive addresses,
  the same physical byte by the account and by the page tables; and what happens to it when its
  process ends.
\<close>

section \<open>Accounts\<close>

lemma posicion_cuenta_Some:
  "posicion_cuenta pid cs = Some i \<Longrightarrow> i < length cs \<and> c_pid (cs ! i) = pid \<and> (\<forall>j < i. c_pid (cs ! j) \<noteq> pid)"
  by (induction cs arbitrary: i) (auto split: if_splits simp: less_Suc_eq_0_disj, metis)

lemma posicion_cuenta_eq:
  "i < length cs \<Longrightarrow> c_pid (cs ! i) = pid \<Longrightarrow> \<forall>j < i. c_pid (cs ! j) \<noteq> pid \<Longrightarrow> posicion_cuenta pid cs = Some i"
proof (induction cs arbitrary: i)
  case (Cons c cs)
  then show ?case
  proof (cases i)
    case (Suc j)
    have "c_pid c \<noteq> pid" "\<forall>k < j. c_pid (cs ! k) \<noteq> pid"
      using Cons.prems(3) Suc by force+
    then show ?thesis
      using Cons.IH [of j] Cons.prems Suc by simp
  qed simp
qed simp

lemma posicion_cuenta_None: "posicion_cuenta pid cs = None \<longleftrightarrow> (\<forall>c \<in> set cs. c_pid c \<noteq> pid)"
  by (induction cs) auto

text \<open>The blocks of an account lie one after the other from \<open>MEMORIA_VA_BASE\<close>, at most 64 MiB each.\<close>

definition cuenta_ok :: "cuenta_mem \<Rightarrow> bool" where
  "cuenta_ok c \<longleftrightarrow> length (c_bloques c) = MAX_PETICIONES \<and> c_peticiones c \<le> MAX_PETICIONES \<and>
     unat (c_cursor c) mod 4096 = 0 \<and>
     (c_cursor c = 0 \<and> c_peticiones c = 0 \<or>
      0xE0000000 \<le> unat (c_cursor c) \<and>
      unat (c_cursor c) \<le> 0xE0000000 + c_peticiones c * 0x4000000) \<and>
     (\<forall>j < c_peticiones c. b_base (c_bloques c ! j) \<noteq> 0 \<and>
        unat (b_base (c_bloques c ! j)) + unat (b_bytes (c_bloques c ! j)) \<le> unat (c_cursor c)) \<and>
     (\<forall>j < MAX_PETICIONES. c_peticiones c \<le> j \<longrightarrow> c_bloques c ! j = SIN_BLOQUE)"

definition cuentas_ok :: "'a nucleo_mem_scheme \<Rightarrow> bool" where
  "cuentas_ok s \<longleftrightarrow> length (cuentas s) = MAX_CUENTAS \<and> (\<forall>c \<in> set (cuentas s). cuenta_ok c)"

lemma cuentas_ok_nth: "cuentas_ok s \<Longrightarrow> i < length (cuentas s) \<Longrightarrow> cuenta_ok (cuentas s ! i)"
  by (simp add: cuentas_ok_def)

lemma CUENTA_LIBRE_ok: "cuenta_ok CUENTA_LIBRE" "cuenta_ok (CUENTA_LIBRE\<lparr>c_pid := pid\<rparr>)"
  by (simp_all add: cuenta_ok_def CUENTA_LIBRE_def)

lemma pon_cuenta_simps [simp]:
  "vm (pon_cuenta i f s) = vm s" "caps (pon_cuenta i f s) = caps s" "ofertas (pon_cuenta i f s) = ofertas s"
  "cuentas (pon_cuenta i f s) = (cuentas s)[i := f (cuentas s ! i)]"
  "total_mem (pon_cuenta i f s) = total_mem s"
  by (simp_all add: pon_cuenta_def)

lemma pon_cuenta_ok:
  "cuentas_ok s \<Longrightarrow> cuenta_ok (f (cuentas s ! i)) \<Longrightarrow> cuentas_ok (pon_cuenta i f s)"
  by (auto simp: cuentas_ok_def dest!: subsetD [OF set_update_subset_insert])

lemma slot_or_new_Some:
  assumes "slot_or_new pid s = (Some i, s')" "cuentas_ok s"
  shows "i < length (cuentas s')" "cuentas_ok s'" "c_pid (cuentas s' ! i) = pid" "pid \<noteq> 0"
    "\<forall>j < i. c_pid (cuentas s' ! j) \<noteq> pid"
    "vm s' = vm s" "caps s' = caps s" "ofertas s' = ofertas s"
proof -
  have p: "pid \<noteq> 0"
    using assms(1) by (auto simp: slot_or_new_def split: if_splits)
  have "i < length (cuentas s') \<and> cuentas_ok s' \<and> c_pid (cuentas s' ! i) = pid \<and>
    (\<forall>j < i. c_pid (cuentas s' ! j) \<noteq> pid) \<and> vm s' = vm s \<and> caps s' = caps s \<and> ofertas s' = ofertas s"
  proof (cases "slot_mem pid s")
    case (Some j)
    then have "s' = s" "posicion_cuenta pid (cuentas s) = Some i"
      using assms(1) p by (simp_all add: slot_or_new_def slot_mem_def)
    then show ?thesis
      using posicion_cuenta_Some assms(2) by auto
  next
    case None
    then have n: "posicion_cuenta pid (cuentas s) = None"
      using p by (simp add: slot_mem_def)
    have l: "posicion_cuenta 0 (cuentas s) = Some i" "s' = pon_cuenta i (\<lambda>_. CUENTA_LIBRE\<lparr>c_pid := pid\<rparr>) s"
      using assms(1) p None by (auto simp: slot_or_new_def split: option.splits)
    then have i: "i < length (cuentas s)"
      using posicion_cuenta_Some by blast
    moreover have "cuentas_ok s'"
      unfolding l(2) by (rule pon_cuenta_ok [OF assms(2) CUENTA_LIBRE_ok(2)])
    moreover have "c_pid (cuentas s ! j) \<noteq> pid" if "j < length (cuentas s)" for j
      using n that nth_mem [OF that] unfolding posicion_cuenta_None by blast
    ultimately show ?thesis
      using l(2) by (auto simp: nth_list_update)
  qed
  then show "i < length (cuentas s')" "cuentas_ok s'" "c_pid (cuentas s' ! i) = pid" "pid \<noteq> 0"
    "\<forall>j < i. c_pid (cuentas s' ! j) \<noteq> pid"
    "vm s' = vm s" "caps s' = caps s" "ofertas s' = ofertas s"
    using p by blast+
qed

section \<open>Asking\<close>

lemma n_paginas_de_unat:
  assumes "bytes \<noteq> 0" "\<not> bytes > MAX_BYTES"
  defines "n \<equiv> (unat bytes + 4095) div 4096"
  shows "unat (n_paginas_de bytes) = n" "1 \<le> n" "n \<le> 16384"
    "unat (n_paginas_de bytes * PAGE) = n * 4096"
    "paginas_de (n_paginas_de bytes * PAGE) = [0 ..< n]"
proof -
  have b: "0 < unat bytes" "unat bytes \<le> 0x4000000"
    using assms(1,2) by (simp_all add: MAX_BYTES_def word_le_nat_alt not_less unat_gt_0)
  have "unat (bytes + 4095) = unat bytes + 4095"
    using b(2) by (subst unat_add_small) simp_all
  then show u: "unat (n_paginas_de bytes) = n"
    unfolding n_paginas_de_def PAGE_def n_def by (simp add: unat_div add_diff_eq [symmetric])
  show n: "1 \<le> n" "n \<le> 16384"
    using b unfolding n_def by simp_all
  show t: "unat (n_paginas_de bytes * PAGE) = n * 4096"
    using n(2) by (simp add: unat_mult_lem u PAGE_def unat_word_ariths)
  show "paginas_de (n_paginas_de bytes * PAGE) = [0 ..< n]"
    unfolding paginas_de_def t by simp
qed

lemma fisico_mundo:
  assumes "mundo_ok R v" "phys_ok ph" "libres_de ph \<subseteq> libres_de (fisico v)"
  shows "mundo_ok R (v\<lparr>fisico := ph\<rparr>)" "translate (v\<lparr>fisico := ph\<rparr>) r va = translate v r va"
proof -
  have "conserva R v (v\<lparr>fisico := ph\<rparr>)"
    by (rule conserva_cong [OF mundo_okD(1) [OF assms(1)]]) (use assms in simp_all)
  then show "mundo_ok R (v\<lparr>fisico := ph\<rparr>)"
    using conserva_mundo assms(1) by blast
qed simp

lemma toma_cursor_ok:
  assumes "cuenta_ok c" "\<not> c_peticiones c \<ge> MAX_PETICIONES" "n \<le> 16384"
  shows "cuenta_ok (toma_cursor c)" "ventana_ok (c_cursor (toma_cursor c)) n"
    "c_peticiones (toma_cursor c) = c_peticiones c" "c_bloques (toma_cursor c) = c_bloques c"
    "0xE0000000 \<le> unat (c_cursor (toma_cursor c))"
    "unat (c_cursor (toma_cursor c)) \<le> 0xE0000000 + c_peticiones c * 0x4000000"
proof -
  show "cuenta_ok (toma_cursor c)"
    using assms(1) by (auto simp: cuenta_ok_def toma_cursor_def MEMORIA_VA_BASE_def)
  show l: "0xE0000000 \<le> unat (c_cursor (toma_cursor c))"
    "unat (c_cursor (toma_cursor c)) \<le> 0xE0000000 + c_peticiones c * 0x4000000"
    using assms(1) by (auto simp: cuenta_ok_def toma_cursor_def MEMORIA_VA_BASE_def)
  have "unat (c_cursor (toma_cursor c)) mod 4096 = 0"
    using assms(1) by (auto simp: cuenta_ok_def toma_cursor_def MEMORIA_VA_BASE_def)
  moreover have "c_peticiones c \<le> 3"
    using assms(2) by (simp add: MAX_PETICIONES_def)
  then have "c_peticiones c * 0x4000000 \<le> 3 * 0x4000000"
    by (rule mult_le_mono1)
  ultimately show "ventana_ok (c_cursor (toma_cursor c)) n"
    unfolding ventana_ok_def USER_IMAGE_BASE_def FIN_USUARIO_def using l assms(3) by simp
qed (simp_all add: toma_cursor_def)

lemma desplaza_marco: "desplaza (of_nat f * PAGE) k = of_nat (f + k) * PAGE"
  by (simp add: desplaza_def algebra_simps)

lemma de_bloque_ok:
  assumes "f + n \<le> MARCOS"
  shows "fuente_ok (de_bloque (of_nat f * PAGE)) R aspace va n v"
proof -
  have "unat (of_nat (f + k) * PAGE :: u64) < 2 ^ 52" if "k < n" for k
    using assms that by (subst unat_dir_marco) (simp_all add: MARCOS_def)
  then show ?thesis
    unfolding fuente_ok_def de_bloque_def desplaza_marco by simp
qed

lemma unat_en_ventana:
  assumes "ventana_ok base n" "k < n * 4096"
  shows "unat (base + of_nat k) = unat base + k"
proof -
  have l: "unat base + n * 4096 \<le> 2 ^ 39"
    using assms(1) unfolding ventana_ok_def FIN_USUARIO_def by blast
  then have "unat (of_nat k :: u64) = k"
    using assms(2) by (intro unat_word_of_nat) simp
  then show ?thesis
    using l assms(2) by (subst unat_add_small) simp_all
qed

text \<open>The bytes of a run of frames mapped in order.\<close>

lemma bytes_corridos:
  assumes "mundo_ok R v" "r \<in> R" "ventana_ok base n"
    and t: "\<And>k. k < n \<Longrightarrow> translate v r (desplaza base k) = Some (of_nat (f + k) * PAGE)"
    and k: "k < n * 4096"
  shows "fisica_exacta v r (base + of_nat k) = Some (of_nat (f * 4096 + k))"
proof -
  have "k div 4096 < n"
    using k by (rule less_mult_imp_div_less)
  moreover have "of_nat (f + k div 4096) * PAGE + of_nat (k mod 4096) = (of_nat (f * 4096 + k) :: u64)"
    using parte_desplazamiento [of "of_nat f * PAGE" k] by (simp add: desplaza_def PAGE_def algebra_simps)
  ultimately show ?thesis
    using byte_de_pagina [OF assms(1-3), of "k div 4096" "k mod 4096"] t
    unfolding parte_desplazamiento [of base k] by simp
qed

text \<open>A request that gets its frames and maps them all: it succeeds, or \<open>grant\<close> refuses.\<close>

lemma request_mapeada:
  assumes "request pid aspace bytes s0 = (r0, s')" "\<forall>e. r0 = Inl e \<longrightarrow> e = ERROR_PERMISSION_DENIED"
    and "cuentas_ok s0" "phys_ok (fisico (vm s0))"
  obtains i s f ph v g c base where
    "bytes \<noteq> 0" "\<not> bytes > MAX_BYTES" "slot_or_new pid s0 = (Some i, s)"
    "\<not> c_peticiones (cuentas s ! i) \<ge> MAX_PETICIONES"
    "f + unat (n_paginas_de bytes) \<le> MARCOS"
    "{f ..< f + unat (n_paginas_de bytes)} \<subseteq> libres_de (fisico (vm s0))"
    "phys_ok ph" "libres_de ph = libres_de (fisico (vm s0)) - {f ..< f + unat (n_paginas_de bytes)}"
    "base = c_cursor (toma_cursor (cuentas s ! i))"
    "mapea_paginas (de_bloque (of_nat f * PAGE)) aspace base (paginas_de (n_paginas_de bytes * PAGE))
       ((vm s0)\<lparr>fisico := ph\<rparr>) = (None, v)"
    "grant pid KIND_MEMORIA (RIGHT_READ OR RIGHT_WRITE) base (caps s0) = (g, c)"
    "caps s' = c"
    "case g of
       Some h \<Rightarrow> r0 = Inr h \<and> vm s' = v \<and>
         cuentas s' = (cuentas s)[i := anota_bloque base (of_nat f * PAGE) (n_paginas_de bytes * PAGE)
           (toma_cursor (cuentas s ! i))]
     | None \<Rightarrow> r0 = Inl ERROR_PERMISSION_DENIED \<and>
         vm s' = desmapea_paginas aspace base (paginas_de (n_paginas_de bytes * PAGE)) v \<and>
         cuentas s' = (cuentas s)[i := toma_cursor (cuentas s ! i)]"
proof -
  note er = ERROR_PERMISSION_DENIED_def ERROR_TOO_BIG_def ERROR_NO_SLOT_def ERROR_TOO_MANY_def ERROR_NO_RAM_def
  have no: "r0 \<noteq> Inl ERROR_TOO_BIG" "r0 \<noteq> Inl ERROR_NO_SLOT" "r0 \<noteq> Inl ERROR_TOO_MANY" "r0 \<noteq> Inl ERROR_NO_RAM"
    using assms(2) by (auto simp: er)
  have b: "bytes \<noteq> 0" "\<not> bytes > MAX_BYTES"
    using assms(1) no(1) by (auto simp: request_def split: if_splits)
  obtain i s where sl: "slot_or_new pid s0 = (Some i, s)"
  proof (cases "slot_or_new pid s0")
    case (Pair x s)
    then show ?thesis
      using that [of _ s] assms(1) no(2) b by (cases x) (auto simp: request_def)
  qed
  note so = slot_or_new_Some [OF sl assms(3)]
  have p: "\<not> c_peticiones (cuentas s ! i) \<ge> MAX_PETICIONES"
  proof
    assume "c_peticiones (cuentas s ! i) \<ge> MAX_PETICIONES"
    then have "fst (request pid aspace bytes s0) = Inl ERROR_TOO_MANY"
      using b sl by (simp add: request_def)
    then show False
      using assms(1) no(3) by simp
  qed
  obtain a ph where al: "alloc_frames_contig (n_paginas_de bytes) (fisico (vm s0)) = (Some a, ph)"
  proof (cases "alloc_frames_contig (n_paginas_de bytes) (fisico (vm s0))")
    case (Pair x ph)
    then show ?thesis
      using that [of _ ph] assms(1) no(4) b sl p so(6) by (cases x) (auto simp: request_def Let_def)
  qed
  from alloc_frames_contig_Some [OF assms(4), of "n_paginas_de bytes" a] al obtain f where
    f: "a = of_nat f * PAGE" "f + unat (n_paginas_de bytes) \<le> MARCOS"
      "{f ..< f + unat (n_paginas_de bytes)} \<subseteq> libres_de (fisico (vm s0))"
      "phys_ok ph" "libres_de ph = libres_de (fisico (vm s0)) - {f ..< f + unat (n_paginas_de bytes)}"
    by (auto simp: libres_de_def)
  define base where "base = c_cursor (toma_cursor (cuentas s ! i))"
  obtain r v where mp: "mapea_paginas (de_bloque (of_nat f * PAGE)) aspace base
      (paginas_de (n_paginas_de bytes * PAGE)) ((vm s0)\<lparr>fisico := ph\<rparr>) = (r, v)"
    by fastforce
  obtain g c where gr: "grant pid KIND_MEMORIA (RIGHT_READ OR RIGHT_WRITE) base (caps s0) = (g, c)"
    by fastforce
  have r: "r = None"
  proof (cases r)
    case (Some k)
    then have "fst (request pid aspace bytes s0) = Inl ERROR_NO_RAM"
      using b sl p so(1,6,7) al f(1) mp by (simp add: request_def Let_def base_def)
    then show ?thesis
      using assms(1) no(4) by simp
  qed
  have e: "request pid aspace bytes s0 = (case g of
        None \<Rightarrow> (Inl ERROR_PERMISSION_DENIED, (pon_cuenta i toma_cursor (s\<lparr>vm := (vm s)\<lparr>fisico := ph\<rparr>\<rparr>))
          \<lparr>vm := desmapea_paginas aspace base (paginas_de (n_paginas_de bytes * PAGE)) v, caps := c\<rparr>)
      | Some h \<Rightarrow> (Inr h, pon_cuenta i (anota_bloque base (of_nat f * PAGE) (n_paginas_de bytes * PAGE))
          ((pon_cuenta i toma_cursor (s\<lparr>vm := (vm s)\<lparr>fisico := ph\<rparr>\<rparr>))
            \<lparr>vm := v, caps := c, total_mem := total_mem s + n_paginas_de bytes * PAGE\<rparr>)))"
    using b sl p so(1,6,7) al f(1) mp gr r
    by (cases g) (simp_all add: request_def Let_def base_def)
  show ?thesis
    using assms(1) so(1) r unfolding e
    by (intro that [OF b sl p f(2-5) base_def mp [unfolded r] gr]) (cases g; clarsimp)+
qed

lemma anota_bloque_ok:
  assumes "cuenta_ok c" "c_cursor c = base" "base \<noteq> 0" "\<not> c_peticiones c \<ge> MAX_PETICIONES"
    and "unat tope \<le> 0x4000000" "unat tope mod 4096 = 0"
  shows "cuenta_ok (anota_bloque base fisica tope c)"
proof -
  have l: "0xE0000000 \<le> unat base" "unat base \<le> 0xE0000000 + c_peticiones c * 0x4000000" "unat base mod 4096 = 0"
    "c_peticiones c \<le> 3"
    using assms(1-4) by (auto simp: cuenta_ok_def MAX_PETICIONES_def)
  have "c_peticiones c * 0x4000000 \<le> 3 * 0x4000000"
    using l(4) by (rule mult_le_mono1)
  then have s: "unat (base + tope) = unat base + unat tope"
    using l(2) assms(5) by (subst unat_add_small) simp_all
  moreover have "(unat base + unat tope) mod 4096 = 0"
    using l(3) assms(6) by (metis add_0 mod_add_left_eq)
  ultimately show ?thesis
    using assms l unfolding cuenta_ok_def
    by (auto simp: anota_bloque_def nth_list_update less_Suc_eq MAX_PETICIONES_def)
qed

text \<open>The account finds the byte of the last block.\<close>

lemma fisica_de_ultimo:
  assumes c: "cuenta_ok c" "c_cursor c = base" "\<not> c_peticiones c \<ge> MAX_PETICIONES" "base \<noteq> 0"
    and k: "unat va = unat base + k" "k < unat tope" "unat base + unat tope < 2 ^ 64"
    and s: "slot_mem pid s = Some i" "cuentas s ! i = anota_bloque base fisica tope c"
  shows "fisica_de pid va 1 s = Some (fisica + (va - base))"
proof -
  let ?n = "c_peticiones c" and ?b = "\<lparr>b_base = base, b_fisica = fisica, b_bytes = tope\<rparr>"
  let ?bs = "(c_bloques c)[?n := ?b]"
  have n: "?n < length (c_bloques c)"
    using c(1,3) by (simp add: cuenta_ok_def)
  have v: "unat (va + 1) = unat va + 1"
    using k by (subst unat_add_small) simp_all
  then have "checked_add va 1 = Some (va + 1)"
    using k by (simp add: checked_add_64_Some_iff)
  moreover have "va \<ge> base" "va + 1 \<le> base + tope"
    using k v by (simp_all add: word_le_nat_alt unat_add_small)
  moreover have "\<not> va + 1 \<le> b_base (?bs ! j) + b_bytes (?bs ! j)" if "j < ?n" for j
  proof -
    have "unat (b_base (c_bloques c ! j)) + unat (b_bytes (c_bloques c ! j)) \<le> unat base"
      using c(1,2) that by (auto simp: cuenta_ok_def)
    then have "unat (b_base (c_bloques c ! j) + b_bytes (c_bloques c ! j)) \<le> unat base"
      using le_trans [OF unat_word_ariths(1) [THEN eq_refl] mod_less_eq_dividend] le_trans by blast
    then show ?thesis
      using that v k(1) by (simp add: word_le_nat_alt)
  qed
  ultimately have "find (\<lambda>b. b_base b \<noteq> 0 \<and> va \<ge> b_base b \<and> va + 1 \<le> b_base b + b_bytes b) ?bs = Some ?b"
    using n c(4) unfolding find_Some_iff by (intro exI [of _ ?n]) auto
  then show ?thesis
    using s c(3) \<open>checked_add va 1 = Some (va + 1)\<close>
    by (simp add: fisica_de_def anota_bloque_def)
qed

lemma handed_over_toma:
  assumes "slot_or_new pid s = (Some i, s1)" "cuentas_ok s" "cuentas s' = (cuentas s1)[i := toma_cursor (cuentas s1 ! i)]"
  shows "handed_over_by pid s' = handed_over_by pid s"
proof -
  note so = slot_or_new_Some [OF assms(1,2)]
  have e: "c_entregados (cuentas s1 ! i) = handed_over_by pid s"
  proof (cases "slot_mem pid s")
    case (Some j)
    then show ?thesis
      using assms(1) so(4) by (auto simp: slot_or_new_def handed_over_by_def)
  next
    case None
    then obtain j where "posicion_cuenta 0 (cuentas s) = Some j" "i = j"
      "s1 = pon_cuenta j (\<lambda>_. CUENTA_LIBRE\<lparr>c_pid := pid\<rparr>) s"
      using assms(1) so(4) by (auto simp: slot_or_new_def split: option.splits)
    then show ?thesis
      using None posicion_cuenta_Some [of 0 "cuentas s" j] by (simp add: handed_over_by_def CUENTA_LIBRE_def)
  qed
  have "posicion_cuenta pid (cuentas s') = Some i"
    using so(1,3,5) by (intro posicion_cuenta_eq) (simp_all add: assms(3) toma_cursor_def)
  then show ?thesis
    using so(1,4) e by (simp add: handed_over_by_def slot_mem_def assms(3) toma_cursor_def)
qed





section \<open>The end of a process\<close>

text \<open>The frames of a block, and whether \<open>process_died\<close> gives them back.\<close>

definition marcos_bloque :: "bloque \<Rightarrow> nat set" where
  "marcos_bloque b = {f. \<exists>p < unat (b_bytes b div PAGE). indice_marco (desplaza (b_fisica b) p) = Some f}"

definition suelto :: "u32 \<Rightarrow> bloque \<Rightarrow> 'a nucleo_scheme \<Rightarrow> bool" where
  "suelto pid b s \<longleftrightarrow> b_base b \<noteq> 0 \<and> b_bytes b \<noteq> 0 \<and> \<not> hay_prestado_en pid (b_base b) (b_bytes b) s"

lemma borra_marco_fisico [simp]: "fisico (borra_marco f v) = fisico v"
  by (simp add: borra_marco_def)

lemma suelta_marco_memoria [simp]: "memoria (suelta_marco tick m v) = memoria (borra_marco m v)"
  by (simp add: suelta_marco_def Let_def)

lemma borra_marco_memoria:
  "memoria (borra_marco f v) a = (if a = f \<and> memoria (borra_marco f v) f = (\<lambda>_. 0) then (\<lambda>_. 0) else memoria v a)"
  by (auto simp: borra_marco_def)

lemma borra_marco_marco_0:
  assumes "indice_marco a = Some f" "f \<noteq> 0"
  shows "memoria (borra_marco a v) a = (\<lambda>_. 0)"
  using assms borra_marco_marco [OF assms(1)] by simp

lemma fold_suelta:
  "libres_de (fisico (fold (\<lambda>p. suelta_marco tick (desplaza (b_fisica b) p)) ps v)) =
     libres_de (fisico v) \<union> {f. \<exists>p \<in> set ps. indice_marco (desplaza (b_fisica b) p) = Some f}"
  by (induction ps arbitrary: v)
    (auto simp: suelta_marco_def Let_def libres_de_def free_frame_libres split: option.splits)

lemma fold_suelta_memoria:
  "memoria v a = (\<lambda>_. 0) \<Longrightarrow> memoria (fold (\<lambda>p. suelta_marco tick (desplaza (b_fisica b) p)) ps v) a = (\<lambda>_. 0)"
  "indice_marco a = Some f \<Longrightarrow> f \<noteq> 0 \<Longrightarrow> p \<in> set ps \<Longrightarrow> a = desplaza (b_fisica b) p \<Longrightarrow>
    memoria (fold (\<lambda>p. suelta_marco tick (desplaza (b_fisica b) p)) ps v) a = (\<lambda>_. 0)"
proof -
  have c: "memoria (fold (\<lambda>p. suelta_marco tick (desplaza (b_fisica b) p)) ps v) a = (\<lambda>_. 0)" if "memoria v a = (\<lambda>_. 0)" for v ps
    using that
  proof (induction ps arbitrary: v)
    case (Cons q qs)
    have "memoria (borra_marco (desplaza (b_fisica b) q) v) a = (\<lambda>_. 0)"
      using Cons.prems by (subst borra_marco_memoria) simp
    then show ?case
      using Cons.IH by simp
  qed simp
  then show "memoria v a = (\<lambda>_. 0) \<Longrightarrow> memoria (fold (\<lambda>p. suelta_marco tick (desplaza (b_fisica b) p)) ps v) a = (\<lambda>_. 0)"
    by blast
  show "memoria (fold (\<lambda>p. suelta_marco tick (desplaza (b_fisica b) p)) ps v) a = (\<lambda>_. 0)"
    if i: "indice_marco a = Some f" "f \<noteq> 0" "p \<in> set ps" "a = desplaza (b_fisica b) p"
    using i(3)
  proof (induction ps arbitrary: v)
    case (Cons q qs)
    then show ?case
      using c borra_marco_marco_0 [OF i(1,2)] i(4) by (cases "p = q") simp_all
  qed simp
qed

text \<open>All the blocks of an account.\<close>

lemma muere_bloque_eq:
  "muere_bloque tick pid b s = (if suelto pid b s then s\<lparr>vm := suelta_bloque tick b (vm s)\<rparr> else s)"
  by (simp add: suelto_def muere_bloque_def)

lemma suelto_cong: "ofertas s' = ofertas s \<Longrightarrow> suelto pid b s' = suelto pid b s"
  by (simp add: suelto_def hay_prestado_en_def)

lemma fold_muere:
  "ofertas (fold (muere_bloque tick pid) bs s) = ofertas s \<and>
   cuentas (fold (muere_bloque tick pid) bs s) = cuentas s \<and>
   libres_de (fisico (vm (fold (muere_bloque tick pid) bs s))) =
     libres_de (fisico (vm s)) \<union> (\<Union>b \<in> {b \<in> set bs. suelto pid b s}. marcos_bloque b)"
proof (induction bs arbitrary: s)
  case (Cons b bs)
  show ?case
  proof (cases "suelto pid b s")
    case True
    let ?s = "s\<lparr>vm := suelta_bloque tick b (vm s)\<rparr>"
    have "suelto pid c ?s = suelto pid c s" for c
      by (rule suelto_cong) simp
    moreover have "libres_de (fisico (vm ?s)) = libres_de (fisico (vm s)) \<union> marcos_bloque b"
      unfolding marcos_bloque_def suelta_bloque_def by (auto simp: fold_suelta)
    ultimately show ?thesis
      using Cons.IH [of ?s] True by (auto simp: muere_bloque_eq)
  next
    case False
    then show ?thesis
      using Cons.IH [of s] by (auto simp: muere_bloque_eq)
  qed
qed simp

text \<open>A frame that was cleared stays cleared.\<close>

lemma fold_muere_memoria:
  "memoria (vm s) a = (\<lambda>_. 0) \<Longrightarrow> memoria (vm (fold (muere_bloque tick pid) bs s)) a = (\<lambda>_. 0)"
  by (induction bs arbitrary: s) (simp_all add: muere_bloque_eq suelta_bloque_def fold_suelta_memoria(1))

lemma fold_muere_borrada:
  assumes "b \<in> set bs" "suelto pid b s" "f \<in> marcos_bloque b" "f \<noteq> 0"
  shows "memoria (vm (fold (muere_bloque tick pid) bs s)) (of_nat f * PAGE) = (\<lambda>_. 0)"
  using assms(1,2)
proof (induction bs arbitrary: s)
  case (Cons c bs)
  obtain p where p: "p < unat (b_bytes b div PAGE)" "indice_marco (desplaza (b_fisica b) p) = Some f"
    using assms(3) by (auto simp: marcos_bloque_def)
  have m: "memoria (suelta_bloque tick b v) (of_nat f * PAGE) = (\<lambda>_. 0)" for v
    unfolding suelta_bloque_def indice_marco_dir_of [OF p(2), symmetric]
    by (rule fold_suelta_memoria(2) [OF p(2) assms(4) _ refl]) (simp add: p(1))
  have s: "suelto pid b (muere_bloque tick pid c s) = suelto pid b s"
    by (rule suelto_cong) (simp add: muere_bloque_def)
  show ?case
  proof (cases "c = b")
    case True
    have "memoria (vm (muere_bloque tick pid c s)) (of_nat f * PAGE) = (\<lambda>_. 0)"
      unfolding True muere_bloque_eq using Cons.prems(2) m by simp
    then show ?thesis
      using fold_muere_memoria by simp
  next
    case False
    then show ?thesis
      using Cons.IH [of "muere_bloque tick pid c s"] Cons.prems s by simp
  qed
qed simp

section \<open>An example\<close>

text \<open>One empty space, no accounts, no capabilities.\<close>

definition mem_prueba :: nucleo_mem where
  "mem_prueba =
    \<lparr>vm = con_espacio, tasks = [], current = 0, next_tid = 1, idle = 0, morgue = [], morgue_n = 0,
     tsc_freq = 0, trap_rsp = 0, syscall_stack_top = 0, tss_rsp0 = 0, cr3 = raiz_prueba,
     user_switches = 0, latidos = 0, caps = cap_inicial, ofertas = replicate 16 NOTHING, negadas = 0,
     cuentas = replicate MAX_CUENTAS CUENTA_LIBRE, total_mem = 0\<rparr>"

lemma mem_prueba_simps [simp]:
  "vm mem_prueba = con_espacio" "caps mem_prueba = cap_inicial" "ofertas mem_prueba = replicate 16 NOTHING"
  "cuentas mem_prueba = replicate MAX_CUENTAS CUENTA_LIBRE"
  by (simp_all add: mem_prueba_def)

lemma mem_prueba_ok: "mundo_ok {raiz_prueba} (vm mem_prueba)" "cuentas_ok mem_prueba" "cap_ok (caps mem_prueba)"
  using con_espacio_mundo CUENTA_LIBRE_ok(1) cap_inicial_ok by (simp_all add: cuentas_ok_def)

lemma mem_prueba_slot:
  assumes "pid \<noteq> 0"
  shows "slot_or_new pid mem_prueba = (Some 0, pon_cuenta 0 (\<lambda>_. CUENTA_LIBRE\<lparr>c_pid := pid\<rparr>) mem_prueba)"
proof -
  have "posicion_cuenta pid (replicate n CUENTA_LIBRE) = None" for n
    using assms by (induction n) (simp_all add: CUENTA_LIBRE_def)
  moreover have "posicion_cuenta 0 (replicate MAX_CUENTAS CUENTA_LIBRE) = Some 0"
    by (simp add: MAX_CUENTAS_def CUENTA_LIBRE_def numeral_eq_Suc)
  ultimately show ?thesis
    using assms by (simp add: slot_or_new_def slot_mem_def)
qed

lemma mem_prueba_marco:
  obtains f ph where "alloc_frames_contig 1 (fisico con_espacio) = (Some (of_nat f * PAGE), ph)"
    "f < MARCOS" "phys_ok ph" "61 \<le> card (libres_de ph)" "libres_de ph \<subseteq> libres_de (fisico con_espacio)"
proof -
  note ok = espacios_okD(1) [OF con_espacio_eq(2)]
  have "libres_de (fisico con_espacio) \<noteq> {}"
    using con_espacio_eq(5) by auto
  then obtain x where "x < MARCOS" "marco_libre (bitmap (fisico con_espacio)) x"
    by (auto simp: libres_de_def libres_def)
  then have "x + 1 \<le> MARCOS \<and> tramo_libre (bitmap (fisico con_espacio)) x 1"
    by (auto simp: tramo_libre_def less_Suc_eq_le dest!: le_antisym)
  then have "fst (alloc_frames_contig 1 (fisico con_espacio)) \<noteq> None"
    using alloc_frames_contig_None [OF ok, of 1] by (auto simp del: tramo_libre_def)
  then obtain a where a: "fst (alloc_frames_contig 1 (fisico con_espacio)) = Some a"
    by blast
  obtain f where f: "a = of_nat f * PAGE" "f < MARCOS"
    "libres_de (snd (alloc_frames_contig 1 (fisico con_espacio))) = libres_de (fisico con_espacio) - {f}"
    "phys_ok (snd (alloc_frames_contig 1 (fisico con_espacio)))"
    unfolding libres_de_def by (rule alloc_frames_contig_Some [OF ok a]) simp
  have "62 \<le> card (libres_de (fisico con_espacio) - {f}) + 1"
    using con_espacio_eq(5) diff_card_le_card_Diff [of "{f}" "libres_de (fisico con_espacio)"] by simp
  then show ?thesis
    using a f by (intro that [of f "snd (alloc_frames_contig 1 (fisico con_espacio))"]) (simp_all add: prod_eq_iff)
qed

lemma mem_prueba_request:
  assumes "pid \<noteq> 0"
  shows "fst (request pid raiz_prueba 100 mem_prueba) =
    (case fst (grant pid KIND_MEMORIA (RIGHT_READ OR RIGHT_WRITE) 0xE0000000 cap_inicial) of
       None \<Rightarrow> Inl ERROR_PERMISSION_DENIED | Some h \<Rightarrow> Inr h)"
proof (rule mem_prueba_marco)
  fix f ph
  assume al: "alloc_frames_contig 1 (fisico con_espacio) = (Some (of_nat f * PAGE), ph)"
    and f: "f < MARCOS" "phys_ok ph" "61 \<le> card (libres_de ph)" "libres_de ph \<subseteq> libres_de (fisico con_espacio)"
  have n: "n_paginas_de 100 = 1" "paginas_de PAGE = [0]"
    by (simp_all add: n_paginas_de_def PAGE_def paginas_de_def)
  have "va_usuario 0xE0000000"
    by (intro en_usuario_va) (simp add: en_usuario_def FIN_USUARIO_def USER_IMAGE_BASE_def)
  moreover have "of_nat f * PAGE mod PAGE = 0"
    using f(1) by (simp add: word_unat_eq_iff unat_mod unat_dir_marco)
  ultimately have "fst (map_page raiz_prueba 0xE0000000 (of_nat f * PAGE) True True (con_espacio\<lparr>fisico := ph\<rparr>))"
    unfolding map_page_def using mundo_okD [OF fisico_mundo(1) [OF con_espacio_mundo f(2,4)]] f(3)
    by (intro map_page_tipo_cabe [where R = "{raiz_prueba}"]) (simp_all add: PAGE_def)
  then obtain v where "map_page raiz_prueba 0xE0000000 (of_nat f * PAGE) True True (con_espacio\<lparr>fisico := ph\<rparr>) = (True, v)"
    by (cases "map_page raiz_prueba 0xE0000000 (of_nat f * PAGE) True True (con_espacio\<lparr>fisico := ph\<rparr>)") auto
  then have "mapea_paginas (de_bloque (of_nat f * PAGE)) raiz_prueba 0xE0000000 [0] (con_espacio\<lparr>fisico := ph\<rparr>) = (None, v)"
    by (simp add: de_bloque_def desplaza_def)
  moreover obtain g c where
    "grant pid KIND_MEMORIA (RIGHT_READ OR RIGHT_WRITE) 0xE0000000 cap_inicial = (g, c)"
    by fastforce
  ultimately show ?thesis
    using al n mem_prueba_slot [OF assms]
    by (cases g) (simp_all add: request_def Let_def MAX_BYTES_def CUENTA_LIBRE_def MAX_PETICIONES_def MAX_CUENTAS_def
        toma_cursor_def MEMORIA_VA_BASE_def del: mapea_paginas.simps)
qed


section \<open>Properties\<close>

text \<open>
  C5: what a request gives. When \<open>request\<close> succeeds its pages are one run of frames that were free
  and are no longer; the handle resolves to the address of the block; every byte of the block
  is, through the page tables of the space and by the account that \<open>MEM_OP_FISICA\<close> reads, the same
  byte of that run; and no user page of any space changes outside the block.
\<close>

theorem request_entrega:
  assumes "mundo_ok R (vm s)" "cuentas_ok s" "cap_ok (caps s)" "aspace \<in> R"
    and "request pid aspace bytes s = (Inr h, s')"
  shows "\<exists>base f n. n = (unat bytes + 4095) div 4096 \<and>
    {f ..< f + n} \<subseteq> libres_de (fisico (vm s)) \<and> libres_de (fisico (vm s')) \<inter> {f ..< f + n} = {} \<and>
    resolve pid h (RIGHT_READ OR RIGHT_WRITE) (caps s') =
      Inr \<lparr>r_kind = KIND_MEMORIA, r_rights = RIGHT_READ OR RIGHT_WRITE, r_object = base\<rparr> \<and>
    (\<forall>k < n * 4096. fisica_exacta (vm s') aspace (base + of_nat k) = Some (of_nat (f * 4096 + k)) \<and>
       fisica_de pid (base + of_nat k) 1 s' = Some (of_nat (f * 4096 + k))) \<and>
    (\<forall>r \<in> R. \<forall>va. en_usuario va \<longrightarrow>
       \<not> (r = aspace \<and> unat base \<le> unat va \<and> unat va < unat base + n * 4096) \<longrightarrow>
       translate (vm s') r va = translate (vm s) r va) \<and>
    mundo_ok R (vm s') \<and> cuentas_ok s'"
proof (rule request_mapeada [OF assms(5) _ assms(2) espacios_okD(1) [OF mundo_okD(1) [OF assms(1)]]])
  fix i s1 f ph v g c base
  assume b: "bytes \<noteq> 0" "\<not> bytes > MAX_BYTES" and sl: "slot_or_new pid s = (Some i, s1)"
    and p: "\<not> c_peticiones (cuentas s1 ! i) \<ge> MAX_PETICIONES"
    and f: "f + unat (n_paginas_de bytes) \<le> MARCOS"
      "{f ..< f + unat (n_paginas_de bytes)} \<subseteq> libres_de (fisico (vm s))"
    and ph: "phys_ok ph" "libres_de ph = libres_de (fisico (vm s)) - {f ..< f + unat (n_paginas_de bytes)}"
    and base: "base = c_cursor (toma_cursor (cuentas s1 ! i))"
    and mp: "mapea_paginas (de_bloque (of_nat f * PAGE)) aspace base (paginas_de (n_paginas_de bytes * PAGE))
       ((vm s)\<lparr>fisico := ph\<rparr>) = (None, v)"
    and gr: "grant pid KIND_MEMORIA (RIGHT_READ OR RIGHT_WRITE) base (caps s) = (g, c)" and c: "caps s' = c"
    and fin: "case g of
       Some h' \<Rightarrow> Inr h = Inr h' \<and> vm s' = v \<and>
         cuentas s' = (cuentas s1)[i := anota_bloque base (of_nat f * PAGE) (n_paginas_de bytes * PAGE)
           (toma_cursor (cuentas s1 ! i))]
     | None \<Rightarrow> Inr h = Inl ERROR_PERMISSION_DENIED \<and>
         vm s' = desmapea_paginas aspace base (paginas_de (n_paginas_de bytes * PAGE)) v \<and>
         cuentas s' = (cuentas s1)[i := toma_cursor (cuentas s1 ! i)]"
  have s': "vm s' = v" "caps s' = c"
      "cuentas s' = (cuentas s1)[i := anota_bloque base (of_nat f * PAGE) (n_paginas_de bytes * PAGE)
       (toma_cursor (cuentas s1 ! i))]" and g: "g = Some h"
    using fin c by (auto split: option.splits)
  define n where "n = (unat bytes + 4095) div 4096"
  note np = n_paginas_de_unat [OF b, folded n_def]
  note so = slot_or_new_Some [OF sl assms(2)]
  note tc = toma_cursor_ok [OF cuentas_ok_nth [OF so(2,1)] p np(3), folded base]
  note m1 = fisico_mundo [OF assms(1) ph(1), unfolded ph(2), OF Diff_subset]
  have mm: "mundo_ok R v" "iguales_fuera R aspace base {..<n} ((vm s)\<lparr>fisico := ph\<rparr>) v"
    "\<And>k. k < n \<Longrightarrow> translate v aspace (desplaza base k) = Some (of_nat (f + k) * PAGE)"
    using mapea_paginas_mundo [OF m1(1) assms(4) tc(2) de_bloque_ok [OF f(1) [unfolded np(1)]],
        of "[0 ..< n]"] mp
    by (auto simp: np(5) de_bloque_def desplaza_marco lessThan_atLeast0)
  have 1: "libres_de (fisico v) \<inter> {f ..< f + n} = {}"
    using mapea_paginas_gasta [of "(vm s)\<lparr>fisico := ph\<rparr>" "de_bloque (of_nat f * PAGE)" aspace base
        "paginas_de (n_paginas_de bytes * PAGE)"] ph mp by (auto simp: np(1))
  have 2: "resolve pid h (RIGHT_READ OR RIGHT_WRITE) c =
      Inr \<lparr>r_kind = KIND_MEMORIA, r_rights = RIGHT_READ OR RIGHT_WRITE, r_object = base\<rparr>"
    using grant_lo_resuelve [OF assms(3), of KIND_MEMORIA pid "RIGHT_READ OR RIGHT_WRITE" base h] gr g
    by (simp add: KIND_MEMORIA_def)
  note 3 = bytes_corridos [OF mm(1) assms(4) tc(2) mm(3)]
  have b0: "base \<noteq> 0" "unat base + n * 4096 < 2 ^ 64"
    using tc(2,5) by (auto simp: ventana_ok_def FIN_USUARIO_def)
  note ab = anota_bloque_ok [OF tc(1) base [symmetric] b0(1), of "n_paginas_de bytes * PAGE" "of_nat f * PAGE"]
  have 4: "fisica_de pid (base + of_nat k) 1 s' = Some (of_nat (f * 4096 + k))" if "k < n * 4096" for k
  proof -
    note u = unat_en_ventana [OF tc(2) that]
    have "posicion_cuenta pid (cuentas s') = Some i"
      using so(1,3,5) by (intro posicion_cuenta_eq) (simp_all add: s'(3) anota_bloque_def toma_cursor_def)
    then have "slot_mem pid s' = Some i"
      using so(4) by (simp add: slot_mem_def)
    then show ?thesis
      using fisica_de_ultimo [OF tc(1) base [symmetric] _ b0(1) u, of "n_paginas_de bytes * PAGE" pid s' i
          "of_nat f * PAGE"] that b0(2) p so(1) tc(3) by (simp add: np(4) [unfolded PAGE_def] s'(3) PAGE_def)
  qed
  have 5: "translate v r va = translate (vm s) r va" if "r \<in> R" "en_usuario va"
    "\<not> (r = aspace \<and> unat base \<le> unat va \<and> unat va < unat base + n * 4096)" for r va
    using iguales_fuera_ventana [OF mm(2) tc(2) that] m1(2) by simp
  have "cuenta_ok (anota_bloque base (of_nat f * PAGE) (n_paginas_de bytes * PAGE) (toma_cursor (cuentas s1 ! i)))"
    using ab p np(3) tc(3) by (simp add: np(4))
  then have 6: "cuentas_ok s'"
    using so(2) by (auto simp: cuentas_ok_def s'(3) dest!: subsetD [OF set_update_subset_insert])
  show ?thesis
    unfolding s'(1,2) using f(2) 1 2 3 4 5 6 mm(1) np(1)
    by (intro exI [of _ base] exI [of _ f] exI [of _ n]) (simp add: n_def)
qed simp

theorem request_entrega_witness:
  "\<exists>h s' base f. request 1 raiz_prueba 100 mem_prueba = (Inr h, s') \<and>
     fisica_exacta (vm s') raiz_prueba (base + of_nat 4095) = Some (of_nat (f * 4096 + 4095)) \<and>
     fisica_de 1 (base + of_nat 4095) 1 s' = Some (of_nat (f * 4096 + 4095))"
proof -
  have "\<exists>h. fst (request 1 raiz_prueba 100 mem_prueba) = Inr h"
    using grant_inicial [of 1 KIND_MEMORIA "RIGHT_READ OR RIGHT_WRITE" "0xE0000000"]
    by (simp add: mem_prueba_request MAX_PROCS_def)
  then obtain h s' where r: "request 1 raiz_prueba 100 mem_prueba = (Inr h, s')"
    by (metis prod.collapse)
  obtain base f n where b: "n = (unat (100 :: u64) + 4095) div 4096"
    "\<forall>k < n * 4096. fisica_exacta (vm s') raiz_prueba (base + of_nat k) = Some (of_nat (f * 4096 + k)) \<and>
       fisica_de 1 (base + of_nat k) 1 s' = Some (of_nat (f * 4096 + k))"
    using request_entrega [OF mem_prueba_ok _ r] by blast
  have "4095 < n * 4096"
    using b(1) by simp
  then show ?thesis
    using r b(2) by blast
qed

text \<open>
  Frames lost when \<open>grant\<close> refuses. A request that ends in \<open>ERROR_PERMISSION_DENIED\<close> took a run of
  free frames and mapped it; it unmaps the pages, but the frames are not given back and no
  account remembers them, so nothing will ever free them.
\<close>

theorem request_denegada:
  assumes "mundo_ok R (vm s)" "cuentas_ok s" "aspace \<in> R"
    and "request pid aspace bytes s = (Inl ERROR_PERMISSION_DENIED, s')"
  shows "\<exists>f n. n = (unat bytes + 4095) div 4096 \<and> 1 \<le> n \<and>
    {f ..< f + n} \<subseteq> libres_de (fisico (vm s)) \<and> libres_de (fisico (vm s')) \<inter> {f ..< f + n} = {} \<and>
    card (libres_de (fisico (vm s'))) + n \<le> card (libres_de (fisico (vm s))) \<and>
    handed_over_by pid s' = handed_over_by pid s"
proof (rule request_mapeada [OF assms(4) _ assms(2) espacios_okD(1) [OF mundo_okD(1) [OF assms(1)]]])
  fix i s1 f ph v g c base
  assume b: "bytes \<noteq> 0" "\<not> bytes > MAX_BYTES" and sl: "slot_or_new pid s = (Some i, s1)"
    and f: "{f ..< f + unat (n_paginas_de bytes)} \<subseteq> libres_de (fisico (vm s))"
    and ph: "phys_ok ph" "libres_de ph = libres_de (fisico (vm s)) - {f ..< f + unat (n_paginas_de bytes)}"
    and mp: "mapea_paginas (de_bloque (of_nat f * PAGE)) aspace base (paginas_de (n_paginas_de bytes * PAGE))
       ((vm s)\<lparr>fisico := ph\<rparr>) = (None, v)"
    and fin: "case g of
       Some h' \<Rightarrow> Inl ERROR_PERMISSION_DENIED = Inr h' \<and> vm s' = v \<and>
         cuentas s' = (cuentas s1)[i := anota_bloque base (of_nat f * PAGE) (n_paginas_de bytes * PAGE)
           (toma_cursor (cuentas s1 ! i))]
     | None \<Rightarrow> Inl ERROR_PERMISSION_DENIED = Inl ERROR_PERMISSION_DENIED \<and>
         vm s' = desmapea_paginas aspace base (paginas_de (n_paginas_de bytes * PAGE)) v \<and>
         cuentas s' = (cuentas s1)[i := toma_cursor (cuentas s1 ! i)]"
  have s': "fisico (vm s') = fisico v" "cuentas s' = (cuentas s1)[i := toma_cursor (cuentas s1 ! i)]"
    using fin by (auto split: option.splits)
  note np = n_paginas_de_unat [OF b]
  let ?n = "(unat bytes + 4095) div 4096"
  have l: "libres_de (fisico v) \<subseteq> libres_de (fisico (vm s)) - {f ..< f + ?n}"
    using mapea_paginas_gasta [of "(vm s)\<lparr>fisico := ph\<rparr>" "de_bloque (of_nat f * PAGE)" aspace base
        "paginas_de (n_paginas_de bytes * PAGE)"] ph mp by (simp add: np(1))
  have fin_l: "finite (libres_de (fisico (vm s)))"
    by (simp add: libres_de_def)
  have "card (libres_de (fisico v)) \<le> card (libres_de (fisico (vm s)) - {f ..< f + ?n})"
    by (rule card_mono [OF _ l]) (simp add: fin_l)
  also have "\<dots> = card (libres_de (fisico (vm s))) - ?n"
    using f by (subst card_Diff_subset) (simp_all add: np(1))
  finally have "card (libres_de (fisico v)) + ?n \<le> card (libres_de (fisico (vm s)))"
    using card_mono [OF fin_l f] by (simp add: np(1))
  moreover have "handed_over_by pid s' = handed_over_by pid s"
    using handed_over_toma [OF sl assms(2) s'(2)] .
  ultimately show ?thesis
    using f l np(1,2) by (intro exI [of _ f] exI [of _ ?n]) (auto simp: s'(1))
qed simp

theorem request_denegada_witness:
  "\<exists>s'. request 16 raiz_prueba 100 mem_prueba = (Inl ERROR_PERMISSION_DENIED, s') \<and>
     card (libres_de (fisico (vm s'))) < card (libres_de (fisico (vm mem_prueba)))"
proof -
  have "fst (request 16 raiz_prueba 100 mem_prueba) = Inl ERROR_PERMISSION_DENIED"
    by (simp add: mem_prueba_request grant_def MAX_PROCS_def)
  then obtain s' where r: "request 16 raiz_prueba 100 mem_prueba = (Inl ERROR_PERMISSION_DENIED, s')"
    by (metis prod.collapse)
  then show ?thesis
    using request_denegada [OF mem_prueba_ok(1,2) _ r] by auto
qed



text \<open>The bytes, by number of address, and those of them that are lent and taken.\<close>

definition bytes_desde :: "u64 \<Rightarrow> u64 \<Rightarrow> nat set" where
  "bytes_desde base n = {unat base ..< unat base + unat n}"

definition bytes_tomados :: "u32 \<Rightarrow> 'a nucleo_scheme \<Rightarrow> nat set" where
  "bytes_tomados pid s =
    (\<Union>q \<in> {q \<in> set (ofertas s). o_viva q \<and> o_owner q = pid \<and> o_tomada q}. bytes_desde (o_origen q) (o_bytes q))"

lemma bytes_tocan:
  assumes "unat a + unat n < 2 ^ 64" "unat b + unat m < 2 ^ 64" "0 < n" "0 < m"
  shows "a < saturating_add b m \<and> b < saturating_add a n \<longleftrightarrow> bytes_desde b m \<inter> bytes_desde a n \<noteq> {}"
proof -
  have "0 < unat n" "0 < unat m"
    using assms(3,4) by (simp_all add: word_less_nat_alt)
  moreover have "a < saturating_add b m \<longleftrightarrow> unat a < unat b + unat m" "b < saturating_add a n \<longleftrightarrow> unat b < unat a + unat n"
    using assms(1,2) by (simp_all add: saturating_add_def word_less_nat_alt unat_add_small)
  ultimately show ?thesis
    by (auto simp: bytes_desde_def)
qed

lemma suelto_iff:
  assumes "unat (b_base b) + unat (b_bytes b) < 2 ^ 64"
    "\<forall>q \<in> set (ofertas s). o_viva q \<and> o_owner q = pid \<and> o_tomada q \<longrightarrow>
      0 < o_bytes q \<and> unat (o_origen q) + unat (o_bytes q) < 2 ^ 64"
  shows "suelto pid b s \<longleftrightarrow> b_base b \<noteq> 0 \<and> b_bytes b \<noteq> 0 \<and>
    bytes_desde (b_base b) (b_bytes b) \<inter> bytes_tomados pid s = {}"
proof (cases "b_bytes b = 0")
  case False
  then have n: "0 < b_bytes b"
    by (simp add: word_neq_0_conv)
  have "hay_prestado_en pid (b_base b) (b_bytes b) s \<longleftrightarrow>
      (\<exists>q \<in> set (ofertas s). (o_viva q \<and> o_owner q = pid \<and> o_tomada q) \<and>
        o_origen q < saturating_add (b_base b) (b_bytes b) \<and> b_base b < saturating_add (o_origen q) (o_bytes q))"
    by (auto simp: hay_prestado_en_def Let_def list_ex_iff)
  also have "\<dots> \<longleftrightarrow> (\<exists>q \<in> set (ofertas s). (o_viva q \<and> o_owner q = pid \<and> o_tomada q) \<and>
        bytes_desde (b_base b) (b_bytes b) \<inter> bytes_desde (o_origen q) (o_bytes q) \<noteq> {})"
    using assms n bytes_tocan by (intro bex_cong refl conj_cong) auto
  also have "\<dots> \<longleftrightarrow> bytes_desde (b_base b) (b_bytes b) \<inter> bytes_tomados pid s \<noteq> {}"
    by (auto simp: bytes_tomados_def)
  finally show ?thesis
    using False by (simp add: suelto_def)
qed (simp add: suelto_def)

text \<open>Only the frames of the blocks that go are cleared.\<close>

lemma fold_suelta_ajena:
  "(\<forall>p \<in> set ps. a \<noteq> desplaza (b_fisica b) p) \<Longrightarrow>
    memoria (fold (\<lambda>p. suelta_marco tick (desplaza (b_fisica b) p)) ps v) a = memoria v a"
proof (induction ps arbitrary: v)
  case (Cons q qs)
  then have "memoria (borra_marco (desplaza (b_fisica b) q) v) a = memoria v a"
    by (subst borra_marco_memoria) simp
  then show ?case
    using Cons by simp
qed simp

lemma fold_muere_ajena:
  "(\<forall>b \<in> set bs. suelto pid b s \<longrightarrow> (\<forall>p < unat (b_bytes b div PAGE). a \<noteq> desplaza (b_fisica b) p)) \<Longrightarrow>
    memoria (vm (fold (muere_bloque tick pid) bs s)) a = memoria (vm s) a"
proof (induction bs arbitrary: s)
  case (Cons c bs)
  have "memoria (vm (muere_bloque tick pid c s)) a = memoria (vm s) a"
    using Cons.prems by (simp add: muere_bloque_eq suelta_bloque_def fold_suelta_ajena)
  moreover have "suelto pid b (muere_bloque tick pid c s) = suelto pid b s" for b
    by (rule suelto_cong) (simp add: muere_bloque_def)
  ultimately show ?case
    using Cons.IH [of "muere_bloque tick pid c s"] Cons.prems by simp
qed simp

text \<open>
  C32: what the end of a process gives back. A block of its account goes when none of its bytes is a byte of a
  loan of the process that was taken; an offer nobody took holds nothing. Exactly the frames of the blocks that go become
  free, each cleared first, no other page of memory changes, and the account is closed. The blocks and the taken
  loans are ranges of addresses that end in 64 bits, and a taken loan is not empty.
\<close>

theorem muerte_exacta:
  assumes "slot_mem pid s = Some i" "s' = process_died_memory tick pid s"
    "\<forall>b \<in> set (c_bloques (cuentas s ! i)). unat (b_base b) + unat (b_bytes b) < 2 ^ 64"
    "\<forall>q \<in> set (ofertas s). o_viva q \<and> o_owner q = pid \<and> o_tomada q \<longrightarrow>
      0 < o_bytes q \<and> unat (o_origen q) + unat (o_bytes q) < 2 ^ 64"
  defines "B \<equiv> {b \<in> set (c_bloques (cuentas s ! i)). b_base b \<noteq> 0 \<and> b_bytes b \<noteq> 0 \<and>
    bytes_desde (b_base b) (b_bytes b) \<inter> bytes_tomados pid s = {}}"
  shows "libres_de (fisico (vm s')) = libres_de (fisico (vm s)) \<union> (\<Union>b \<in> B. marcos_bloque b) \<and>
    (\<forall>b \<in> B. \<forall>f \<in> marcos_bloque b. f \<noteq> 0 \<longrightarrow> memoria (vm s') (of_nat f * PAGE) = (\<lambda>_. 0)) \<and>
    (\<forall>a. (\<forall>b \<in> B. \<forall>p < unat (b_bytes b div PAGE). a \<noteq> desplaza (b_fisica b) p) \<longrightarrow>
      memoria (vm s') a = memoria (vm s) a) \<and>
    cuentas s' = (cuentas s)[i := CUENTA_LIBRE]"
proof -
  let ?bs = "c_bloques (cuentas s ! i)"
  have e: "s' = pon_cuenta i (\<lambda>_. CUENTA_LIBRE) (fold (muere_bloque tick pid) ?bs s)"
    using assms(1,2) by (simp add: process_died_memory_def)
  have B: "B = {b \<in> set ?bs. suelto pid b s}"
    using assms(3) suelto_iff [OF _ assms(4)] by (auto simp: B_def)
  have "memoria (vm s') (of_nat f * PAGE) = (\<lambda>_. 0)" if "b \<in> B" "f \<in> marcos_bloque b" "f \<noteq> 0" for b f
    using fold_muere_borrada [of b ?bs pid s f tick] that by (simp add: e B)
  moreover have "memoria (vm s') a = memoria (vm s) a"
    if "\<forall>b \<in> B. \<forall>p < unat (b_bytes b div PAGE). a \<noteq> desplaza (b_fisica b) p" for a
    using fold_muere_ajena [of ?bs pid s a tick] that by (simp add: e B)
  ultimately show ?thesis
    using fold_muere [where tick = tick and pid = pid and bs = ?bs and s = s] by (simp add: e B)
qed

text \<open>A process with one block, of which a byte is lent and taken, and one it only offered.\<close>

definition mem_dos :: nucleo_mem where
  "mem_dos = mem_prueba
    \<lparr>cuentas := CUENTA_LIBRE\<lparr>c_pid := 1, c_peticiones := 2, c_bloques :=
         [\<lparr>b_base = 0xE0000000, b_fisica = 0x200000, b_bytes = 0x1000\<rparr>,
          \<lparr>b_base = 0xE0001000, b_fisica = 0x300000, b_bytes = 0x1000\<rparr>, SIN_BLOQUE, SIN_BLOQUE]\<rparr>
       # replicate 15 CUENTA_LIBRE,
     ofertas := NOTHING\<lparr>o_viva := True, o_owner := 1, o_tomada := True, o_origen := 0xE0000010,
         o_bytes := 1, o_destino := 2\<rparr>
       # NOTHING\<lparr>o_viva := True, o_owner := 1, o_tomada := False, o_origen := 0xE0001000,
         o_bytes := 16, o_destino := 2\<rparr> # replicate 14 NOTHING\<rparr>"

theorem muerte_exacta_witness:
  "0x300 \<in> libres_de (fisico (vm (process_died_memory 0 1 mem_dos))) \<and>
   memoria (vm (process_died_memory 0 1 mem_dos)) (of_nat 0x300 * PAGE) = (\<lambda>_. 0)"
proof -
  have s: "slot_mem 1 mem_dos = Some 0"
    by (simp add: slot_mem_def mem_dos_def)
  let ?b = "\<lparr>b_base = 0xE0001000, b_fisica = 0x300000, b_bytes = 0x1000\<rparr>"
  have c: "\<forall>b \<in> set (c_bloques (cuentas mem_dos ! 0)). unat (b_base b) + unat (b_bytes b) < 2 ^ 64"
    by (simp add: mem_dos_def SIN_BLOQUE_def)
  have q: "\<forall>q \<in> set (ofertas mem_dos). o_viva q \<and> o_owner q = 1 \<and> o_tomada q \<longrightarrow>
      0 < o_bytes q \<and> unat (o_origen q) + unat (o_bytes q) < 2 ^ 64"
    by (auto simp: mem_dos_def NOTHING_def)
  have "bytes_tomados 1 mem_dos \<subseteq> {0xE0000010}"
    by (auto simp: bytes_tomados_def bytes_desde_def mem_dos_def NOTHING_def)
  then have "bytes_desde 0xE0001000 0x1000 \<inter> bytes_tomados 1 mem_dos = {}"
    by (auto simp: bytes_desde_def)
  then have "?b \<in> {b \<in> set (c_bloques (cuentas mem_dos ! 0)). b_base b \<noteq> 0 \<and> b_bytes b \<noteq> 0 \<and>
      bytes_desde (b_base b) (b_bytes b) \<inter> bytes_tomados 1 mem_dos = {}}"
    by (simp add: mem_dos_def)
  moreover have "desplaza 0x300000 0 = of_nat 0x300 * PAGE"
    by (simp add: desplaza_def PAGE_def)
  then have "0x300 \<in> marcos_bloque ?b"
    unfolding marcos_bloque_def using indice_marco_dir [of "0x300"]
    by (auto intro!: exI [of _ 0] simp: PAGE_def MARCOS_def)
  ultimately show ?thesis
    using muerte_exacta [OF s refl c q, where tick = 0] by (elim conjE) (metis (no_types, lifting) UnI2 UN_I zero_neq_numeral)
qed

end
