(* ===== verification/Cola.thy ===== *)
theory Cola
  imports Prelude
begin

text \<open>
  \<open>platform/shared/bmo-cola/src/lib.rs\<close>: the queue between one producer and one consumer, a ring of
  \<open>N\<close> places of which one stays empty. First the operations one at a time, refining a bounded
  queue; then both sides at once, one atomic access per step.

  \<open>Release\<close> stores and \<open>Acquire\<close> loads of the two indices order the accesses to the data as the
  program order of each side does, so the steps interleave on one memory.
\<close>

section \<open>The operations\<close>

record 'a cola =
  datos :: "'a list"
  lee :: nat
  escribe_en :: nat
  perdidos :: u32

definition nueva :: "nat \<Rightarrow> 'a \<Rightarrow> 'a cola" where
  "nueva n vacio = \<lparr>datos = replicate n vacio, lee = 0, escribe_en = 0, perdidos = 0\<rparr>"

abbreviation plazas :: "'a cola \<Rightarrow> nat" where
  "plazas c \<equiv> length (datos c)"

definition empujar :: "'a \<Rightarrow> 'a cola \<Rightarrow> bool \<times> 'a cola" where
  "empujar v c =
    (let e = escribe_en c; siguiente = (e + 1) mod plazas c in
     if siguiente = lee c then (False, c\<lparr>perdidos := perdidos c + 1\<rparr>)
     else (True, c\<lparr>datos := (datos c)[e := v], escribe_en := siguiente\<rparr>))"

definition sacar :: "'a cola \<Rightarrow> 'a option \<times> 'a cola" where
  "sacar c =
    (let l = lee c in
     if l = escribe_en c then (None, c)
     else (Some (datos c ! l), c\<lparr>lee := (l + 1) mod plazas c\<rparr>))"

definition cuantos :: "'a cola \<Rightarrow> nat" where
  "cuantos c =
    (let l = lee c; e = escribe_en c in if e \<ge> l then e - l else plazas c - l + e)"

definition vaciar :: "'a cola \<Rightarrow> nat \<times> 'a cola" where
  "vaciar c = (cuantos c, c\<lparr>lee := escribe_en c\<rparr>)"

section \<open>A bounded queue\<close>

text \<open>What the users of a queue rely on: a list, at most \<open>cap\<close> long.\<close>

locale cola_acotada =
  fixes contenido :: "'q \<Rightarrow> 'a list"
    and ok :: "'q \<Rightarrow> bool"
    and cap :: "'q \<Rightarrow> nat"
    and meter :: "'a \<Rightarrow> 'q \<Rightarrow> bool \<times> 'q"
    and quitar :: "'q \<Rightarrow> 'a option \<times> 'q"
  assumes meter_ok: "ok q \<Longrightarrow> ok (snd (meter x q)) \<and> cap (snd (meter x q)) = cap q"
    and quitar_ok: "ok q \<Longrightarrow> ok (snd (quitar q)) \<and> cap (snd (quitar q)) = cap q"
    and meter_abs: "ok q \<Longrightarrow>
      fst (meter x q) = (length (contenido q) < cap q) \<and>
      contenido (snd (meter x q)) = (if length (contenido q) < cap q then contenido q @ [x] else contenido q)"
    and quitar_abs: "ok q \<Longrightarrow>
      fst (quitar q) = (case contenido q of [] \<Rightarrow> None | x # xs \<Rightarrow> Some x) \<and>
      contenido (snd (quitar q)) = tl (contenido q)"
begin

text \<open>A history: what went in, what came out.\<close>

fun corre :: "'a option list \<Rightarrow> 'q \<Rightarrow> 'a list \<times> 'a list \<times> 'q" where
  "corre [] q = ([], [], q)"
| "corre (Some x # os) q =
    (let (b, q1) = meter x q; (ms, ss, q2) = corre os q1 in (if b then x # ms else ms, ss, q2))"
| "corre (None # os) q =
    (let (r, q1) = quitar q; (ms, ss, q2) = corre os q1
     in (ms, case r of None \<Rightarrow> ss | Some x \<Rightarrow> x # ss, q2))"

lemma corre_fifo:
  "ok q \<Longrightarrow> corre os q = (ms, ss, q') \<Longrightarrow> contenido q @ ms = ss @ contenido q' \<and> ok q'"
proof (induction os q arbitrary: ms ss q' rule: corre.induct)
  case (2 x os q)
  obtain b q1 where m: "meter x q = (b, q1)" by fastforce
  obtain ms1 ss1 where c: "corre os q1 = (ms1, ss1, q')" "ss = ss1" "ms = (if b then x # ms1 else ms1)"
    using 2(3) m by (auto split: prod.splits)
  have "contenido q1 @ ms1 = ss1 @ contenido q' \<and> ok q'"
    using 2(1) [OF m [symmetric] refl, of ms1 ss1 q'] c(1) meter_ok [OF 2(2), of x] m by simp
  then show ?case
    using meter_abs [OF 2(2), of x] m c by (auto split: if_splits)
next
  case (3 os q)
  obtain r q1 where m: "quitar q = (r, q1)" by fastforce
  obtain ms1 ss1 where c: "corre os q1 = (ms1, ss1, q')" "ms = ms1"
    "ss = (case r of None \<Rightarrow> ss1 | Some x \<Rightarrow> x # ss1)"
    using 3(3) m by (auto split: prod.splits)
  have "contenido q1 @ ms1 = ss1 @ contenido q' \<and> ok q'"
    using 3(1) [OF m [symmetric] refl, of ms1 ss1 q'] c(1) quitar_ok [OF 3(2)] m by simp
  then show ?case
    using quitar_abs [OF 3(2)] m c by (cases "contenido q") (auto split: option.splits)
qed simp

end

text \<open>The ring: its indices in range, its content from \<open>lee\<close> up to \<open>escribe\<close> around the ring.\<close>

definition cola_ok :: "'a cola \<Rightarrow> bool" where
  "cola_ok c \<longleftrightarrow> lee c < plazas c \<and> escribe_en c < plazas c"

definition contenido_cola :: "'a cola \<Rightarrow> 'a list" where
  "contenido_cola c = map (\<lambda>i. datos c ! ((lee c + i) mod plazas c)) [0 ..< cuantos c]"

lemma length_contenido [simp]: "length (contenido_cola c) = cuantos c"
  by (simp add: contenido_cola_def)

lemma perdidos_cola [simp]:
  "cuantos (c\<lparr>perdidos := x\<rparr>) = cuantos c" "contenido_cola (c\<lparr>perdidos := x\<rparr>) = contenido_cola c"
  by (simp_all add: cuantos_def contenido_cola_def Let_def)

lemma cuantos_less: "cola_ok c \<Longrightarrow> cuantos c < plazas c"
  by (auto simp: cuantos_def cola_ok_def Let_def)

lemma escribe_cuantos: "cola_ok c \<Longrightarrow> escribe_en c = (lee c + cuantos c) mod plazas c"
  by (auto simp: cuantos_def cola_ok_def Let_def)

lemma indice_anillo:
  assumes "(a :: nat) < n" "i < n" "j < n"
  shows "(a + i) mod n = (a + j) mod n \<longleftrightarrow> i = j"
  using assms by (auto simp: mod_if split: if_splits)

lemma llena_iff:
  assumes "cola_ok c"
  shows "(escribe_en c + 1) mod plazas c = lee c \<longleftrightarrow> cuantos c = plazas c - 1"
proof -
  have n: "0 < plazas c" "cuantos c < plazas c"
    using assms cuantos_less [OF assms] by (auto simp: cola_ok_def)
  have "(escribe_en c + 1) mod plazas c = (lee c + (cuantos c + 1)) mod plazas c"
    unfolding escribe_cuantos [OF assms] by (simp add: mod_simps)
  moreover have "lee c = (lee c + 0) mod plazas c"
    using assms by (simp add: cola_ok_def)
  ultimately show ?thesis
    using n assms indice_anillo [of "lee c" "plazas c" "cuantos c + 1" 0]
    by (cases "cuantos c + 1 = plazas c") (auto simp: cola_ok_def)
qed

lemma empujar_abs:
  assumes "cola_ok c"
  shows "cola_ok (snd (empujar v c)) \<and> plazas (snd (empujar v c)) = plazas c \<and>
    fst (empujar v c) = (cuantos c < plazas c - 1) \<and>
    contenido_cola (snd (empujar v c)) =
      (if cuantos c < plazas c - 1 then contenido_cola c @ [v] else contenido_cola c)"
proof (cases "(escribe_en c + 1) mod plazas c = lee c")
  case True
  then show ?thesis
    using assms llena_iff [OF assms]
    by (simp add: empujar_def cola_ok_def)
next
  case False
  then have n: "cuantos c < plazas c - 1" "0 < plazas c"
    using assms llena_iff [OF assms] cuantos_less [OF assms] by (auto simp: cola_ok_def)
  let ?d = "c\<lparr>datos := (datos c)[escribe_en c := v], escribe_en := (escribe_en c + 1) mod plazas c\<rparr>"
  have ok: "cola_ok ?d"
    using assms n by (simp add: cola_ok_def)
  have q: "cuantos ?d = cuantos c + 1"
  proof -
    have "(lee c + cuantos ?d) mod plazas c = (lee c + (cuantos c + 1)) mod plazas c"
      using escribe_cuantos [OF ok] escribe_cuantos [OF assms] by (simp add: mod_simps)
    then show ?thesis
      using indice_anillo [of "lee c" "plazas c" "cuantos ?d" "cuantos c + 1"] assms n cuantos_less [OF ok]
      by (simp add: cola_ok_def)
  qed
  have "(datos c)[escribe_en c := v] ! ((lee c + i) mod plazas c) =
      (if i = cuantos c then v else datos c ! ((lee c + i) mod plazas c))" if "i < cuantos c + 1" for i
  proof -
    have "i < plazas c" "cuantos c < plazas c"
      using that n by simp_all
    then show ?thesis
      using indice_anillo [of "lee c" "plazas c" i "cuantos c"] assms escribe_cuantos [OF assms]
      by (auto simp: cola_ok_def)
  qed
  then have "contenido_cola ?d = contenido_cola c @ [v]"
    unfolding contenido_cola_def q by simp
  then show ?thesis
    using False n ok by (simp add: empujar_def Let_def)
qed

lemma sacar_abs:
  assumes "cola_ok c"
  shows "cola_ok (snd (sacar c)) \<and> plazas (snd (sacar c)) = plazas c \<and>
    fst (sacar c) = (case contenido_cola c of [] \<Rightarrow> None | x # xs \<Rightarrow> Some x) \<and>
    contenido_cola (snd (sacar c)) = tl (contenido_cola c)"
proof (cases "lee c = escribe_en c")
  case True
  then have "contenido_cola c = []"
    by (simp add: contenido_cola_def cuantos_def)
  then show ?thesis
    using True assms by (simp add: sacar_def)
next
  case False
  then obtain k where k: "cuantos c = Suc k"
    using escribe_cuantos [OF assms] assms by (cases "cuantos c") (auto simp: cola_ok_def)
  let ?d = "c\<lparr>lee := (lee c + 1) mod plazas c\<rparr>"
  have n: "0 < plazas c" "Suc k < plazas c"
    using assms cuantos_less [OF assms] k by (auto simp: cola_ok_def)
  have ok: "cola_ok ?d"
    using assms n by (simp add: cola_ok_def)
  have q: "cuantos ?d = k"
  proof -
    have "(lee c + (1 + cuantos ?d)) mod plazas c = (lee c + (1 + k)) mod plazas c"
      using escribe_cuantos [OF ok] escribe_cuantos [OF assms] k by (simp add: mod_simps add.assoc)
    moreover have "1 + cuantos ?d \<noteq> plazas c"
    proof
      assume "1 + cuantos ?d = plazas c"
      then have "(lee c + (1 + k)) mod plazas c = (lee c + 0) mod plazas c"
        using calculation by simp
      then show False
        using indice_anillo [of "lee c" "plazas c" "1 + k" 0] assms n by (simp add: cola_ok_def)
    qed
    moreover have "1 + cuantos ?d \<le> plazas c"
      using cuantos_less [OF ok] by simp
    ultimately have "1 + cuantos ?d = 1 + k"
      using indice_anillo [of "lee c" "plazas c" "1 + cuantos ?d" "1 + k"] assms n by (simp add: cola_ok_def)
    then show ?thesis
      by simp
  qed
  have "contenido_cola c = datos c ! lee c # contenido_cola ?d"
    using assms unfolding contenido_cola_def k q map_upt_Suc by (simp add: cola_ok_def mod_simps)
  then show ?thesis
    using False ok by (simp add: sacar_def Let_def)
qed

interpretation anillo: cola_acotada contenido_cola cola_ok "\<lambda>c. plazas c - 1" empujar sacar
  by unfold_locales (simp_all add: empujar_abs sacar_abs)

section \<open>Both sides at once\<close>

text \<open>
  Where each side is inside its operation. The producer: before \<open>empujar\<close>, with \<open>e\<close> loaded, with
  room seen, with the place written. The consumer: before \<open>sacar\<close> or \<open>vaciar\<close>, with \<open>l\<close> loaded,
  with something seen, with the value read; or with both indices loaded by \<open>vaciar\<close>.
\<close>

datatype 'a productor = PFuera | PIndice 'a nat | PSitio 'a nat | PEscrito 'a nat
datatype 'a consumidor = CFuera | CIndice nat | CHay nat | CValor nat 'a | CVacia nat | CVaciado nat nat

text \<open>\<open>metidos\<close> are the values of the calls of \<open>empujar\<close> that answered true, \<open>salidos\<close> what left the
  queue, in the order in which each happened; \<open>devueltos\<close> are the answers of \<open>sacar\<close>.\<close>

record 'a doble =
  cola_de :: "'a cola"
  prod_en :: "'a productor"
  cons_en :: "'a consumidor"
  metidos :: "'a list"
  salidos :: "'a list"

abbreviation siguiente_de :: "'a doble \<Rightarrow> nat \<Rightarrow> nat" where
  "siguiente_de s i \<equiv> (i + 1) mod plazas (cola_de s)"

inductive paso_cola :: "'a doble \<Rightarrow> 'a doble \<Rightarrow> bool" where
  p_indice: "prod_en s = PFuera \<Longrightarrow>
    paso_cola s (s\<lparr>prod_en := PIndice v (escribe_en (cola_de s))\<rparr>)"
| p_llena: "prod_en s = PIndice v e \<Longrightarrow> siguiente_de s e = lee (cola_de s) \<Longrightarrow>
    paso_cola s (s\<lparr>prod_en := PFuera, cola_de := (cola_de s)\<lparr>perdidos := perdidos (cola_de s) + 1\<rparr>\<rparr>)"
| p_sitio: "prod_en s = PIndice v e \<Longrightarrow> siguiente_de s e \<noteq> lee (cola_de s) \<Longrightarrow>
    paso_cola s (s\<lparr>prod_en := PSitio v e\<rparr>)"
| p_dato: "prod_en s = PSitio v e \<Longrightarrow>
    paso_cola s (s\<lparr>prod_en := PEscrito v e, cola_de := (cola_de s)\<lparr>datos := (datos (cola_de s))[e := v]\<rparr>\<rparr>)"
| p_publica: "prod_en s = PEscrito v e \<Longrightarrow>
    paso_cola s (s\<lparr>prod_en := PFuera, cola_de := (cola_de s)\<lparr>escribe_en := siguiente_de s e\<rparr>,
                   metidos := metidos s @ [v]\<rparr>)"
| c_indice: "cons_en s = CFuera \<Longrightarrow>
    paso_cola s (s\<lparr>cons_en := CIndice (lee (cola_de s))\<rparr>)"
| c_nada: "cons_en s = CIndice l \<Longrightarrow> l = escribe_en (cola_de s) \<Longrightarrow>
    paso_cola s (s\<lparr>cons_en := CFuera\<rparr>)"
| c_hay: "cons_en s = CIndice l \<Longrightarrow> l \<noteq> escribe_en (cola_de s) \<Longrightarrow>
    paso_cola s (s\<lparr>cons_en := CHay l\<rparr>)"
| c_dato: "cons_en s = CHay l \<Longrightarrow>
    paso_cola s (s\<lparr>cons_en := CValor l (datos (cola_de s) ! l)\<rparr>)"
| c_publica: "cons_en s = CValor l v \<Longrightarrow>
    paso_cola s (s\<lparr>cons_en := CFuera, cola_de := (cola_de s)\<lparr>lee := siguiente_de s l\<rparr>,
                   salidos := salidos s @ [v]\<rparr>)"
| v_indice: "cons_en s = CFuera \<Longrightarrow>
    paso_cola s (s\<lparr>cons_en := CVacia (lee (cola_de s))\<rparr>)"
| v_escribe: "cons_en s = CVacia l \<Longrightarrow>
    paso_cola s (s\<lparr>cons_en := CVaciado l (escribe_en (cola_de s))\<rparr>)"
| v_publica: "cons_en s = CVaciado l e \<Longrightarrow>
    n = (if e \<ge> l then e - l else plazas (cola_de s) - l + e) \<Longrightarrow>
    paso_cola s (s\<lparr>cons_en := CFuera, cola_de := (cola_de s)\<lparr>lee := e\<rparr>,
                   salidos := salidos s @ take n (contenido_cola (cola_de s))\<rparr>)"

inductive_cases paso_colaE: "paso_cola s s'"

text \<open>What each side knows while the other moves.\<close>

fun prod_ok :: "'a productor \<Rightarrow> 'a cola \<Rightarrow> bool" where
  "prod_ok PFuera c = True"
| "prod_ok (PIndice v e) c = (e = escribe_en c)"
| "prod_ok (PSitio v e) c = (e = escribe_en c \<and> cuantos c < plazas c - 1)"
| "prod_ok (PEscrito v e) c = (e = escribe_en c \<and> cuantos c < plazas c - 1 \<and> datos c ! e = v)"

fun cons_ok :: "'a consumidor \<Rightarrow> 'a cola \<Rightarrow> bool" where
  "cons_ok CFuera c = True"
| "cons_ok (CIndice l) c = (l = lee c)"
| "cons_ok (CHay l) c = (l = lee c \<and> contenido_cola c \<noteq> [])"
| "cons_ok (CValor l v) c = (l = lee c \<and> contenido_cola c \<noteq> [] \<and> v = hd (contenido_cola c))"
| "cons_ok (CVacia l) c = (l = lee c)"
| "cons_ok (CVaciado l e) c = (l = lee c \<and> e < plazas c \<and>
     (if e \<ge> l then e - l else plazas c - l + e) \<le> cuantos c)"

definition doble_ok :: "'a doble \<Rightarrow> bool" where
  "doble_ok s \<longleftrightarrow> cola_ok (cola_de s) \<and> prod_ok (prod_en s) (cola_de s) \<and> cons_ok (cons_en s) (cola_de s) \<and>
     metidos s = salidos s @ contenido_cola (cola_de s)"

lemma hd_contenido: "cola_ok c \<Longrightarrow> contenido_cola c \<noteq> [] \<Longrightarrow> hd (contenido_cola c) = datos c ! lee c"
  by (cases "cuantos c") (auto simp: contenido_cola_def cola_ok_def map_upt_Suc simp del: upt_Suc)

lemma contenido_vacio_iff: "cola_ok c \<Longrightarrow> contenido_cola c = [] \<longleftrightarrow> lee c = escribe_en c"
  by (auto simp: contenido_cola_def cuantos_def cola_ok_def Let_def)

text \<open>Writing the free place changes no content; publishing it adds the value.\<close>

lemma contenido_dato:
  assumes "cola_ok c"
  shows "contenido_cola (c\<lparr>datos := (datos c)[escribe_en c := v]\<rparr>) = contenido_cola c"
    "cuantos (c\<lparr>datos := (datos c)[escribe_en c := v]\<rparr>) = cuantos c"
proof -
  show q: "cuantos (c\<lparr>datos := (datos c)[escribe_en c := v]\<rparr>) = cuantos c"
    by (simp add: cuantos_def Let_def)
  have "escribe_en c \<noteq> (lee c + i) mod plazas c" if "i < cuantos c" for i
    using indice_anillo [of "lee c" "plazas c" i "cuantos c"] that assms escribe_cuantos [OF assms]
      cuantos_less [OF assms] by (auto simp: cola_ok_def)
  then show "contenido_cola (c\<lparr>datos := (datos c)[escribe_en c := v]\<rparr>) = contenido_cola c"
    unfolding contenido_cola_def q by (intro map_cong) simp_all
qed

lemma contenido_publica:
  assumes "cola_ok c" "cuantos c < plazas c - 1"
  defines "d \<equiv> c\<lparr>escribe_en := (escribe_en c + 1) mod plazas c\<rparr>"
  shows "cola_ok d" "contenido_cola d = contenido_cola c @ [datos c ! escribe_en c]" "cuantos d = cuantos c + 1"
proof -
  have "(escribe_en c + 1) mod plazas c \<noteq> lee c"
    using llena_iff [OF assms(1)] assms(2) by simp
  moreover have "(datos c)[escribe_en c := datos c ! escribe_en c] = datos c"
    by simp
  ultimately have "empujar (datos c ! escribe_en c) c = (True, d)"
    by (simp add: empujar_def d_def Let_def)
  then show "cola_ok d" "contenido_cola d = contenido_cola c @ [datos c ! escribe_en c]"
    using empujar_abs [OF assms(1), of "datos c ! escribe_en c"] assms(2) by simp_all
  then show "cuantos d = cuantos c + 1"
    using length_contenido [of d] by simp
qed

lemma contenido_saca:
  assumes "cola_ok c" "contenido_cola c \<noteq> []"
  defines "d \<equiv> c\<lparr>lee := (lee c + 1) mod plazas c\<rparr>"
  shows "cola_ok d" "contenido_cola d = tl (contenido_cola c)" "cuantos d = cuantos c - 1"
proof -
  have "snd (sacar c) = d"
    using assms contenido_vacio_iff [OF assms(1)] by (simp add: sacar_def d_def Let_def)
  then show "cola_ok d" "contenido_cola d = tl (contenido_cola c)"
    using sacar_abs [OF assms(1)] by simp_all
  then show "cuantos d = cuantos c - 1"
    using length_contenido [of d] by simp
qed

text \<open>\<open>vaciar\<close> with the end it loaded, which may be an older one.\<close>

lemma contenido_vacia:
  assumes "cola_ok c" "e < plazas c" "n = (if e \<ge> lee c then e - lee c else plazas c - lee c + e)" "n \<le> cuantos c"
  defines "d \<equiv> c\<lparr>lee := e\<rparr>"
  shows "cola_ok d" "contenido_cola d = drop n (contenido_cola c)" "cuantos d = cuantos c - n"
proof -
  have e: "e = (lee c + n) mod plazas c"
    using assms(1-3) by (auto simp: cola_ok_def)
  show ok: "cola_ok d"
    using assms(1,2) by (simp add: cola_ok_def d_def)
  have p: "plazas d = plazas c" "lee d = e" "escribe_en d = escribe_en c" "datos d = datos c"
    by (simp_all add: d_def)
  obtain r where r: "cuantos c = n + r"
    using assms(4) le_Suc_ex by blast
  have "(e + cuantos d) mod plazas c = (e + (cuantos c - n)) mod plazas c"
    using escribe_cuantos [OF ok] escribe_cuantos [OF assms(1)]
    unfolding p r by (simp add: e mod_simps add.assoc)
  then show q: "cuantos d = cuantos c - n"
    using indice_anillo [of e "plazas c" "cuantos d" "cuantos c - n"] assms(2) cuantos_less [OF ok]
      cuantos_less [OF assms(1)] by (simp add: p)
  show "contenido_cola d = drop n (contenido_cola c)"
    unfolding contenido_cola_def q p r
    by (rule nth_equalityI) (simp_all add: e mod_simps add.assoc)
qed

lemma prod_ok_lee:
  assumes "prod_ok p c" "plazas d = plazas c" "escribe_en d = escribe_en c" "datos d = datos c"
    "cuantos d \<le> cuantos c"
  shows "prod_ok p d"
  using assms by (cases p) simp_all

lemma cons_ok_crece:
  assumes "cons_ok q c" "plazas d = plazas c" "lee d = lee c" "contenido_cola d = contenido_cola c @ xs"
  shows "cons_ok q d"
proof -
  have "cuantos c \<le> cuantos d"
    using arg_cong [OF assms(4), of length] by simp
  then show ?thesis
    using assms by (cases q) (auto split: if_splits)
qed

lemma paso_cola_ok: "paso_cola s s' \<Longrightarrow> doble_ok s \<Longrightarrow> doble_ok s'"
proof (induction rule: paso_cola.induct)
  case (p_sitio s v e)
  then have c: "cola_ok (cola_de s)" "e = escribe_en (cola_de s)"
    by (simp_all add: doble_ok_def)
  have "cuantos (cola_de s) \<noteq> plazas (cola_de s) - 1"
    using p_sitio(2) llena_iff [OF c(1)] unfolding c(2) by blast
  then show ?case
    using p_sitio(3) c cuantos_less [OF c(1)] by (simp add: doble_ok_def)
next
  case (p_llena s v e)
  have c: "cons_ok (cons_en s) (cola_de s)" "cola_ok (cola_de s)"
    "metidos s = salidos s @ contenido_cola (cola_de s)"
    using p_llena(3) by (simp_all add: doble_ok_def)
  have "cons_ok (cons_en s) ((cola_de s)\<lparr>perdidos := perdidos (cola_de s) + 1\<rparr>)"
    by (rule cons_ok_crece [OF c(1), where xs = "[]"]) simp_all
  then show ?case
    using c(2,3) by (simp add: doble_ok_def cola_ok_def)
next
  case (p_dato s v e)
  then have c: "cola_ok (cola_de s)" "e = escribe_en (cola_de s)" "cuantos (cola_de s) < plazas (cola_de s) - 1"
    and k: "cons_ok (cons_en s) (cola_de s)" "metidos s = salidos s @ contenido_cola (cola_de s)"
    by (simp_all add: doble_ok_def)
  have "cons_ok (cons_en s) ((cola_de s)\<lparr>datos := (datos (cola_de s))[escribe_en (cola_de s) := v]\<rparr>)"
    by (rule cons_ok_crece [OF k(1), where xs = "[]"]) (simp_all add: contenido_dato(1) [OF c(1)])
  then show ?case
    using c k(2) contenido_dato [OF c(1), of v] by (simp add: doble_ok_def cola_ok_def)
next
  case (p_publica s v e)
  then have c: "cola_ok (cola_de s)" "e = escribe_en (cola_de s)" "cuantos (cola_de s) < plazas (cola_de s) - 1"
    "v = datos (cola_de s) ! e"
    and k: "cons_ok (cons_en s) (cola_de s)" "metidos s = salidos s @ contenido_cola (cola_de s)"
    by (auto simp: doble_ok_def)
  note d = contenido_publica [OF c(1,3), folded c(2)]
  have "cons_ok (cons_en s) ((cola_de s)\<lparr>escribe_en := (e + 1) mod plazas (cola_de s)\<rparr>)"
    by (rule cons_ok_crece [OF k(1), where xs = "[v]"]) (simp_all add: d(2) [simplified] c(4))
  then show ?case
    using k(2) d by (simp add: doble_ok_def c(4))
next
  case (c_hay s l)
  then show ?case
    using contenido_vacio_iff [of "cola_de s"] by (auto simp: doble_ok_def)
next
  case (c_dato s l)
  then show ?case
    using hd_contenido [of "cola_de s"] by (auto simp: doble_ok_def)
next
  case (c_publica s l v)
  then have c: "cola_ok (cola_de s)" "contenido_cola (cola_de s) \<noteq> []" "l = lee (cola_de s)"
    "v = hd (contenido_cola (cola_de s))"
    and k: "prod_ok (prod_en s) (cola_de s)" "metidos s = salidos s @ contenido_cola (cola_de s)"
    by (simp_all add: doble_ok_def)
  note d = contenido_saca [OF c(1,2), folded c(3)]
  have "prod_ok (prod_en s) ((cola_de s)\<lparr>lee := (l + 1) mod plazas (cola_de s)\<rparr>)"
    by (rule prod_ok_lee [OF k(1)]) (simp_all add: d(3) [simplified])
  moreover have "metidos s = (salidos s @ [v]) @ tl (contenido_cola (cola_de s))"
    using k(2) c(2,4) by simp
  ultimately show ?case
    using d by (simp add: doble_ok_def)
next
  case (v_escribe s l)
  then show ?case
    by (auto simp: doble_ok_def cuantos_def cola_ok_def Let_def)
next
  case (v_publica s l e n)
  then have c: "cola_ok (cola_de s)" "l = lee (cola_de s)" "e < plazas (cola_de s)" "n \<le> cuantos (cola_de s)"
    and k: "prod_ok (prod_en s) (cola_de s)" "metidos s = salidos s @ contenido_cola (cola_de s)"
    by (auto simp: doble_ok_def split: if_splits)
  note d = contenido_vacia [OF c(1,3) v_publica(2) [unfolded c(2)] c(4)]
  have "prod_ok (prod_en s) ((cola_de s)\<lparr>lee := e\<rparr>)"
    by (rule prod_ok_lee [OF k(1)]) (simp_all add: d(3) [simplified])
  moreover have "metidos s = (salidos s @ take n (contenido_cola (cola_de s))) @ drop n (contenido_cola (cola_de s))"
    using k(2) by simp
  ultimately show ?case
    using d by (simp add: doble_ok_def)
qed (auto simp: doble_ok_def)

section \<open>Properties\<close>

definition inicio_doble :: "nat \<Rightarrow> 'a \<Rightarrow> 'a doble" where
  "inicio_doble n vacio =
    \<lparr>cola_de = nueva n vacio, prod_en = PFuera, cons_en = CFuera, metidos = [], salidos = []\<rparr>"

text \<open>
  C6: one producer and one consumer lose nothing and repeat nothing. However the accesses of the
  two sides interleave, what left the queue is, in order, the beginning of what \<open>empujar\<close>
  accepted, and the rest is in the ring, at most \<open>N - 1\<close> values.
\<close>

theorem cola_sin_perdidas:
  assumes "0 < n" "paso_cola\<^sup>*\<^sup>* (inicio_doble n vacio) s"
  shows "metidos s = salidos s @ contenido_cola (cola_de s) \<and> length (contenido_cola (cola_de s)) \<le> n - 1 \<and>
    plazas (cola_de s) = n"
proof -
  have "contenido_cola (nueva n vacio) = []"
    by (simp add: contenido_cola_def nueva_def cuantos_def)
  then have i: "doble_ok (inicio_doble n vacio)" "plazas (cola_de (inicio_doble n vacio)) = n"
    using assms(1) by (simp_all add: inicio_doble_def doble_ok_def cola_ok_def nueva_def)
  from assms(2) have "doble_ok s \<and> plazas (cola_de s) = n"
  proof (induction rule: rtranclp_induct)
    case (step s s')
    then show ?case
      using paso_cola_ok [OF step(2)] by (auto elim!: paso_colaE)
  qed (use i in simp)
  then show ?thesis
    using cuantos_less [of "cola_de s"] by (auto simp: doble_ok_def)
qed

theorem cola_sin_perdidas_witness:
  "\<exists>s. paso_cola\<^sup>*\<^sup>* (inicio_doble 4 0) s \<and> metidos s = [7 :: nat] \<and> salidos s = [] \<and>
     contenido_cola (cola_de s) = [7]"
proof -
  let ?d = "\<lambda>p xs e ms. \<lparr>cola_de = \<lparr>datos = xs, lee = 0, escribe_en = e, perdidos = 0\<rparr>, prod_en = p,
    cons_en = CFuera, metidos = ms, salidos = []\<rparr>"
  let ?s0 = "?d PFuera [0, 0, 0, 0] 0 []" and ?s4 = "?d PFuera [7, 0, 0, 0] 1 [7 :: nat]"
  have "replicate 4 (0 :: nat) = [0, 0, 0, 0]"
    by (simp add: numeral_eq_Suc)
  then have i: "inicio_doble 4 (0 :: nat) = ?s0"
    by (simp add: inicio_doble_def nueva_def)
  have t1: "paso_cola ?s0 (?d (PIndice 7 0) [0, 0, 0, 0] 0 [])"
    using paso_cola.p_indice [of ?s0 7] by simp
  have t2: "paso_cola (?d (PIndice 7 0) [0, 0, 0, 0] 0 []) (?d (PSitio 7 0) [0, 0, 0, 0] 0 [])"
    using paso_cola.p_sitio [of "?d (PIndice 7 0) [0, 0, 0, 0] 0 []" 7 0] by simp
  have t3: "paso_cola (?d (PSitio 7 0) [0, 0, 0, 0] 0 []) (?d (PEscrito 7 0) [7, 0, 0, 0] 0 [])"
    using paso_cola.p_dato [of "?d (PSitio 7 0) [0, 0, 0, 0] 0 []" 7 0] by simp
  have t4: "paso_cola (?d (PEscrito 7 0) [7, 0, 0, 0] 0 []) ?s4"
    using paso_cola.p_publica [of "?d (PEscrito 7 0) [7, 0, 0, 0] 0 []" 7 0] by simp
  note conv = converse_rtranclp_into_rtranclp [where r = paso_cola]
  have r: "paso_cola\<^sup>*\<^sup>* (inicio_doble 4 (0 :: nat)) ?s4"
    unfolding i by (rule conv [OF t1 conv [OF t2 conv [OF t3 conv [OF t4 rtranclp.rtrancl_refl]]]])
  have "metidos ?s4 = salidos ?s4 @ contenido_cola (cola_de ?s4)"
    by (rule conjunct1 [OF cola_sin_perdidas [OF _ r]]) simp
  then show ?thesis
    using r by (intro exI [of _ ?s4]) simp
qed

end
