(* ===== verification/Bytes.thy ===== *)
theory Bytes
  imports Prelude
begin

text \<open>
  Bytes of a structure on disk: little-endian numbers (\<open>to_le_bytes\<close>, \<open>from_le_bytes\<close>), a piece
  of a slice (\<open>b[i..i+n]\<close>), an array with a piece replaced (\<open>copy_from_slice\<close>) and Rust's
  \<open>str::from_utf8\<close>. The ranges are constants inside arrays of constant length wherever these are
  used, or have been checked before; a slice that may not fit is an \<open>option\<close> at its own place.
\<close>

named_theorems bytes_simps \<comment> \<open>reading a piece of an array after writing another\<close>

section \<open>Pieces of an array\<close>

definition rodaja :: "nat \<Rightarrow> nat \<Rightarrow> 'a list \<Rightarrow> 'a list" where
  "rodaja i n b = take n (drop i b)"

definition parche :: "nat \<Rightarrow> 'a list \<Rightarrow> 'a list \<Rightarrow> 'a list" where
  "parche i xs b = take i b @ xs @ drop (i + length xs) b"

lemma length_rodaja [bytes_simps]: "i + n \<le> length b \<Longrightarrow> length (rodaja i n b) = n"
  by (simp add: rodaja_def)

lemma length_parche [bytes_simps]: "i + length xs \<le> length b \<Longrightarrow> length (parche i xs b) = length b"
  by (simp add: parche_def)

lemma rodaja_parche_igual [bytes_simps]:
  "i + length xs \<le> length b \<Longrightarrow> n = length xs \<Longrightarrow> rodaja i n (parche i xs b) = xs"
  by (simp add: rodaja_def parche_def)

lemma rodaja_parche_antes [bytes_simps]:
  assumes "j + n \<le> i" "i \<le> length b"
  shows "rodaja j n (parche i xs b) = rodaja j n b"
proof -
  have "n - length (drop j (take i b)) = 0"
    using assms by simp
  then have "rodaja j n (parche i xs b) = take n (drop j (take i b))"
    using assms by (simp add: rodaja_def parche_def)
  also have "\<dots> = rodaja j n b"
    using assms by (simp add: rodaja_def drop_take)
  finally show ?thesis .
qed

lemma rodaja_parche_despues [bytes_simps]:
  assumes "i + length xs \<le> j" "i + length xs \<le> length b"
  shows "rodaja j n (parche i xs b) = rodaja j n b"
proof -
  have "drop j (parche i xs b) = drop (j - (i + length xs)) (drop (i + length xs) b)"
    using assms by (simp add: parche_def)
  also have "\<dots> = drop j b"
    using assms(1) by simp
  finally show ?thesis
    by (simp add: rodaja_def)
qed

lemma rodaja_todo: "length b = n \<Longrightarrow> rodaja 0 n b = b"
  by (simp add: rodaja_def)

lemma rodaja_rodaja [bytes_simps]:
  "j + m \<le> n \<Longrightarrow> rodaja j m (rodaja i n b) = rodaja (i + j) m b"
  by (simp add: rodaja_def drop_take min_def add.commute)

lemma take_rodaja: "take n b = rodaja 0 n b"
  by (simp add: rodaja_def)

lemma nth_rodaja: "j < n \<Longrightarrow> i + n \<le> length b \<Longrightarrow> rodaja i n b ! j = b ! (i + j)"
  by (simp add: rodaja_def)

text \<open>One byte is a piece of length one.\<close>

lemma nth_parche_igual [bytes_simps]:
  "i + 1 \<le> length b \<Longrightarrow> parche i [x] b ! i = x"
  by (simp add: parche_def nth_append)

lemma nth_parche_otro [bytes_simps]:
  "j < i \<or> i + length xs \<le> j \<Longrightarrow> i + length xs \<le> length b \<Longrightarrow> parche i xs b ! j = b ! j"
  by (auto simp: parche_def nth_append)

lemma rodaja_replicate [bytes_simps]:
  "i + n \<le> m \<Longrightarrow> rodaja i n (replicate m x) = replicate n x"
  by (simp add: rodaja_def)

lemma parche_final: "length b = i + length xs \<Longrightarrow> parche i xs b = take i b @ xs"
  by (simp add: parche_def)

section \<open>Little-endian numbers\<close>

primrec le :: "nat \<Rightarrow> 'a::len word \<Rightarrow> u8 list" where
  "le 0 w = []"
| "le (Suc n) w = ucast w # le n (drop_bit 8 w)"

primrec de_le :: "u8 list \<Rightarrow> 'a::len word" where
  "de_le [] = 0"
| "de_le (b # bs) = ucast b OR push_bit 8 (de_le bs)"

lemma length_le [simp]: "length (le n w) = n"
  by (induction n arbitrary: w) simp_all

lemma de_le_le_take: "de_le (le n w) = take_bit (8 * n) (w :: 'a::len word)"
proof (induction n arbitrary: w)
  case (Suc n)
  have "(ucast (ucast w :: u8) :: 'a word) OR push_bit 8 (take_bit (8 * n) (drop_bit 8 w)) =
    take_bit (8 + 8 * n) w"
    by (rule bit_word_eqI) (auto simp: bit_simps not_le)
  then show ?case
    using Suc [of "drop_bit 8 w"] by simp
qed simp

lemma de_le_le [bytes_simps]: "LENGTH('a) \<le> 8 * n \<Longrightarrow> de_le (le n w) = (w :: 'a::len word)"
  by (simp add: de_le_le_take take_bit_word_eq_self)

lemma de_le_u64 [simp]: "de_le (le 8 w) = (w :: u64)"
  by (rule de_le_le) simp

lemma de_le_u32 [simp]: "de_le (le 4 w) = (w :: u32)"
  by (rule de_le_le) simp

section \<open>\<open>str::from_utf8\<close>\<close>

text \<open>How many continuation bytes follow the first byte \<open>b\<close>, when they are well formed.\<close>

definition sigue :: "u8 \<Rightarrow> bool" where
  "sigue c \<longleftrightarrow> 0x80 \<le> c \<and> c \<le> 0xBF"

definition utf8_uno :: "u8 \<Rightarrow> u8 list \<Rightarrow> nat option" where
  "utf8_uno b bs =
    (if b < 0x80 then Some 0
     else if 0xC2 \<le> b \<and> b \<le> 0xDF then
       (case bs of c # _ \<Rightarrow> if sigue c then Some 1 else None | _ \<Rightarrow> None)
     else if 0xE0 \<le> b \<and> b \<le> 0xEF then
       (case bs of c # d # _ \<Rightarrow>
          if sigue c \<and> sigue d \<and> (b = 0xE0 \<longrightarrow> 0xA0 \<le> c) \<and> (b = 0xED \<longrightarrow> c \<le> 0x9F) then Some 2 else None
        | _ \<Rightarrow> None)
     else if 0xF0 \<le> b \<and> b \<le> 0xF4 then
       (case bs of c # d # e # _ \<Rightarrow>
          if sigue c \<and> sigue d \<and> sigue e \<and> (b = 0xF0 \<longrightarrow> 0x90 \<le> c) \<and> (b = 0xF4 \<longrightarrow> c \<le> 0x8F)
          then Some 3 else None
        | _ \<Rightarrow> None)
     else None)"

function utf8_ok :: "u8 list \<Rightarrow> bool" where
  "utf8_ok [] = True"
| "utf8_ok (b # bs) = (case utf8_uno b bs of None \<Rightarrow> False | Some n \<Rightarrow> utf8_ok (drop n bs))"
  by pat_completeness auto

termination by (relation "measure length") auto

text \<open>\<open>from_utf8(b).unwrap_or("")\<close>; a \<open>&str\<close> is its bytes.\<close>

definition texto :: "u8 list \<Rightarrow> u8 list" where
  "texto b = (if utf8_ok b then b else [])"

lemma utf8_ascii: "list_all (\<lambda>b. b < 0x80) bs \<Longrightarrow> utf8_ok bs"
  by (induction bs) (simp_all add: utf8_uno_def)

lemma texto_ascii: "list_all (\<lambda>b. b < 0x80) bs \<Longrightarrow> texto bs = bs"
  by (simp add: texto_def utf8_ascii)

end
