(* ===== verification/Blake3.thy ===== *)
theory Blake3
  imports Prelude "HOL-Library.Monad_Syntax"
begin

unbundle bit_operations_syntax

text \<open>
  \<open>platform/shared/bmo-hash/src/lib.rs\<close>: BLAKE3 without a key, fed piece by piece. Arrays are lists;
  the two byte counters of a chunk, which never pass 64 and 16, are natural numbers; \<^const>\<open>None\<close> is a
  panic (a subtraction below zero, an index out of the array).
\<close>

section \<open>Compression\<close>

definition BLOCK_LEN :: nat where "BLOCK_LEN = 64"
definition CHUNK_LEN :: nat where "CHUNK_LEN = 1024"
definition CV_NIVELES :: nat where "CV_NIVELES = 54"
definition CHUNK_START :: u32 where "CHUNK_START = push_bit 0 1"
definition CHUNK_END :: u32 where "CHUNK_END = push_bit 1 1"
definition PARENT :: u32 where "PARENT = push_bit 2 1"
definition ROOT :: u32 where "ROOT = push_bit 3 1"

definition IV :: "u32 list" where
  "IV = [0x6A09E667, 0xBB67AE85, 0x3C6EF372, 0xA54FF53A, 0x510E527F, 0x9B05688C, 0x1F83D9AB, 0x5BE0CD19]"

definition MSG_PERMUTATION :: "nat list" where
  "MSG_PERMUTATION = [2, 6, 3, 10, 7, 0, 4, 13, 1, 11, 12, 5, 9, 14, 15, 8]"

definition g_mezcla :: "nat \<Rightarrow> nat \<Rightarrow> nat \<Rightarrow> nat \<Rightarrow> u32 \<Rightarrow> u32 \<Rightarrow> u32 list \<Rightarrow> u32 list" where
  "g_mezcla a b c d mx my s0 =
    (let s1 = s0[a := s0 ! a + s0 ! b + mx];
         s2 = s1[d := word_rotr 16 (s1 ! d XOR s1 ! a)];
         s3 = s2[c := s2 ! c + s2 ! d];
         s4 = s3[b := word_rotr 12 (s3 ! b XOR s3 ! c)];
         s5 = s4[a := s4 ! a + s4 ! b + my];
         s6 = s5[d := word_rotr 8 (s5 ! d XOR s5 ! a)];
         s7 = s6[c := s6 ! c + s6 ! d]
     in s7[b := word_rotr 7 (s7 ! b XOR s7 ! c)])"

definition round_blake :: "u32 list \<Rightarrow> u32 list \<Rightarrow> u32 list" where
  "round_blake m s =
    (let s = g_mezcla 0 4 8 12 (m ! 0) (m ! 1) s;
         s = g_mezcla 1 5 9 13 (m ! 2) (m ! 3) s;
         s = g_mezcla 2 6 10 14 (m ! 4) (m ! 5) s;
         s = g_mezcla 3 7 11 15 (m ! 6) (m ! 7) s;
         s = g_mezcla 0 5 10 15 (m ! 8) (m ! 9) s;
         s = g_mezcla 1 6 11 12 (m ! 10) (m ! 11) s;
         s = g_mezcla 2 7 8 13 (m ! 12) (m ! 13) s
     in g_mezcla 3 4 9 14 (m ! 14) (m ! 15) s)"

definition permute :: "u32 list \<Rightarrow> u32 list" where
  "permute m = map (\<lambda>i. m ! (MSG_PERMUTATION ! i)) [0 ..< 16]"

text \<open>A round, and the message permuted for the next one.\<close>

definition vuelta_blake :: "u32 list \<times> u32 list \<Rightarrow> u32 list \<times> u32 list" where
  "vuelta_blake = (\<lambda>(s, m). (round_blake m s, permute m))"

definition compress :: "u32 list \<Rightarrow> u32 list \<Rightarrow> u64 \<Rightarrow> u32 \<Rightarrow> u32 \<Rightarrow> u32 list" where
  "compress chaining block counter block_len flags =
    (let state = chaining @ [IV ! 0, IV ! 1, IV ! 2, IV ! 3, ucast counter, ucast (drop_bit 32 counter),
                             block_len, flags];
         s = fst ((vuelta_blake ^^ 7) (state, block))
     in map (\<lambda>i. s ! i XOR s ! (i + 8)) [0 ..< 8] @ map (\<lambda>i. s ! (i + 8) XOR chaining ! i) [0 ..< 8])"

definition u32_le :: "u8 \<Rightarrow> u8 \<Rightarrow> u8 \<Rightarrow> u8 \<Rightarrow> u32" where
  "u32_le a b c d = ucast a OR push_bit 8 (ucast b) OR push_bit 16 (ucast c) OR push_bit 24 (ucast d)"

definition words_from_bytes :: "u8 list \<Rightarrow> u32 list" where
  "words_from_bytes bytes =
    map (\<lambda>i. let off = i * 4 in
           u32_le (bytes ! off) (bytes ! (off + 1)) (bytes ! (off + 2)) (bytes ! (off + 3))) [0 ..< 16]"

section \<open>A chunk\<close>

record chunk_state =
  ch_chaining :: "u32 list"
  ch_counter :: u64
  ch_block :: "u8 list"
  ch_block_len :: nat
  ch_blocks :: nat
  ch_flags :: u32

definition chunk_new :: "u32 list \<Rightarrow> u64 \<Rightarrow> u32 \<Rightarrow> chunk_state" where
  "chunk_new key counter flags =
    \<lparr>ch_chaining = key, ch_counter = counter, ch_block = replicate BLOCK_LEN 0, ch_block_len = 0,
     ch_blocks = 0, ch_flags = flags\<rparr>"

definition chunk_len :: "chunk_state \<Rightarrow> nat" where
  "chunk_len c = ch_blocks c * BLOCK_LEN + ch_block_len c"

definition start_flag :: "chunk_state \<Rightarrow> u32" where
  "start_flag c = (if ch_blocks c = 0 then CHUNK_START else 0)"

text \<open>The full block is compressed when there is more to come.\<close>

definition chunk_vacia :: "chunk_state \<Rightarrow> chunk_state" where
  "chunk_vacia c =
    (if ch_block_len c = BLOCK_LEN
     then c\<lparr>ch_chaining := take 8 (compress (ch_chaining c) (words_from_bytes (ch_block c)) (ch_counter c)
              (of_nat BLOCK_LEN) (ch_flags c OR start_flag c)),
            ch_blocks := ch_blocks c + 1, ch_block := replicate BLOCK_LEN 0, ch_block_len := 0\<rparr>
     else c)"

definition chunk_mete :: "u8 list \<Rightarrow> chunk_state \<Rightarrow> chunk_state" where
  "chunk_mete xs c =
    c\<lparr>ch_block := take (ch_block_len c) (ch_block c) @ xs @ drop (ch_block_len c + length xs) (ch_block c),
      ch_block_len := ch_block_len c + length xs\<rparr>"

function chunk_update :: "u8 list \<Rightarrow> chunk_state \<Rightarrow> chunk_state option" where
  "chunk_update input c =
    (if input = [] then Some c
     else if ch_block_len (chunk_vacia c) > BLOCK_LEN then None
     else
       let want = BLOCK_LEN - ch_block_len (chunk_vacia c); n = min want (length input)
       in chunk_update (drop n input) (chunk_mete (take n input) (chunk_vacia c)))"
  by pat_completeness auto
termination
proof (relation "measure (\<lambda>(input, c). length input)", goal_cases)
  case (2 input c n m)
  have "ch_block_len (chunk_vacia c) \<noteq> BLOCK_LEN"
    by (simp add: chunk_vacia_def BLOCK_LEN_def)
  then show ?case
    using 2 by auto
qed simp

declare chunk_update.simps [simp del]

definition chunk_output :: "bool \<Rightarrow> chunk_state \<Rightarrow> u32 list" where
  "chunk_output is_root c =
    (let flags = ch_flags c OR start_flag c OR CHUNK_END;
         flags = (if is_root then flags OR ROOT else flags)
     in take 8 (compress (ch_chaining c) (words_from_bytes (ch_block c)) (ch_counter c)
                  (of_nat (ch_block_len c)) flags))"

definition parent_cv :: "u32 list \<Rightarrow> u32 list \<Rightarrow> u32 list \<Rightarrow> u32 \<Rightarrow> bool \<Rightarrow> u32 list" where
  "parent_cv left right key flags is_root =
    (let f = flags OR PARENT; f = (if is_root then f OR ROOT else f)
     in take 8 (compress key (left @ right) 0 (of_nat BLOCK_LEN) f))"

section \<open>The hasher\<close>

record hasher =
  h_chunk :: chunk_state
  h_stack :: "u32 list list"
  h_stack_len :: nat

definition hasher_new :: hasher where
  "hasher_new =
    \<lparr>h_chunk = chunk_new IV 0 0, h_stack = replicate CV_NIVELES (replicate 8 0), h_stack_len = 0\<rparr>"

text \<open>The loop of \<open>push_cv\<close>: the stack has \<open>n\<close> entries.\<close>

function junta_cv :: "u32 list list \<Rightarrow> nat \<Rightarrow> u32 list \<Rightarrow> u64 \<Rightarrow> (nat \<times> u32 list) option" where
  "junta_cv st n new_cv t =
    (if t AND 1 \<noteq> 0 then Some (n, new_cv)
     else if n = 0 then None
     else junta_cv st (n - 1) (parent_cv (st ! (n - 1)) new_cv IV 0 False) (drop_bit 1 t))"
  by pat_completeness auto
termination
  by (relation "measure (\<lambda>(st, n, cv, t). n)") auto

declare junta_cv.simps [simp del]

definition push_cv :: "u32 list \<Rightarrow> u64 \<Rightarrow> hasher \<Rightarrow> hasher option" where
  "push_cv cv total_chunks h =
    do { (n, new_cv) \<leftarrow> junta_cv (h_stack h) (h_stack_len h) cv total_chunks;
         if n \<ge> CV_NIVELES then None
         else Some (h\<lparr>h_stack := (h_stack h)[n := new_cv], h_stack_len := n + 1\<rparr>) }"

text \<open>A full chunk is closed when there is more to come.\<close>

definition hasher_cierra :: "hasher \<Rightarrow> hasher option" where
  "hasher_cierra h =
    (if chunk_len (h_chunk h) = CHUNK_LEN then
       let so_far = ch_counter (h_chunk h) + 1 in
       do { h1 \<leftarrow> push_cv (chunk_output False (h_chunk h)) so_far h;
            Some (h1\<lparr>h_chunk := chunk_new IV so_far 0\<rparr>) }
     else Some h)"

lemma hasher_cierra_len: "hasher_cierra h = Some h1 \<Longrightarrow> chunk_len (h_chunk h1) \<noteq> CHUNK_LEN"
  by (auto simp: hasher_cierra_def chunk_new_def chunk_len_def CHUNK_LEN_def Let_def
      split: if_splits Option.bind_splits)

function update :: "u8 list \<Rightarrow> hasher \<Rightarrow> hasher option" where
  "update input h =
    (if input = [] then Some h
     else case hasher_cierra h of None \<Rightarrow> None
     | Some h1 \<Rightarrow>
        if chunk_len (h_chunk h1) > CHUNK_LEN then None
        else let n = min (CHUNK_LEN - chunk_len (h_chunk h1)) (length input) in
          case chunk_update (take n input) (h_chunk h1) of None \<Rightarrow> None
          | Some c \<Rightarrow> update (drop n input) (h1\<lparr>h_chunk := c\<rparr>))"
  by pat_completeness auto
termination
proof (relation "measure (\<lambda>(input, h). length input)", goal_cases)
  case (2 input h h1 n c)
  then show ?case
    using hasher_cierra_len [of h h1] by auto
qed simp

declare update.simps [simp del]

fun sube :: "u32 list list \<Rightarrow> nat \<Rightarrow> u32 list \<Rightarrow> u32 list" where
  "sube st 0 cv = cv"
| "sube st (Suc idx) cv = sube st idx (parent_cv (st ! idx) cv IV 0 (idx = 0))"

definition cv_to_bytes :: "u32 list \<Rightarrow> u8 list" where
  "cv_to_bytes cv = concat (map (\<lambda>i. map (\<lambda>k. ucast (drop_bit (8 * k) (cv ! i))) [0 ..< 4]) [0 ..< 8])"

definition finalize :: "hasher \<Rightarrow> u8 list" where
  "finalize h =
    (if h_stack_len h = 0 then cv_to_bytes (chunk_output True (h_chunk h))
     else cv_to_bytes (sube (h_stack h) (h_stack_len h) (chunk_output False (h_chunk h))))"

definition hash :: "u8 list \<Rightarrow> u8 list option" where
  "hash bytes = map_option finalize (update bytes hasher_new)"

end
