(* ===== verification/Blake3_Arbol.thy ===== *)
theory Blake3_Arbol
  imports Blake3
begin

text \<open>
  BLAKE3 as its authors define it - a binary tree over chunks of 1024 bytes whose left subtree is
  the largest full one - and the proof that the hasher, fed with any pieces, computes it. Nothing
  of the compression function is used.
\<close>

section \<open>Chunks\<close>

text \<open>The chaining value after \<open>k\<close> full blocks of a chunk.\<close>

primrec cadena :: "u64 \<Rightarrow> u8 list \<Rightarrow> nat \<Rightarrow> u32 list" where
  "cadena ctr xs 0 = IV"
| "cadena ctr xs (Suc k) =
    take 8 (compress (cadena ctr xs k) (words_from_bytes (take 64 (drop (64 * k) xs))) ctr 64
      (if k = 0 then CHUNK_START else 0))"

text \<open>A chunk of which \<open>xs\<close> was read, with \<open>n\<close> blocks compressed.\<close>

definition chunk_con :: "nat \<Rightarrow> u64 \<Rightarrow> u8 list \<Rightarrow> chunk_state" where
  "chunk_con n ctr xs =
    (let resto = drop (64 * n) xs in
     \<lparr>ch_chaining = cadena ctr xs n, ch_counter = ctr,
      ch_block = resto @ replicate (64 - length resto) 0, ch_block_len = length resto, ch_blocks = n,
      ch_flags = 0\<rparr>)"

definition chunk_de :: "u64 \<Rightarrow> u8 list \<Rightarrow> chunk_state" where
  "chunk_de ctr xs = chunk_con ((length xs - 1) div 64) ctr xs"

lemma cadena_append: "64 * k \<le> length xs \<Longrightarrow> cadena ctr (xs @ ys) k = cadena ctr xs k"
  by (induction k) simp_all

lemma chunk_new_de: "chunk_new IV ctr 0 = chunk_de ctr []"
  by (simp add: chunk_new_def chunk_de_def chunk_con_def BLOCK_LEN_def)

lemma chunk_len_de [simp]: "chunk_len (chunk_de ctr xs) = length xs"
proof -
  have "64 * ((length xs - 1) div 64) \<le> length xs"
    using div_times_less_eq_dividend [of "length xs - 1" 64] by linarith
  then show ?thesis
    by (simp add: chunk_len_def chunk_de_def chunk_con_def BLOCK_LEN_def Let_def)
qed

lemma ch_counter_de [simp]: "ch_counter (chunk_de ctr xs) = ctr"
  by (simp add: chunk_de_def chunk_con_def Let_def)

lemma chunk_vacia_de: "chunk_vacia (chunk_de ctr xs) = chunk_con (length xs div 64) ctr xs"
proof (cases "length xs mod 64 = 0 \<and> xs \<noteq> []")
  case True
  then obtain q where q: "length xs = 64 * q" "q \<noteq> 0"
    by (metis dvd_eq_mod_eq_0 dvd_def length_0_conv mult_0_right)
  then obtain k where k: "q = Suc k"
    using not0_implies_Suc by blast
  have d: "(length xs - 1) div 64 = k" "length xs div 64 = Suc k"
    using q k by simp_all
  have "length xs - 64 * k = 64"
    using q k by simp
  then show ?thesis
    unfolding chunk_de_def d by (simp add: chunk_vacia_def chunk_con_def Let_def BLOCK_LEN_def start_flag_def)
next
  case False
  then have d: "(length xs - 1) div 64 = length xs div 64"
    by (cases "length xs") (auto simp: div_Suc)
  have "length xs - 64 * (length xs div 64) \<noteq> 64"
    by (simp add: minus_mult_div_eq_mod)
  then show ?thesis
    unfolding chunk_de_def d by (simp add: chunk_vacia_def chunk_con_def Let_def BLOCK_LEN_def)
qed

lemma chunk_mete_con:
  assumes "n = length xs div 64" "zs \<noteq> []" "length xs mod 64 + length zs \<le> 64"
  shows "chunk_mete zs (chunk_con n ctr xs) = chunk_de ctr (xs @ zs)"
proof -
  have l: "length (drop (64 * n) xs) = length xs mod 64" "64 * n \<le> length xs"
    using assms(1) by (simp_all add: minus_mult_div_eq_mod)
  have "(length (xs @ zs) - 1) div 64 = n"
  proof -
    have "length (xs @ zs) - 1 = length xs mod 64 + length zs - 1 + n * 64"
      using assms(1,2) by (cases zs) simp_all
    moreover have "length xs mod 64 + length zs - 1 < 64"
      using assms(2,3) by (cases zs) simp_all
    ultimately show ?thesis
      by simp
  qed
  then show ?thesis
    using l assms(3) by (simp add: chunk_mete_def chunk_de_def chunk_con_def Let_def cadena_append)
qed

text \<open>Feeding a chunk is appending to what it has read.\<close>

lemma chunk_update_de: "chunk_update ys (chunk_de ctr xs) = Some (chunk_de ctr (xs @ ys))"
proof (induction "length ys" arbitrary: xs ys rule: less_induct)
  case less
  show ?case
  proof (cases "ys = []")
    case True
    then show ?thesis
      by (simp add: chunk_update.simps)
  next
    case False
    let ?c = "chunk_con (length xs div 64) ctr xs"
    have bl: "ch_block_len ?c = length xs mod 64"
      by (simp add: chunk_con_def Let_def minus_mult_div_eq_mod)
    define n where "n = min (BLOCK_LEN - length xs mod 64) (length ys)"
    have n: "0 < n" "n \<le> length ys" "length xs mod 64 + n \<le> 64"
      using False by (simp_all add: n_def BLOCK_LEN_def)
    have "chunk_update ys (chunk_de ctr xs) = chunk_update (drop n ys) (chunk_mete (take n ys) ?c)"
      using False mod_less_divisor [of 64 "length xs"] by (subst chunk_update.simps)
        (simp add: chunk_vacia_de bl n_def Let_def BLOCK_LEN_def del: mod_less_divisor)
    also have "\<dots> = chunk_update (drop n ys) (chunk_de ctr (xs @ take n ys))"
      using n by (subst chunk_mete_con) auto
    also have "\<dots> = Some (chunk_de ctr (xs @ ys))"
      using less [of "drop n ys" "xs @ take n ys"] n by simp
    finally show ?thesis .
  qed
qed

section \<open>The tree\<close>

text \<open>The largest power of two below \<open>n\<close>, for \<open>n\<close> from 2.\<close>

fun mitad :: "nat \<Rightarrow> nat" where
  "mitad n = (if n \<le> 2 then 1 else 2 * mitad ((n + 1) div 2))"

declare mitad.simps [simp del]

lemma mitad_bounds: "2 \<le> n \<Longrightarrow> mitad n < n \<and> n \<le> 2 * mitad n"
proof (induction n rule: mitad.induct)
  case (1 n)
  show ?case
  proof (cases "n \<le> 2")
    case False
    then have "mitad ((n + 1) div 2) < (n + 1) div 2 \<and> (n + 1) div 2 \<le> 2 * mitad ((n + 1) div 2)"
      using 1 by simp
    then show ?thesis
      using False by (subst (1 2) mitad.simps) auto
  qed (use 1 in \<open>simp add: mitad.simps\<close>)
qed

lemma mitad_potencia: "\<exists>k. mitad n = 2 ^ k"
proof (induction n rule: mitad.induct)
  case (1 n)
  show ?case
  proof (cases "n \<le> 2")
    case False
    then obtain k where "mitad ((n + 1) div 2) = 2 ^ k"
      using 1 by auto
    then have "mitad n = 2 ^ Suc k"
      using False by (subst mitad.simps) simp
    then show ?thesis
      by blast
  qed (use mitad.simps [of n] in \<open>auto intro: exI [of _ 0]\<close>)
qed

lemma mitad_unica:
  assumes "2 ^ a \<le> m" "m < 2 ^ Suc a"
  shows "mitad (m + 1) = 2 ^ a"
proof -
  obtain k where k: "mitad (m + 1) = 2 ^ k"
    using mitad_potencia by blast
  have "1 \<le> (2 :: nat) ^ a"
    by simp
  then have "2 \<le> m + 1"
    using assms(1) by linarith
  then have b: "2 ^ k < m + 1" "m + 1 \<le> 2 ^ Suc k"
    using mitad_bounds [of "m + 1"] k by simp_all
  have "(2 :: nat) ^ k < 2 ^ Suc a" "(2 :: nat) ^ a < 2 ^ Suc k"
    using b assms by linarith+
  then have "k < Suc a" "a < Suc k"
    using power_strict_increasing_iff [of "2 :: nat"] by (metis one_less_numeral_iff semiring_norm(76))+
  then show ?thesis
    using k by simp
qed

text \<open>The chaining value of a tree over the values \<open>cs\<close> of its chunks, not empty.\<close>

function arbol :: "bool \<Rightarrow> u32 list list \<Rightarrow> u32 list" where
  "arbol raiz cs =
    (if length cs \<le> 1 then hd cs
     else let p = mitad (length cs) in
       parent_cv (arbol False (take p cs)) (arbol False (drop p cs)) IV 0 raiz)"
  by pat_completeness auto
termination
proof (relation "measure (\<lambda>(raiz, cs). length cs)", goal_cases)
  case (2 raiz cs p)
  then show ?case
    using mitad_bounds [of "length cs"] by auto
next
  case (3 raiz cs p)
  obtain k where "mitad (length cs) = 2 ^ k"
    using mitad_potencia by blast
  then have "0 < mitad (length cs)"
    by simp
  then show ?case
    using 3 by simp
qed simp

declare arbol.simps [simp del]

lemma arbol_uno [simp]: "arbol raiz [c] = c"
  by (simp add: arbol.simps)

lemma mitad_doble: "mitad (2 * 2 ^ j) = 2 ^ j"
proof -
  have "(1 :: nat) \<le> 2 ^ j"
    by simp
  then have "2 * 2 ^ j - 1 < (2 :: nat) ^ Suc j" "(2 :: nat) ^ j \<le> 2 * 2 ^ j - 1"
    by (simp, linarith)
  then have "mitad (2 * 2 ^ j - 1 + 1) = 2 ^ j"
    by (intro mitad_unica)
  then show ?thesis
    by simp
qed

lemma arbol_pareja:
  assumes "length es = 2 ^ j" "length ds = 2 ^ j"
  shows "arbol raiz (es @ ds) = parent_cv (arbol False es) (arbol False ds) IV 0 raiz"
proof -
  have "(1 :: nat) \<le> 2 ^ j"
    by simp
  then have "\<not> length (es @ ds) \<le> 1"
    unfolding length_append assms by linarith
  moreover have "mitad (length (es @ ds)) = 2 ^ j"
    using mitad_doble [of j] assms by (simp add: mult_2)
  ultimately show ?thesis
    using assms by (subst arbol.simps) (simp add: Let_def)
qed

section \<open>The stack\<close>

text \<open>The perfect trees over the chunks closed so far, the largest first.\<close>

function pila :: "u32 list list \<Rightarrow> u32 list list" where
  "pila cs =
    (if cs = [] then []
     else let p = mitad (length cs + 1) in arbol False (take p cs) # pila (drop p cs))"
  by pat_completeness auto
termination
proof (relation "measure length", goal_cases)
  case (2 cs p)
  obtain k where "mitad (length cs + 1) = 2 ^ k"
    using mitad_potencia by blast
  then show ?case
    using 2 by simp
qed simp

declare pila.simps [simp del]

lemma pila_Nil [simp]: "pila [] = []"
  by (simp add: pila.simps)

lemma mitad_entre:
  assumes "cs \<noteq> []"
  obtains a where "mitad (length cs + 1) = 2 ^ a" "2 ^ a \<le> length cs" "length cs < 2 ^ Suc a"
proof -
  obtain a where a: "mitad (length cs + 1) = 2 ^ a"
    using mitad_potencia by blast
  have "2 \<le> length cs + 1"
    using assms by (cases cs) simp_all
  then show ?thesis
    using mitad_bounds [of "length cs + 1"] a by (intro that [of a]) simp_all
qed

lemma pila_potencia:
  assumes "length ds = 2 ^ j"
  shows "pila ds = [arbol False ds]"
proof -
  have "mitad (length ds + 1) = 2 ^ j"
    using assms by (intro mitad_unica) simp_all
  moreover have "ds \<noteq> []"
    using assms by auto
  ultimately show ?thesis
    using assms by (subst pila.simps) simp
qed

lemma potencia_mult:
  assumes "2 ^ a \<le> (m :: nat)" "m < 2 ^ Suc a" "2 ^ i dvd m" "0 < m"
  shows "2 ^ i dvd (2 :: nat) ^ a" "m + 2 ^ i \<le> 2 ^ Suc a"
proof -
  have "2 ^ i \<le> m"
    using assms(3,4) by (rule dvd_imp_le)
  then have "(2 :: nat) ^ i < 2 ^ Suc a"
    using assms(2) by simp
  then have "i < Suc a"
    using power_strict_increasing_iff [of "2 :: nat"] by (metis one_less_numeral_iff semiring_norm(76))
  then show d: "2 ^ i dvd (2 :: nat) ^ a"
    by (simp add: le_imp_power_dvd)
  then have "2 ^ i dvd (2 :: nat) ^ Suc a - m"
    using assms(3) by (intro dvd_diff_nat) auto
  then have "2 ^ i \<le> (2 :: nat) ^ Suc a - m"
    using assms(2) by (intro dvd_imp_le) simp_all
  then show "m + 2 ^ i \<le> 2 ^ Suc a"
    using assms(2) by linarith
qed

text \<open>A perfect tree smaller than every one on the stack goes on top of it.\<close>

lemma pila_append:
  assumes "2 ^ Suc j dvd length cs" "length ds = 2 ^ j"
  shows "pila (cs @ ds) = pila cs @ [arbol False ds]"
  using assms(1)
proof (induction "length cs" arbitrary: cs rule: less_induct)
  case less
  show ?case
  proof (cases "cs = []")
    case True
    then show ?thesis
      using pila_potencia assms(2) by simp
  next
    case False
    then obtain a where a: "mitad (length cs + 1) = 2 ^ a" "2 ^ a \<le> length cs" "length cs < 2 ^ Suc a"
      by (rule mitad_entre)
    note p = potencia_mult [OF a(2,3) less.prems]
    have l: "length cs + 2 ^ Suc j \<le> 2 ^ Suc a" "2 ^ Suc j dvd (2 :: nat) ^ a"
      using p False by simp_all
    have "(0 :: nat) < 2 ^ j"
      by simp
    then have "length (cs @ ds) < 2 ^ Suc a"
      using l(1) assms(2) unfolding length_append power_Suc by linarith
    then have m: "mitad (length (cs @ ds) + 1) = 2 ^ a"
      using a(2) by (intro mitad_unica) simp_all
    have "pila (drop (2 ^ a) cs @ ds) = pila (drop (2 ^ a) cs) @ [arbol False ds]"
      using less.prems l(2) False a(2) by (intro less.hyps) (simp_all add: dvd_diff_nat)
    then show ?thesis
      using False a m by (subst (1 2) pila.simps) (simp add: Let_def)
  qed
qed

lemma length_pila: "length cs < 2 ^ j \<Longrightarrow> length (pila cs) \<le> j"
proof (induction "length cs" arbitrary: cs j rule: less_induct)
  case less
  show ?case
  proof (cases "cs = []")
    case False
    then obtain a where a: "mitad (length cs + 1) = 2 ^ a" "2 ^ a \<le> length cs" "length cs < 2 ^ Suc a"
      by (rule mitad_entre)
    have "(2 :: nat) ^ a < 2 ^ j"
      using a(2) less.prems by (rule le_less_trans)
    then have "a < j"
      by (rule power_less_imp_less_exp [rotated]) simp
    moreover have "length (pila (drop (2 ^ a) cs)) \<le> a"
      using a False by (intro less.hyps) simp_all
    ultimately show ?thesis
      using False a(1) by (subst pila.simps) (simp add: Let_def)
  qed simp
qed

text \<open>The loop of \<open>push_cv\<close>: \<open>ds\<close> are the chunks under the value in hand, \<open>cs\<close> those on the stack.\<close>

lemma junta_cv_pila:
  assumes "length ds = 2 ^ j" "length cs = (unat t - 1) * 2 ^ j" "t \<noteq> 0"
    and "n \<le> length st" "take n st = pila cs"
  shows "\<exists>n' cv'. junta_cv st n (arbol False ds) t = Some (n', cv') \<and> n' \<le> n \<and>
    take n' st @ [cv'] = pila (cs @ ds)"
  using assms
proof (induction n arbitrary: ds j cs t rule: less_induct)
  case (less n)
  have t: "0 < unat t"
    using less.prems(3) by (simp add: unat_gt_0)
  have par: "t AND 1 \<noteq> 0 \<longleftrightarrow> odd (unat t)"
  proof -
    have "unat (t AND 1) = unat t mod 2"
      using unat_and_mask [of t 1] by simp
    then show ?thesis
      by (metis unat_0 unat_eq_zero odd_iff_mod_2_eq_one even_iff_mod_2_eq_zero)
  qed
  show ?case
  proof (cases "odd (unat t)")
    case True
    then have "2 ^ Suc j dvd length cs"
      unfolding less.prems(2) by (elim oddE) simp
    then show ?thesis
      using True par less.prems(1,5) by (subst junta_cv.simps) (simp add: pila_append)
  next
    case False
    then obtain q where q: "unat t = 2 * Suc q"
      using t by (metis dvdE gr0_implies_Suc nat_0_less_mult_iff)
    define es fs where "es = drop (2 * q * 2 ^ j) cs" and "fs = take (2 * q * 2 ^ j) cs"
    have "length cs = 2 * q * 2 ^ j + 2 ^ j"
      using less.prems(2) q by simp
    then have l: "length es = 2 ^ j" "length fs = q * 2 ^ Suc j" "cs = fs @ es"
      by (simp_all add: es_def fs_def)
    have pc: "pila cs = pila fs @ [arbol False es]"
      unfolding l(3) using l(1,2) by (intro pila_append) simp_all
    then obtain n1 where n1: "n = Suc n1"
      using less.prems(5) by (cases n) auto
    then have "take n1 st @ [st ! n1] = pila fs @ [arbol False es]"
      using less.prems(4,5) pc by (simp add: take_Suc_conv_app_nth)
    then have s: "take n1 st = pila fs" "st ! n1 = arbol False es"
      by simp_all
    have ut: "unat (drop_bit 1 t) = Suc q"
      using q by (simp add: drop_bit_eq_div unat_div)
    have "junta_cv st n (arbol False ds) t = junta_cv st n1 (arbol False (es @ ds)) (drop_bit 1 t)"
      using False par n1 s(2) arbol_pareja [OF l(1) less.prems(1), of False]
      by (subst junta_cv.simps) simp
    moreover have "\<exists>n' cv'. junta_cv st n1 (arbol False (es @ ds)) (drop_bit 1 t) = Some (n', cv') \<and>
        n' \<le> n1 \<and> take n' st @ [cv'] = pila (fs @ (es @ ds))"
    proof (rule less.IH)
      show "length (es @ ds) = 2 ^ Suc j"
        using l(1) less.prems(1) by simp
      show "drop_bit 1 t \<noteq> 0"
        using ut by (metis nat.distinct(1) unat_0)
    qed (use n1 l(2) ut s(1) less.prems(4) in simp_all)
    ultimately show ?thesis
      using n1 l(3) by (auto intro: le_SucI)
  qed
qed

text \<open>The loop of \<open>finalize\<close> folds the stack from its top.\<close>

fun cierra :: "bool \<Rightarrow> u32 list list \<Rightarrow> u32 list \<Rightarrow> u32 list" where
  "cierra raiz [] c = c"
| "cierra raiz (x # xs) c = parent_cv x (cierra False xs c) IV 0 raiz"

lemma cierra_snoc: "cierra raiz (xs @ [x]) c = cierra raiz xs (parent_cv x c IV 0 (raiz \<and> xs = []))"
  by (induction xs arbitrary: raiz) simp_all

lemma sube_cierra: "n \<le> length st \<Longrightarrow> sube st n c = cierra True (take n st) c"
proof (induction n arbitrary: c)
  case (Suc n)
  have "take (Suc n) st = take n st @ [st ! n]" "take n st = [] \<longleftrightarrow> n = 0"
    using Suc.prems by (simp add: take_Suc_conv_app_nth) (use Suc.prems in auto)
  then show ?case
    using Suc by (simp add: cierra_snoc)
qed simp

lemma cierra_pila: "cs \<noteq> [] \<Longrightarrow> cierra raiz (pila cs) c = arbol raiz (cs @ [c])"
proof (induction "length cs" arbitrary: raiz cs rule: less_induct)
  case less
  obtain a where a: "mitad (length cs + 1) = 2 ^ a" "2 ^ a \<le> length cs" "length cs < 2 ^ Suc a"
    using less.prems by (rule mitad_entre)
  have "cierra raiz (pila cs) c =
      parent_cv (arbol False (take (2 ^ a) cs)) (cierra False (pila (drop (2 ^ a) cs)) c) IV 0 raiz"
    using less.prems a(1) by (subst pila.simps) (simp add: Let_def)
  also have "cierra False (pila (drop (2 ^ a) cs)) c = arbol False (drop (2 ^ a) cs @ [c])"
    using less.hyps [of "drop (2 ^ a) cs" False] less.prems by (cases "drop (2 ^ a) cs = []") auto
  also have "parent_cv (arbol False (take (2 ^ a) cs)) (arbol False (drop (2 ^ a) cs @ [c])) IV 0 raiz =
      parent_cv (arbol False (take (2 ^ a) (cs @ [c]))) (arbol False (drop (2 ^ a) (cs @ [c]))) IV 0 raiz"
    using a(2) by simp
  also have "\<dots> = arbol raiz (cs @ [c])"
    using less.prems a(1) by (subst (3) arbol.simps) (simp add: Let_def)
  finally show ?case .
qed

section \<open>The hasher\<close>

text \<open>Chunk \<open>i\<close> of an input, the values of its first \<open>m\<close> chunks, and the hash.\<close>

definition trozo :: "u8 list \<Rightarrow> nat \<Rightarrow> u8 list" where
  "trozo xs i = take 1024 (drop (1024 * i) xs)"

definition valor_chunk :: "bool \<Rightarrow> u8 list \<Rightarrow> nat \<Rightarrow> u32 list" where
  "valor_chunk raiz xs i = chunk_output raiz (chunk_de (of_nat i) (trozo xs i))"

definition valores :: "u8 list \<Rightarrow> nat \<Rightarrow> u32 list list" where
  "valores xs m = map (valor_chunk False xs) [0 ..< m]"

definition blake3 :: "u8 list \<Rightarrow> u8 list" where
  "blake3 xs =
    cv_to_bytes (if length xs \<le> 1024 then valor_chunk True xs 0
                 else arbol True (valores xs ((length xs + 1023) div 1024)))"

lemma valores_append: "1024 * m \<le> length xs \<Longrightarrow> valores (xs @ ys) m = valores xs m"
proof -
  assume m: "1024 * m \<le> length xs"
  have "trozo (xs @ ys) i = trozo xs i" if "i < m" for i
  proof -
    have "1024 * i + 1024 \<le> 1024 * m"
      using that by linarith
    then show ?thesis
      using m by (simp add: trozo_def)
  qed
  then show ?thesis
    by (simp add: valores_def valor_chunk_def)
qed

text \<open>A hasher that has read \<open>xs\<close> and closed \<open>m\<close> chunks.\<close>

definition hasher_con :: "nat \<Rightarrow> u8 list \<Rightarrow> hasher \<Rightarrow> bool" where
  "hasher_con m xs h \<longleftrightarrow>
     h_chunk h = chunk_de (of_nat m) (drop (1024 * m) xs) \<and> 1024 * m \<le> length xs \<and>
     length (h_stack h) = 54 \<and> h_stack_len h = length (pila (valores xs m)) \<and> h_stack_len h \<le> 54 \<and>
     take (h_stack_len h) (h_stack h) = pila (valores xs m)"

definition hasher_de :: "u8 list \<Rightarrow> hasher \<Rightarrow> bool" where
  "hasher_de xs h \<longleftrightarrow> hasher_con ((length xs - 1) div 1024) xs h"

lemma hasher_new_de: "hasher_de [] hasher_new"
  by (simp add: hasher_de_def hasher_con_def hasher_new_def chunk_new_de valores_def CV_NIVELES_def)

lemma push_cv_pila:
  assumes "hasher_con m xs h" "length xs = 1024 * m + 1024" "length xs < 2 ^ 64 - 1"
  shows "\<exists>h1. push_cv (valor_chunk False xs m) (of_nat m + 1) h = Some h1 \<and>
    h_chunk h1 = h_chunk h \<and> length (h_stack h1) = 54 \<and>
    h_stack_len h1 = length (pila (valores xs (m + 1))) \<and> h_stack_len h1 \<le> 54 \<and>
    take (h_stack_len h1) (h_stack h1) = pila (valores xs (m + 1))"
proof -
  have "unat (of_nat (m + 1) :: u64) = m + 1"
    using assms(2,3) by (intro unat_word_of_nat) simp
  then have u: "unat (of_nat m + 1 :: u64) = m + 1"
    by (simp add: add.commute)
  then have nz: "of_nat m + 1 \<noteq> (0 :: u64)"
    by (metis add_is_0 unat_0 zero_neq_one)
  have "m + 1 < 2 ^ 54"
    using assms(2,3) by simp
  then have p: "length (pila (valores xs (m + 1))) \<le> 54"
    by (intro length_pila) (simp add: valores_def)
  have v: "valores xs (m + 1) = valores xs m @ [valor_chunk False xs m]"
    by (simp add: valores_def)
  obtain n' cv' where j: "junta_cv (h_stack h) (h_stack_len h) (valor_chunk False xs m) (of_nat m + 1) = Some (n', cv')"
    "n' \<le> h_stack_len h" "take n' (h_stack h) @ [cv'] = pila (valores xs (m + 1))"
    using junta_cv_pila [of "[valor_chunk False xs m]" 0 "valores xs m" "of_nat m + 1" "h_stack_len h" "h_stack h"]
      assms(1) u nz unfolding v by (auto simp: hasher_con_def valores_def)
  have n: "n' \<le> length (h_stack h)" "length (h_stack h) = 54"
    using j(2) assms(1) by (simp_all add: hasher_con_def)
  have "length (pila (valores xs (m + 1))) = n' + 1"
    unfolding j(3) [symmetric] using n by simp
  then show ?thesis
    using j p n by (simp add: push_cv_def CV_NIVELES_def take_Suc_conv_app_nth)
qed

lemma hasher_cierra_de:
  assumes "hasher_de xs h" "length xs < 2 ^ 64 - 1"
  shows "\<exists>h1. hasher_cierra h = Some h1 \<and> hasher_con (length xs div 1024) xs h1"
proof (cases "length xs mod 1024 = 0 \<and> xs \<noteq> []")
  case True
  then obtain q where "length xs = 1024 * q" "q \<noteq> 0"
    by (metis dvd_eq_mod_eq_0 dvd_def length_0_conv mult_0_right)
  then obtain m where m: "length xs = 1024 * m + 1024" "(length xs - 1) div 1024 = m" "length xs div 1024 = m + 1"
    by (cases q) simp_all
  have h: "hasher_con m xs h"
    using assms(1) unfolding hasher_de_def m(2) .
  then have c: "h_chunk h = chunk_de (of_nat m) (drop (1024 * m) xs)"
    by (simp add: hasher_con_def)
  have "trozo xs m = drop (1024 * m) xs"
    using m(1) by (simp add: trozo_def)
  then have "chunk_output False (h_chunk h) = valor_chunk False xs m"
    by (simp add: c valor_chunk_def)
  then show ?thesis
    using push_cv_pila [OF h m(1) assms(2)] c m(1)
    by (auto simp: hasher_cierra_def hasher_con_def m(3) CHUNK_LEN_def chunk_new_de add.commute)
next
  case False
  then have d: "(length xs - 1) div 1024 = length xs div 1024"
    by (cases "length xs") (auto simp: div_Suc)
  have "length xs - 1024 * (length xs div 1024) \<noteq> 1024"
    by (simp add: minus_mult_div_eq_mod)
  then show ?thesis
    using assms(1) unfolding hasher_de_def d by (auto simp: hasher_cierra_def hasher_con_def CHUNK_LEN_def)
qed

text \<open>Feeding the hasher is appending to what it has read, and never panics.\<close>

lemma update_de:
  assumes "hasher_de xs h" "length (xs @ ys) < 2 ^ 64"
  shows "\<exists>h1. update ys h = Some h1 \<and> hasher_de (xs @ ys) h1"
  using assms
proof (induction "length ys" arbitrary: xs ys h rule: less_induct)
  case less
  show ?case
  proof (cases "ys = []")
    case True
    then show ?thesis
      using less.prems by (simp add: update.simps)
  next
    case False
    have "length xs < 2 ^ 64 - 1"
      using less.prems(2) False by (cases ys) simp_all
    then obtain h1 where h1: "hasher_cierra h = Some h1" "hasher_con (length xs div 1024) xs h1"
      using hasher_cierra_de [OF less.prems(1)] by blast
    define m where "m = length xs div 1024"
    have l: "chunk_len (h_chunk h1) = length xs mod 1024" "1024 * m \<le> length xs"
      using h1(2) by (simp_all add: hasher_con_def minus_mult_div_eq_mod m_def)
    define n where "n = min (1024 - length xs mod 1024) (length ys)"
    have n: "0 < n" "n \<le> length ys" "length xs mod 1024 + n \<le> 1024"
      using False by (simp_all add: n_def)
    define xs' where "xs' = xs @ take n ys"
    have c: "chunk_update (take n ys) (h_chunk h1) = Some (chunk_de (of_nat m) (drop (1024 * m) xs'))"
      using h1(2) l(2) by (simp add: hasher_con_def chunk_update_de xs'_def m_def)
    have "(length xs' - 1) div 1024 = m"
    proof -
      have "length xs' - 1 = length xs mod 1024 + n - 1 + m * 1024"
        using n(1,2) by (simp add: xs'_def m_def)
      moreover have "length xs mod 1024 + n - 1 < 1024"
        using n by simp
      ultimately show ?thesis
        by simp
    qed
    then have d: "hasher_de xs' (h1\<lparr>h_chunk := chunk_de (of_nat m) (drop (1024 * m) xs')\<rparr>)"
      using h1(2) l(2) unfolding hasher_de_def xs'_def
      by (auto simp: hasher_con_def valores_append m_def)
    have "update ys h = update (drop n ys) (h1\<lparr>h_chunk := chunk_de (of_nat m) (drop (1024 * m) xs')\<rparr>)"
      using False h1(1) l(1) c mod_less_divisor [of 1024 "length xs"] by (subst update.simps)
        (simp add: CHUNK_LEN_def n_def Let_def del: mod_less_divisor)
    then show ?thesis
      using less.hyps [OF _ d, of "drop n ys"] n less.prems(2) by (simp add: xs'_def)
  qed
qed

lemma finalize_de:
  assumes "hasher_de xs h"
  shows "finalize h = blake3 xs"
proof -
  define m where "m = (length xs - 1) div 1024"
  have h: "hasher_con m xs h"
    using assms by (simp add: hasher_de_def m_def)
  have t: "trozo xs m = drop (1024 * m) xs"
  proof -
    have "length xs \<le> 1024 * m + 1024"
      unfolding m_def by (cases "length xs") auto
    then show ?thesis
      by (simp add: trozo_def)
  qed
  have out: "chunk_output raiz (h_chunk h) = valor_chunk raiz xs m" for raiz
    using h t by (simp add: hasher_con_def valor_chunk_def)
  have n: "h_stack_len h = length (pila (valores xs m))" "h_stack_len h \<le> length (h_stack h)"
    "take (h_stack_len h) (h_stack h) = pila (valores xs m)"
    using h unfolding hasher_con_def by auto
  show ?thesis
  proof (cases "length xs \<le> 1024")
    case True
    then have "m = 0"
      by (cases "length xs") (simp_all add: m_def)
    then show ?thesis
      using n(1) out True by (simp add: finalize_def blake3_def valores_def)
  next
    case False
    then have m0: "0 < m" "(length xs + 1023) div 1024 = m + 1"
      unfolding m_def by (auto simp: div_greater_zero_iff)
    then have v: "valores xs m \<noteq> []" "valores xs (m + 1) = valores xs m @ [valor_chunk False xs m]"
      by (simp_all add: valores_def)
    have "pila (valores xs m) \<noteq> []"
      using v(1) by (subst pila.simps) (simp add: Let_def)
    then show ?thesis
      using n out False v cierra_pila [OF v(1), of True]
      by (simp add: finalize_def blake3_def m0(2) sube_cierra)
  qed
qed

section \<open>Properties\<close>

text \<open>Feeding a list of pieces.\<close>

fun update_todos :: "u8 list list \<Rightarrow> hasher \<Rightarrow> hasher option" where
  "update_todos [] h = Some h"
| "update_todos (p # ps) h = (case update p h of None \<Rightarrow> None | Some h1 \<Rightarrow> update_todos ps h1)"

lemma update_todos_de:
  assumes "hasher_de xs h" "length (xs @ concat ps) < 2 ^ 64"
  shows "\<exists>h1. update_todos ps h = Some h1 \<and> hasher_de (xs @ concat ps) h1"
  using assms
proof (induction ps arbitrary: xs h)
  case (Cons p ps)
  then have "length (xs @ p) < 2 ^ 64"
    by simp
  then obtain h1 where "update p h = Some h1" "hasher_de (xs @ p) h1"
    using update_de Cons.prems(1) by blast
  then show ?case
    using Cons.IH [of "xs @ p" h1] Cons.prems(2) by simp
qed simp

text \<open>
  C4: the hasher computes BLAKE3. Fed with any pieces of an input of less than 2^64 bytes it does
  not panic - the stack of 54 values never overflows nor runs empty - and the result is the
  tree hash of the whole input: a chunk alone, or the tree whose left subtree is the largest
  power of two of chunks.
\<close>

theorem hasher_es_blake3:
  assumes "length (concat ps) < 2 ^ 64"
  shows "map_option finalize (update_todos ps hasher_new) = Some (blake3 (concat ps))"
  using update_todos_de [OF hasher_new_de, of ps] assms finalize_de by auto

theorem hasher_es_blake3_witness:
  "map_option finalize (update_todos [[1, 2], [], [3]] hasher_new) = Some (blake3 [1, 2, 3])"
  using hasher_es_blake3 [of "[[1, 2], [], [3]]"] by simp

text \<open>
  Pieces do not matter. However an input is cut, the hash is the one of the whole at once.
\<close>

theorem hash_por_piezas:
  assumes "length (concat ps) < 2 ^ 64"
  shows "map_option finalize (update_todos ps hasher_new) = hash (concat ps)"
proof -
  obtain h where "update (concat ps) hasher_new = Some h" "hasher_de (concat ps) h"
    using update_de [OF hasher_new_de, of "concat ps"] assms by auto
  then show ?thesis
    using update_todos_de [OF hasher_new_de, of ps] assms finalize_de by (auto simp: hash_def)
qed

theorem hash_por_piezas_witness:
  "map_option finalize (update_todos [[7, 7], [7]] hasher_new) = hash [7, 7, 7]"
  using hash_por_piezas [of "[[7, 7], [7]]"] by simp

end
