(* ===== verification/Estratos_Objetos.thy ===== *)
theory Estratos_Objetos
  imports Bytes Blake3_Arbol
begin

text \<open>
  \<open>platform/drivers/storage/estratos/src/objects.rs\<close>: the objects of the ESTRATOS file system as
  bytes on disk. A pointer carries place and hash, an attribute a stream (inside the node or as the
  root of a tree of blocks), a node up to four attributes, a directory entry a name and the pointer
  of its node. Each has its encoder and its decoder, which answers an error for what is not one.
\<close>

section \<open>Errors, sums, sizes\<close>

datatype format_error = ShortBuffer | BadMagic | BadVersion | BadChecksum | BadField | Io | SinScratch

definition NO_HASH :: "u8 list" where "NO_HASH = replicate 32 0"

text \<open>
  \<open>blake3\<close> is \<open>bmo_hash::hash\<close>. It does not panic on less than 2^64 bytes (\<open>suma_blake3\<close>), which is
  every slice there can be.
\<close>

definition suma :: "u8 list \<Rightarrow> u8 list" where
  "suma b = (case hash b of Some h \<Rightarrow> h | None \<Rightarrow> NO_HASH)"

lemma hash_total: "length xs < 2 ^ 64 \<Longrightarrow> hash xs = Some (blake3 xs)"
  using update_de [OF hasher_new_de, of xs] finalize_de by (auto simp: hash_def)

lemma suma_blake3: "length xs < 2 ^ 64 \<Longrightarrow> suma xs = blake3 xs"
  by (simp add: suma_def hash_total)

lemma length_cv_to_bytes: "length (cv_to_bytes cv) = 32"
proof -
  have "[0 ..< 8] = [0, 1, 2, 3, 4, 5, 6, 7 :: nat]"
    by (simp add: upt_rec)
  then show ?thesis
    by (simp add: cv_to_bytes_def)
qed

lemma length_suma [simp]: "length (suma b) = 32"
  by (auto simp: suma_def hash_def finalize_def NO_HASH_def length_cv_to_bytes split: option.splits)

definition BLOQUE :: nat where "BLOQUE = 4096"
definition PTR_LEN :: nat where "PTR_LEN = 48"
definition PTRS_POR_BLOQUE :: nat where "PTRS_POR_BLOQUE = BLOQUE div PTR_LEN"
definition ATTR_LEN :: nat where "ATTR_LEN = 128"
definition ATTR_NOMBRE_LEN :: nat where "ATTR_NOMBRE_LEN = 16"
definition RESIDENTE_MAX :: nat where "RESIDENTE_MAX = 96"
definition ATTR_RESIDENTE :: u8 where "ATTR_RESIDENTE = push_bit 0 1"
definition NIVELES_MAX :: nat where "NIVELES_MAX = 4"
definition ATTRS_MAX :: nat where "ATTRS_MAX = 4"
definition NODO_LEN :: nat where "NODO_LEN = 16 + ATTR_LEN * ATTRS_MAX + 32"
definition OFF_N_ATTRS :: nat where "OFF_N_ATTRS = 16"
definition OFF_N_SUM :: nat where "OFF_N_SUM = NODO_LEN - 32"
definition ENTRADA_LEN :: nat where "ENTRADA_LEN = 112"
definition NOMBRE_MAX :: nat where "NOMBRE_MAX = 63"

lemmas medidas = BLOQUE_def PTR_LEN_def PTRS_POR_BLOQUE_def ATTR_LEN_def ATTR_NOMBRE_LEN_def
  RESIDENTE_MAX_def NIVELES_MAX_def ATTRS_MAX_def NODO_LEN_def OFF_N_ATTRS_def OFF_N_SUM_def
  ENTRADA_LEN_def NOMBRE_MAX_def

definition ascii :: "string \<Rightarrow> u8 list" where
  "ascii s = map of_char s"

definition ATTR_DATOS :: "u8 list" where "ATTR_DATOS = ascii '':datos''"
definition ATTR_ENTRADAS :: "u8 list" where "ATTR_ENTRADAS = ascii '':entradas''"
definition ATTR_FIRMA :: "u8 list" where "ATTR_FIRMA = ascii '':firma''"
definition ATTR_MANIFIESTO :: "u8 list" where "ATTR_MANIFIESTO = ascii '':manifiesto''"
definition ATTR_ORIGEN :: "u8 list" where "ATTR_ORIGEN = ascii '':origen''"
definition NODO_MAGIC :: "u8 list" where "NODO_MAGIC = ascii ''NODO''"

section \<open>\<open>BlockPtr\<close>\<close>

record block_ptr =
  bp_lba :: u64
  bp_off :: u32
  bp_len :: u32
  bp_hash :: "u8 list"

definition NULO :: block_ptr where
  "NULO = \<lparr>bp_lba = 0, bp_off = 0, bp_len = 0, bp_hash = NO_HASH\<rparr>"

definition ptr_nuevo :: "u64 \<Rightarrow> u32 \<Rightarrow> u8 list \<Rightarrow> block_ptr" where
  "ptr_nuevo lba off datos =
    \<lparr>bp_lba = lba, bp_off = off, bp_len = word_of_nat (length datos), bp_hash = suma datos\<rparr>"

definition es_nulo :: "block_ptr \<Rightarrow> bool" where
  "es_nulo p \<longleftrightarrow> bp_len p = 0 \<and> bp_lba p = 0"

definition verifica :: "block_ptr \<Rightarrow> u8 list \<Rightarrow> bool" where
  "verifica p datos \<longleftrightarrow> length datos = unat (bp_len p) \<and> suma datos = bp_hash p"

definition ptr_encode :: "block_ptr \<Rightarrow> u8 list" where
  "ptr_encode p =
    (let b = replicate PTR_LEN 0;
         b = parche 0 (le 8 (bp_lba p)) b;
         b = parche 8 (le 4 (bp_off p)) b;
         b = parche 12 (le 4 (bp_len p)) b;
         b = parche 16 (bp_hash p) b
     in b)"

definition ptr_decode :: "u8 list \<Rightarrow> format_error + block_ptr" where
  "ptr_decode b =
    (if length b < PTR_LEN then Inl ShortBuffer
     else
       let off = de_le (rodaja 8 4 b); len = de_le (rodaja 12 4 b) in
       if unat off + unat len > BLOQUE then Inl BadField
       else Inr \<lparr>bp_lba = de_le (rodaja 0 8 b), bp_off = off, bp_len = len, bp_hash = rodaja 16 32 b\<rparr>)"

definition ptr_ok :: "block_ptr \<Rightarrow> bool" where
  "ptr_ok p \<longleftrightarrow> unat (bp_off p) + unat (bp_len p) \<le> BLOQUE \<and> length (bp_hash p) = 32"

lemma ptr_ok_NULO [simp]: "ptr_ok NULO"
  by (simp add: ptr_ok_def NULO_def NO_HASH_def)

lemma ptr_ok_nuevo: "length datos \<le> 4096 \<Longrightarrow> ptr_ok (ptr_nuevo lba 0 datos)"
  by (simp add: ptr_ok_def ptr_nuevo_def medidas unat_of_nat take_bit_nat_eq_self)

lemma length_ptr_encode [simp]: "length (bp_hash p) = 32 \<Longrightarrow> length (ptr_encode p) = 48"
  by (simp add: ptr_encode_def medidas bytes_simps)

lemma ptr_decode_encode:
  "ptr_ok p \<Longrightarrow> ptr_decode (ptr_encode p) = Inr p"
  by (cases p) (simp add: ptr_decode_def ptr_encode_def ptr_ok_def Let_def medidas bytes_simps)

lemma ptr_decode_ok: "ptr_decode b = Inr p \<Longrightarrow> ptr_ok p"
  by (auto simp: ptr_decode_def ptr_ok_def Let_def medidas bytes_simps split: if_splits)

lemma verifica_nuevo: "length datos < 2 ^ 32 \<Longrightarrow> verifica (ptr_nuevo lba off datos) datos"
  by (simp add: verifica_def ptr_nuevo_def unat_of_nat take_bit_nat_eq_self)

section \<open>\<open>Attr\<close>\<close>

record attr =
  at_name :: "u8 list"
  at_nombre_len :: nat
  at_size :: u64
  at_levels :: u8
  at_residente :: bool
  at_cuerpo :: "u8 list"
  at_raiz :: block_ptr

definition nombre_a_bytes :: "u8 list \<Rightarrow> format_error + (u8 list \<times> nat)" where
  "nombre_a_bytes name =
    (if name = [] \<or> length name > ATTR_NOMBRE_LEN then Inl BadField
     else Inr (parche 0 name (replicate ATTR_NOMBRE_LEN 0), length name))"

definition attr_residente :: "u8 list \<Rightarrow> u8 list \<Rightarrow> format_error + attr" where
  "attr_residente name datos =
    (if length datos > RESIDENTE_MAX then Inl BadField
     else case nombre_a_bytes name of Inl e \<Rightarrow> Inl e
     | Inr (n, nlen) \<Rightarrow>
         Inr \<lparr>at_name = n, at_nombre_len = nlen, at_size = word_of_nat (length datos), at_levels = 0,
              at_residente = True, at_cuerpo = parche 0 datos (replicate RESIDENTE_MAX 0), at_raiz = NULO\<rparr>)"

definition en_bloques :: "u8 list \<Rightarrow> u64 \<Rightarrow> u8 \<Rightarrow> block_ptr \<Rightarrow> format_error + attr" where
  "en_bloques name tam levels raiz =
    (case nombre_a_bytes name of Inl e \<Rightarrow> Inl e
     | Inr (n, nlen) \<Rightarrow>
         if unat levels > NIVELES_MAX then Inl BadField
         else Inr \<lparr>at_name = n, at_nombre_len = nlen, at_size = tam, at_levels = levels,
                   at_residente = False, at_cuerpo = replicate RESIDENTE_MAX 0, at_raiz = raiz\<rparr>)"

definition attr_nombre :: "attr \<Rightarrow> u8 list" where
  "attr_nombre a = texto (take (at_nombre_len a) (at_name a))"

definition datos_residentes :: "attr \<Rightarrow> u8 list option" where
  "datos_residentes a = (if at_residente a then Some (take (unat (at_size a)) (at_cuerpo a)) else None)"

definition attr_raiz :: "attr \<Rightarrow> block_ptr option" where
  "attr_raiz a = (if at_residente a then None else Some (at_raiz a))"

definition attr_encode :: "attr \<Rightarrow> u8 list" where
  "attr_encode a =
    (let b = replicate ATTR_LEN 0;
         b = parche 0 (at_name a) b;
         b = parche 16 (le 8 (at_size a)) b;
         b = parche 24 [at_levels a] b;
         b = parche 25 [if at_residente a then ATTR_RESIDENTE else 0] b
     in if at_residente a then parche 32 (at_cuerpo a) b
        else parche 32 (ptr_encode (at_raiz a)) b)"

text \<open>\<open>iter().position(|c| c == 0).unwrap_or(len)\<close>\<close>

definition hasta_cero :: "u8 list \<Rightarrow> nat" where
  "hasta_cero xs = length (takeWhile (\<lambda>c. c \<noteq> 0) xs)"

definition attr_decode :: "u8 list \<Rightarrow> format_error + attr" where
  "attr_decode b =
    (if length b < ATTR_LEN then Inl ShortBuffer
     else
       let name = rodaja 0 ATTR_NOMBRE_LEN b;
           nombre_len = hasta_cero name;
           tam = de_le (rodaja 16 8 b);
           levels = b ! 24;
           residente = (b ! 25 AND ATTR_RESIDENTE \<noteq> 0)
       in
       if residente then
         if unat tam > RESIDENTE_MAX then Inl BadField
         else if levels \<noteq> 0 then Inl BadField
         else Inr \<lparr>at_name = name, at_nombre_len = nombre_len, at_size = tam, at_levels = levels,
                   at_residente = residente, at_cuerpo = rodaja 32 RESIDENTE_MAX b, at_raiz = NULO\<rparr>
       else
         if unat levels > NIVELES_MAX then Inl BadField
         else case ptr_decode (rodaja 32 PTR_LEN b) of Inl e \<Rightarrow> Inl e
         | Inr raiz \<Rightarrow>
             Inr \<lparr>at_name = name, at_nombre_len = nombre_len, at_size = tam, at_levels = levels,
                  at_residente = residente, at_cuerpo = replicate RESIDENTE_MAX 0, at_raiz = raiz\<rparr>)"

text \<open>
  What every attribute satisfies, however it was made: a resident one says no more bytes than its
  96, one in blocks has at most four levels and a root inside its block.
\<close>

definition attr_ok :: "attr \<Rightarrow> bool" where
  "attr_ok a \<longleftrightarrow> length (at_name a) = 16 \<and> at_nombre_len a = hasta_cero (at_name a) \<and>
    length (at_cuerpo a) = 96 \<and> ptr_ok (at_raiz a) \<and>
    (if at_residente a then unat (at_size a) \<le> 96 \<and> at_levels a = 0 \<and> at_raiz a = NULO
     else unat (at_levels a) \<le> 4 \<and> at_cuerpo a = replicate 96 0)"

lemma length_attr_encode [simp]: "attr_ok a \<Longrightarrow> length (attr_encode a) = 128"
  by (simp add: attr_encode_def attr_ok_def medidas Let_def bytes_simps ptr_ok_def)

lemma attr_decode_encode:
  assumes "attr_ok a"
  shows "attr_decode (attr_encode a) = Inr a"
proof -
  have p: "ptr_decode (ptr_encode (at_raiz a)) = Inr (at_raiz a)" "length (ptr_encode (at_raiz a)) = 48"
    using assms by (auto simp: attr_ok_def ptr_decode_encode ptr_ok_def)
  show ?thesis
  proof (cases "at_residente a")
    case True
    then show ?thesis
      using assms by (cases a)
        (simp add: attr_decode_def attr_encode_def attr_ok_def Let_def medidas bytes_simps ATTR_RESIDENTE_def)
  next
    case False
    then show ?thesis
      using assms p by (cases a)
        (simp add: attr_decode_def attr_encode_def attr_ok_def Let_def medidas bytes_simps)
  qed
qed

lemma attr_decode_ok: "attr_decode b = Inr a \<Longrightarrow> attr_ok a"
  by (auto simp: attr_decode_def attr_ok_def Let_def medidas bytes_simps ptr_decode_ok
      split: if_splits sum.splits)

lemma hasta_cero_nombre:
  assumes "0 \<notin> set name" "length name \<le> 16"
  shows "hasta_cero (parche 0 name (replicate 16 0)) = length name"
proof -
  have "parche 0 name (replicate 16 0) = name @ replicate (16 - length name) 0"
    by (simp add: parche_def)
  moreover have "takeWhile (\<lambda>c. c \<noteq> 0) (name @ replicate (16 - length name) 0) = name"
    using assms(1) by (subst takeWhile_append2) (auto simp: takeWhile_eq_Nil_iff)
  ultimately show ?thesis
    by (simp add: hasta_cero_def)
qed

lemma attr_residente_ok:
  assumes "attr_residente name datos = Inr a" "0 \<notin> set name"
  shows "attr_ok a" "datos_residentes a = Some datos" "attr_nombre a = texto name" "at_size a = word_of_nat (length datos)"
proof -
  have l: "length datos \<le> 96" "name \<noteq> []" "length name \<le> 16"
    and a: "a = \<lparr>at_name = parche 0 name (replicate 16 0), at_nombre_len = length name,
      at_size = word_of_nat (length datos), at_levels = 0, at_residente = True,
      at_cuerpo = parche 0 datos (replicate 96 0), at_raiz = NULO\<rparr>"
    using assms(1) by (auto simp: attr_residente_def nombre_a_bytes_def medidas split: if_splits)
  have s: "unat (word_of_nat (length datos) :: u64) = length datos"
    using l(1) by (simp add: unat_of_nat take_bit_nat_eq_self)
  show "attr_ok a"
    using l s assms(2) by (simp add: a attr_ok_def bytes_simps hasta_cero_nombre)
  show "datos_residentes a = Some datos" "attr_nombre a = texto name" "at_size a = word_of_nat (length datos)"
    using l s by (simp_all add: a datos_residentes_def attr_nombre_def take_rodaja bytes_simps)
qed

lemma en_bloques_ok:
  assumes "en_bloques name tam levels raiz = Inr a" "0 \<notin> set name" "ptr_ok raiz"
  shows "attr_ok a" "attr_raiz a = Some raiz" "attr_nombre a = texto name" "at_size a = tam" "at_levels a = levels"
proof -
  have l: "unat levels \<le> 4" "name \<noteq> []" "length name \<le> 16"
    and a: "a = \<lparr>at_name = parche 0 name (replicate 16 0), at_nombre_len = length name, at_size = tam,
      at_levels = levels, at_residente = False, at_cuerpo = replicate 96 0, at_raiz = raiz\<rparr>"
    using assms(1) by (auto simp: en_bloques_def nombre_a_bytes_def medidas split: if_splits)
  show "attr_ok a"
    using l assms(2,3) by (simp add: a attr_ok_def bytes_simps hasta_cero_nombre)
  show "attr_raiz a = Some raiz" "attr_nombre a = texto name" "at_size a = tam" "at_levels a = levels"
    using l by (simp_all add: a attr_raiz_def attr_nombre_def take_rodaja bytes_simps)
qed

text \<open>\<open>capacity\<close> and \<open>niveles_para\<close>: how much a tree of some levels holds, and the least one that is enough.\<close>

definition saturating_mul :: "u64 \<Rightarrow> u64 \<Rightarrow> u64" where
  "saturating_mul a b = (if unat a * unat b < 2 ^ 64 then a * b else - 1)"

definition capacity :: "u8 \<Rightarrow> u64" where
  "capacity levels = ((\<lambda>n. saturating_mul n (word_of_nat PTRS_POR_BLOQUE)) ^^ unat levels) (word_of_nat BLOQUE)"

definition niveles_para :: "u64 \<Rightarrow> u8 option" where
  "niveles_para tam =
    map_option word_of_nat (find (\<lambda>l. tam \<le> capacity (word_of_nat l)) [0 ..< NIVELES_MAX + 1])"

section \<open>\<open>Nodo\<close>\<close>

datatype tipo = Archivo | Directorio

record nodo =
  nd_tipo :: tipo
  nd_attrs :: "attr option list"

definition nodo_nuevo :: "tipo \<Rightarrow> nodo" where
  "nodo_nuevo t = \<lparr>nd_tipo = t, nd_attrs = replicate ATTRS_MAX None\<rparr>"

text \<open>\<open>iter().flatten()\<close>\<close>

definition attrs_de :: "nodo \<Rightarrow> attr list" where
  "attrs_de n = List.map_filter id (nd_attrs n)"

definition nodo_attr :: "nodo \<Rightarrow> u8 list \<Rightarrow> attr option" where
  "nodo_attr n name = find (\<lambda>a. attr_nombre a = name) (attrs_de n)"

fun primer_hueco :: "attr \<Rightarrow> attr option list \<Rightarrow> attr option list option" where
  "primer_hueco a [] = None"
| "primer_hueco a (None # slots) = Some (Some a # slots)"
| "primer_hueco a (Some x # slots) = map_option ((#) (Some x)) (primer_hueco a slots)"

definition con :: "nodo \<Rightarrow> attr \<Rightarrow> format_error + nodo" where
  "con n a =
    (if nodo_attr n (attr_nombre a) \<noteq> None then Inl BadField
     else case primer_hueco a (nd_attrs n) of
       Some slots \<Rightarrow> Inr (n\<lparr>nd_attrs := slots\<rparr>)
     | None \<Rightarrow> Inl BadField)"

definition tiene_firma :: "nodo \<Rightarrow> bool" where
  "tiene_firma n \<longleftrightarrow> nodo_attr n ATTR_FIRMA \<noteq> None"

fun pon_attrs :: "nat \<Rightarrow> attr list \<Rightarrow> u8 list \<Rightarrow> u8 list" where
  "pon_attrs o' [] b = b"
| "pon_attrs o' (a # as) b = pon_attrs (o' + ATTR_LEN) as (parche o' (attr_encode a) b)"

definition nodo_encode :: "nodo \<Rightarrow> u8 list" where
  "nodo_encode n =
    (let b = replicate NODO_LEN 0;
         b = parche 0 NODO_MAGIC b;
         b = parche 4 [case nd_tipo n of Archivo \<Rightarrow> 0 | Directorio \<Rightarrow> 1] b;
         b = parche 5 [word_of_nat (length (attrs_de n))] b;
         b = pon_attrs OFF_N_ATTRS (attrs_de n) b
     in parche OFF_N_SUM (suma (take OFF_N_SUM b)) b)"

fun lee_attrs :: "nat \<Rightarrow> nat \<Rightarrow> u8 list \<Rightarrow> format_error + attr list" where
  "lee_attrs i 0 b = Inr []"
| "lee_attrs i (Suc k) b =
    (case attr_decode (rodaja (OFF_N_ATTRS + i * ATTR_LEN) ATTR_LEN b) of
       Inl e \<Rightarrow> Inl e
     | Inr a \<Rightarrow> (case lee_attrs (i + 1) k b of Inl e \<Rightarrow> Inl e | Inr as \<Rightarrow> Inr (a # as)))"

definition tipo_de_byte :: "u8 \<Rightarrow> tipo option" where
  "tipo_de_byte b = (if b = 0 then Some Archivo else if b = 1 then Some Directorio else None)"

definition nodo_decode :: "u8 list \<Rightarrow> format_error + nodo" where
  "nodo_decode b =
    (if length b < NODO_LEN then Inl ShortBuffer
     else if take 4 b \<noteq> NODO_MAGIC then Inl BadMagic
     else if rodaja OFF_N_SUM 32 b \<noteq> suma (take OFF_N_SUM b) then Inl BadChecksum
     else case tipo_de_byte (b ! 4) of None \<Rightarrow> Inl BadField
     | Some t \<Rightarrow>
         let n = unat (b ! 5) in
         if n > ATTRS_MAX then Inl BadField
         else case lee_attrs 0 n b of Inl e \<Rightarrow> Inl e
         | Inr as \<Rightarrow> Inr \<lparr>nd_tipo = t, nd_attrs = map Some as @ replicate (ATTRS_MAX - n) None\<rparr>)"

text \<open>The attributes fill the slots from the first one on.\<close>

definition nodo_ok :: "nodo \<Rightarrow> bool" where
  "nodo_ok n \<longleftrightarrow> nd_attrs n = map Some (attrs_de n) @ replicate (4 - length (attrs_de n)) None \<and>
    length (attrs_de n) \<le> 4 \<and> list_all attr_ok (attrs_de n)"

lemma map_filter_Some [simp]: "List.map_filter id (map Some xs @ replicate k None) = xs"
  by (simp add: map_filter_def comp_def)

lemma attrs_de_con [simp]: "attrs_de \<lparr>nd_tipo = t, nd_attrs = map Some as @ replicate k None\<rparr> = as"
  by (simp add: attrs_de_def)

lemma nodo_ok_I:
  "length as \<le> 4 \<Longrightarrow> list_all attr_ok as \<Longrightarrow>
   nodo_ok \<lparr>nd_tipo = t, nd_attrs = map Some as @ replicate (4 - length as) None\<rparr>"
  by (simp add: nodo_ok_def)

lemma nodo_ok_E:
  assumes "nodo_ok n"
  obtains t as where "n = \<lparr>nd_tipo = t, nd_attrs = map Some as @ replicate (4 - length as) None\<rparr>"
    "attrs_de n = as" "length as \<le> 4" "list_all attr_ok as"
proof (rule that [of "nd_tipo n" "attrs_de n"])
  show "n = \<lparr>nd_tipo = nd_tipo n, nd_attrs = map Some (attrs_de n) @ replicate (4 - length (attrs_de n)) None\<rparr>"
    using assms unfolding nodo_ok_def by (intro nodo.equality) simp_all
qed (use assms in \<open>simp_all add: nodo_ok_def\<close>)

lemma nodo_nuevo_ok: "nodo_ok (nodo_nuevo t)" "attrs_de (nodo_nuevo t) = []"
  using nodo_ok_I [of "[]" t] attrs_de_con [of t "[]" 4] by (simp_all add: nodo_nuevo_def medidas)

lemma primer_hueco_None: "primer_hueco a (map Some as @ replicate k None) =
  (if k = 0 then None else Some (map Some (as @ [a]) @ replicate (k - 1) None))"
  by (induction as) (cases k; simp)+

lemma con_ok:
  assumes "nodo_ok n" "con n a = Inr n'"
  shows "attrs_de n' = attrs_de n @ [a]" "nd_tipo n' = nd_tipo n" "attr_ok a \<Longrightarrow> nodo_ok n'"
proof -
  obtain t as where n: "n = \<lparr>nd_tipo = t, nd_attrs = map Some as @ replicate (4 - length as) None\<rparr>"
    "attrs_de n = as" "length as \<le> 4" "list_all attr_ok as"
    using nodo_ok_E [OF assms(1)] .
  have k: "length as < 4" and n': "n' = \<lparr>nd_tipo = t, nd_attrs = map Some (as @ [a]) @ replicate (4 - length as - 1) None\<rparr>"
    using assms(2) n(3) by (auto simp: con_def n(1) primer_hueco_None split: if_splits)
  show "attrs_de n' = attrs_de n @ [a]" "nd_tipo n' = nd_tipo n"
    unfolding n' by (simp_all only: attrs_de_con n(2)) (simp add: n(1))
  show "nodo_ok n'" if "attr_ok a"
    using nodo_ok_I [of "as @ [a]" t] k n(4) that unfolding n' by simp
qed

lemma con_nuevo: "con (nodo_nuevo t) a = Inr \<lparr>nd_tipo = t, nd_attrs = map Some [a] @ replicate 3 None\<rparr>"
  using primer_hueco_None [of a "[]" 4]
  by (simp add: con_def nodo_attr_def nodo_nuevo_ok) (simp add: nodo_nuevo_def medidas numeral_eq_Suc)

lemma pon_attrs_igual:
  "list_all attr_ok as \<Longrightarrow> o' + 128 * length as \<le> length b \<Longrightarrow>
   length (pon_attrs o' as b) = length b \<and>
   (\<forall>i n. i + n \<le> o' \<or> o' + 128 * length as \<le> i \<longrightarrow> rodaja i n (pon_attrs o' as b) = rodaja i n b) \<and>
   (\<forall>j. j < length as \<longrightarrow> rodaja (o' + 128 * j) 128 (pon_attrs o' as b) = attr_encode (as ! j))"
proof (induction as arbitrary: o' b)
  case (Cons a as)
  let ?b = "parche o' (attr_encode a) b"
  have a: "length (attr_encode a) = 128" "length ?b = length b"
    using Cons.prems by (simp_all add: bytes_simps)
  note ih = Cons.IH [of "o' + 128" ?b]
  have "length (pon_attrs (o' + 128) as ?b) = length b"
    using ih Cons.prems a by simp
  moreover have "rodaja i n (pon_attrs (o' + 128) as ?b) = rodaja i n b"
    if "i + n \<le> o' \<or> o' + 128 * length (a # as) \<le> i" for i n
  proof -
    have "rodaja i n (pon_attrs (o' + 128) as ?b) = rodaja i n ?b"
      using ih Cons.prems a that by auto
    also have "\<dots> = rodaja i n b"
      using that Cons.prems a(1) rodaja_parche_antes [of i n o' b "attr_encode a"]
        rodaja_parche_despues [of o' "attr_encode a" i b n] by auto
    finally show ?thesis .
  qed
  moreover have "rodaja (o' + 128 * j) 128 (pon_attrs (o' + 128) as ?b) = attr_encode ((a # as) ! j)"
    if "j < length (a # as)" for j
  proof (cases j)
    case 0
    have "rodaja o' 128 (pon_attrs (o' + 128) as ?b) = rodaja o' 128 ?b"
      using ih Cons.prems a by auto
    then show ?thesis
      using a Cons.prems by (simp add: 0 bytes_simps)
  next
    case (Suc k)
    then show ?thesis
      using ih Cons.prems a that by (auto simp: algebra_simps)
  qed
  ultimately show ?case
    by (simp add: medidas)
qed simp

lemmas pon_attrs_longitud = pon_attrs_igual [THEN conjunct1]
lemmas pon_attrs_fuera = pon_attrs_igual [THEN conjunct2, THEN conjunct1, rule_format]
lemmas pon_attrs_dentro = pon_attrs_igual [THEN conjunct2, THEN conjunct2, rule_format]

lemma lee_attrs_todos:
  "(\<And>j. j < length as \<Longrightarrow> rodaja (16 + (i + j) * 128) 128 b = attr_encode (as ! j)) \<Longrightarrow> list_all attr_ok as \<Longrightarrow>
   lee_attrs i (length as) b = Inr as"
proof (induction as arbitrary: i)
  case (Cons a as)
  have "lee_attrs (i + 1) (length as) b = Inr as"
  proof (rule Cons.IH)
    fix j
    assume "j < length as"
    then show "rodaja (16 + (i + 1 + j) * 128) 128 b = attr_encode (as ! j)"
      using Cons.prems(1) [of "Suc j"] by simp
  qed (use Cons.prems(2) in simp)
  then show ?case
    using Cons.prems(1) [of 0] Cons.prems(2) by (simp add: medidas attr_decode_encode)
qed simp

lemma lee_attrs_ok: "lee_attrs i k b = Inr as \<Longrightarrow> list_all attr_ok as \<and> length as = k"
  by (induction i k b arbitrary: as rule: lee_attrs.induct) (auto split: sum.splits dest: attr_decode_ok)

text \<open>
  The property of the file: what \<open>encode\<close> writes \<open>decode\<close> reads back, and what \<open>decode\<close> accepts,
  whatever the bytes, satisfies the invariant.
\<close>

lemma take4_magic: "take 4 b = rodaja 0 4 b"
  by (simp add: rodaja_def)

lemma length_NODO_MAGIC [simp]: "length NODO_MAGIC = 4"
  by (simp add: NODO_MAGIC_def ascii_def)

lemma rodaja_1: "i < length b \<Longrightarrow> rodaja i 1 b = [b ! i]"
  by (simp add: rodaja_def take_Suc_conv_app_nth hd_drop_conv_nth take_Suc)

lemma length_nodo_encode:
  assumes "nodo_ok n"
  shows "length (nodo_encode n) = 560"
proof -
  have "list_all attr_ok (attrs_de n)" "length (attrs_de n) \<le> 4"
    using assms by (simp_all add: nodo_ok_def)
  then show ?thesis
    by (simp add: nodo_encode_def medidas Let_def bytes_simps pon_attrs_longitud)
qed

lemma nodo_decode_encode:
  assumes "nodo_ok n"
  shows "nodo_decode (nodo_encode n) = Inr n"
proof -
  obtain t as where n: "n = \<lparr>nd_tipo = t, nd_attrs = map Some as @ replicate (4 - length as) None\<rparr>"
    "attrs_de n = as" "length as \<le> 4" "list_all attr_ok as"
    using nodo_ok_E [OF assms] .
  define c :: u8 where "c = (case t of Archivo \<Rightarrow> 0 | Directorio \<Rightarrow> 1)"
  define b0 where "b0 = parche 5 [word_of_nat (length as)] (parche 4 [c] (parche 0 NODO_MAGIC (replicate 560 0)))"
  define b where "b = pon_attrs 16 as b0"
  define e where "e = parche 528 (suma (take 528 b)) b"
  have enc: "nodo_encode n = e"
    unfolding e_def b_def b0_def c_def
    by (cases t) (simp_all add: nodo_encode_def n(2) medidas Let_def, simp_all add: n(1))
  have l0: "length b0 = 560"
    by (simp add: b0_def bytes_simps)
  have l: "length b = 560"
    using pon_attrs_longitud [OF n(4), of 16 b0] n(3) l0 by (simp add: b_def)
  have le: "length e = 560"
    by (simp add: e_def bytes_simps l)
  have e: "rodaja i k e = rodaja i k b" if "i + k \<le> 528" for i k
    unfolding e_def using that l by (intro rodaja_parche_antes) simp_all
  have cab: "rodaja i k e = rodaja i k b0" if "i + k \<le> 16" for i k
    using e [of i k] pon_attrs_fuera [OF n(4), of 16 b0 i k] that n(3) l0 by (simp add: b_def)
  have magic: "take 4 e = NODO_MAGIC"
    unfolding take4_magic using cab [of 0 4] by (simp add: b0_def bytes_simps)
  have uno: "rodaja 4 1 e = [c]" "rodaja 5 1 e = [word_of_nat (length as)]"
    using cab [of 4 1] cab [of 5 1] by (simp_all add: b0_def bytes_simps)
  then have bytes: "e ! 4 = c" "e ! 5 = word_of_nat (length as)"
    using rodaja_1 [of 4 e] rodaja_1 [of 5 e] le by simp_all
  have sum: "rodaja 528 32 e = suma (take 528 e)"
  proof -
    have "take 528 e = take 528 b"
      unfolding take_rodaja by (rule e) simp
    then show ?thesis
      by (simp add: e_def bytes_simps l)
  qed
  have "lee_attrs 0 (length as) e = Inr as"
  proof (rule lee_attrs_todos [OF _ n(4)])
    fix j
    assume j: "j < length as"
    then have "16 + j * 128 + 128 \<le> 528"
      using n(3) by simp
    then have "rodaja (16 + j * 128) 128 e = rodaja (16 + 128 * j) 128 b"
      by (simp add: e mult.commute)
    also have "\<dots> = attr_encode (as ! j)"
      unfolding b_def using pon_attrs_dentro [OF n(4)] j n(3) l0 by simp
    finally show "rodaja (16 + (0 + j) * 128) 128 e = attr_encode (as ! j)"
      by simp
  qed
  moreover have "unat (word_of_nat (length as) :: u8) = length as"
    using n(3) by (simp add: unat_of_nat take_bit_nat_eq_self)
  moreover have "tipo_de_byte c = Some t"
    by (cases t) (simp_all add: c_def tipo_de_byte_def)
  ultimately show ?thesis
    using magic bytes sum le n(3) unfolding enc by (simp add: nodo_decode_def medidas n(1))
qed

lemma nodo_decode_ok: "nodo_decode b = Inr n \<Longrightarrow> nodo_ok n"
proof -
  assume "nodo_decode b = Inr n"
  then obtain t as where "lee_attrs 0 (unat (b ! 5)) b = Inr as" "unat (b ! 5) \<le> 4"
    "n = \<lparr>nd_tipo = t, nd_attrs = map Some as @ replicate (4 - unat (b ! 5)) None\<rparr>"
    by (auto simp: nodo_decode_def medidas Let_def split: if_splits option.splits sum.splits)
  then show ?thesis
    using lee_attrs_ok [of 0 "unat (b ! 5)" b as] nodo_ok_I [of as t] by auto
qed

section \<open>\<open>Entrada\<close>\<close>

record entrada =
  en_name :: "u8 list"
  en_nombre_len :: nat
  en_nodo :: block_ptr

definition entrada_nueva :: "u8 list \<Rightarrow> block_ptr \<Rightarrow> format_error + entrada" where
  "entrada_nueva name nodo =
    (if name = [] \<or> length name > NOMBRE_MAX then Inl BadField
     else Inr \<lparr>en_name = parche 0 name (replicate NOMBRE_MAX 0), en_nombre_len = length name, en_nodo = nodo\<rparr>)"

definition nombre_crudo :: "entrada \<Rightarrow> u8 list" where
  "nombre_crudo e = take (en_nombre_len e) (en_name e)"

definition entrada_nombre :: "entrada \<Rightarrow> u8 list" where
  "entrada_nombre e = texto (nombre_crudo e)"

definition baja :: "u8 \<Rightarrow> u8" where
  "baja c =
    (if 0x41 \<le> c \<and> c \<le> 0x5A then c + 32
     else if 0xC0 \<le> c \<and> c \<le> 0xDE \<and> c \<noteq> 0xD7 then c + 32
     else c)"

definition se_llama :: "entrada \<Rightarrow> u8 list \<Rightarrow> bool" where
  "se_llama e otro =
    (let a = nombre_crudo e in
     if length a \<noteq> length otro then False
     else list_all (\<lambda>(x, y). baja x = baja y) (zip a otro))"

definition entrada_encode :: "entrada \<Rightarrow> u8 list" where
  "entrada_encode e =
    (let b = replicate ENTRADA_LEN 0;
         b = parche 0 [word_of_nat (en_nombre_len e)] b;
         b = parche 1 (en_name e) b;
         b = parche 64 (ptr_encode (en_nodo e)) b
     in b)"

definition entrada_decode :: "u8 list \<Rightarrow> format_error + entrada" where
  "entrada_decode b =
    (if length b < ENTRADA_LEN then Inl ShortBuffer
     else let nombre_len = unat (b ! 0) in
       if nombre_len = 0 \<or> nombre_len > NOMBRE_MAX then Inl BadField
       else case ptr_decode (rodaja 64 PTR_LEN b) of Inl e \<Rightarrow> Inl e
       | Inr nodo \<Rightarrow> Inr \<lparr>en_name = rodaja 1 NOMBRE_MAX b, en_nombre_len = nombre_len, en_nodo = nodo\<rparr>)"

definition entrada_ok :: "entrada \<Rightarrow> bool" where
  "entrada_ok e \<longleftrightarrow> length (en_name e) = 63 \<and> 0 < en_nombre_len e \<and> en_nombre_len e \<le> 63 \<and> ptr_ok (en_nodo e)"

lemma length_entrada_encode [simp]: "entrada_ok e \<Longrightarrow> length (entrada_encode e) = 112"
  by (simp add: entrada_encode_def entrada_ok_def medidas Let_def bytes_simps ptr_ok_def)

lemma entrada_decode_encode:
  assumes "entrada_ok e"
  shows "entrada_decode (entrada_encode e) = Inr e"
proof -
  have p: "ptr_decode (ptr_encode (en_nodo e)) = Inr (en_nodo e)" "length (ptr_encode (en_nodo e)) = 48"
    using assms by (auto simp: entrada_ok_def ptr_decode_encode ptr_ok_def)
  have "unat (word_of_nat (en_nombre_len e) :: u8) = en_nombre_len e"
    using assms by (simp add: entrada_ok_def unat_of_nat take_bit_nat_eq_self)
  then show ?thesis
    using assms p by (cases e)
      (simp add: entrada_decode_def entrada_encode_def entrada_ok_def Let_def medidas bytes_simps)
qed

lemma entrada_decode_ok: "entrada_decode b = Inr e \<Longrightarrow> entrada_ok e"
  by (auto simp: entrada_decode_def entrada_ok_def Let_def medidas bytes_simps ptr_decode_ok
      split: if_splits sum.splits)

lemma entrada_nueva_ok:
  assumes "entrada_nueva name p = Inr e" "ptr_ok p"
  shows "entrada_ok e" "nombre_crudo e = name" "en_nodo e = p"
  using assms by (auto simp: entrada_nueva_def entrada_ok_def nombre_crudo_def medidas take_rodaja bytes_simps
      split: if_splits)

lemma se_llama_iff: "se_llama e s \<longleftrightarrow> map baja (nombre_crudo e) = map baja s"
  by (auto simp: se_llama_def Let_def list_all_iff in_set_zip list_eq_iff_nth_eq)

end
