(* ===== verification/Estratos_Super.thy ===== *)
theory Estratos_Super
  imports Estratos_Objetos
begin

text \<open>
  \<open>platform/drivers/storage/estratos/src/lib.rs\<close>: the identity of a disk, the superblock with its
  two copies, and the stratum, which is the commit: root, parent, time, author, reason.
\<close>

section \<open>Identity of a disk\<close>

definition MAGIC :: "u8 list" where "MAGIC = ascii ''ESTRATOS''"
definition VERSION :: u32 where "VERSION = 1"
definition BLOCK_SIZE :: u32 where "BLOCK_SIZE = 4096"
definition SUPER_LEN :: nat where "SUPER_LEN = 512"
definition SUPER_A_BLOCK :: u64 where "SUPER_A_BLOCK = 0"
definition SUPER_B_BLOCK :: u64 where "SUPER_B_BLOCK = 1"
definition OFF_SUPER_SUM :: nat where "OFF_SUPER_SUM = SUPER_LEN - 32"
definition ESTRATO_LEN :: nat where "ESTRATO_LEN = 224"
definition MOTIVO_LEN :: nat where "MOTIVO_LEN = 64"
definition OFF_E_SUM :: nat where "OFF_E_SUM = ESTRATO_LEN - 32"

lemmas medidas_super = VERSION_def BLOCK_SIZE_def SUPER_LEN_def SUPER_A_BLOCK_def SUPER_B_BLOCK_def
  OFF_SUPER_SUM_def ESTRATO_LEN_def MOTIVO_LEN_def OFF_E_SUM_def

definition disk_id :: "u8 list \<Rightarrow> u8 list \<Rightarrow> u64 \<Rightarrow> u8 list option" where
  "disk_id model serial blocks =
    do { h \<leftarrow> update model hasher_new;
         h \<leftarrow> update [0] h;
         h \<leftarrow> update serial h;
         h \<leftarrow> update [0] h;
         h \<leftarrow> update (le 8 blocks) h;
         Some (finalize h) }"

text \<open>The identity is the hash of the three fields with a zero between them.\<close>

lemma disk_id_blake3:
  assumes "length model + length serial + 10 < 2 ^ 64"
  shows "disk_id model serial blocks = Some (blake3 (model @ [0] @ serial @ [0] @ le 8 blocks))"
proof -
  have "update_todos [model, [0], serial, [0], le 8 blocks] hasher_new = (do { h \<leftarrow> update model hasher_new;
         h \<leftarrow> update [0] h; h \<leftarrow> update serial h; h \<leftarrow> update [0] h; update (le 8 blocks) h })"
    by (simp add: Option.bind_def split: option.splits)
  moreover obtain h where "update_todos [model, [0], serial, [0], le 8 blocks] hasher_new = Some h"
    "hasher_de ([] @ concat [model, [0], serial, [0], le 8 blocks]) h"
    using update_todos_de [OF hasher_new_de, of "[model, [0], serial, [0], le 8 blocks]"] assms by auto
  ultimately show ?thesis
    using finalize_de [of _ h] by (auto simp: disk_id_def Option.bind_def split: option.splits)
qed

section \<open>\<open>Superblock\<close>\<close>

record superblock =
  sb_version :: u32
  sb_block_size :: u32
  sb_generation :: u64
  sb_total_blocks :: u64
  sb_log_head :: u64
  sb_disk_id :: "u8 list"
  sb_estrato :: block_ptr

definition superblock_new :: "u8 list \<Rightarrow> u64 \<Rightarrow> superblock" where
  "superblock_new disk tot =
    \<lparr>sb_version = VERSION, sb_block_size = BLOCK_SIZE, sb_generation = 1, sb_total_blocks = tot,
     sb_log_head = 2, sb_disk_id = disk, sb_estrato = NULO\<rparr>"

definition super_encode :: "superblock \<Rightarrow> u8 list" where
  "super_encode s =
    (let b = replicate SUPER_LEN 0;
         b = parche 0 MAGIC b;
         b = parche 8 (le 4 (sb_version s)) b;
         b = parche 12 (le 4 (sb_block_size s)) b;
         b = parche 16 (le 8 (sb_generation s)) b;
         b = parche 24 (le 8 (sb_total_blocks s)) b;
         b = parche 32 (le 8 (sb_log_head s)) b;
         b = parche 40 (sb_disk_id s) b;
         b = parche 72 (ptr_encode (sb_estrato s)) b
     in parche OFF_SUPER_SUM (suma (take OFF_SUPER_SUM b)) b)"

definition super_decode :: "u8 list \<Rightarrow> format_error + superblock" where
  "super_decode b =
    (if length b < SUPER_LEN then Inl ShortBuffer
     else if rodaja 0 8 b \<noteq> MAGIC then Inl BadMagic
     else let version = de_le (rodaja 8 4 b) in
       if version \<noteq> VERSION then Inl BadVersion
       else if rodaja OFF_SUPER_SUM 32 b \<noteq> suma (take OFF_SUPER_SUM b) then Inl BadChecksum
       else let block_size = de_le (rodaja 12 4 b) in
         if block_size \<noteq> BLOCK_SIZE then Inl BadField
         else let generation = de_le (rodaja 16 8 b); total_blocks = de_le (rodaja 24 8 b);
                  log_head = de_le (rodaja 32 8 b) in
           if log_head < 2 \<or> (total_blocks \<noteq> 0 \<and> log_head > total_blocks) then Inl BadField
           else case ptr_decode (rodaja 72 PTR_LEN b) of Inl e \<Rightarrow> Inl e
           | Inr estrato \<Rightarrow>
               Inr \<lparr>sb_version = version, sb_block_size = block_size, sb_generation = generation,
                    sb_total_blocks = total_blocks, sb_log_head = log_head,
                    sb_disk_id = rodaja 40 32 b, sb_estrato = estrato\<rparr>)"

definition belongs_to :: "superblock \<Rightarrow> u8 list \<Rightarrow> bool" where
  "belongs_to s disk \<longleftrightarrow> sb_disk_id s = disk"

definition pick_superblock :: "u8 list \<Rightarrow> u8 list \<Rightarrow> format_error + (superblock \<times> u64)" where
  "pick_superblock a b =
    (case (super_decode a, super_decode b) of
       (Inr sa, Inr sb) \<Rightarrow>
         if sb_generation sa \<ge> sb_generation sb then Inr (sa, SUPER_A_BLOCK) else Inr (sb, SUPER_B_BLOCK)
     | (Inr sa, Inl _) \<Rightarrow> Inr (sa, SUPER_A_BLOCK)
     | (Inl _, Inr sb) \<Rightarrow> Inr (sb, SUPER_B_BLOCK)
     | (Inl e, Inl _) \<Rightarrow> Inl e)"

definition next_super_block :: "u64 \<Rightarrow> u64" where
  "next_super_block current = (if current = SUPER_A_BLOCK then SUPER_B_BLOCK else SUPER_A_BLOCK)"

definition super_ok :: "superblock \<Rightarrow> bool" where
  "super_ok s \<longleftrightarrow> sb_version s = 1 \<and> sb_block_size s = 4096 \<and> 2 \<le> sb_log_head s \<and>
    (sb_total_blocks s = 0 \<or> sb_log_head s \<le> sb_total_blocks s) \<and> length (sb_disk_id s) = 32 \<and>
    ptr_ok (sb_estrato s)"

lemma length_MAGIC [simp]: "length MAGIC = 8"
  by (simp add: MAGIC_def ascii_def)

lemma length_super_encode: "super_ok s \<Longrightarrow> length (super_encode s) = 512"
  by (simp add: super_encode_def medidas medidas_super Let_def bytes_simps super_ok_def ptr_ok_def)

lemma super_decode_encode:
  assumes "super_ok s"
  shows "super_decode (super_encode s) = Inr s"
proof -
  have p: "ptr_decode (ptr_encode (sb_estrato s)) = Inr (sb_estrato s)" "length (ptr_encode (sb_estrato s)) = 48"
    using assms by (auto simp: super_ok_def ptr_decode_encode ptr_ok_def)
  show ?thesis
    using assms p by (cases s)
      (simp add: super_decode_def super_encode_def super_ok_def Let_def medidas medidas_super
        take_rodaja bytes_simps linorder_not_less)
qed

lemma super_decode_ok: "super_decode b = Inr s \<Longrightarrow> super_ok s"
  by (auto simp: super_decode_def super_ok_def Let_def medidas medidas_super bytes_simps ptr_decode_ok
      linorder_not_less split: if_splits sum.splits)

section \<open>\<open>Estrato\<close>\<close>

datatype autor = Kernel | Proceso u32 | Herramienta

fun autor_code :: "autor \<Rightarrow> u32" where
  "autor_code Kernel = 0" | "autor_code (Proceso _) = 1" | "autor_code Herramienta = 2"

fun autor_pid :: "autor \<Rightarrow> u32" where
  "autor_pid (Proceso p) = p" | "autor_pid _ = 0"

definition autor_from :: "u32 \<Rightarrow> u32 \<Rightarrow> autor" where
  "autor_from code pid = (if code = 1 then Proceso pid else if code = 2 then Herramienta else Kernel)"

record estrato =
  es_raiz :: block_ptr
  es_padre :: block_ptr
  es_tiempo :: u64
  es_autor :: autor
  es_motivo :: "u8 list"

definition estrato_new :: "block_ptr \<Rightarrow> block_ptr \<Rightarrow> u64 \<Rightarrow> autor \<Rightarrow> u8 list \<Rightarrow> estrato" where
  "estrato_new raiz padre tiempo autor motivo =
    (let n = min (length motivo) MOTIVO_LEN in
     \<lparr>es_raiz = raiz, es_padre = padre, es_tiempo = tiempo, es_autor = autor,
      es_motivo = parche 0 (take n motivo) (replicate MOTIVO_LEN 0)\<rparr>)"

definition motivo_str :: "estrato \<Rightarrow> u8 list" where
  "motivo_str e = texto (take (hasta_cero (es_motivo e)) (es_motivo e))"

definition con_nombre :: "estrato \<Rightarrow> bool" where
  "con_nombre e \<longleftrightarrow> es_motivo e ! 0 \<noteq> 0"

definition estrato_encode :: "estrato \<Rightarrow> u8 list" where
  "estrato_encode e =
    (let b = replicate ESTRATO_LEN 0;
         b = parche 0 (ptr_encode (es_raiz e)) b;
         b = parche 48 (ptr_encode (es_padre e)) b;
         b = parche 96 (le 8 (es_tiempo e)) b;
         b = parche 104 (le 4 (autor_code (es_autor e))) b;
         b = parche 108 (le 4 (autor_pid (es_autor e))) b;
         b = parche 112 (es_motivo e) b
     in parche OFF_E_SUM (suma (take OFF_E_SUM b)) b)"

definition estrato_decode :: "u8 list \<Rightarrow> format_error + estrato" where
  "estrato_decode b =
    (if length b < ESTRATO_LEN then Inl ShortBuffer
     else if rodaja OFF_E_SUM 32 b \<noteq> suma (take OFF_E_SUM b) then Inl BadChecksum
     else case ptr_decode (rodaja 0 PTR_LEN b) of Inl e \<Rightarrow> Inl e
     | Inr raiz \<Rightarrow> (case ptr_decode (rodaja 48 PTR_LEN b) of Inl e \<Rightarrow> Inl e
       | Inr padre \<Rightarrow>
           Inr \<lparr>es_raiz = raiz, es_padre = padre, es_tiempo = de_le (rodaja 96 8 b),
                es_autor = autor_from (de_le (rodaja 104 4 b)) (de_le (rodaja 108 4 b)),
                es_motivo = rodaja 112 MOTIVO_LEN b\<rparr>))"

definition estrato_id :: "estrato \<Rightarrow> u8 list" where
  "estrato_id e = suma (estrato_encode e)"

definition estrato_ok :: "estrato \<Rightarrow> bool" where
  "estrato_ok e \<longleftrightarrow> ptr_ok (es_raiz e) \<and> ptr_ok (es_padre e) \<and> length (es_motivo e) = 64"

lemma autor_ida_vuelta [simp]: "autor_from (autor_code a) (autor_pid a) = a"
  by (cases a) (simp_all add: autor_from_def)

lemma estrato_new_ok: "ptr_ok raiz \<Longrightarrow> ptr_ok padre \<Longrightarrow> estrato_ok (estrato_new raiz padre t a m)"
  by (simp add: estrato_ok_def estrato_new_def medidas_super Let_def bytes_simps min_def)

lemma length_estrato_encode: "estrato_ok e \<Longrightarrow> length (estrato_encode e) = 224"
  by (simp add: estrato_encode_def medidas medidas_super Let_def bytes_simps estrato_ok_def ptr_ok_def)

lemma estrato_decode_encode:
  assumes "estrato_ok e"
  shows "estrato_decode (estrato_encode e) = Inr e"
proof -
  have p: "ptr_decode (ptr_encode (es_raiz e)) = Inr (es_raiz e)" "length (ptr_encode (es_raiz e)) = 48"
    "ptr_decode (ptr_encode (es_padre e)) = Inr (es_padre e)" "length (ptr_encode (es_padre e)) = 48"
    using assms by (auto simp: estrato_ok_def ptr_decode_encode ptr_ok_def)
  show ?thesis
    using assms p by (cases e)
      (simp add: estrato_decode_def estrato_encode_def estrato_ok_def Let_def medidas medidas_super
        take_rodaja bytes_simps)
qed

lemma estrato_decode_ok: "estrato_decode b = Inr e \<Longrightarrow> estrato_ok e"
  by (auto simp: estrato_decode_def estrato_ok_def Let_def medidas medidas_super bytes_simps ptr_decode_ok
      split: if_splits sum.splits)

end
