(* ===== verification/Estratos_Escritura.thy ===== *)
theory Estratos_Escritura
  imports Estratos_Super
begin

text \<open>
  \<open>platform/drivers/storage/estratos/src/espacio.rs\<close> and \<open>escritura/mod.rs\<close>: how full a volume is
  and whether it still takes writes, and the transaction, which decides the order of a write -
  data, barrera, commit - and lets nothing be done out of it.
\<close>

section \<open>Occupation\<close>

datatype nivel_espacio = Holgado | Ambar | Rojo | SoloLectura

definition admite_escritura :: "nivel_espacio \<Rightarrow> bool" where
  "admite_escritura n \<longleftrightarrow> n \<noteq> SoloLectura"

definition AMBAR :: u32 where "AMBAR = 700"
definition ROJO :: u32 where "ROJO = 850"
definition SOLO_LECTURA :: u32 where "SOLO_LECTURA = 950"

record ocupacion =
  oc_usados :: u64
  oc_totales :: u64
  oc_bloque :: u32

definition ocupacion_de :: "u64 \<Rightarrow> u64 \<Rightarrow> u32 \<Rightarrow> ocupacion" where
  "ocupacion_de log_head total_blocks bloque =
    \<lparr>oc_usados = min log_head total_blocks, oc_totales = total_blocks, oc_bloque = bloque\<rparr>"

definition oc_libres :: "ocupacion \<Rightarrow> u64" where
  "oc_libres oc = oc_totales oc - oc_usados oc"

definition por_mil :: "ocupacion \<Rightarrow> u32" where
  "por_mil oc =
    (if oc_totales oc = 0 then 0
     else ucast (saturating_mul (oc_usados oc) 1000 div oc_totales oc))"

definition por_ciento :: "ocupacion \<Rightarrow> u32" where
  "por_ciento oc = por_mil oc div 10"

definition bytes_usados :: "ocupacion \<Rightarrow> u64" where
  "bytes_usados oc = saturating_mul (oc_usados oc) (ucast (oc_bloque oc))"

definition bytes_libres :: "ocupacion \<Rightarrow> u64" where
  "bytes_libres oc = saturating_mul (oc_libres oc) (ucast (oc_bloque oc))"

definition nivel_de :: "ocupacion \<Rightarrow> nivel_espacio" where
  "nivel_de oc =
    (let p = por_mil oc in
     if p \<ge> SOLO_LECTURA then SoloLectura else if p \<ge> ROJO then Rojo
     else if p \<ge> AMBAR then Ambar else Holgado)"

definition div_ceil :: "u64 \<Rightarrow> u64 \<Rightarrow> u64" where
  "div_ceil a b = (let q = a div b; r = a mod b in if r > 0 then q + 1 else q)"

text \<open>A division by a block size of zero panics.\<close>

definition caben_de :: "ocupacion \<Rightarrow> u64 \<Rightarrow> u64 option" where
  "caben_de oc bytes =
    (if bytes = 0 then Some (- 1)
     else if oc_bloque oc = 0 then None
     else Some (oc_libres oc div max (div_ceil bytes (ucast (oc_bloque oc))) 1))"

lemma unat_u64: "unat (w :: u64) < 2 ^ 64"
  using unsigned_less [of w] by simp

lemma unat_div_ceil:
  assumes "0 < unat b"
  shows "unat (div_ceil a b) = (unat a + (unat b - 1)) div unat b"
proof -
  define n k where n: "n = unat a" and k: "k = unat b"
  have qr: "unat (a div b) = n div k" "unat (a mod b) = n mod k"
    by (simp_all add: n k unat_div unat_mod)
  obtain q r where q: "n div k = q" "n mod k = r" "n = k * q + r" "r < k"
    using assms by (metis k mod_less_divisor mult_div_mod_eq)
  then have c: "(n + (k - 1)) div k = (if n mod k = 0 then n div k else n div k + 1)"
    by (intro div_nat_eqI) auto
  have u: "a mod b > 0 \<longleftrightarrow> n mod k \<noteq> 0"
    using qr(2) by (simp add: word_less_nat_alt)
  show ?thesis
  proof (cases "n mod k = 0")
    case False
    have "n div k + 1 \<le> n"
      using False assms by (cases "n = 0"; cases "k = 1") (auto simp: k Suc_le_eq intro!: div_less_dividend)
    moreover have "unat a < 2 ^ 64"
      using unsigned_less [of a] by simp
    ultimately have "unat (a div b) + 1 < 2 ^ 64"
      unfolding qr(1) n by linarith
    then have "unat (a div b + 1) = n div k + 1"
      using qr(1) by (simp add: unat_add_small)
    then show ?thesis
      using False c u by (simp add: div_ceil_def Let_def flip: n k)
  qed (use c u qr in \<open>simp add: div_ceil_def Let_def flip: n k\<close>)
qed

text \<open>The level is the one of the exact fraction, while the product fits in 64 bits.\<close>

lemma unat_saturating_mul: "unat (saturating_mul a b) = min (unat a * unat b) (2 ^ 64 - 1)"
  by (auto simp: saturating_mul_def unat_word_ariths unsigned_minus_1_eq_mask mask_eq_exp_minus_1)

lemma por_mil_exacto:
  assumes "unat (oc_usados oc) * 1000 < 2 ^ 64" "oc_usados oc \<le> oc_totales oc" "oc_totales oc \<noteq> 0"
  shows "unat (por_mil oc) = unat (oc_usados oc) * 1000 div unat (oc_totales oc)"
    "unat (por_mil oc) \<le> 1000"
proof -
  define u t where u: "u = unat (oc_usados oc)" and t: "t = unat (oc_totales oc)"
  have t0: "0 < t" "u \<le> t"
    using assms(2,3) by (simp_all add: u t word_le_nat_alt unat_gt_0)
  have "u * 1000 div t \<le> t * 1000 div t"
    using t0 by (intro div_le_mono) simp
  then have le: "u * 1000 div t \<le> 1000"
    using t0 by simp
  have "unat (saturating_mul (oc_usados oc) 1000) = u * 1000"
    using assms(1) by (simp add: unat_saturating_mul u)
  then have "unat (saturating_mul (oc_usados oc) 1000 div oc_totales oc) = u * 1000 div t"
    by (simp add: unat_div t)
  then show e: "unat (por_mil oc) = unat (oc_usados oc) * 1000 div unat (oc_totales oc)"
    using le assms(3) by (simp add: por_mil_def unsigned_ucast_eq take_bit_nat_eq_self u t)
  show "unat (por_mil oc) \<le> 1000"
    using le unfolding e u [symmetric] t [symmetric] .
qed

section \<open>Transaction\<close>

datatype rechazo_tx = SinSitio | NoCabeTx | OtroDisco | FueraDeOrden

datatype fase = Datos | Barrera | Commit | Cerrada

record transaccion =
  tx_log_head :: u64
  tx_log_head_inicial :: u64
  tx_tot :: u64
  tx_generacion :: u64
  tx_origen :: superblock
  tx_copia_en_uso :: u64
  tx_fase :: fase

definition tx_open :: "superblock \<Rightarrow> u64 \<Rightarrow> bool \<Rightarrow> rechazo_tx + transaccion" where
  "tx_open sb copia_en_uso identidad_ok =
    (if \<not> identidad_ok then Inl OtroDisco
     else let oc = ocupacion_de (sb_log_head sb) (sb_total_blocks sb) (sb_block_size sb) in
       if \<not> admite_escritura (nivel_de oc) then Inl SinSitio
       else Inr \<lparr>tx_log_head = sb_log_head sb, tx_log_head_inicial = sb_log_head sb,
                 tx_tot = sb_total_blocks sb, tx_generacion = sb_generation sb, tx_origen = sb,
                 tx_copia_en_uso = copia_en_uso, tx_fase = Datos\<rparr>)"

definition reservados :: "transaccion \<Rightarrow> u64" where
  "reservados t = tx_log_head t - tx_log_head_inicial t"

definition reserve :: "u64 \<Rightarrow> transaccion \<Rightarrow> (rechazo_tx + u64) \<times> transaccion" where
  "reserve cuantos t =
    (if tx_fase t \<noteq> Datos then (Inl FueraDeOrden, t)
     else if cuantos = 0 then (Inr (tx_log_head t), t)
     else case checked_add (tx_log_head t) cuantos of
       None \<Rightarrow> (Inl NoCabeTx, t)
     | Some fin \<Rightarrow>
         if fin > tx_tot t then (Inl NoCabeTx, t)
         else (Inr (tx_log_head t), t\<lparr>tx_log_head := fin\<rparr>))"

definition cerrar_datos :: "transaccion \<Rightarrow> (rechazo_tx + unit) \<times> transaccion" where
  "cerrar_datos t =
    (if tx_fase t \<noteq> Datos then (Inl FueraDeOrden, t) else (Inr (), t\<lparr>tx_fase := Barrera\<rparr>))"

definition barrera_hecha :: "transaccion \<Rightarrow> (rechazo_tx + unit) \<times> transaccion" where
  "barrera_hecha t =
    (if tx_fase t \<noteq> Barrera then (Inl FueraDeOrden, t) else (Inr (), t\<lparr>tx_fase := Commit\<rparr>))"

definition tx_commit :: "block_ptr \<Rightarrow> transaccion \<Rightarrow> (rechazo_tx + (u64 \<times> superblock)) \<times> transaccion" where
  "tx_commit estrato t =
    (if tx_fase t \<noteq> Commit then (Inl FueraDeOrden, t)
     else
       let destino = (if tx_copia_en_uso t = SUPER_A_BLOCK then SUPER_B_BLOCK else SUPER_A_BLOCK);
           sb = (tx_origen t)\<lparr>sb_generation := tx_generacion t + 1, sb_log_head := tx_log_head t,
                              sb_estrato := estrato\<rparr>
       in (Inr (destino, sb), t\<lparr>tx_fase := Cerrada\<rparr>))"

definition abandonar :: "transaccion \<Rightarrow> transaccion" where
  "abandonar t = t\<lparr>tx_fase := Cerrada, tx_log_head := tx_log_head_inicial t\<rparr>"

subsection \<open>Histories\<close>

datatype tx_op = OReserva u64 | OCerrar | OBarrera | OCommit block_ptr | OAbandonar

datatype tx_res = RSitio u64 | RHecho | RSuper u64 superblock | RNo rechazo_tx

fun tx_paso :: "tx_op \<Rightarrow> transaccion \<Rightarrow> tx_res \<times> transaccion" where
  "tx_paso (OReserva k) t = (case reserve k t of (Inl e, t) \<Rightarrow> (RNo e, t) | (Inr v, t) \<Rightarrow> (RSitio v, t))"
| "tx_paso OCerrar t = (case cerrar_datos t of (Inl e, t) \<Rightarrow> (RNo e, t) | (Inr v, t) \<Rightarrow> (RHecho, t))"
| "tx_paso OBarrera t = (case barrera_hecha t of (Inl e, t) \<Rightarrow> (RNo e, t) | (Inr v, t) \<Rightarrow> (RHecho, t))"
| "tx_paso (OCommit p) t = (case tx_commit p t of (Inl e, t) \<Rightarrow> (RNo e, t) | (Inr (d, sb), t) \<Rightarrow> (RSuper d sb, t))"
| "tx_paso OAbandonar t = (RHecho, abandonar t)"

fun tx_corre :: "tx_op list \<Rightarrow> transaccion \<Rightarrow> (tx_op \<times> tx_res) list \<times> transaccion" where
  "tx_corre [] t = ([], t)"
| "tx_corre (o' # os) t = (let (r, t) = tx_paso o' t; (rs, t) = tx_corre os t in ((o', r) # rs, t))"

lemma tx_corre_append:
  "tx_corre (xs @ ys) t = (let (rs, t) = tx_corre xs t; (rs', t) = tx_corre ys t in (rs @ rs', t))"
  by (induction xs arbitrary: t) (simp_all add: Let_def split: prod.splits)

text \<open>
  The successes of a history, an abandonment apart: spans, one after another from the head of the
  log; then the end of the data, the barrier and the commit, each once and in this order.
\<close>

fun tramos_seguidos :: "nat \<Rightarrow> (nat \<times> nat) list \<Rightarrow> nat \<Rightarrow> bool" where
  "tramos_seguidos a [] b = (a = b)"
| "tramos_seguidos a ((i, k) # ts) b = (i = a \<and> tramos_seguidos (a + k) ts b)"

lemma tramos_seguidos_snoc:
  "tramos_seguidos a (ts @ [(i, k)]) b \<longleftrightarrow> tramos_seguidos a ts i \<and> b = i + k"
  by (induction ts arbitrary: a) auto

definition exitos :: "(tx_op \<times> tx_res) list \<Rightarrow> (tx_op \<times> tx_res) list" where
  "exitos rs = filter (\<lambda>(o', r). o' \<noteq> OAbandonar \<and> (\<forall>e. r \<noteq> RNo e)) rs"

lemma exitos_snoc:
  "exitos (rs @ [(o', r)]) = exitos rs @ (if o' \<noteq> OAbandonar \<and> (\<forall>e. r \<noteq> RNo e) then [(o', r)] else [])"
  by (simp add: exitos_def)

definition reservas :: "(u64 \<times> u64) list \<Rightarrow> (tx_op \<times> tx_res) list" where
  "reservas ks = map (\<lambda>(i, k). (OReserva k, RSitio i)) ks"

definition a_nat :: "(u64 \<times> u64) list \<Rightarrow> (nat \<times> nat) list" where
  "a_nat ks = map (\<lambda>(i, k). (unat i, unat k)) ks"

text \<open>How far a history has come.\<close>

definition cola_tx :: "superblock \<Rightarrow> u64 \<Rightarrow> u64 \<Rightarrow> block_ptr \<Rightarrow> (tx_op \<times> tx_res) list" where
  "cola_tx sb copia head p =
    [(OCerrar, RHecho), (OBarrera, RHecho),
     (OCommit p, RSuper (next_super_block copia)
        (sb\<lparr>sb_generation := sb_generation sb + 1, sb_log_head := head, sb_estrato := p\<rparr>))]"

definition tx_inv :: "superblock \<Rightarrow> u64 \<Rightarrow> (tx_op \<times> tx_res) list \<Rightarrow> transaccion \<Rightarrow> bool" where
  "tx_inv sb copia es t \<longleftrightarrow>
    (\<exists>ks j p head. es = reservas ks @ take j (cola_tx sb copia head p) \<and> j \<le> 3 \<and>
       tramos_seguidos (unat (sb_log_head sb)) (a_nat ks) (unat head) \<and>
       (head = sb_log_head sb \<or> head \<le> sb_total_blocks sb) \<and>
       (tx_fase t \<noteq> Cerrada \<longrightarrow> tx_fase t = [Datos, Barrera, Commit, Cerrada] ! j \<and> tx_log_head t = head) \<and>
       (j = 3 \<longrightarrow> tx_fase t = Cerrada) \<and>
       tx_tot t = sb_total_blocks sb \<and> tx_generacion t = sb_generation sb \<and> tx_origen t = sb \<and>
       tx_copia_en_uso t = copia)"

lemma admite_pos:
  assumes "tx_open sb copia ok = Inr t"
  shows "tx_inv sb copia [] t" "tx_log_head t = sb_log_head sb" "tx_fase t = Datos"
proof -
  have t: "t = \<lparr>tx_log_head = sb_log_head sb, tx_log_head_inicial = sb_log_head sb,
      tx_tot = sb_total_blocks sb, tx_generacion = sb_generation sb, tx_origen = sb,
      tx_copia_en_uso = copia, tx_fase = Datos\<rparr>"
    using assms by (simp add: tx_open_def Let_def split: if_splits)
  show "tx_log_head t = sb_log_head sb" "tx_fase t = Datos"
    by (simp_all add: t)
  have "tx_inv sb copia [] t \<longleftrightarrow> (\<exists>ks j p head. [] = reservas ks @ take j (cola_tx sb copia head p) \<and> j \<le> 3 \<and>
       tramos_seguidos (unat (sb_log_head sb)) (a_nat ks) (unat head) \<and>
       (head = sb_log_head sb \<or> head \<le> sb_total_blocks sb) \<and>
       (Datos = [Datos, Barrera, Commit, Cerrada] ! j \<and> sb_log_head sb = head) \<and> j \<noteq> 3)"
    unfolding tx_inv_def by (auto simp: t)
  then show "tx_inv sb copia [] t"
    by (auto intro!: exI [of _ "[]"] exI [of _ 0] simp: reservas_def a_nat_def)
qed

lemma tx_inv_paso:
  assumes "tx_inv sb copia (exitos rs) t" "tx_paso o' t = (r, t')"
  shows "tx_inv sb copia (exitos (rs @ [(o', r)])) t'"
proof -
  obtain ks j p head where e: "exitos rs = reservas ks @ take j (cola_tx sb copia head p)" "j \<le> 3"
    and ts: "tramos_seguidos (unat (sb_log_head sb)) (a_nat ks) (unat head)"
      "head = sb_log_head sb \<or> head \<le> sb_total_blocks sb"
    and f: "tx_fase t \<noteq> Cerrada \<Longrightarrow> tx_fase t = [Datos, Barrera, Commit, Cerrada] ! j \<and> tx_log_head t = head"
      "j = 3 \<Longrightarrow> tx_fase t = Cerrada"
    and c: "tx_tot t = sb_total_blocks sb" "tx_generacion t = sb_generation sb" "tx_origen t = sb"
      "tx_copia_en_uso t = copia"
    using assms(1) unfolding tx_inv_def by auto
  have igual: ?thesis if "exitos (rs @ [(o', r)]) = exitos rs" "t' = t"
    using assms(1) that by simp
  have crece: ?thesis
    if "exitos (rs @ [(o', r)]) = exitos rs @ [(o', r)]"
      "(o', r) = cola_tx sb copia head q ! j" "j < 3" "tx_fase t' = [Datos, Barrera, Commit, Cerrada] ! (j + 1)"
      "tx_log_head t' = head" "tx_tot t' = tx_tot t" "tx_generacion t' = tx_generacion t" "tx_origen t' = tx_origen t"
      "tx_copia_en_uso t' = tx_copia_en_uso t" for q
  proof -
    have l: "length (cola_tx sb copia head x) = 3" for x
      by (simp add: cola_tx_def)
    have "take j (cola_tx sb copia head p) = take j (cola_tx sb copia head q)"
      using that(3) by (cases j; cases "j - 1") (auto simp: cola_tx_def less_Suc_eq numeral_3_eq_3)
    then have "exitos rs @ [(o', r)] = reservas ks @ take (j + 1) (cola_tx sb copia head q)"
      using that(2,3) e(1) l [of q] by (simp add: take_Suc_conv_app_nth)
    moreover have "j + 1 \<le> 3" "j + 1 = 3 \<longrightarrow> tx_fase t' = Cerrada"
      using that(3,4) by auto
    moreover have "tx_tot t' = sb_total_blocks sb" "tx_generacion t' = sb_generation sb" "tx_origen t' = sb"
      "tx_copia_en_uso t' = copia"
      using that c by simp_all
    ultimately show ?thesis
      unfolding tx_inv_def that(1) using that(4,5) ts by blast
  qed
  show ?thesis
  proof (cases o')
    case (OReserva k)
    show ?thesis
    proof (cases "tx_fase t = Datos \<and> r \<noteq> RNo NoCabeTx")
      case False
      then have "r = RNo FueraDeOrden \<or> r = RNo NoCabeTx" "t' = t"
        using assms(2) OReserva by (auto simp: reserve_def split: if_splits option.splits)
      then show ?thesis
        by (intro igual) (auto simp: exitos_snoc)
    next
      case True
      then have j: "j = 0" "head = tx_log_head t"
        using f e(2) by (auto simp: less_Suc_eq numeral_3_eq_3 nth_Cons' split: if_splits)
      obtain h' where h: "r = RSitio head" "t' = t\<lparr>tx_log_head := h'\<rparr>" "unat h' = unat head + unat k"
        "h' = head \<or> h' \<le> sb_total_blocks sb"
      proof (cases "k = 0")
        case k: True
        then have "r = RSitio head" "t' = t\<lparr>tx_log_head := head\<rparr>"
          using assms(2) OReserva True j(2) by (auto simp: reserve_def)
        then show thesis
          using k by (intro that [of head]) simp_all
      next
        case k: False
        then obtain fin where "checked_add head k = Some fin" "\<not> fin > tx_tot t"
          "r = RSitio head" "t' = t\<lparr>tx_log_head := fin\<rparr>"
          using assms(2) OReserva True j(2) by (auto simp: reserve_def split: if_splits option.splits)
        then show thesis
          using c(1) by (intro that [of fin]) (auto simp: unat_checked_add)
      qed
      have "exitos (rs @ [(o', r)]) = reservas (ks @ [(head, k)]) @ take 0 (cola_tx sb copia h' p)"
        using e(1) by (simp add: exitos_snoc OReserva h(1) j(1) reservas_def)
      moreover have "tramos_seguidos (unat (sb_log_head sb)) (a_nat (ks @ [(head, k)])) (unat h')"
        using ts(1) h(3) by (simp add: a_nat_def tramos_seguidos_snoc)
      moreover have "h' = sb_log_head sb \<or> h' \<le> sb_total_blocks sb"
        using h(4) ts(2) by auto
      ultimately show ?thesis
        unfolding tx_inv_def using h(2) True c
        by (intro exI [of _ "ks @ [(head, k)]"] exI [of _ "0 :: nat"] exI [of _ p] exI [of _ h']) auto
    qed
  next
    case OCerrar
    show ?thesis
    proof (cases "tx_fase t = Datos")
      case False
      then show ?thesis
        using assms(2) OCerrar by (intro igual) (auto simp: cerrar_datos_def exitos_snoc)
    next
      case True
      then have j: "j = 0" "tx_log_head t = head"
        using f e(2) by (auto simp: less_Suc_eq numeral_3_eq_3 nth_Cons' split: if_splits)
      then show ?thesis
        using assms(2) OCerrar True by (intro crece [of p]) (auto simp: cerrar_datos_def exitos_snoc cola_tx_def)
    qed
  next
    case OBarrera
    show ?thesis
    proof (cases "tx_fase t = Barrera")
      case False
      then show ?thesis
        using assms(2) OBarrera by (intro igual) (auto simp: barrera_hecha_def exitos_snoc)
    next
      case True
      then have j: "j = 1" "tx_log_head t = head"
        using f e(2) by (auto simp: less_Suc_eq numeral_3_eq_3 nth_Cons' split: if_splits)
      then show ?thesis
        using assms(2) OBarrera True by (intro crece [of p]) (auto simp: barrera_hecha_def exitos_snoc cola_tx_def)
    qed
  next
    case (OCommit q)
    show ?thesis
    proof (cases "tx_fase t = Commit")
      case False
      then show ?thesis
        using assms(2) OCommit by (intro igual) (auto simp: tx_commit_def exitos_snoc)
    next
      case True
      then have j: "j = 2" "tx_log_head t = head"
        using f e(2) by (auto simp: less_Suc_eq numeral_3_eq_3 nth_Cons' split: if_splits)
      then show ?thesis
        using assms(2) OCommit True c by (intro crece [of q])
          (auto simp: tx_commit_def exitos_snoc cola_tx_def next_super_block_def Let_def)
    qed
  next
    case OAbandonar
    then have "exitos (rs @ [(o', r)]) = exitos rs" "t' = abandonar t"
      using assms(2) by (simp_all add: exitos_snoc)
    then show ?thesis
      unfolding tx_inv_def using e ts c f(2)
      by (intro exI [of _ ks] exI [of _ j] exI [of _ p] exI [of _ head]) (auto simp: abandonar_def)
  qed
qed

lemma tx_corre_inv:
  assumes "tx_open sb copia ok = Inr t0" "tx_corre os t0 = (rs, t)"
  shows "tx_inv sb copia (exitos rs) t"
  using assms(2)
proof (induction os arbitrary: rs t rule: rev_induct)
  case Nil
  then show ?case
    using admite_pos(1) [OF assms(1)] by (simp add: exitos_def)
next
  case (snoc o' os)
  obtain rs1 t1 where 1: "tx_corre os t0 = (rs1, t1)" by fastforce
  obtain r t2 where 2: "tx_paso o' t1 = (r, t2)" by fastforce
  have "rs = rs1 @ [(o', r)]" "t = t2"
    using snoc.prems 1 2 by (auto simp: tx_corre_append)
  then show ?case
    using tx_inv_paso [OF snoc.IH [OF 1] 2] by simp
qed

text \<open>
  C35: a transaction only goes forward. However the operations of a transaction are called, in whatever
  order and however often, those that succeed are reservations, whose spans follow one another from
  the head of the log of the superblock without a gap and inside the volume, and after them at most
  the end of the data, the barrier and one commit, in that order; and the superblock of the commit is
  the old one with the next generation, the head of the log after the last span and the stratum given,
  for the copy that is not in use.
\<close>

theorem tx_ordenada:
  assumes "tx_open sb copia ok = Inr t0" "tx_corre os t0 = (rs, t)"
  shows "\<exists>ks j p head. exitos rs = reservas ks @ take j (cola_tx sb copia head p) \<and> j \<le> 3 \<and>
      tramos_seguidos (unat (sb_log_head sb)) (a_nat ks) (unat head) \<and>
      (head = sb_log_head sb \<or> head \<le> sb_total_blocks sb)"
  using tx_corre_inv [OF assms] unfolding tx_inv_def by blast

definition super_prueba :: superblock where
  "super_prueba = superblock_new NO_HASH 1000"

lemma tx_ordenada_witness:
  "\<exists>t0 rs t head. tx_open super_prueba 0 True = Inr t0 \<and>
     tx_corre [OReserva 3, OCommit NULO, OReserva 2, OCerrar, OReserva 1, OBarrera, OCommit NULO] t0 = (rs, t) \<and>
     exitos rs = reservas [(2, 3), (5, 2)] @ cola_tx super_prueba 0 head NULO \<and>
     tramos_seguidos 2 (a_nat [(2, 3), (5, 2)]) (unat head)"
proof -
  define os where "os = [OReserva 3, OCommit NULO, OReserva 2, OCerrar, OReserva 1, OBarrera, OCommit NULO]"
  have "por_mil (ocupacion_de 2 1000 4096) = 2"
    by (simp add: por_mil_def ocupacion_de_def saturating_mul_def)
  then have "admite_escritura (nivel_de (ocupacion_de 2 1000 4096))"
    by (simp add: nivel_de_def admite_escritura_def SOLO_LECTURA_def ROJO_def AMBAR_def)
  then obtain t0 where t0: "tx_open super_prueba 0 True = Inr t0"
    by (simp add: tx_open_def super_prueba_def superblock_new_def medidas_super)
  moreover obtain rs t where r: "tx_corre os t0 = (rs, t)"
    by fastforce
  moreover have e: "exitos rs = reservas [(2, 3), (5, 2)] @ cola_tx super_prueba 0 7 NULO"
    using r t0
    by (auto simp: tx_open_def super_prueba_def superblock_new_def medidas_super Let_def os_def exitos_def reservas_def
        cola_tx_def reserve_def cerrar_datos_def barrera_hecha_def tx_commit_def checked_add_def next_super_block_def split: if_splits)
  moreover obtain ks j p head where
    "exitos rs = reservas ks @ take j (cola_tx super_prueba 0 head p)"
    "tramos_seguidos (unat (sb_log_head super_prueba)) (a_nat ks) (unat head)"
    using tx_ordenada [OF t0 r] by blast
  ultimately show ?thesis
    unfolding os_def [symmetric] by (auto simp: a_nat_def)
qed

end
