(* ===== verification/Estratos_Flujo.thy ===== *)
theory Estratos_Flujo
  imports Estratos_Escritura
begin

text \<open>
  \<open>platform/drivers/storage/estratos/src/flujo.rs\<close> and \<open>read.rs\<close>: a stream cut into blocks. The plan
  says how many blocks each level of the tree takes, \<open>Arbol\<close> writes the blocks of data as they come
  and closes a block of pointers when it is full, with a carry to the level above; \<open>descender\<close>
  walks the tree back. The device is a parameter: \<open>poner\<close>, which may fail, and \<open>bloque\<close>.
\<close>

section \<open>The plan\<close>

definition FILAS :: nat where "FILAS = NIVELES_MAX + 1"

record plan =
  pl_niveles :: u8
  pl_por_nivel :: "u64 list"
  pl_tot :: u64

function plan_sube :: "u64 \<Rightarrow> nat \<Rightarrow> u64 list \<Rightarrow> (nat \<times> u64 list) option" where
  "plan_sube n niveles por_nivel =
    (if n > 1 then
       let n' = div_ceil n (word_of_nat PTRS_POR_BLOQUE); k = niveles + 1 in
       if k \<ge> FILAS then None else plan_sube n' k (por_nivel[k := n'])
     else Some (niveles, por_nivel))"
  by pat_completeness auto

termination by (relation "measure (\<lambda>(n, k, _). FILAS - k)") auto

declare plan_sube.simps [simp del]

definition plan_de :: "u64 \<Rightarrow> plan option" where
  "plan_de tam =
    (if tam = 0 then None
     else
       let datos = div_ceil tam (word_of_nat BLOQUE) in
       map_option (\<lambda>(niveles, por_nivel).
           \<lparr>pl_niveles = word_of_nat niveles, pl_por_nivel = por_nivel, pl_tot = fold (\<lambda>v t. t + v) por_nivel 0\<rparr>)
         (plan_sube datos 0 ((replicate FILAS 0)[0 := datos])))"

section \<open>\<open>Arbol\<close>\<close>

record arbol_st =
  ar_plan :: plan
  ar_cursor :: "u64 list"
  ar_indice :: "u8 list list"
  ar_lleno :: "nat list"
  ar_raiz :: "block_ptr option"
  ar_trozos :: u64

type_synonym 's poner = "u64 \<Rightarrow> u8 list \<Rightarrow> 's \<Rightarrow> bool \<times> 's"

fun cursores :: "u64 \<Rightarrow> u64 list \<Rightarrow> u64 list" where
  "cursores donde [] = []"
| "cursores donde (v # vs) = donde # cursores (donde + v) vs"

definition arbol_nuevo :: "plan \<Rightarrow> u64 \<Rightarrow> u8 list list \<Rightarrow> format_error + arbol_st" where
  "arbol_nuevo plan base indice =
    (if length indice < unat (pl_niveles plan) then Inl SinScratch
     else Inr \<lparr>ar_plan = plan, ar_cursor = cursores base (pl_por_nivel plan), ar_indice = indice,
               ar_lleno = replicate FILAS 0, ar_raiz = None, ar_trozos = 0\<rparr>)"

definition cerrar_nivel ::
    "'s poner \<Rightarrow> nat \<Rightarrow> arbol_st \<Rightarrow> 's \<Rightarrow> (format_error + block_ptr) \<times> arbol_st \<times> 's" where
  "cerrar_nivel poner nivel a s =
    (let usados = ar_lleno a ! nivel * PTR_LEN;
         lba = ar_cursor a ! nivel;
         datos = take usados (ar_indice a ! (nivel - 1))
     in case poner lba datos s of
       (False, s) \<Rightarrow> (Inl Io, a, s)
     | (True, s) \<Rightarrow>
         (Inr (ptr_nuevo lba 0 datos),
          a\<lparr>ar_cursor := (ar_cursor a)[nivel := lba + 1], ar_lleno := (ar_lleno a)[nivel := 0]\<rparr>, s))"

definition cuelga_ptr :: "nat \<Rightarrow> block_ptr \<Rightarrow> arbol_st \<Rightarrow> arbol_st" where
  "cuelga_ptr nivel ptr a =
    (let hueco = ar_lleno a ! nivel * PTR_LEN in
     a\<lparr>ar_indice := (ar_indice a)[nivel - 1 := parche hueco (ptr_encode ptr) (ar_indice a ! (nivel - 1))],
       ar_lleno := (ar_lleno a)[nivel := ar_lleno a ! nivel + 1]\<rparr>)"

lemma cerrar_nivel_plan: "ar_plan (fst (snd (cerrar_nivel poner nivel a s))) = ar_plan a"
  by (simp add: cerrar_nivel_def Let_def split: prod.splits bool.splits)

lemma cuelga_ptr_plan: "ar_plan (cuelga_ptr nivel ptr a) = ar_plan a"
  by (simp add: cuelga_ptr_def Let_def)

lemma cerrar_nivel_plan':
  "(r, a2, s2) = cerrar_nivel poner nivel a s \<Longrightarrow> ar_plan a2 = ar_plan a"
  using cerrar_nivel_plan [of poner nivel a s] by (metis fst_conv snd_conv)

function colgar ::
    "'s poner \<Rightarrow> nat \<Rightarrow> block_ptr \<Rightarrow> arbol_st \<Rightarrow> 's \<Rightarrow> (format_error + unit) \<times> arbol_st \<times> 's" where
  "colgar poner nivel ptr a s =
    (if nivel > unat (pl_niveles (ar_plan a)) then (Inr (), a\<lparr>ar_raiz := Some ptr\<rparr>, s)
     else
       let a1 = cuelga_ptr nivel ptr a in
       if ar_lleno a1 ! nivel < PTRS_POR_BLOQUE then (Inr (), a1, s)
       else case cerrar_nivel poner nivel a1 s of
         (Inl e, a2, s2) \<Rightarrow> (Inl e, a2, s2)
       | (Inr p, a2, s2) \<Rightarrow> colgar poner (nivel + 1) p a2 s2)"
  by pat_completeness auto

termination
  by (relation "measure (\<lambda>(_, nivel, _, a, _). unat (pl_niveles (ar_plan a)) + 1 - nivel)")
    (auto dest!: cerrar_nivel_plan' simp: cuelga_ptr_plan)

declare colgar.simps [simp del]

definition empujar_trozo ::
    "'s poner \<Rightarrow> u8 list \<Rightarrow> arbol_st \<Rightarrow> 's \<Rightarrow> (format_error + unit) \<times> arbol_st \<times> 's" where
  "empujar_trozo poner datos a s =
    (if datos = [] \<or> length datos > BLOQUE then (Inl BadField, a, s)
     else if ar_trozos a \<ge> pl_por_nivel (ar_plan a) ! 0 then (Inl BadField, a, s)
     else
       let lba = ar_cursor a ! 0 in
       case poner lba datos s of
         (False, s1) \<Rightarrow> (Inl Io, a, s1)
       | (True, s1) \<Rightarrow>
           colgar poner 1 (ptr_nuevo lba 0 datos)
             (a\<lparr>ar_cursor := (ar_cursor a)[0 := lba + 1], ar_trozos := ar_trozos a + 1\<rparr>) s1)"

text \<open>The loop of \<open>cerrar\<close>, from \<open>nivel\<close> up; \<open>k\<close> levels are left.\<close>

fun cierra_niveles ::
    "'s poner \<Rightarrow> nat \<Rightarrow> nat \<Rightarrow> arbol_st \<Rightarrow> 's \<Rightarrow> (format_error + unit) \<times> arbol_st \<times> 's" where
  "cierra_niveles poner nivel 0 a s = (Inr (), a, s)"
| "cierra_niveles poner nivel (Suc k) a s =
    (if ar_lleno a ! nivel > 0 then
       (case cerrar_nivel poner nivel a s of
          (Inl e, a, s) \<Rightarrow> (Inl e, a, s)
        | (Inr p, a, s) \<Rightarrow>
            (case colgar poner (nivel + 1) p a s of
               (Inl e, a, s) \<Rightarrow> (Inl e, a, s)
             | (Inr _, a, s) \<Rightarrow> cierra_niveles poner (nivel + 1) k a s))
     else cierra_niveles poner (nivel + 1) k a s)"

definition cerrar :: "'s poner \<Rightarrow> arbol_st \<Rightarrow> 's \<Rightarrow> (format_error + block_ptr) \<times> 's" where
  "cerrar poner a s =
    (if ar_trozos a \<noteq> pl_por_nivel (ar_plan a) ! 0 then (Inl BadField, s)
     else case cierra_niveles poner 1 (unat (pl_niveles (ar_plan a))) a s of
       (Inl e, a, s) \<Rightarrow> (Inl e, s)
     | (Inr _, a, s) \<Rightarrow> (case ar_raiz a of Some p \<Rightarrow> (Inr p, s) | None \<Rightarrow> (Inl BadField, s)))"

text \<open>A caller: every piece, then the end.\<close>

fun empujar_todos ::
    "'s poner \<Rightarrow> u8 list list \<Rightarrow> arbol_st \<Rightarrow> 's \<Rightarrow> (format_error + unit) \<times> arbol_st \<times> 's" where
  "empujar_todos poner [] a s = (Inr (), a, s)"
| "empujar_todos poner (c # cs) a s =
    (case empujar_trozo poner c a s of
       (Inl e, a, s) \<Rightarrow> (Inl e, a, s)
     | (Inr _, a, s) \<Rightarrow> empujar_todos poner cs a s)"

definition escribe_flujo ::
    "'s poner \<Rightarrow> plan \<Rightarrow> u64 \<Rightarrow> u8 list list \<Rightarrow> u8 list list \<Rightarrow> 's \<Rightarrow> (format_error + block_ptr) \<times> 's" where
  "escribe_flujo poner plan base indice trozos s =
    (case arbol_nuevo plan base indice of Inl e \<Rightarrow> (Inl e, s)
     | Inr a \<Rightarrow> (case empujar_todos poner trozos a s of
         (Inl e, a, s) \<Rightarrow> (Inl e, s)
       | (Inr _, a, s) \<Rightarrow> cerrar poner a s))"

section \<open>\<open>descender\<close>\<close>

text \<open>
  Following a pointer: the block, the piece of it, its sum. \<open>niveles\<close> and the number of scratch
  buffers left go down together; what a buffer held before does not matter. \<open>salida\<close> answers
  whether it wants more, and the walk only goes on while it does.
\<close>

definition lee_ptr :: "(u64 \<Rightarrow> u8 list option) \<Rightarrow> block_ptr \<Rightarrow> format_error + u8 list" where
  "lee_ptr bloque p =
    (case bloque (bp_lba p) of None \<Rightarrow> Inl Io
     | Some b \<Rightarrow>
         let ini = unat (bp_off p); fin = ini + unat (bp_len p) in
         if fin > BLOQUE then Inl BadField
         else let datos = rodaja ini (unat (bp_len p)) b in
           if \<not> verifica p datos then Inl BadChecksum else Inr datos)"

type_synonym 's salida = "u8 list \<Rightarrow> 's \<Rightarrow> bool \<times> 's"

fun recorre ::
    "(block_ptr \<Rightarrow> 's \<Rightarrow> (format_error + unit) \<times> bool \<times> 's) \<Rightarrow> u8 list \<Rightarrow> nat \<Rightarrow> nat \<Rightarrow> 's \<Rightarrow>
     (format_error + unit) \<times> bool \<times> 's" where
  "recorre hijo datos i 0 s = (Inr (), True, s)"
| "recorre hijo datos i (Suc k) s =
    (case ptr_decode (rodaja (i * PTR_LEN) PTR_LEN datos) of Inl e \<Rightarrow> (Inl e, True, s)
     | Inr p \<Rightarrow>
         if es_nulo p then (Inr (), True, s)
         else case hijo p s of
           (Inl e, sig, s) \<Rightarrow> (Inl e, sig, s)
         | (Inr _, sig, s) \<Rightarrow> if sig then recorre hijo datos (i + 1) k s else (Inr (), False, s))"

primrec bajar ::
    "(u64 \<Rightarrow> u8 list option) \<Rightarrow> 's salida \<Rightarrow> nat \<Rightarrow> nat \<Rightarrow> block_ptr \<Rightarrow> 's \<Rightarrow>
     (format_error + unit) \<times> bool \<times> 's" where
  "bajar bloque salida 0 scratch p s =
    (if scratch = 0 then (Inl SinScratch, True, s)
     else case lee_ptr bloque p of Inl e \<Rightarrow> (Inl e, True, s)
     | Inr datos \<Rightarrow> (case salida datos s of (sig, s) \<Rightarrow> (Inr (), sig, s)))"
| "bajar bloque salida (Suc niveles) scratch p s =
    (if scratch = 0 then (Inl SinScratch, True, s)
     else case lee_ptr bloque p of Inl e \<Rightarrow> (Inl e, True, s)
     | Inr datos \<Rightarrow>
         recorre (bajar bloque salida niveles (scratch - 1)) datos 0 (length datos div PTR_LEN) s)"

definition descender ::
    "(u64 \<Rightarrow> u8 list option) \<Rightarrow> block_ptr \<Rightarrow> u8 \<Rightarrow> nat \<Rightarrow> 's salida \<Rightarrow> 's \<Rightarrow> (format_error + unit) \<times> 's" where
  "descender bloque raiz niveles scratch salida s =
    (case bajar bloque salida (unat niveles) scratch raiz s of (r, sig, s) \<Rightarrow> (r, s))"

section \<open>What the plan says\<close>

definition techo :: "nat \<Rightarrow> nat \<Rightarrow> nat" where
  "techo a b = (a + (b - 1)) div b"

lemma techo_le: "0 < b \<Longrightarrow> techo a b \<le> m \<longleftrightarrow> a \<le> m * b"
proof -
  assume b: "0 < b"
  have "techo a b \<le> m \<longleftrightarrow> a + (b - 1) < (m + 1) * b"
    using b by (simp add: techo_def less_Suc_eq_le [symmetric] div_less_iff_less_mult)
  then show ?thesis
    using b by (auto simp: algebra_simps)
qed

lemma techo_unico: "(\<And>m. x \<le> m \<longleftrightarrow> y \<le> m) \<Longrightarrow> x = (y :: nat)"
  by (metis order_antisym order_refl)

lemma techo_techo: "0 < b \<Longrightarrow> 0 < c \<Longrightarrow> techo (techo a b) c = techo a (b * c)"
  by (rule techo_unico) (simp add: techo_le mult.commute mult.left_commute)

lemma techo_1 [simp]: "techo a (Suc 0) = a"
  by (simp add: techo_def)

lemma techo_suma:
  assumes "0 < b"
  shows "techo (b * q + r) b = q + techo r b"
proof -
  have "b * q + r + (b - 1) = (r + (b - 1)) + q * b"
    by simp
  then show ?thesis
    unfolding techo_def using assms by (metis add.commute div_mult_self1 nat_neq_iff)
qed

lemma techo_uno: "0 < r \<Longrightarrow> r \<le> b \<Longrightarrow> techo r b = 1"
  using techo_le [of b r 1] techo_le [of b r 0] by auto

lemma techo_0 [simp]: "0 < b \<Longrightarrow> techo 0 b = 0"
  by (simp add: techo_def)

lemma unat_div_ceil_techo: "0 < unat b \<Longrightarrow> unat (div_ceil a b) = techo (unat a) (unat b)"
  by (simp add: unat_div_ceil techo_def)

lemma find_upt_Suc: "k < n \<Longrightarrow> find P [k ..< n] = (if P k then Some k else find P [Suc k ..< n])"
  by (subst upt_conv_Cons) simp_all

lemma PTRS [simp]: "PTRS_POR_BLOQUE = 85" "FILAS = 5"
  by (simp_all add: medidas FILAS_def)

lemma plan_sube_eq:
  assumes "unat n = techo n0 (85 ^ k)" "k \<le> 4" "length pn = 5"
  shows "plan_sube n k pn =
    map_option (\<lambda>N. (N, map (\<lambda>j. if k < j \<and> j \<le> N then word_of_nat (techo n0 (85 ^ j)) else pn ! j) [0 ..< 5]))
      (find (\<lambda>l. n0 \<le> 85 ^ l) [k ..< 5])"
  using assms
proof (induction n k pn rule: plan_sube.induct)
  case (1 n k pn)
  have n1: "n > 1 \<longleftrightarrow> \<not> n0 \<le> 85 ^ k"
  proof -
    have "n > 1 \<longleftrightarrow> \<not> unat n \<le> 1"
      by (simp add: word_less_nat_alt linorder_not_le)
    then show ?thesis
      using techo_le [of "85 ^ k" n0 1] unfolding 1(2) by simp
  qed
  show ?case
  proof (cases "n0 \<le> 85 ^ k")
    case True
    have "map (\<lambda>j. if k < j \<and> j \<le> k then word_of_nat (techo n0 (85 ^ j)) else pn ! j) [0 ..< 5] = pn"
      using 1(4) by (intro nth_equalityI) auto
    then show ?thesis
      using True n1 1(3) by (subst plan_sube.simps) (simp add: find_upt_Suc)
  next
    case False
    let ?n = "div_ceil n 85"
    have P: "word_of_nat PTRS_POR_BLOQUE = (85 :: u64)"
      by simp
    have u: "unat ?n = techo n0 (85 ^ (k + 1))"
      using techo_techo [of "85 ^ k" 85 n0] by (simp add: unat_div_ceil_techo 1(2) mult.commute)
    show ?thesis
    proof (cases "k = 4")
      case True
      then show ?thesis
        using False n1 by (subst plan_sube.simps) (simp add: find_upt_Suc)
    next
      case k: False
      have w: "?n = word_of_nat (techo n0 (85 ^ (k + 1)))"
        unfolding u [symmetric] by simp
      have "plan_sube ?n (k + 1) (pn[k + 1 := ?n]) = map_option (\<lambda>N. (N, map (\<lambda>j. if k + 1 < j \<and> j \<le> N then
          word_of_nat (techo n0 (85 ^ j)) else pn[k + 1 := ?n] ! j) [0 ..< 5])) (find (\<lambda>l. n0 \<le> 85 ^ l) [k + 1 ..< 5])"
      proof (rule 1(1) [OF _ refl refl, unfolded P])
        show "unat ?n = techo n0 (85 ^ (k + 1))"
          by (rule u)
      qed (use False n1 k 1(3,4) in simp_all)
      moreover have "map (\<lambda>j. if k + 1 < j \<and> j \<le> N then word_of_nat (techo n0 (85 ^ j)) else pn[k + 1 := ?n] ! j) [0 ..< 5] =
          map (\<lambda>j. if k < j \<and> j \<le> N then word_of_nat (techo n0 (85 ^ j)) else pn ! j) [0 ..< 5]"
        if "find (\<lambda>l. n0 \<le> 85 ^ l) [k + 1 ..< 5] = Some N" for N
      proof -
        have "k + 1 \<le> N"
          using that by (auto simp: find_Some_iff)
        then have "(if k + 1 < j \<and> j \<le> N then word_of_nat (techo n0 (85 ^ j)) else pn[k + 1 := ?n] ! j) =
            (if k < j \<and> j \<le> N then word_of_nat (techo n0 (85 ^ j)) else pn ! j)" if "j < 5" for j
          using w 1(4) that by (cases "j = k + 1") auto
        then show ?thesis
          by simp
      qed
      ultimately have "plan_sube ?n (k + 1) (pn[k + 1 := ?n]) = map_option (\<lambda>N. (N, map (\<lambda>j. if k < j \<and> j \<le> N then
          word_of_nat (techo n0 (85 ^ j)) else pn ! j) [0 ..< 5])) (find (\<lambda>l. n0 \<le> 85 ^ l) [k + 1 ..< 5])"
        by (cases "find (\<lambda>l. n0 \<le> 85 ^ l) [k + 1 ..< 5]") simp_all
      then show ?thesis
        using False n1 k 1(3) by (subst plan_sube.simps) (simp add: find_upt_Suc Let_def)
    qed
  qed
qed

lemma fold_suma:
  assumes "unat t + sum_list (map unat vs) < 2 ^ 64"
  shows "unat (fold (\<lambda>v t. t + v) vs (t :: u64)) = unat t + sum_list (map unat vs)"
  using assms
proof (induction vs arbitrary: t)
  case (Cons v vs)
  then have "unat (t + v) = unat t + unat v"
    by (simp add: unat_add_small)
  then show ?case
    using Cons by simp
qed simp

text \<open>The blocks of level \<open>j\<close>, and how many levels there are.\<close>

definition bloques_nivel :: "nat \<Rightarrow> nat \<Rightarrow> nat" where
  "bloques_nivel tam j = techo tam (4096 * 85 ^ j)"

lemma plan_de_eq:
  assumes "tam \<noteq> 0"
  shows "plan_de tam = map_option (\<lambda>N. let pn = map (\<lambda>j. if j \<le> N then word_of_nat (bloques_nivel (unat tam) j) else 0) [0 ..< 5]
      in \<lparr>pl_niveles = word_of_nat N, pl_por_nivel = pn, pl_tot = fold (\<lambda>v t. t + v) pn 0\<rparr>)
    (find (\<lambda>l. unat tam \<le> 4096 * 85 ^ l) [0 ..< 5])"
proof -
  define n0 where "n0 = techo (unat tam) 4096"
  let ?d = "div_ceil tam 4096"
  have d: "unat ?d = n0" "?d = word_of_nat n0"
  proof -
    show u: "unat ?d = n0"
      by (simp add: unat_div_ceil_techo n0_def)
    show "?d = word_of_nat n0"
      unfolding u [symmetric] by simp
  qed
  have n0: "n0 \<le> 85 ^ l \<longleftrightarrow> unat tam \<le> 4096 * 85 ^ l" for l
    by (simp add: n0_def techo_le mult.commute)
  have t: "techo n0 (85 ^ j) = bloques_nivel (unat tam) j" for j
    by (simp add: n0_def bloques_nivel_def techo_techo)
  have m: "map (\<lambda>j. if 0 < j \<and> j \<le> N then word_of_nat (techo n0 (85 ^ j)) else ((replicate 5 0)[0 := ?d]) ! j) [0 ..< 5] =
      map (\<lambda>j. if j \<le> N then word_of_nat (bloques_nivel (unat tam) j) else 0) [0 ..< 5]" for N
    unfolding t [symmetric] by (intro map_cong) (auto simp: nth_list_update d(2))
  have "plan_sube ?d 0 ((replicate 5 0)[0 := ?d]) = map_option (\<lambda>N. (N, map (\<lambda>j. if 0 < j \<and> j \<le> N then
      word_of_nat (techo n0 (85 ^ j)) else ((replicate 5 0)[0 := ?d]) ! j) [0 ..< 5])) (find (\<lambda>l. n0 \<le> 85 ^ l) [0 ..< 5])"
    by (rule plan_sube_eq) (simp_all add: d(1))
  then have "plan_sube ?d 0 ((replicate 5 0)[0 := ?d]) = map_option (\<lambda>N. (N, map (\<lambda>j. if j \<le> N then
      word_of_nat (bloques_nivel (unat tam) j) else 0) [0 ..< 5])) (find (\<lambda>l. unat tam \<le> 4096 * 85 ^ l) [0 ..< 5])"
    unfolding m n0 .
  then show ?thesis
    using assms by (simp add: plan_de_def medidas option.map_comp comp_def Let_def)
qed

lemma unat_capacity: "l \<le> 4 \<Longrightarrow> unat (capacity (word_of_nat l)) = 4096 * 85 ^ l"
proof -
  assume l: "l \<le> 4"
  have "unat (((\<lambda>n. saturating_mul n 85) ^^ l) 4096) = 4096 * 85 ^ l"
    using l
  proof (induction l)
    case (Suc l)
    have "(85 :: nat) ^ Suc l \<le> 85 ^ 4"
      using Suc.prems by (intro power_increasing) simp_all
    then show ?case
      using Suc by (simp add: unat_saturating_mul)
  qed simp
  then show ?thesis
    using l by (simp add: capacity_def medidas unat_of_nat take_bit_nat_eq_self)
qed

lemma niveles_para_eq:
  "niveles_para tam = map_option word_of_nat (find (\<lambda>l. unat tam \<le> 4096 * 85 ^ l) [0 ..< 5])"
proof -
  have "find (\<lambda>l. tam \<le> capacity (word_of_nat l)) [0 ..< 5] = find (\<lambda>l. unat tam \<le> 4096 * 85 ^ l) [0 ..< 5]"
    by (intro find_cong) (auto simp: word_le_nat_alt unat_capacity)
  then show ?thesis
    by (simp add: niveles_para_def medidas)
qed

text \<open>The shape of a plan, as naturals.\<close>

abbreviation por_nivel_de :: "plan \<Rightarrow> nat \<Rightarrow> nat" where
  "por_nivel_de pl k \<equiv> unat (pl_por_nivel pl ! k)"

abbreviation niveles_de :: "plan \<Rightarrow> nat" where
  "niveles_de pl \<equiv> unat (pl_niveles pl)"

definition plan_ok :: "plan \<Rightarrow> bool" where
  "plan_ok pl \<longleftrightarrow> length (pl_por_nivel pl) = 5 \<and> niveles_de pl \<le> 4 \<and>
    (\<forall>k < niveles_de pl. por_nivel_de pl (k + 1) = techo (por_nivel_de pl k) 85) \<and>
    por_nivel_de pl (niveles_de pl) = 1 \<and> 0 < por_nivel_de pl 0"

lemma find_upt_Some:
  "find P [0 ..< n] = Some i \<longleftrightarrow> i < n \<and> P i \<and> (\<forall>j < i. \<not> P j)"
  by (auto simp: find_Some_iff)

lemma bloques_nivel_chico: "tam < 2 ^ 64 \<Longrightarrow> bloques_nivel tam j < 2 ^ 60"
proof -
  assume t: "tam < 2 ^ 64"
  have "tam \<le> (2 ^ 60 - 1) * (4096 * 85 ^ j)"
    using t mult_le_mono [of "2 ^ 52" "2 ^ 60 - 1" 4096 "4096 * 85 ^ j"] by simp
  then have "bloques_nivel tam j \<le> 2 ^ 60 - 1"
    unfolding bloques_nivel_def by (subst techo_le) simp_all
  then show ?thesis
    by simp
qed

lemma plan_de_ok:
  assumes "plan_de tam = Some pl"
  shows "plan_ok pl" "por_nivel_de pl 0 = techo (unat tam) 4096"
    "unat (pl_tot pl) = sum_list (map unat (pl_por_nivel pl))" "unat (pl_tot pl) < 2 ^ 63"
    "niveles_para tam = Some (pl_niveles pl)" "tam \<noteq> 0"
proof -
  show t0: "tam \<noteq> 0"
    using assms by (auto simp: plan_de_def)
  obtain N where f: "find (\<lambda>l. unat tam \<le> 4096 * 85 ^ l) [0 ..< 5] = Some N"
    using assms plan_de_eq [OF t0] by auto
  then have N: "N < 5" "unat tam \<le> 4096 * 85 ^ N" "\<And>j. j < N \<Longrightarrow> \<not> unat tam \<le> 4096 * 85 ^ j"
    by (auto simp: find_upt_Some)
  define pn :: "u64 list" where "pn = map (\<lambda>j. if j \<le> N then word_of_nat (bloques_nivel (unat tam) j) else 0) [0 ..< 5]"
  have pl: "pl = \<lparr>pl_niveles = word_of_nat N, pl_por_nivel = pn, pl_tot = fold (\<lambda>v t. t + v) pn 0\<rparr>"
    using assms plan_de_eq [OF t0] f by (simp add: Let_def pn_def)
  have "unat tam < 2 ^ 64"
    using unsigned_less [of tam] by simp
  note b = bloques_nivel_chico [OF this]
  have n: "unat (pn ! j) = (if j \<le> N then bloques_nivel (unat tam) j else 0)" if "j < 5" for j
    using that b [of j] by (simp add: pn_def unat_word_of_nat)
  have u: "unat (word_of_nat N :: u8) = N"
    using N(1) by (simp add: unat_word_of_nat)
  show "niveles_para tam = Some (pl_niveles pl)"
    by (simp add: niveles_para_eq f pl)
  show "por_nivel_de pl 0 = techo (unat tam) 4096"
    by (simp add: pl n bloques_nivel_def)
  have "por_nivel_de pl (k + 1) = techo (por_nivel_de pl k) 85" if "k < N" for k
    using that N(1) techo_techo [of "4096 * 85 ^ k" 85 "unat tam"]
    by (simp add: pl n bloques_nivel_def ac_simps)
  moreover have "bloques_nivel (unat tam) N = 1"
    using N(2) t0 techo_uno [of "unat tam" "4096 * 85 ^ N"] by (simp add: bloques_nivel_def unat_gt_0)
  moreover have "0 < bloques_nivel (unat tam) 0"
    using t0 techo_le [of 4096 "unat tam" 0] by (simp add: bloques_nivel_def unat_eq_zero)
  moreover have "length pn = 5"
    by (simp add: pn_def)
  ultimately show "plan_ok pl"
    using N(1) u by (simp add: plan_ok_def pl n)
  have "sum_list (map unat pn) \<le> 5 * 2 ^ 60"
  proof -
    have "sum_list (map unat pn) \<le> sum_list (map (\<lambda>_. 2 ^ 60) pn)"
      using n b by (intro sum_list_mono) (auto simp: in_set_conv_nth \<open>length pn = 5\<close> intro: less_imp_le)
    then show ?thesis
      by (simp add: sum_list_triv \<open>length pn = 5\<close>)
  qed
  moreover from this have "unat (fold (\<lambda>v t. t + v) pn 0) = sum_list (map unat pn)"
    using fold_suma [of 0 pn] by simp
  ultimately show "unat (pl_tot pl) = sum_list (map unat (pl_por_nivel pl))" "unat (pl_tot pl) < 2 ^ 63"
    by (simp_all add: pl)
qed

text \<open>
  C36: the writer and the format agree on the tree. For a size that is not zero there is a plan exactly
  when the format has levels for it, with as many levels; the plan counts one block for every 4096
  bytes begun, on each level one block for every 85 of the level below, one block at the top, and as
  total their sum, which does not wrap.
\<close>

theorem plan_y_niveles:
  assumes "tam \<noteq> 0"
  shows "map_option pl_niveles (plan_de tam) = niveles_para tam \<and>
    (case plan_de tam of None \<Rightarrow> True
     | Some pl \<Rightarrow> plan_ok pl \<and> por_nivel_de pl 0 = techo (unat tam) 4096 \<and>
         unat (pl_tot pl) = sum_list (map unat (pl_por_nivel pl)))"
proof
  show "map_option pl_niveles (plan_de tam) = niveles_para tam"
    using assms by (simp add: plan_de_eq niveles_para_eq option.map_comp comp_def Let_def)
qed (use plan_de_ok in \<open>simp split: option.split\<close>)

lemma plan_y_niveles_witness: "map_option pl_niveles (plan_de 348161) = Some 2"
proof -
  have "niveles_para 348161 = Some 2"
    by (simp add: niveles_para_eq upt_rec)
  then show ?thesis
    using plan_y_niveles [of 348161] by simp
qed

end
