(* ===== verification/Estratos_Arbol.thy ===== *)
theory Estratos_Arbol
  imports Estratos_Flujo
begin

text \<open>
  What the stream writer of \<open>flujo.rs\<close> leaves on the device is a tree whose leaves are the pieces in
  order, and the walk of \<open>read.rs\<close> gives them back. The device is an interface (locale \<open>almacen\<close>):
  a block that was put is read back, padded with zeros, and putting one changes no other.
\<close>

section \<open>Trees on a device\<close>

datatype arbol = Hoja "u8 list" | Rama "arbol list"

fun hojas :: "arbol \<Rightarrow> u8 list list" where
  "hojas (Hoja d) = [d]"
| "hojas (Rama ts) = concat (map hojas ts)"

definition rellena :: "u8 list \<Rightarrow> u8 list" where
  "rellena d = d @ replicate (4096 - length d) 0"

definition ptrs_bytes :: "block_ptr list \<Rightarrow> u8 list" where
  "ptrs_bytes ps = concat (map ptr_encode ps)"

text \<open>\<open>p\<close> leads to the tree, with \<open>k\<close> levels of pointers, all its blocks at places of \<open>L\<close>.\<close>

inductive guardado :: "(u64 \<Rightarrow> u8 list option) \<Rightarrow> u64 set \<Rightarrow> nat \<Rightarrow> block_ptr \<Rightarrow> arbol \<Rightarrow> bool"
  for r :: "u64 \<Rightarrow> u8 list option" and L :: "u64 set" where
  hoja: "lba \<in> L \<Longrightarrow> d \<noteq> [] \<Longrightarrow> length d \<le> 4096 \<Longrightarrow> r lba = Some (rellena d) \<Longrightarrow>
    guardado r L 0 (ptr_nuevo lba 0 d) (Hoja d)"
| rama: "lba \<in> L \<Longrightarrow> list_all2 (guardado r L k) ps ts \<Longrightarrow> ps \<noteq> [] \<Longrightarrow> length ps \<le> 85 \<Longrightarrow>
    r lba = Some (rellena (ptrs_bytes ps)) \<Longrightarrow>
    guardado r L (Suc k) (ptr_nuevo lba 0 (ptrs_bytes ps)) (Rama ts)"

lemma guardado_ptr_ok:
  "guardado r L k p t \<Longrightarrow> ptr_ok p \<and> bp_len p \<noteq> 0 \<and> bp_lba p \<in> L"
proof (induction rule: guardado.induct)
  case (hoja lba d)
  have "unat (word_of_nat (length d) :: u32) = length d"
    using hoja(3) by (simp add: unat_word_of_nat)
  then have "bp_len (ptr_nuevo lba 0 d) \<noteq> 0"
    using hoja(2) by (auto simp: ptr_nuevo_def)
  then show ?case
    using hoja by (simp add: ptr_ok_nuevo) (simp add: ptr_nuevo_def)
next
  case (rama lba k ps ts)
  have "list_all ptr_ok ps"
    using rama.IH by (simp add: list_all2_conv_all_nth list_all_length)
  then have l: "length (ptrs_bytes ps) = 48 * length ps"
    by (induction ps) (simp_all add: ptrs_bytes_def ptr_ok_def)
  then have "unat (word_of_nat (length (ptrs_bytes ps)) :: u32) = 48 * length ps"
    unfolding l using \<open>length ps \<le> 85\<close> by (intro unat_word_of_nat) simp
  then have "bp_len (ptr_nuevo lba 0 (ptrs_bytes ps)) \<noteq> 0"
    using \<open>ps \<noteq> []\<close> by (auto simp: ptr_nuevo_def)
  then show ?case
    using rama l by (simp add: ptr_ok_nuevo) (simp add: ptr_nuevo_def)
qed

lemma guardados_ptr_ok: "list_all2 (guardado r L k) ps ts \<Longrightarrow> list_all ptr_ok ps"
  using guardado_ptr_ok by (auto simp: list_all2_conv_all_nth list_all_length)

lemma length_ptrs_bytes: "list_all ptr_ok ps \<Longrightarrow> length (ptrs_bytes ps) = 48 * length ps"
  by (induction ps) (simp_all add: ptrs_bytes_def ptr_ok_def)

lemma rodaja_ptrs_bytes:
  "list_all ptr_ok ps \<Longrightarrow> i < length ps \<Longrightarrow> rodaja (i * 48) 48 (ptrs_bytes ps) = ptr_encode (ps ! i)"
proof (induction ps arbitrary: i)
  case (Cons p ps)
  then have "length (ptr_encode p) = 48"
    by (simp add: ptr_ok_def)
  then show ?case
    using Cons by (cases i) (simp_all add: ptrs_bytes_def rodaja_def)
qed simp

text \<open>A tree stays where it is while the places it may use are not written.\<close>

lemma guardado_igual:
  "guardado r L k p t \<Longrightarrow> (\<And>l. l \<in> L \<Longrightarrow> r' l = r l) \<Longrightarrow> L \<subseteq> L' \<Longrightarrow> guardado r' L' k p t"
proof (induction rule: guardado.induct)
  case (hoja lba d)
  then show ?case
    by (intro guardado.hoja) auto
next
  case (rama lba k ps ts)
  then have "list_all2 (guardado r' L' k) ps ts"
    by (auto elim!: list_all2_mono)
  then show ?case
    using rama by (intro guardado.rama) auto
qed

section \<open>Walking back\<close>

fun alimenta :: "'s salida \<Rightarrow> u8 list list \<Rightarrow> 's \<Rightarrow> bool \<times> 's" where
  "alimenta f [] s = (True, s)"
| "alimenta f (c # cs) s = (case f c s of (sig, s) \<Rightarrow> if sig then alimenta f cs s else (False, s))"

lemma alimenta_append:
  "alimenta f (xs @ ys) s = (case alimenta f xs s of (sig, s) \<Rightarrow> if sig then alimenta f ys s else (False, s))"
  by (induction xs arbitrary: s) (simp_all split: prod.splits)

lemma lee_ptr_nuevo:
  assumes "length d \<le> 4096" "r lba = Some (rellena d)"
  shows "lee_ptr r (ptr_nuevo lba 0 d) = Inr d"
proof -
  have "unat (word_of_nat (length d) :: u32) = length d"
    using assms(1) by (simp add: unat_word_of_nat)
  then show ?thesis
    using assms by (simp add: lee_ptr_def ptr_nuevo_def medidas verifica_def rellena_def rodaja_def Let_def)
qed

lemma recorre_todos:
  assumes "list_all ptr_ok ps" "\<And>p. p \<in> set ps \<Longrightarrow> bp_len p \<noteq> 0" "i + k = length ps"
    "\<And>j s. j < length ps \<Longrightarrow> hijo (ps ! j) s = (Inr (), alimenta f (hs ! j) s)" "length hs = length ps"
  shows "recorre hijo (ptrs_bytes ps) i k s = (Inr (), alimenta f (concat (drop i hs)) s)"
  using assms(3)
proof (induction k arbitrary: i s)
  case (Suc k)
  have i: "i < length ps" "drop i hs = hs ! i # drop (i + 1) hs"
    using Suc.prems assms(5) by (simp_all add: Cons_nth_drop_Suc)
  have "ptr_decode (rodaja (i * 48) 48 (ptrs_bytes ps)) = Inr (ps ! i)" "\<not> es_nulo (ps ! i)"
    using rodaja_ptrs_bytes [OF assms(1) i(1)] assms(1,2) i(1)
    by (simp_all add: ptr_decode_encode list_all_length es_nulo_def)
  then show ?case
    using assms(4) [OF i(1)] Suc.IH [of "i + 1"] Suc.prems i
    by (simp add: medidas alimenta_append split: prod.splits)
qed (use assms(5) in simp)

lemma bajar_guardado:
  "guardado r L k p t \<Longrightarrow> k < m \<Longrightarrow> bajar r f k m p s = (Inr (), alimenta f (hojas t) s)"
proof (induction k arbitrary: p t m s)
  case 0
  from 0(1) show ?case
  proof (cases rule: guardado.cases)
    case (hoja lba d)
    then show ?thesis
      using 0(2) lee_ptr_nuevo [of d r lba] by (cases "f d s") simp
  qed
next
  case (Suc k)
  from Suc.prems(1) show ?case
  proof (cases rule: guardado.cases)
    case 1: (rama lba ps ts)
    then have 4: "list_all2 (guardado r L k) ps ts"
      by simp
    note ok = guardados_ptr_ok [OF 4]
    have l: "length (ptrs_bytes ps) = 48 * length ps" "length ps = length ts"
      using length_ptrs_bytes [OF ok] list_all2_lengthD [OF 4] by simp_all
    have "recorre (bajar r f k (m - 1)) (ptrs_bytes ps) 0 (length ps) s =
        (Inr (), alimenta f (concat (drop 0 (map hojas ts))) s)"
    proof (rule recorre_todos [OF ok])
      fix j s
      assume "j < length ps"
      then show "bajar r f k (m - 1) (ps ! j) s = (Inr (), alimenta f (map hojas ts ! j) s)"
        using Suc.IH [of "ps ! j" "ts ! j" "m - 1" s] 4 Suc.prems(2) l(2) by (simp add: list_all2_conv_all_nth)
    next
      fix p
      assume "p \<in> set ps"
      then show "bp_len p \<noteq> 0"
        using 4 guardado_ptr_ok by (fastforce simp: list_all2_conv_all_nth in_set_conv_nth)
    qed (simp_all add: l)
    then show ?thesis
      using Suc.prems(2) 1 l lee_ptr_nuevo [of "ptrs_bytes ps" r lba] by (simp add: medidas)
  qed
qed

section \<open>The device, as an interface\<close>

locale almacen =
  fixes poner :: "'s poner" and bloque :: "'s \<Rightarrow> u64 \<Rightarrow> u8 list option" and V :: "u64 set"
    and toca :: "bool \<Rightarrow> 's \<Rightarrow> 's \<Rightarrow> bool"
  assumes poner_lee:
      "poner l d s = (True, s') \<Longrightarrow> l \<in> V \<Longrightarrow> length d \<le> 4096 \<Longrightarrow> bloque s' l = Some (rellena d)"
    and poner_otro:
      "poner l d s = (b, s') \<Longrightarrow> l \<in> V \<Longrightarrow> l' \<in> V \<Longrightarrow> l' \<noteq> l \<Longrightarrow> bloque s' l' = bloque s l'"
    and poner_toca: "poner l d s = (b, s') \<Longrightarrow> l \<in> V \<Longrightarrow> length d \<le> 4096 \<Longrightarrow> toca b s s'"
    and toca_refl: "toca True s s"
    and toca_trans: "toca True s s' \<Longrightarrow> toca b s' s'' \<Longrightarrow> toca b s s''"

section \<open>The state of the writer\<close>

text \<open>
  \<open>lugar\<close> is where the blocks of a level start. \<open>cl k\<close> is how many blocks of level \<open>k\<close> have been
  written, \<open>P k\<close> the trees whose pointers wait in the index of level \<open>k\<close>; the root, when there is
  one, waits above the last level.
\<close>

definition lugar :: "plan \<Rightarrow> nat \<Rightarrow> nat \<Rightarrow> nat" where
  "lugar pl b k = b + sum (por_nivel_de pl) {..<k}"

definition usados_en :: "plan \<Rightarrow> nat \<Rightarrow> (nat \<Rightarrow> nat) \<Rightarrow> u64 set" where
  "usados_en pl b cl = word_of_nat ` (\<Union>k \<le> niveles_de pl. {lugar pl b k ..< lugar pl b k + cl k})"

definition espera :: "(u64 \<Rightarrow> u8 list option) \<Rightarrow> u64 set \<Rightarrow> (nat \<Rightarrow> arbol list) \<Rightarrow> arbol_st \<Rightarrow> nat \<Rightarrow> bool" where
  "espera r L P a k \<longleftrightarrow> ar_lleno a ! k = length (P k) \<and> length (P k) \<le> 85 \<and>
    (\<exists>ps. list_all2 (guardado r L (k - 1)) ps (P k) \<and>
          take (48 * length (P k)) (ar_indice a ! (k - 1)) = ptrs_bytes ps)"

definition raiz_inv :: "(u64 \<Rightarrow> u8 list option) \<Rightarrow> u64 set \<Rightarrow> (nat \<Rightarrow> arbol list) \<Rightarrow> arbol_st \<Rightarrow> bool" where
  "raiz_inv r L P a \<longleftrightarrow>
    (case ar_raiz a of None \<Rightarrow> P (niveles_de (ar_plan a) + 1) = []
     | Some p \<Rightarrow> P (niveles_de (ar_plan a) + 1) \<noteq> [] \<and>
         guardado r L (niveles_de (ar_plan a)) p (last (P (niveles_de (ar_plan a) + 1))))"

definition medidas_ok :: "nat \<Rightarrow> (nat \<Rightarrow> nat) \<Rightarrow> arbol_st \<Rightarrow> bool" where
  "medidas_ok b cl a \<longleftrightarrow> (let pl = ar_plan a; N = niveles_de pl in
     plan_ok pl \<and> lugar pl b (N + 1) < 2 ^ 64 \<and> length (ar_cursor a) = 5 \<and> length (ar_lleno a) = 5 \<and>
     N \<le> length (ar_indice a) \<and> (\<forall>k < N. length (ar_indice a ! k) = 4096) \<and>
     (\<forall>k \<le> N. unat (ar_cursor a ! k) = lugar pl b k + cl k \<and> cl k \<le> por_nivel_de pl k) \<and>
     unat (ar_trozos a) = cl 0)"

definition arbol_inv ::
    "(u64 \<Rightarrow> u8 list option) \<Rightarrow> nat \<Rightarrow> (nat \<Rightarrow> nat) \<Rightarrow> (nat \<Rightarrow> arbol list) \<Rightarrow> arbol_st \<Rightarrow> bool" where
  "arbol_inv r b cl P a \<longleftrightarrow> medidas_ok b cl a \<and>
     (\<forall>k \<in> {1 .. niveles_de (ar_plan a)}. espera r (usados_en (ar_plan a) b cl) P a k) \<and>
     raiz_inv r (usados_en (ar_plan a) b cl) P a"

lemma lugar_Suc: "lugar pl b (Suc k) = lugar pl b k + por_nivel_de pl k"
  by (simp add: lugar_def)

lemma lugar_mono: "j \<le> k \<Longrightarrow> lugar pl b j \<le> lugar pl b k"
  by (auto simp: lugar_def intro!: sum_mono2)

lemma lugar_menor: "j < k \<Longrightarrow> lugar pl b j + por_nivel_de pl j \<le> lugar pl b k"
  using lugar_mono [of "Suc j" k pl b] by (simp add: lugar_Suc)

text \<open>The next place of a level is free, and in the range of the plan.\<close>

lemma word_of_nat_eq_iff_64: "x < 2 ^ 64 \<Longrightarrow> y < 2 ^ 64 \<Longrightarrow> (word_of_nat x :: u64) = word_of_nat y \<longleftrightarrow> x = y"
proof -
  assume "x < 2 ^ 64" "y < 2 ^ 64"
  then have "unat (word_of_nat x :: u64) = x" "unat (word_of_nat y :: u64) = y"
    by (simp_all add: unat_of_nat take_bit_nat_eq_self)
  then show ?thesis
    by metis
qed

lemma proximo_lugar:
  assumes "medidas_ok b cl a" "k \<le> niveles_de (ar_plan a)" "cl k < por_nivel_de (ar_plan a) k"
  defines "w \<equiv> ar_cursor a ! k"
  shows "w \<notin> usados_en (ar_plan a) b cl"
    "usados_en (ar_plan a) b (cl(k := cl k + 1)) = insert w (usados_en (ar_plan a) b cl)"
    "w \<in> word_of_nat ` {b ..< lugar (ar_plan a) b (niveles_de (ar_plan a) + 1)}"
    "unat (w + 1) = lugar (ar_plan a) b k + (cl k + 1)"
proof -
  define pl N where pl: "pl = ar_plan a" and N: "N = niveles_de pl"
  have m: "lugar pl b (N + 1) < 2 ^ 64" "\<And>j. j \<le> N \<Longrightarrow> cl j \<le> por_nivel_de pl j"
    and w: "unat w = lugar pl b k + cl k"
    using assms(1,2) by (simp_all add: medidas_ok_def Let_def pl N w_def)
  have k: "k \<le> N" "cl k < por_nivel_de pl k"
    using assms(2,3) by (simp_all add: pl N)
  have w': "w = word_of_nat (lugar pl b k + cl k)"
    by (simp flip: w)
  have top: "x < lugar pl b (N + 1)" if "x < lugar pl b j + por_nivel_de pl j" "j \<le> N" for x j
    using that lugar_menor [of j "N + 1" pl b] by simp
  have "lugar pl b k + cl k \<noteq> x" if "lugar pl b j \<le> x" "x < lugar pl b j + cl j" "j \<le> N" for x j
    using that lugar_menor [of j k pl b] lugar_menor [of k j pl b] m(2) [of j] k
    by (cases j k rule: linorder_cases) auto
  moreover have "x < 2 ^ 64" if "x < lugar pl b j + cl j" "j \<le> N" for x j
    using top [of x j] m that(1) m(2) [OF that(2)] that(2) by simp
  moreover have "lugar pl b k + cl k < 2 ^ 64"
    using top [of "lugar pl b k + cl k" k] k m(1) by simp
  ultimately show "w \<notin> usados_en (ar_plan a) b cl"
    unfolding w' usados_en_def pl [symmetric] N [symmetric]
    by (auto simp del: of_nat_add simp: word_of_nat_eq_iff_64)
  have "(\<Union>j \<le> N. {lugar pl b j ..< lugar pl b j + (cl(k := cl k + 1)) j}) =
      insert (lugar pl b k + cl k) (\<Union>j \<le> N. {lugar pl b j ..< lugar pl b j + cl j})"
  proof -
    have "x \<in> {lugar pl b j ..< lugar pl b j + (cl(k := cl k + 1)) j} \<longleftrightarrow>
        j = k \<and> x = lugar pl b k + cl k \<or> x \<in> {lugar pl b j ..< lugar pl b j + cl j}" for x j
      by auto
    then show ?thesis
      using k(1) by (simp only: set_eq_iff UN_iff insert_iff) blast
  qed
  then show "usados_en (ar_plan a) b (cl(k := cl k + 1)) = insert w (usados_en (ar_plan a) b cl)"
    unfolding w' usados_en_def pl [symmetric] N [symmetric] by simp
  have "lugar pl b k + cl k \<in> {b ..< lugar pl b (N + 1)}"
    using top [of "lugar pl b k + cl k" k] k by (simp add: lugar_def)
  then show "w \<in> word_of_nat ` {b ..< lugar (ar_plan a) b (niveles_de (ar_plan a) + 1)}"
    unfolding w' pl [symmetric] N [symmetric] by (rule imageI)
  have "unat w + 1 < 2 ^ 64"
    using top [of "lugar pl b k + cl k" k] k m(1) w by simp
  then show "unat (w + 1) = lugar (ar_plan a) b k + (cl k + 1)"
    using w by (simp add: unat_add_small pl)
qed

lemma guardados_igual:
  "list_all2 (guardado r L k) ps ts \<Longrightarrow> (\<And>l. l \<in> L \<Longrightarrow> r' l = r l) \<Longrightarrow> L \<subseteq> L' \<Longrightarrow>
   list_all2 (guardado r' L' k) ps ts"
  using guardado_igual by (fastforce elim!: list_all2_mono)

lemma espera_igual:
  "espera r L P a k \<Longrightarrow> (\<And>l. l \<in> L \<Longrightarrow> r' l = r l) \<Longrightarrow> L \<subseteq> L' \<Longrightarrow> P' k = P k \<Longrightarrow>
   ar_lleno a' ! k = ar_lleno a ! k \<Longrightarrow> ar_indice a' ! (k - 1) = ar_indice a ! (k - 1) \<Longrightarrow> espera r' L' P' a' k"
proof -
  assume e: "espera r L P a k" and h: "\<And>l. l \<in> L \<Longrightarrow> r' l = r l" "L \<subseteq> L'" "P' k = P k"
    "ar_lleno a' ! k = ar_lleno a ! k" "ar_indice a' ! (k - 1) = ar_indice a ! (k - 1)"
  obtain ps where ps: "list_all2 (guardado r L (k - 1)) ps (P k)"
    "take (48 * length (P k)) (ar_indice a ! (k - 1)) = ptrs_bytes ps"
    using e unfolding espera_def by blast
  have "list_all2 (guardado r' L' (k - 1)) ps (P k)"
    by (rule guardados_igual [OF ps(1) h(1,2)])
  then show ?thesis
    using e ps(2) h(3-5) unfolding espera_def by metis
qed

lemma raiz_igual:
  "raiz_inv r L P a \<Longrightarrow> (\<And>l. l \<in> L \<Longrightarrow> r' l = r l) \<Longrightarrow> L \<subseteq> L' \<Longrightarrow>
   P' (niveles_de (ar_plan a) + 1) = P (niveles_de (ar_plan a) + 1) \<Longrightarrow>
   ar_raiz a' = ar_raiz a \<Longrightarrow> ar_plan a' = ar_plan a \<Longrightarrow> raiz_inv r' L' P' a'"
  unfolding raiz_inv_def by (auto split: option.splits intro: guardado_igual)

section \<open>The operations keep the invariant\<close>

lemma ptrs_bytes_snoc: "ptrs_bytes (ps @ [p]) = ptrs_bytes ps @ ptr_encode p"
  by (simp add: ptrs_bytes_def)

lemma cuelga_ok:
  assumes i: "arbol_inv r b cl P a" and k: "1 \<le> k" "k \<le> niveles_de (ar_plan a)" "length (P k) < 85"
    and p: "guardado r (usados_en (ar_plan a) b cl) (k - 1) p t"
  shows "arbol_inv r b cl (P(k := P k @ [t])) (cuelga_ptr k p a)"
proof -
  define L where "L = usados_en (ar_plan a) b cl"
  define a' where "a' = cuelga_ptr k p a"
  have m: "length (ar_lleno a) = 5" "k - 1 < length (ar_indice a)" "length (ar_indice a ! (k - 1)) = 4096" "k < 5"
    using i k by (auto simp: arbol_inv_def medidas_ok_def plan_ok_def Let_def)
  have ek: "espera r L P a k"
    using i k by (simp add: arbol_inv_def L_def)
  then obtain ps where ps: "ar_lleno a ! k = length (P k)" "list_all2 (guardado r L (k - 1)) ps (P k)"
    "take (48 * length (P k)) (ar_indice a ! (k - 1)) = ptrs_bytes ps"
    by (auto simp: espera_def)
  have ptr: "length (ptr_encode p) = 48"
    using guardado_ptr_ok [OF p] by (simp add: ptr_ok_def)
  have a': "ar_plan a' = ar_plan a" "ar_cursor a' = ar_cursor a" "ar_raiz a' = ar_raiz a" "ar_trozos a' = ar_trozos a"
    "ar_lleno a' = (ar_lleno a)[k := length (P k) + 1]"
    "ar_indice a' = (ar_indice a)[k - 1 := parche (length (P k) * 48) (ptr_encode p) (ar_indice a ! (k - 1))]"
    by (simp_all add: a'_def cuelga_ptr_def Let_def ps(1) medidas)
  have lp: "length (parche (length (P k) * 48) (ptr_encode p) (ar_indice a ! (k - 1))) = 4096"
    using m(3) k(3) ptr by (simp add: length_parche)
  have lb: "length (ptrs_bytes ps) = 48 * length (P k)"
    unfolding ps(3) [symmetric] using m(3) k(3) by simp
  have tk: "take (48 * (length (P k) + 1)) (parche (length (P k) * 48) (ptr_encode p) (ar_indice a ! (k - 1))) =
      ptrs_bytes (ps @ [p])"
    using ps(3) m(3) k(3) ptr lb by (simp add: parche_def ptrs_bytes_snoc mult.commute)
  have en_k: "espera r L (P(k := P k @ [t])) a' k"
    unfolding espera_def using ps(2) tk p m k by (auto simp: a' L_def intro!: exI [of _ "ps @ [p]"] list_all2_appendI)
  have otro: "espera r L (P(k := P k @ [t])) a' j" if "1 \<le> j" "j \<le> niveles_de (ar_plan a)" "j \<noteq> k" for j
  proof (rule espera_igual [of r L P a j])
    show "espera r L P a j"
      using i that by (simp add: arbol_inv_def L_def)
    have "j - 1 \<noteq> k - 1"
      using that k(1) by simp
    then show "ar_indice a' ! (j - 1) = ar_indice a ! (j - 1)"
      by (simp add: a')
  qed (use that in \<open>simp_all add: a'\<close>)
  have "espera r L (P(k := P k @ [t])) a' j" if "1 \<le> j" "j \<le> niveles_de (ar_plan a)" for j
    using en_k otro that by (cases "j = k") simp_all
  moreover have "raiz_inv r L (P(k := P k @ [t])) a'"
    by (rule raiz_igual [of r L P a]) (use i k a' in \<open>simp_all add: arbol_inv_def L_def\<close>)
  moreover have "length (ar_indice a' ! j) = 4096" if "j < niveles_de (ar_plan a)" for j
    using i lp m(2) that unfolding a'(6)
    by (cases "j = k - 1") (simp_all add: arbol_inv_def medidas_ok_def Let_def)
  then have "medidas_ok b cl a'"
    using i by (simp add: arbol_inv_def medidas_ok_def Let_def a'(1,2,4,5)) (simp add: a'(6))
  ultimately show ?thesis
    unfolding arbol_inv_def a'_def [symmetric] a'(1) L_def [symmetric] by auto
qed

context almacen
begin

text \<open>Writing the next block of a level.\<close>

lemma proximo_V:
  assumes "arbol_inv r b cl P a" "k \<le> niveles_de (ar_plan a)" "cl k < por_nivel_de (ar_plan a) k"
    and V: "word_of_nat ` {b ..< lugar (ar_plan a) b (niveles_de (ar_plan a) + 1)} \<subseteq> V"
  shows "ar_cursor a ! k \<in> V"
proof -
  have "medidas_ok b cl a"
    using assms(1) by (simp add: arbol_inv_def)
  then show ?thesis
    using proximo_lugar(3) [of b cl a k] assms(2,3) V by blast
qed

lemma poner_ok:
  assumes i: "arbol_inv (bloque s) b cl P a" and k: "k \<le> niveles_de (ar_plan a)" "cl k < por_nivel_de (ar_plan a) k"
    and V: "word_of_nat ` {b ..< lugar (ar_plan a) b (niveles_de (ar_plan a) + 1)} \<subseteq> V"
    and p: "poner (ar_cursor a ! k) d s = (True, s')" "length d \<le> 4096"
  defines "cl' \<equiv> cl(k := cl k + 1)" and "w \<equiv> ar_cursor a ! k"
  shows "arbol_inv (bloque s') b cl' P (a\<lparr>ar_cursor := (ar_cursor a)[k := w + 1],
      ar_trozos := ar_trozos a + (if k = 0 then 1 else 0)\<rparr>)"
    "w \<in> usados_en (ar_plan a) b cl'" "bloque s' w = Some (rellena d)"
    "\<And>l. l \<in> usados_en (ar_plan a) b cl \<Longrightarrow> bloque s' l = bloque s l"
    "usados_en (ar_plan a) b cl \<subseteq> usados_en (ar_plan a) b cl'"
proof -
  define L where "L = usados_en (ar_plan a) b cl"
  define a' where "a' = a\<lparr>ar_cursor := (ar_cursor a)[k := w + 1], ar_trozos := ar_trozos a + (if k = 0 then 1 else 0)\<rparr>"
  have m: "medidas_ok b cl a"
    using i by (simp add: arbol_inv_def)
  note pr = proximo_lugar [OF m k, folded w_def cl'_def L_def]
  have L': "usados_en (ar_plan a) b cl' = insert w L" and wV: "w \<in> V"
    using pr(2,3) V by auto
  have LV: "L \<subseteq> V"
  proof
    fix l
    assume "l \<in> L"
    then obtain x j where x: "l = word_of_nat x" "j \<le> niveles_de (ar_plan a)"
      "lugar (ar_plan a) b j \<le> x" "x < lugar (ar_plan a) b j + cl j"
      unfolding L_def usados_en_def by auto
    have "cl j \<le> por_nivel_de (ar_plan a) j"
      using m x(2) by (simp add: medidas_ok_def Let_def)
    moreover have "b \<le> lugar (ar_plan a) b j"
      by (simp add: lugar_def)
    ultimately have "x \<in> {b ..< lugar (ar_plan a) b (niveles_de (ar_plan a) + 1)}"
      using x(2-4) lugar_menor [of j "niveles_de (ar_plan a) + 1" "ar_plan a" b] by simp
    then show "l \<in> V"
      using V x(1) by blast
  qed
  show "w \<in> usados_en (ar_plan a) b cl'" "L \<subseteq> usados_en (ar_plan a) b cl'"
    by (auto simp: L')
  show "bloque s' w = Some (rellena d)"
    using poner_lee [of w d s s'] p wV by (simp add: w_def)
  show igual: "bloque s' l = bloque s l" if "l \<in> L" for l
    using poner_otro [of w d s True s' l] p(1) wV LV pr(1) that by (auto simp: w_def)
  have a': "ar_plan a' = ar_plan a" "ar_lleno a' = ar_lleno a" "ar_indice a' = ar_indice a" "ar_raiz a' = ar_raiz a"
    by (simp_all add: a'_def)
  have "espera (bloque s') (insert w L) P a' j" if "1 \<le> j" "j \<le> niveles_de (ar_plan a)" for j
    by (rule espera_igual [of "bloque s" L P a j])
      (use i that igual in \<open>auto simp: arbol_inv_def L_def a'\<close>)
  moreover have "raiz_inv (bloque s') (insert w L) P a'"
    by (rule raiz_igual [of "bloque s" L P a]) (use i igual in \<open>auto simp: arbol_inv_def L_def a'\<close>)
  moreover have "medidas_ok b cl' a'"
  proof -
    have c: "length (ar_cursor a) = 5" "k < 5" "unat (ar_trozos a) = cl 0"
      using m k by (auto simp: medidas_ok_def Let_def plan_ok_def)
    have "unat (ar_trozos a + 1) = cl 0 + 1" if "k = 0"
    proof -
      have "cl 0 + 1 < 2 ^ 64"
        using k(2) [unfolded that] unat_u64 [of "pl_por_nivel (ar_plan a) ! 0"] by linarith
      then show ?thesis
        using c(3) by (simp add: unat_add_small)
    qed
    then show ?thesis
      using m c k pr(4) by (auto simp: medidas_ok_def Let_def a'_def cl'_def nth_list_update)
  qed
  ultimately show "arbol_inv (bloque s') b cl' P (a\<lparr>ar_cursor := (ar_cursor a)[k := w + 1],
      ar_trozos := ar_trozos a + (if k = 0 then 1 else 0)\<rparr>)"
    unfolding arbol_inv_def a'_def [symmetric] a'(1) L' by auto
qed

end

text \<open>The leaves, from the highest level down, and the counts of the levels from \<open>m\<close> on.\<close>

primrec hojas_de :: "nat \<Rightarrow> (nat \<Rightarrow> arbol list) \<Rightarrow> u8 list list" where
  "hojas_de 0 P = []"
| "hojas_de (Suc n) P = concat (map hojas (P (Suc n))) @ hojas_de n P"

lemma hojas_de_upd_fuera: "n < k \<Longrightarrow> hojas_de n (P(k := ts)) = hojas_de n P"
  by (induction n) auto

lemma hojas_de_vacia: "(\<And>j. 1 \<le> j \<Longrightarrow> j \<le> n \<Longrightarrow> P j = []) \<Longrightarrow> hojas_de n P = []"
  by (induction n) auto

lemma hojas_de_upd:
  "1 \<le> k \<Longrightarrow> k \<le> n \<Longrightarrow> (\<And>j. 1 \<le> j \<Longrightarrow> j < k \<Longrightarrow> P j = []) \<Longrightarrow>
   hojas_de n (P(k := P k @ ts)) = hojas_de n P @ concat (map hojas ts)"
proof (induction n)
  case (Suc n)
  show ?case
  proof (cases "k = Suc n")
    case True
    have "hojas_de n P = []"
      using Suc.prems(3) True by (intro hojas_de_vacia) auto
    then show ?thesis
      unfolding True hojas_de.simps fun_upd_same using hojas_de_upd_fuera [of n "Suc n" P] by simp
  next
    case False
    then show ?thesis
      using Suc by simp
  qed
qed simp

lemma hojas_de_saca:
  assumes "1 \<le> k" "k \<le> n" "\<And>j. 1 \<le> j \<Longrightarrow> j < k \<Longrightarrow> P j = []"
  shows "hojas_de n P = hojas_de n (P(k := [])) @ concat (map hojas (P k))"
  using hojas_de_upd [of k n "P(k := [])" "P k"] assms by simp

definition cuenta :: "plan \<Rightarrow> (nat \<Rightarrow> nat) \<Rightarrow> (nat \<Rightarrow> arbol list) \<Rightarrow> nat \<Rightarrow> nat \<Rightarrow> bool" where
  "cuenta pl cl P m q \<longleftrightarrow>
    (\<forall>k. m \<le> k \<and> k \<le> niveles_de pl + 1 \<longrightarrow>
       cl (k - 1) = (if k \<le> niveles_de pl then 85 * cl k else 0) + length (P k) + (if k = q then 1 else 0)) \<and>
    (\<forall>k \<in> {1 .. niveles_de pl}. length (P k) < 85)"

lemma vacia_ok:
  assumes i: "arbol_inv r b cl P a" and k: "1 \<le> k" "k \<le> niveles_de (ar_plan a)"
  shows "arbol_inv r b cl (P(k := [])) (a\<lparr>ar_lleno := (ar_lleno a)[k := 0]\<rparr>)"
proof -
  have m: "length (ar_lleno a) = 5" "k < 5"
    using i k by (auto simp: arbol_inv_def medidas_ok_def plan_ok_def Let_def)
  have "espera r (usados_en (ar_plan a) b cl) (P(k := [])) (a\<lparr>ar_lleno := (ar_lleno a)[k := 0]\<rparr>) j"
    if "1 \<le> j" "j \<le> niveles_de (ar_plan a)" for j
  proof (cases "j = k")
    case True
    then show ?thesis
      using m by (simp add: espera_def ptrs_bytes_def)
  next
    case False
    then show ?thesis
      using i that by (simp add: arbol_inv_def espera_def)
  qed
  moreover have "raiz_inv r (usados_en (ar_plan a) b cl) (P(k := [])) (a\<lparr>ar_lleno := (ar_lleno a)[k := 0]\<rparr>)"
    by (rule raiz_igual [of r "usados_en (ar_plan a) b cl" P a]) (use i k in \<open>simp_all add: arbol_inv_def\<close>)
  ultimately show ?thesis
    using i by (simp add: arbol_inv_def medidas_ok_def Let_def)
qed

context almacen
begin

lemma cerrar_nivel_ok:
  assumes i: "arbol_inv (bloque s) b cl P a" and k: "1 \<le> k" "k \<le> niveles_de (ar_plan a)"
    and c: "P k \<noteq> []" "cl k < por_nivel_de (ar_plan a) k"
    and V: "word_of_nat ` {b ..< lugar (ar_plan a) b (niveles_de (ar_plan a) + 1)} \<subseteq> V"
    and e: "cerrar_nivel poner k a s = (res, a', s')"
  shows "res = Inl Io \<or> (\<exists>p. res = Inr p \<and> arbol_inv (bloque s') b (cl(k := cl k + 1)) (P(k := [])) a' \<and>
    guardado (bloque s') (usados_en (ar_plan a) b (cl(k := cl k + 1))) k p (Rama (P k)) \<and>
    ar_plan a' = ar_plan a \<and> ar_trozos a' = ar_trozos a)"
proof -
  define w L cl' where w: "w = ar_cursor a ! k" and L: "L = usados_en (ar_plan a) b cl" and cl': "cl' = cl(k := cl k + 1)"
  have "espera (bloque s) L P a k"
    using i k by (simp add: arbol_inv_def L)
  then obtain ps where ps: "ar_lleno a ! k = length (P k)" "length (P k) \<le> 85"
    "list_all2 (guardado (bloque s) L (k - 1)) ps (P k)"
    "take (48 * length (P k)) (ar_indice a ! (k - 1)) = ptrs_bytes ps"
    by (auto simp: espera_def)
  have lps: "length ps = length (P k)" "length (ptrs_bytes ps) = 48 * length ps"
    using list_all2_lengthD [OF ps(3)] length_ptrs_bytes [OF guardados_ptr_ok [OF ps(3)]] by simp_all
  obtain ok s1 where po: "poner w (ptrs_bytes ps) s = (ok, s1)" by fastforce
  show ?thesis
  proof (cases ok)
    case False
    then show ?thesis
      using e po ps by (simp add: cerrar_nivel_def Let_def medidas w mult.commute)
  next
    case True
    then have res: "res = Inr (ptr_nuevo w 0 (ptrs_bytes ps))" "s' = s1"
      "a' = a\<lparr>ar_cursor := (ar_cursor a)[k := w + 1], ar_lleno := (ar_lleno a)[k := 0]\<rparr>"
      using e po ps by (simp_all add: cerrar_nivel_def Let_def medidas w mult.commute)
    have d: "length (ptrs_bytes ps) \<le> 4096"
      using lps ps(2) by simp
    have po': "poner (ar_cursor a ! k) (ptrs_bytes ps) s = (True, s1)"
      using po True w by simp
    note pr = poner_ok [OF i k(2) c(2) V po' d, folded w cl' L]
    have inv: "arbol_inv (bloque s1) b cl' (P(k := [])) a'"
      using vacia_ok [OF pr(1), of k] k by (simp add: res(3))
    have "list_all2 (guardado (bloque s1) (usados_en (ar_plan a) b cl') (k - 1)) ps (P k)"
      by (rule guardados_igual [OF ps(3)]) (use pr(4,5) in auto)
    then have "guardado (bloque s1) (usados_en (ar_plan a) b cl') (Suc (k - 1)) (ptr_nuevo w 0 (ptrs_bytes ps)) (Rama (P k))"
      using pr(2,3) lps ps(2) c(1) by (intro guardado.rama) auto
    then show ?thesis
      using inv k(1) by (simp add: res cl')
  qed
qed

lemma cerrar_nivel_toca:
  assumes i: "arbol_inv (bloque s) b cl P a" and k: "1 \<le> k" "k \<le> niveles_de (ar_plan a)"
    and c: "cl k < por_nivel_de (ar_plan a) k"
    and V: "word_of_nat ` {b ..< lugar (ar_plan a) b (niveles_de (ar_plan a) + 1)} \<subseteq> V"
    and e: "cerrar_nivel poner k a s = (res, a', s')"
  shows "toca (res \<noteq> Inl Io) s s'"
proof -
  have "length (ar_indice a ! (k - 1)) = 4096"
    using i k by (simp add: arbol_inv_def medidas_ok_def Let_def)
  then have "length (take (ar_lleno a ! k * PTR_LEN) (ar_indice a ! (k - 1))) \<le> 4096"
    by simp
  moreover obtain ok where "poner (ar_cursor a ! k) (take (ar_lleno a ! k * PTR_LEN) (ar_indice a ! (k - 1))) s = (ok, s')"
      "ok \<longleftrightarrow> res \<noteq> Inl Io"
    using e by (auto simp: cerrar_nivel_def Let_def split: prod.splits bool.splits)
  ultimately show ?thesis
    using poner_toca proximo_V [OF i k(2) c V] by blast
qed

lemma cuota:
  assumes "plan_ok pl" "1 \<le> k" "k \<le> niveles_de pl" "85 * c + n \<le> por_nivel_de pl (k - 1)" "0 < n"
  shows "c < por_nivel_de pl k"
proof -
  have "por_nivel_de pl k = techo (por_nivel_de pl (k - 1)) 85"
    using assms(1-3) unfolding plan_ok_def by (metis Suc_eq_plus1 Suc_le_eq le_add_diff_inverse2)
  then show ?thesis
    using assms(4,5) techo_le [of 85 "por_nivel_de pl (k - 1)" c] by (simp add: linorder_not_less [symmetric])
qed

lemma colgar_ok:
  assumes "arbol_inv (bloque s) b cl P a" "cuenta (ar_plan a) cl P m nivel" "1 \<le> m" "m \<le> nivel"
    "nivel \<le> niveles_de (ar_plan a) + 1"
    "guardado (bloque s) (usados_en (ar_plan a) b cl) (nivel - 1) p t"
    "\<And>j. 1 \<le> j \<Longrightarrow> j < nivel \<Longrightarrow> P j = []"
    "word_of_nat ` {b ..< lugar (ar_plan a) b (niveles_de (ar_plan a) + 1)} \<subseteq> V"
    "colgar poner nivel p a s = (res, a', s')"
  shows "toca (res \<noteq> Inl Io) s s' \<and> (res = Inl Io \<or> (res = Inr () \<and> (\<exists>cl' P'. arbol_inv (bloque s') b cl' P' a' \<and>
    cuenta (ar_plan a) cl' P' m 0 \<and> ar_plan a' = ar_plan a \<and> ar_trozos a' = ar_trozos a \<and>
    hojas_de (niveles_de (ar_plan a) + 1) P' = hojas_de (niveles_de (ar_plan a) + 1) P @ hojas t \<and>
    (\<forall>j < nivel. cl' j = cl j) \<and> (\<forall>j. 1 \<le> j \<and> j < nivel \<longrightarrow> P' j = []))))"
  using assms
proof (induction "niveles_de (ar_plan a) + 1 - nivel" arbitrary: nivel cl P a s p t)
  case 0
  define N where "N = niveles_de (ar_plan a)"
  have n: "nivel = N + 1"
    using 0 by (simp add: N_def)
  have res: "res = Inr ()" "s' = s" "a' = a\<lparr>ar_raiz := Some p\<rparr>"
    using 0(10) n by (subst (asm) colgar.simps, simp add: N_def)+
  define P' where "P' = P(N + 1 := P (N + 1) @ [t])"
  have "arbol_inv (bloque s) b cl P' a'"
    using 0(2,7) n unfolding P'_def
    by (auto simp: arbol_inv_def medidas_ok_def Let_def espera_def raiz_inv_def res(3) N_def)
  moreover have "cuenta (ar_plan a) cl P' m 0"
    using 0(3,4) n unfolding P'_def by (auto simp: cuenta_def N_def)
  moreover have "hojas_de (N + 1) P' = hojas_de (N + 1) P @ hojas t"
    unfolding P'_def using hojas_de_upd [of "N + 1" "N + 1" P "[t]"] 0(8) n by simp
  moreover have "P' j = []" if "1 \<le> j" "j < nivel" for j
    using that 0(8) n by (simp add: P'_def)
  moreover have "ar_plan a' = ar_plan a" "ar_trozos a' = ar_trozos a"
    by (simp_all add: res)
  moreover have "toca (Inr () \<noteq> (Inl Io :: format_error + unit)) s s"
    by (simp add: toca_refl)
  ultimately show ?case
    unfolding res(1,2) N_def by blast
next
  case (Suc d)
  define N where "N = niveles_de (ar_plan a)"
  define P1 where "P1 = P(nivel := P nivel @ [t])"
  have n: "nivel \<le> N" "1 \<le> nivel"
    using Suc.hyps(2) Suc.prems(3,4) by (simp_all add: N_def)
  have l85: "length (P nivel) < 85"
    using Suc.prems(2) n by (simp add: cuenta_def N_def)
  have i1: "arbol_inv (bloque s) b cl P1 (cuelga_ptr nivel p a)"
    unfolding P1_def using cuelga_ok [OF Suc.prems(1) n(2) _ l85 Suc.prems(6)] n by (simp add: N_def)
  have pl1: "ar_plan (cuelga_ptr nivel p a) = ar_plan a" "ar_trozos (cuelga_ptr nivel p a) = ar_trozos a"
    by (simp_all add: cuelga_ptr_def Let_def)
  have ll: "ar_lleno (cuelga_ptr nivel p a) ! nivel = length (P nivel) + 1"
    using i1 n by (simp add: arbol_inv_def espera_def P1_def pl1 N_def)
  have h1: "hojas_de (N + 1) P1 = hojas_de (N + 1) P @ hojas t"
    unfolding P1_def using hojas_de_upd [of nivel "N + 1" P "[t]"] Suc.prems(7) n by simp
  show ?case
  proof (cases "length (P nivel) + 1 < 85")
    case True
    then have res: "res = Inr ()" "a' = cuelga_ptr nivel p a" "s' = s"
      using Suc.prems(9) n ll by (subst (asm) colgar.simps, simp add: N_def Let_def)+
    have "cuenta (ar_plan a) cl P1 m 0"
      using Suc.prems(2,3) True by (auto simp: cuenta_def P1_def)
    moreover have "P1 j = []" if "1 \<le> j" "j < nivel" for j
      using that Suc.prems(7) by (simp add: P1_def)
    moreover have "toca (Inr () \<noteq> (Inl Io :: format_error + unit)) s s"
      by (simp add: toca_refl)
    ultimately show ?thesis
      using i1 h1 pl1 unfolding res N_def by blast
  next
    case False
    obtain r2 a2 s2 where cn: "cerrar_nivel poner nivel (cuelga_ptr nivel p a) s = (r2, a2, s2)"
      using prod_cases3 by blast
    have e: "colgar poner nivel p a s = (case r2 of Inl e \<Rightarrow> (Inl e, a2, s2) | Inr q \<Rightarrow> colgar poner (nivel + 1) q a2 s2)"
      using n ll False cn by (subst colgar.simps) (simp add: N_def Let_def split: sum.splits)
    have l84: "length (P nivel) = 84"
      using l85 False by linarith
    have cl_nivel: "cl (nivel - 1) = 85 * cl nivel + 85"
      using Suc.prems(2,4) n l84 by (simp add: cuenta_def N_def)
    have "cl (nivel - 1) \<le> por_nivel_de (ar_plan a) (nivel - 1)" "plan_ok (ar_plan a)"
      using i1 n by (simp_all add: arbol_inv_def medidas_ok_def Let_def pl1 N_def)
    then have hueco: "cl nivel < por_nivel_de (ar_plan a) nivel"
      using cuota [of "ar_plan a" nivel "cl nivel" 85] n cl_nivel by (simp add: N_def)
    have "r2 = Inl Io \<or> (\<exists>q. r2 = Inr q \<and> arbol_inv (bloque s2) b (cl(nivel := cl nivel + 1)) (P1(nivel := [])) a2 \<and>
        guardado (bloque s2) (usados_en (ar_plan a) b (cl(nivel := cl nivel + 1))) nivel q (Rama (P1 nivel)) \<and>
        ar_plan a2 = ar_plan a \<and> ar_trozos a2 = ar_trozos a)"
      using cerrar_nivel_ok [OF i1 n(2) _ _ _ _ cn] n hueco Suc.prems(8) by (simp add: pl1 N_def P1_def)
    moreover have t2: "toca (r2 \<noteq> Inl Io) s s2"
      using cerrar_nivel_toca [OF i1 n(2) _ _ _ cn] n hueco Suc.prems(8) by (simp add: pl1 N_def)
    ultimately show ?thesis
    proof (elim disjE exE conjE)
      assume "r2 = Inl Io"
      then show ?thesis
        using e Suc.prems(9) t2 by simp
    next
      fix q
      let ?cl = "cl(nivel := cl nivel + 1)" and ?P = "P1(nivel := [])"
      assume q: "r2 = Inr q" "arbol_inv (bloque s2) b ?cl ?P a2"
        "guardado (bloque s2) (usados_en (ar_plan a) b ?cl) nivel q (Rama (P1 nivel))"
        "ar_plan a2 = ar_plan a" "ar_trozos a2 = ar_trozos a"
      have "cuenta (ar_plan a) ?cl ?P m (nivel + 1)"
        unfolding cuenta_def
      proof (intro conjI allI impI ballI)
        fix k
        assume k: "m \<le> k \<and> k \<le> niveles_de (ar_plan a) + 1"
        then have "cl (k - 1) = (if k \<le> N then 85 * cl k else 0) + length (P k) + (if k = nivel then 1 else 0)"
          using Suc.prems(2) by (simp add: cuenta_def N_def)
        then show "?cl (k - 1) = (if k \<le> niveles_de (ar_plan a) then 85 * ?cl k else 0) + length (?P k) +
            (if k = nivel + 1 then 1 else 0)"
          using cl_nivel n k Suc.prems(3) l84
          by (cases "k = nivel + 1"; cases "k = nivel") (auto simp: P1_def N_def)
      next
        fix k
        assume "k \<in> {1 .. niveles_de (ar_plan a)}"
        then show "length (?P k) < 85"
          using Suc.prems(2) by (auto simp: cuenta_def P1_def)
      qed
      moreover have "?P j = []" if "1 \<le> j" "j < nivel + 1" for j
        using Suc.prems(7) that by (auto simp: P1_def)
      moreover have "colgar poner (nivel + 1) q a2 s2 = (res, a', s')"
        using e q(1) Suc.prems(9) by simp
      ultimately have "toca (res \<noteq> Inl Io) s2 s' \<and> (res = Inl Io \<or> (res = Inr () \<and> (\<exists>cl' P'. arbol_inv (bloque s') b cl' P' a' \<and>
          cuenta (ar_plan a) cl' P' m 0 \<and> ar_plan a' = ar_plan a \<and> ar_trozos a' = ar_trozos a \<and>
          hojas_de (N + 1) P' = hojas_de (N + 1) ?P @ hojas (Rama (P1 nivel)) \<and>
          (\<forall>j < nivel + 1. cl' j = ?cl j) \<and> (\<forall>j. 1 \<le> j \<and> j < nivel + 1 \<longrightarrow> P' j = []))))"
        using Suc.hyps(1) [of a2 "nivel + 1" s2 ?cl ?P q "Rama (P1 nivel)"] Suc.hyps(2) Suc.prems(3,4,8) q n
        by (simp add: N_def)
      then have va: "toca (res \<noteq> Inl Io) s s'" and "res = Inl Io \<or> (res = Inr () \<and> (\<exists>cl' P'. arbol_inv (bloque s') b cl' P' a' \<and>
          cuenta (ar_plan a) cl' P' m 0 \<and> ar_plan a' = ar_plan a \<and> ar_trozos a' = ar_trozos a \<and>
          hojas_de (N + 1) P' = hojas_de (N + 1) ?P @ hojas (Rama (P1 nivel)) \<and>
          (\<forall>j < nivel + 1. cl' j = ?cl j) \<and> (\<forall>j. 1 \<le> j \<and> j < nivel + 1 \<longrightarrow> P' j = [])))"
        using toca_trans [of s s2] t2 q(1) by simp_all
      then show ?thesis
      proof (elim disjE conjE exE)
        fix cl' P'
        assume r: "res = Inr ()" "arbol_inv (bloque s') b cl' P' a'" "cuenta (ar_plan a) cl' P' m 0"
          "ar_plan a' = ar_plan a" "ar_trozos a' = ar_trozos a"
          "hojas_de (N + 1) P' = hojas_de (N + 1) ?P @ hojas (Rama (P1 nivel))"
          "\<forall>j < nivel + 1. cl' j = ?cl j" "\<forall>j. 1 \<le> j \<and> j < nivel + 1 \<longrightarrow> P' j = []"
        have "hojas_de (N + 1) P' = hojas_de (N + 1) P @ hojas t"
          using r(6) hojas_de_saca [of nivel "N + 1" P1] h1 n Suc.prems(7) by (simp add: P1_def)
        moreover have "\<forall>j < nivel. cl' j = cl j" "\<forall>j. 1 \<le> j \<and> j < nivel \<longrightarrow> P' j = []"
          using r(7,8) by simp_all
        ultimately show ?thesis
          using va r(1-5) unfolding N_def by blast
      qed (use va in simp)
    qed
  qed
qed

end

section \<open>A whole stream\<close>

text \<open>What the writer has after some pieces: the pieces, in order, are the leaves.\<close>

definition escrito :: "(u64 \<Rightarrow> u8 list option) \<Rightarrow> nat \<Rightarrow> plan \<Rightarrow> nat \<Rightarrow> u8 list list \<Rightarrow> arbol_st \<Rightarrow> bool" where
  "escrito r b pl m trozos a \<longleftrightarrow> ar_plan a = pl \<and>
    (\<exists>cl P. arbol_inv r b cl P a \<and> cuenta pl cl P m 0 \<and> cl 0 = length trozos \<and>
       hojas_de (niveles_de pl + 1) P = trozos \<and>
       (m = 1 \<or> cl (m - 1) = por_nivel_de pl (m - 1)) \<and> (\<forall>j. 1 \<le> j \<and> j < m \<longrightarrow> P j = []))"

lemma unat_cursores: "length vs = 5 \<Longrightarrow> k < 5 \<Longrightarrow> unat b + sum (\<lambda>i. unat (vs ! i)) {..<k} < 2 ^ 64 \<Longrightarrow>
  unat (cursores b vs ! k) = unat b + sum (\<lambda>i. unat (vs ! i)) {..<k}"
proof (induction vs arbitrary: b k)
  case (Cons v vs)
  have gen: "k \<le> length vs \<Longrightarrow> unat b + sum (\<lambda>i. unat (vs ! i)) {..<k} < 2 ^ 64 \<Longrightarrow> k < length vs \<Longrightarrow>
     unat (cursores b vs ! k) = unat b + sum (\<lambda>i. unat (vs ! i)) {..<k}" for b :: u64 and k and vs :: "u64 list"
  proof (induction vs arbitrary: b k)
    case (Cons v vs)
    show ?case
    proof (cases k)
      case (Suc j)
      have s: "sum (\<lambda>i. unat ((v # vs) ! i)) {..<Suc j} = unat v + sum (\<lambda>i. unat (vs ! i)) {..<j}"
        by (simp only: sum.lessThan_Suc_shift nth_Cons_0 nth_Cons_Suc)
      have "unat (b + v) = unat b + unat v"
        using Cons.prems(2) unfolding Suc s by (intro unat_add_small) simp
      then show ?thesis
        using Cons.IH [of j "b + v"] Cons.prems unfolding Suc s by simp
    qed simp
  qed simp
  show ?case
    using gen [of k "v # vs" b] Cons.prems by simp
qed simp

lemma length_cursores [simp]: "length (cursores b vs) = length vs"
  by (induction vs arbitrary: b) simp_all

lemma arbol_nuevo_ok:
  assumes "plan_ok pl" "lugar pl (unat base) (niveles_de pl + 1) < 2 ^ 64" "arbol_nuevo pl base indice = Inr a"
    "list_all (\<lambda>b. length b = 4096) indice"
  shows "escrito r (unat base) pl 1 [] a"
proof -
  have a: "a = \<lparr>ar_plan = pl, ar_cursor = cursores base (pl_por_nivel pl), ar_indice = indice,
      ar_lleno = replicate 5 0, ar_raiz = None, ar_trozos = 0\<rparr>" and l: "niveles_de pl \<le> length indice"
    using assms(3) by (auto simp: arbol_nuevo_def split: if_splits)
  have "unat (cursores base (pl_por_nivel pl) ! k) = lugar pl (unat base) k" if "k \<le> niveles_de pl" for k
    using unat_cursores [of "pl_por_nivel pl" k base] assms(1,2) that lugar_mono [of k "niveles_de pl + 1" pl "unat base"]
    by (simp add: plan_ok_def lugar_def)
  then have "medidas_ok (unat base) (\<lambda>_. 0) a"
    using assms(1,2,4) l by (simp add: medidas_ok_def Let_def a plan_ok_def list_all_length)
  moreover have "espera r L (\<lambda>_. []) a k" if "k \<in> {1 .. niveles_de (ar_plan a)}" for k L
    using that assms(1) by (simp add: espera_def a ptrs_bytes_def plan_ok_def)
  moreover have "raiz_inv r L (\<lambda>_. []) a" for L
    by (simp add: raiz_inv_def a)
  ultimately have "arbol_inv r (unat base) (\<lambda>_. 0) (\<lambda>_. []) a"
    by (simp add: arbol_inv_def)
  moreover have "hojas_de n (\<lambda>_. []) = []" for n
    by (rule hojas_de_vacia) simp
  ultimately show ?thesis
    unfolding escrito_def by (intro conjI exI [of _ "\<lambda>_. 0"] exI [of _ "\<lambda>_. []"]) (auto simp: cuenta_def a)
qed

context almacen
begin

lemma empujar_ok:
  assumes e: "escrito (bloque s) b pl 1 cs a" and d: "d \<noteq> []" "length d \<le> 4096" "length cs < por_nivel_de pl 0"
    and V: "word_of_nat ` {b ..< lugar pl b (niveles_de pl + 1)} \<subseteq> V"
    and x: "empujar_trozo poner d a s = (res, a', s')"
  shows "toca (res \<noteq> Inl Io) s s' \<and> (res = Inl Io \<or> (res = Inr () \<and> escrito (bloque s') b pl 1 (cs @ [d]) a'))"
proof -
  obtain cl P where i: "arbol_inv (bloque s) b cl P a" "cuenta pl cl P 1 0" "cl 0 = length cs"
    "hojas_de (niveles_de pl + 1) P = cs" and pl: "ar_plan a = pl"
    using e by (auto simp: escrito_def)
  have c: "unat (ar_trozos a) = length cs"
    using i(1,3) by (simp add: arbol_inv_def medidas_ok_def Let_def)
  define w where "w = ar_cursor a ! 0"
  obtain ok s1 where po: "poner w d s = (ok, s1)" by fastforce
  have x': "empujar_trozo poner d a s = (if ok then colgar poner 1 (ptr_nuevo w 0 d)
      (a\<lparr>ar_cursor := (ar_cursor a)[0 := w + 1], ar_trozos := ar_trozos a + 1\<rparr>) s1 else (Inl Io, a, s1))"
    using d c po by (simp add: empujar_trozo_def medidas pl w_def word_le_nat_alt Let_def)
  have "w \<in> V"
    unfolding w_def using proximo_V [OF i(1), of 0] d(3) i(3) V by (simp add: pl)
  then have t1: "toca ok s s1"
    using poner_toca po d(2) by blast
  show ?thesis
  proof (cases ok)
    case True
    then have po': "poner (ar_cursor a ! 0) d s = (True, s1)"
      using po by (simp add: w_def)
    have k: "0 \<le> niveles_de (ar_plan a)" "cl 0 < por_nivel_de (ar_plan a) 0"
      using d(3) i(3) by (simp_all add: pl)
    note pr = poner_ok [OF i(1) k V [folded pl] po' d(2), folded w_def]
    define a1 where "a1 = a\<lparr>ar_cursor := (ar_cursor a)[0 := w + 1], ar_trozos := ar_trozos a + 1\<rparr>"
    define cl1 where "cl1 = cl(0 := cl 0 + 1)"
    have i1: "arbol_inv (bloque s1) b cl1 P a1" and a1: "ar_plan a1 = pl"
      using pr(1) by (simp_all add: a1_def cl1_def pl)
    have g: "guardado (bloque s1) (usados_en (ar_plan a1) b cl1) (1 - 1) (ptr_nuevo w 0 d) (Hoja d)"
      using guardado.hoja [of w "usados_en pl b cl1" d "bloque s1"] pr(2,3) d by (simp add: a1 cl1_def pl)
    have q: "cuenta (ar_plan a1) cl1 P 1 1"
      unfolding cuenta_def a1
    proof (intro conjI allI impI ballI)
      fix k
      assume k: "1 \<le> k \<and> k \<le> niveles_de pl + 1"
      then have "cl (k - 1) = (if k \<le> niveles_de pl then 85 * cl k else 0) + length (P k)"
        using i(2) by (simp add: cuenta_def)
      then show "cl1 (k - 1) = (if k \<le> niveles_de pl then 85 * cl1 k else 0) + length (P k) + (if k = 1 then 1 else 0)"
        using k by (cases "k = 1") (simp_all add: cl1_def)
    qed (use i(2) in \<open>auto simp: cuenta_def\<close>)
    have x1: "colgar poner 1 (ptr_nuevo w 0 d) a1 s1 = (res, a', s')"
      using x x' True by (simp add: a1_def)
    have n: "1 \<le> niveles_de (ar_plan a1) + 1"
      by simp
    have "toca (res \<noteq> Inl Io) s1 s' \<and> (res = Inl Io \<or> (res = Inr () \<and> (\<exists>cl' P'. arbol_inv (bloque s') b cl' P' a' \<and>
        cuenta pl cl' P' 1 0 \<and> ar_plan a' = pl \<and> ar_trozos a' = ar_trozos a1 \<and>
        hojas_de (niveles_de pl + 1) P' = cs @ hojas (Hoja d) \<and>
        (\<forall>j < 1. cl' j = cl1 j) \<and> (\<forall>j. 1 \<le> j \<and> j < 1 \<longrightarrow> P' j = []))))"
      using colgar_ok [OF i1 q order_refl order_refl n g _ _ x1] V i(4) by (simp add: a1 del: hojas_de.simps)
    moreover from this have t: "toca (res \<noteq> Inl Io) s s'"
      using toca_trans t1 True by simp
    ultimately show ?thesis
    proof (elim disjE conjE exE)
      fix cl' P'
      assume r: "res = Inr ()" "arbol_inv (bloque s') b cl' P' a'" "cuenta pl cl' P' 1 0" "ar_plan a' = pl"
        "hojas_de (niveles_de pl + 1) P' = cs @ hojas (Hoja d)" "\<forall>j < 1. cl' j = cl1 j"
      then have "escrito (bloque s') b pl 1 (cs @ [d]) a'"
        using i(3) unfolding escrito_def by (intro conjI exI [of _ cl'] exI [of _ P']) (auto simp: cl1_def)
      then show ?thesis
        using r(1) t by simp
    qed (use t in simp)
  qed (use x x' t1 in simp)
qed

lemma empujar_todos_ok:
  assumes "escrito (bloque s) b pl 1 cs a" "list_all (\<lambda>d. d \<noteq> [] \<and> length d \<le> 4096) ds"
    "length cs + length ds \<le> por_nivel_de pl 0"
    "word_of_nat ` {b ..< lugar pl b (niveles_de pl + 1)} \<subseteq> V"
    "empujar_todos poner ds a s = (res, a', s')"
  shows "toca (res \<noteq> Inl Io) s s' \<and> (res = Inl Io \<or> (res = Inr () \<and> escrito (bloque s') b pl 1 (cs @ ds) a'))"
  using assms
proof (induction ds arbitrary: cs a s)
  case (Cons d ds)
  obtain r1 a1 s1 where e: "empujar_trozo poner d a s = (r1, a1, s1)"
    using prod_cases3 by blast
  have "toca (r1 \<noteq> Inl Io) s s1 \<and> (r1 = Inl Io \<or> (r1 = Inr () \<and> escrito (bloque s1) b pl 1 (cs @ [d]) a1))"
    using empujar_ok [OF Cons.prems(1) _ _ _ Cons.prems(4) e] Cons.prems(2,3) by simp
  then show ?case
    using Cons.IH [of s1 "cs @ [d]" a1] Cons.prems e by (auto intro: toca_trans)
qed (auto simp: toca_refl)

lemma cierra_nivel_ok:
  assumes e: "escrito (bloque s) b pl m cs a" and m: "1 \<le> m" "m \<le> niveles_de pl"
    and top: "m = 1 \<Longrightarrow> length cs = por_nivel_de pl 0"
    and V: "word_of_nat ` {b ..< lugar pl b (niveles_de pl + 1)} \<subseteq> V"
    and x: "cierra_niveles poner m (Suc k) a s = (res, a', s')"
  shows "(res = Inl Io \<and> toca False s s') \<or>
    (\<exists>a1 s1. toca True s s1 \<and> escrito (bloque s1) b pl (m + 1) cs a1 \<and> cierra_niveles poner (m + 1) k a1 s1 = (res, a', s'))"
proof -
  obtain cl P where i: "arbol_inv (bloque s) b cl P a" "cuenta pl cl P m 0" "cl 0 = length cs"
    "hojas_de (niveles_de pl + 1) P = cs" "\<And>j. 1 \<le> j \<Longrightarrow> j < m \<Longrightarrow> P j = []"
    "m = 1 \<or> cl (m - 1) = por_nivel_de pl (m - 1)" and pl: "ar_plan a = pl"
    using e by (auto simp: escrito_def)
  have pk: "plan_ok pl"
    using i(1) by (simp add: arbol_inv_def medidas_ok_def Let_def pl)
  have lleno: "ar_lleno a ! m = length (P m)"
    using i(1) m by (simp add: arbol_inv_def espera_def pl)
  have abajo: "cl (m - 1) = por_nivel_de pl (m - 1)"
    using i(3,6) top by auto
  have cm: "por_nivel_de pl (m - 1) = 85 * cl m + length (P m)" "length (P m) < 85"
    using i(2) m abajo by (simp_all add: cuenta_def)
  have pm: "por_nivel_de pl m = techo (por_nivel_de pl (m - 1)) 85"
    using pk m unfolding plan_ok_def by (metis Suc_eq_plus1 Suc_le_eq le_add_diff_inverse2)
  show ?thesis
  proof (cases "P m = []")
    case True
    then have "por_nivel_de pl m = cl m"
      using pm cm techo_suma [of 85 "cl m" 0] by simp
    moreover have "cuenta pl cl P (m + 1) 0"
      using i(2) by (simp add: cuenta_def)
    moreover have "P j = []" if "1 \<le> j" "j < m + 1" for j
      using that True i(5) by (cases "j = m") simp_all
    ultimately have "escrito (bloque s) b pl (m + 1) cs a"
      using i pl m unfolding escrito_def by (intro conjI exI [of _ cl] exI [of _ P]) auto
    moreover have "cierra_niveles poner (m + 1) k a s = (res, a', s')"
      using x lleno True by simp
    ultimately show ?thesis
      using toca_refl by blast
  next
    case False
    then have pmc: "por_nivel_de pl m = cl m + 1"
      using pm cm techo_suma [of 85 "cl m" "length (P m)"] techo_uno [of "length (P m)" 85] by simp
    obtain r1 a1 s1 where c1: "cerrar_nivel poner m a s = (r1, a1, s1)"
      using prod_cases3 by blast
    have "r1 = Inl Io \<or> (\<exists>p. r1 = Inr p \<and> arbol_inv (bloque s1) b (cl(m := cl m + 1)) (P(m := [])) a1 \<and>
        guardado (bloque s1) (usados_en pl b (cl(m := cl m + 1))) m p (Rama (P m)) \<and> ar_plan a1 = pl \<and> ar_trozos a1 = ar_trozos a)"
      using cerrar_nivel_ok [OF i(1) m(1) _ False _ _ c1] m pmc V by (simp add: pl)
    moreover have t1: "toca (r1 \<noteq> Inl Io) s s1"
      using cerrar_nivel_toca [OF i(1) m(1) _ _ _ c1] m pmc V by (simp add: pl)
    ultimately show ?thesis
    proof (elim disjE exE conjE)
      assume "r1 = Inl Io"
      then show ?thesis
        using x lleno False c1 t1 by simp
    next
      fix p
      define cl1 P1 where "cl1 = cl(m := cl m + 1)" and "P1 = P(m := [])"
      assume p: "r1 = Inr p" "arbol_inv (bloque s1) b (cl(m := cl m + 1)) (P(m := [])) a1"
        "guardado (bloque s1) (usados_en pl b (cl(m := cl m + 1))) m p (Rama (P m))" "ar_plan a1 = pl"
      obtain r2 a2 s2 where c2: "colgar poner (m + 1) p a1 s1 = (r2, a2, s2)"
        using prod_cases3 by blast
      have i1: "arbol_inv (bloque s1) b cl1 P1 a1"
        using p(2) by (simp add: cl1_def P1_def)
      have q1: "cuenta (ar_plan a1) cl1 P1 (m + 1) (m + 1)"
        unfolding cuenta_def p(4)
      proof (intro conjI allI impI ballI)
        fix j
        assume j: "m + 1 \<le> j \<and> j \<le> niveles_de pl + 1"
        then have "cl (j - 1) = (if j \<le> niveles_de pl then 85 * cl j else 0) + length (P j)"
          using i(2) m by (simp add: cuenta_def)
        then show "cl1 (j - 1) = (if j \<le> niveles_de pl then 85 * cl1 j else 0) + length (P1 j) + (if j = m + 1 then 1 else 0)"
          using j by (cases "j = m + 1") (auto simp: cl1_def P1_def)
      qed (use i(2) in \<open>auto simp: cuenta_def P1_def\<close>)
      have g1: "guardado (bloque s1) (usados_en (ar_plan a1) b cl1) (m + 1 - 1) p (Rama (P m))"
        using p(3,4) by (simp add: cl1_def)
      have v1: "P1 j = []" if "1 \<le> j" "j < m + 1" for j
        using that i(5) by (auto simp: P1_def)
      have h1: "hojas_de (niveles_de pl + 1) P1 @ hojas (Rama (P m)) = cs"
        using hojas_de_saca [of m "niveles_de pl + 1" P] i(4,5) m by (simp add: P1_def)
      have n1: "1 \<le> m + 1" "m + 1 \<le> niveles_de (ar_plan a1) + 1"
        using m by (simp_all add: p(4))
      have "toca (r2 \<noteq> Inl Io) s1 s2 \<and> (r2 = Inl Io \<or> (r2 = Inr () \<and> (\<exists>cl' P'. arbol_inv (bloque s2) b cl' P' a2 \<and>
          cuenta pl cl' P' (m + 1) 0 \<and> ar_plan a2 = pl \<and> ar_trozos a2 = ar_trozos a1 \<and>
          hojas_de (niveles_de pl + 1) P' = cs \<and>
          (\<forall>j < m + 1. cl' j = cl1 j) \<and> (\<forall>j. 1 \<le> j \<and> j < m + 1 \<longrightarrow> P' j = []))))"
        using colgar_ok [OF i1 q1 n1(1) order_refl n1(2) g1 v1 _ c2] V h1 by (simp add: p(4) del: hojas_de.simps)
      moreover from this have t2: "toca (r2 \<noteq> Inl Io) s s2"
        using toca_trans t1 p(1) by simp
      ultimately show ?thesis
      proof (elim disjE conjE exE)
        assume "r2 = Inl Io"
        then show ?thesis
          using x lleno False c1 p(1) c2 t2 by simp
      next
        fix cl' P'
        assume r: "r2 = Inr ()" "arbol_inv (bloque s2) b cl' P' a2" "cuenta pl cl' P' (m + 1) 0" "ar_plan a2 = pl"
          "hojas_de (niveles_de pl + 1) P' = cs" "\<forall>j < m + 1. cl' j = cl1 j" "\<forall>j. 1 \<le> j \<and> j < m + 1 \<longrightarrow> P' j = []"
        have "cl' 0 = length cs" "cl' m = por_nivel_de pl m"
          using r(6) m i(3) pmc by (auto simp: cl1_def)
        then have "escrito (bloque s2) b pl (m + 1) cs a2"
          using r unfolding escrito_def by (intro conjI exI [of _ cl'] exI [of _ P']) auto
        moreover have "cierra_niveles poner (m + 1) k a2 s2 = (res, a', s')"
          using x lleno False c1 p(1) c2 r(1) by simp
        ultimately show ?thesis
          using t2 r(1) by auto
      qed
    qed
  qed
qed

end

context almacen
begin

lemma cierra_niveles_ok:
  assumes "escrito (bloque s) b pl m cs a" "1 \<le> m" "m + k = niveles_de pl + 1"
    "m = 1 \<Longrightarrow> length cs = por_nivel_de pl 0"
    "word_of_nat ` {b ..< lugar pl b (niveles_de pl + 1)} \<subseteq> V"
    "cierra_niveles poner m k a s = (res, a', s')"
  shows "toca (res \<noteq> Inl Io) s s' \<and> (res = Inl Io \<or> (res = Inr () \<and> escrito (bloque s') b pl (niveles_de pl + 1) cs a'))"
  using assms
proof (induction k arbitrary: m a s)
  case (Suc k)
  have "m \<le> niveles_de pl"
    using Suc.prems(3) by simp
  then have "(res = Inl Io \<and> toca False s s') \<or>
    (\<exists>a1 s1. toca True s s1 \<and> escrito (bloque s1) b pl (m + 1) cs a1 \<and> cierra_niveles poner (m + 1) k a1 s1 = (res, a', s'))"
    using cierra_nivel_ok [OF Suc.prems(1,2) _ Suc.prems(4,5,6)] by blast
  then show ?case
  proof (elim disjE exE conjE)
    fix a1 s1
    assume a1: "toca True s s1" "escrito (bloque s1) b pl (m + 1) cs a1" "cierra_niveles poner (m + 1) k a1 s1 = (res, a', s')"
    have "toca (res \<noteq> Inl Io) s1 s' \<and> (res = Inl Io \<or> (res = Inr () \<and> escrito (bloque s') b pl (niveles_de pl + 1) cs a'))"
      using Suc.IH [OF a1(2) _ _ _ Suc.prems(5) a1(3)] Suc.prems(2,3) by simp
    then show ?thesis
      using toca_trans a1(1) by blast
  qed simp
qed (auto simp: toca_refl)

text \<open>When the stream is closed its root leads to a tree with the pieces as leaves.\<close>

lemma cerrado_raiz:
  assumes "escrito r b pl (niveles_de pl + 1) cs a" "length cs = por_nivel_de pl 0"
  shows "\<exists>p L t. ar_raiz a = Some p \<and> guardado r L (niveles_de pl) p t \<and> hojas t = cs"
proof -
  obtain cl P where i: "arbol_inv r b cl P a" "cuenta pl cl P (niveles_de pl + 1) 0"
    "cl 0 = length cs" "hojas_de (niveles_de pl + 1) P = cs" "ar_plan a = pl"
    "\<And>j. 1 \<le> j \<Longrightarrow> j < niveles_de pl + 1 \<Longrightarrow> P j = []"
    "niveles_de pl + 1 = 1 \<or> cl (niveles_de pl) = por_nivel_de pl (niveles_de pl)"
    using assms(1) by (auto simp: escrito_def)
  have "plan_ok pl"
    using i(1,5) by (simp add: arbol_inv_def medidas_ok_def Let_def)
  then have "cl (niveles_de pl) = 1"
    using i(3,7) assms(2) by (auto simp: plan_ok_def)
  moreover have "cl (niveles_de pl + 1 - 1) = length (P (niveles_de pl + 1))"
    using i(2) unfolding cuenta_def by auto
  ultimately have "length (P (niveles_de pl + 1)) = 1"
    by (metis add_diff_cancel_right')
  then obtain t where t: "P (niveles_de pl + 1) = [t]"
    by (auto simp: length_Suc_conv)
  have "hojas_de (niveles_de pl) P = []"
    using i(6) by (intro hojas_de_vacia) simp
  then have "hojas t = cs"
    using i(4) t by simp
  moreover have "raiz_inv r (usados_en pl b cl) P a"
    using i(1,5) by (simp add: arbol_inv_def)
  ultimately show ?thesis
    using t i(5) by (auto simp: raiz_inv_def split: option.splits)
qed

lemma escribe_flujo_ok:
  assumes "plan_ok pl" "lugar pl (unat base) (niveles_de pl + 1) < 2 ^ 64"
    "word_of_nat ` {unat base ..< lugar pl (unat base) (niveles_de pl + 1)} \<subseteq> V"
    "niveles_de pl \<le> length indice" "list_all (\<lambda>b. length b = 4096) indice"
    "list_all (\<lambda>d. d \<noteq> [] \<and> length d \<le> 4096) cs" "length cs = por_nivel_de pl 0"
    "escribe_flujo poner pl base indice cs s = (res, s')"
  shows "toca (res \<noteq> Inl Io) s s' \<and> (res = Inl Io \<or> (\<exists>p L t. res = Inr p \<and> guardado (bloque s') L (niveles_de pl) p t \<and> hojas t = cs))"
proof -
  obtain a where a: "arbol_nuevo pl base indice = Inr a"
    using assms(4) by (simp add: arbol_nuevo_def)
  note e0 = arbol_nuevo_ok [OF assms(1,2) a assms(5), of "bloque s"]
  obtain r1 a1 s1 where e: "empujar_todos poner cs a s = (r1, a1, s1)"
    using prod_cases3 by blast
  have "toca (r1 \<noteq> Inl Io) s s1 \<and> (r1 = Inl Io \<or> (r1 = Inr () \<and> escrito (bloque s1) (unat base) pl 1 cs a1))"
    using empujar_todos_ok [OF e0 assms(6) _ assms(3) e] assms(7) by simp
  then have t1: "toca (r1 \<noteq> Inl Io) s s1" and "r1 = Inl Io \<or> (r1 = Inr () \<and> escrito (bloque s1) (unat base) pl 1 cs a1)"
    by simp_all
  then show ?thesis
  proof (elim disjE)
    assume "r1 = Inl Io"
    then show ?thesis
      using assms(8) a e t1 by (simp add: escribe_flujo_def)
  next
    assume r1: "r1 = Inr () \<and> escrito (bloque s1) (unat base) pl 1 cs a1"
    then have pl: "ar_plan a1 = pl" "unat (ar_trozos a1) = length cs"
      by (auto simp: escrito_def arbol_inv_def medidas_ok_def Let_def)
    obtain r2 a2 s2 where c: "cierra_niveles poner 1 (niveles_de pl) a1 s1 = (r2, a2, s2)"
      using prod_cases3 by blast
    have "unat (ar_trozos a1) = unat (pl_por_nivel pl ! 0)"
      using pl(2) assms(7) by simp
    then have "ar_trozos a1 = pl_por_nivel pl ! 0"
      by (rule unsigned_word_eqI)
    then have res: "(res, s') = (case r2 of Inl e \<Rightarrow> (Inl e, s2)
        | Inr _ \<Rightarrow> (case ar_raiz a2 of Some p \<Rightarrow> (Inr p, s2) | None \<Rightarrow> (Inl BadField, s2)))"
      using assms(8) a e r1 c pl(1)
      by (cases r2) (simp_all add: escribe_flujo_def cerrar_def split: option.splits)
    have t: "toca (r2 \<noteq> Inl Io) s1 s2 \<and> (r2 = Inl Io \<or> (r2 = Inr () \<and> escrito (bloque s2) (unat base) pl (niveles_de pl + 1) cs a2))"
      using cierra_niveles_ok [OF _ _ _ _ assms(3) c, of cs] r1 assms(7) by simp
    then have t2: "toca (r2 \<noteq> Inl Io) s s2"
      using toca_trans t1 r1 by simp
    from t have "r2 = Inl Io \<or> (r2 = Inr () \<and> escrito (bloque s2) (unat base) pl (niveles_de pl + 1) cs a2)"
      by blast
    then show ?thesis
    proof
      assume "r2 = Inl Io"
      then show ?thesis
        using res t2 by simp
    next
      assume r2: "r2 = Inr () \<and> escrito (bloque s2) (unat base) pl (niveles_de pl + 1) cs a2"
      then obtain p L t where "ar_raiz a2 = Some p" "guardado (bloque s2) L (niveles_de pl) p t" "hojas t = cs"
        using cerrado_raiz assms(7) by blast
      then show ?thesis
        using res r2 t2 by auto
    qed
  qed
qed

lemma flujo_vuelve:
  assumes "plan_ok pl" "lugar pl (unat base) (niveles_de pl + 1) < 2 ^ 64"
    "word_of_nat ` {unat base ..< lugar pl (unat base) (niveles_de pl + 1)} \<subseteq> V"
    "niveles_de pl \<le> length indice" "list_all (\<lambda>b. length b = 4096) indice"
    "list_all (\<lambda>d. d \<noteq> [] \<and> length d \<le> 4096) cs" "length cs = por_nivel_de pl 0"
    "escribe_flujo poner pl base indice cs s = (res, s')" "niveles_de pl < m"
  shows "res = Inl Io \<or> (\<exists>p. res = Inr p \<and>
    descender (bloque s') p (pl_niveles pl) m f x = (Inr (), snd (alimenta f cs x)))"
  using escribe_flujo_ok [OF assms(1-8)] bajar_guardado [OF _ assms(9), of "bloque s'" _ _ _ f x]
  by (auto simp: descender_def split: prod.splits)

end

end
