(* ===== verification/Ventana.thy ===== *)
theory Ventana
  imports Prelude
begin

text \<open>
  \<open>platform/drivers/storage/block/src/lib.rs\<close>, module \<open>ventana\<close>: which sectors may be written.
  Every write path of the disk drivers asks this before a command is built. A window is the pair
  of its first and last sector, both inside.
\<close>

type_synonym ventana = "u64 \<times> u64"

datatype rechazo_disco = SinDisco | NoArmada | CeroSectores | RangoDesborda | FueraDeLasVentanas

definition en_ventana :: "u64 \<Rightarrow> u64 \<Rightarrow> ventana \<Rightarrow> bool" where
  "en_ventana lba fin w \<longleftrightarrow> lba \<ge> fst w \<and> fin \<le> snd w + 1"

definition decidir_rango ::
  "bool \<Rightarrow> bool \<Rightarrow> ventana option \<Rightarrow> ventana option \<Rightarrow> u64 \<Rightarrow> u64 \<Rightarrow> rechazo_disco + unit" where
  "decidir_rango listo armada datos estratos lba sectores =
    (if \<not> listo then Inl SinDisco
     else if \<not> armada then Inl NoArmada
     else if sectores = 0 then Inl CeroSectores
     else case checked_add lba sectores of
       None \<Rightarrow> Inl RangoDesborda
     | Some fin \<Rightarrow>
         if list_ex (en_ventana lba fin) (List.map_filter id [datos, estratos]) then Inr ()
         else Inl FueraDeLasVentanas)"

definition decidir ::
  "bool \<Rightarrow> bool \<Rightarrow> ventana option \<Rightarrow> ventana option \<Rightarrow> u64 \<Rightarrow> u16 \<Rightarrow> rechazo_disco + unit" where
  "decidir listo armada datos estratos lba count =
     decidir_rango listo armada datos estratos lba (ucast count)"

section \<open>No sector outside a window is written\<close>

definition sectores_de :: "ventana \<Rightarrow> nat set" where
  "sectores_de w = {unat (fst w) .. unat (snd w)}"

lemma decidir_rango_Inr:
  "decidir_rango listo armada datos estratos lba sectores = Inr () \<longleftrightarrow>
     listo \<and> armada \<and> sectores \<noteq> 0 \<and> unat lba + unat sectores < 2 ^ 64 \<and>
     (\<exists>w. (datos = Some w \<or> estratos = Some w) \<and> en_ventana lba (lba + sectores) w)"
  by (cases datos; cases estratos)
    (auto simp: decidir_rango_def map_filter_simps checked_add_def split: if_splits)

lemma range_subset_iff:
  "0 < n \<Longrightarrow> {a ..< a + n} \<subseteq> {b .. c} \<longleftrightarrow> b \<le> a \<and> a + n \<le> Suc c" for a b c n :: nat
proof -
  assume "0 < n"
  then have "{a ..< a + n} = {a .. a + n - 1}"
    by auto
  then show ?thesis
    using \<open>0 < n\<close> by auto
qed

text \<open>
  A window that ends at the last 64-bit sector lets nothing through: \<open>w.1 + 1\<close> is then zero.
\<close>

lemma en_ventana_iff:
  assumes "unat lba + unat n < 2 ^ 64" and "n \<noteq> 0"
  shows "en_ventana lba (lba + n) w \<longleftrightarrow>
    snd w \<noteq> - 1 \<and> {unat lba ..< unat lba + unat n} \<subseteq> sectores_de w"
proof -
  have fin: "unat (lba + n) = unat lba + unat n" and "0 < unat n"
    using assms by (simp_all add: unat_add_small unat_gt_0)
  show ?thesis
  proof (cases "snd w = - 1")
    case True
    then show ?thesis
      using fin \<open>0 < unat n\<close> by (simp add: en_ventana_def word_le_nat_alt)
  next
    case False
    then have "snd w + 1 \<noteq> 0"
      by (simp add: eq_neg_iff_add_eq_0)
    then have "unat (snd w + 1) = unat (snd w) + 1"
      using unatSuc [of "snd w"] by (simp add: add.commute)
    then show ?thesis
      using False fin \<open>0 < unat n\<close>
      by (simp add: en_ventana_def word_le_nat_alt sectores_de_def range_subset_iff)
  qed
qed

lemma decidir_rango_permite_iff:
  "decidir_rango listo armada datos estratos lba sectores = Inr () \<longleftrightarrow>
     listo \<and> armada \<and> sectores \<noteq> 0 \<and> unat lba + unat sectores < 2 ^ 64 \<and>
     (\<exists>w. (datos = Some w \<or> estratos = Some w) \<and> snd w \<noteq> - 1 \<and>
        {unat lba ..< unat lba + unat sectores} \<subseteq> sectores_de w)"
  using en_ventana_iff [of lba sectores] unfolding decidir_rango_Inr by blast

section \<open>The property\<close>

text \<open>
  C20: no sector outside the two windows is written. A write is let through exactly when the
  disk is ready and armed, it writes something, its end is a 64-bit sector number, and every
  sector of it lies in one and the same window.
\<close>

theorem decidir_rango_exacto:
  "decidir_rango listo armada datos estratos lba sectores = Inr () \<longleftrightarrow>
     listo \<and> armada \<and> sectores \<noteq> 0 \<and> unat lba + unat sectores < 2 ^ 64 \<and>
     (\<exists>w. (datos = Some w \<or> estratos = Some w) \<and> snd w \<noteq> - 1 \<and>
        {unat lba ..< unat lba + unat sectores} \<subseteq> sectores_de w)"
  by (rule decidir_rango_permite_iff)

end
