(* ===== verification/Estratos_Disco.thy ===== *)
theory Estratos_Disco
  imports Estratos_Arbol Ventana
begin

text \<open>
  The disk below the volume: \<open>ring0/dev/disk/mod.rs\<close> (\<open>write\<close>, \<open>flush\<close>, \<open>AhciDisk::read\<close>) and the
  block functions of \<open>ring0/fsys/estratos/mod.rs\<close> and \<open>escribir.rs\<close> over it.

  The drive is the environment. It has a platter, a list of the sectors it accepted and may still
  hold in its cache, and it answers each command as a stream of answers says: done (of a write, with
  the number of sectors the controller counted, zero from one that does not count), or failed, and then any of the sectors may have got through.
  A power cut is a stream that from some answer on fails and takes nothing, \<^term>\<open>Malo []\<close>.
\<close>

section \<open>The drive\<close>

type_synonym sector = "u8 list"

datatype respuesta = Hecho nat | Malo "bool list"

record disco =
  d_plato :: "u64 \<Rightarrow> sector"
  d_cache :: "(u64 \<times> sector) list"
  d_resp :: "nat \<Rightarrow> respuesta"

definition siguen :: "(nat \<Rightarrow> respuesta) \<Rightarrow> nat \<Rightarrow> respuesta" where
  "siguen rs = (\<lambda>i. rs (Suc i))"

definition vuelca :: "(u64 \<times> sector) list \<Rightarrow> (u64 \<Rightarrow> sector) \<Rightarrow> u64 \<Rightarrow> sector" where
  "vuelca ws p = fold (\<lambda>(l, x) p. p(l := x)) ws p"

definition visto :: "disco \<Rightarrow> u64 \<Rightarrow> sector" where
  "visto d = vuelca (d_cache d) (d_plato d)"

definition elegidos :: "bool list \<Rightarrow> 'a list \<Rightarrow> 'a list" where
  "elegidos bs xs = map snd (filter fst (zip bs xs))"

definition numerados :: "u64 \<Rightarrow> sector list \<Rightarrow> (u64 \<times> sector) list" where
  "numerados lba ss = map (\<lambda>i. (lba + word_of_nat i, ss ! i)) [0 ..< length ss]"

definition cmd_escribe :: "u64 \<Rightarrow> sector list \<Rightarrow> disco \<Rightarrow> nat option \<times> disco" where
  "cmd_escribe lba ss d =
    (case d_resp d 0 of
       Hecho n \<Rightarrow>
         (Some (min n (length ss)),
          d\<lparr>d_cache := d_cache d @ numerados lba (if n = 0 then ss else take n ss), d_resp := siguen (d_resp d)\<rparr>)
     | Malo bs \<Rightarrow>
         (None, d\<lparr>d_cache := d_cache d @ elegidos bs (numerados lba ss), d_resp := siguen (d_resp d)\<rparr>))"

definition cmd_vacia :: "disco \<Rightarrow> bool \<times> disco" where
  "cmd_vacia d =
    (case d_resp d 0 of
       Hecho _ \<Rightarrow> (True, d\<lparr>d_plato := visto d, d_cache := [], d_resp := siguen (d_resp d)\<rparr>)
     | Malo bs \<Rightarrow>
         (False, d\<lparr>d_plato := vuelca (elegidos bs (d_cache d)) (d_plato d), d_resp := siguen (d_resp d)\<rparr>))"

text \<open>What may be on the platter if the power goes now: of each sector any of what was accepted.\<close>

definition tras_corte :: "disco \<Rightarrow> (u64 \<Rightarrow> sector) \<Rightarrow> bool" where
  "tras_corte d m \<longleftrightarrow> (\<forall>l. m l = d_plato d l \<or> (l, m l) \<in> set (d_cache d))"

section \<open>The kernel over it\<close>

text \<open>
  The statics of the disk and of the mounted volume. \<open>k_legible\<close> says which sectors a read brings.
\<close>

record kernel =
  k_dispositivo :: bool
  k_listo :: bool
  k_armado :: bool
  k_dma :: u64
  k_total :: u64
  k_model :: "u8 list"
  k_serial :: "u8 list"
  k_legible :: "u64 \<Rightarrow> bool"
  k_datos :: "ventana option"
  k_ventana :: "ventana option"
  k_montado :: bool
  k_base :: u64
  k_particion :: u32
  k_super :: "superblock option"
  k_identidad :: bool
  k_fecha :: u64

definition SECTOR :: nat where "SECTOR = 512"
definition PER_BATCH :: nat where "PER_BATCH = 4096 div SECTOR"
definition SECTORES_POR_BLOQUE :: u16 where "SECTORES_POR_BLOQUE = word_of_nat (BLOQUE div 512)"

lemmas medidas_disco = SECTOR_def PER_BATCH_def SECTORES_POR_BLOQUE_def

definition write_window :: "kernel \<Rightarrow> u64 \<Rightarrow> u16 \<Rightarrow> rechazo_disco + unit" where
  "write_window k lba count = decidir (k_listo k) (k_armado k) (k_datos k) (k_ventana k) lba count"

definition trocea :: "u8 list \<Rightarrow> nat \<Rightarrow> sector list" where
  "trocea b n = map (\<lambda>i. rodaja (i * SECTOR) SECTOR b) [0 ..< n]"

text \<open>
  One turn per command, of at most a page. \<open>cuenta_hba\<close> is the end of \<open>run_command\<close>: a controller
  that does not count what it wrote reports nothing moved, and then the whole order counts.
\<close>

definition cuenta_hba :: "nat \<Rightarrow> nat \<Rightarrow> nat" where
  "cuenta_hba pedidos n = (if n = 0 then pedidos else n)"

function tandas :: "u64 \<Rightarrow> nat \<Rightarrow> u8 list \<Rightarrow> nat \<Rightarrow> disco \<Rightarrow> nat \<times> disco" where
  "tandas lba count datos hechos d =
    (if hechos < count then
       let tanda = min (count - hechos) PER_BATCH in
       (case cmd_escribe (lba + word_of_nat hechos) (trocea (drop (hechos * SECTOR) datos) tanda) d of
          (None, d) \<Rightarrow> (hechos, d)
        | (Some n, d) \<Rightarrow>
            let puso = cuenta_hba tanda n in
            if puso = 0 then (hechos, d)
            else if puso < tanda then (hechos + puso, d)
            else tandas lba count datos (hechos + puso) d)
     else (hechos, d))"
  by pat_completeness auto

termination by (relation "measure (\<lambda>(_, c, _, h, _). c - h)") auto

declare tandas.simps [simp del]

definition disk_write :: "kernel \<Rightarrow> u64 \<Rightarrow> u16 \<Rightarrow> u8 list \<Rightarrow> disco \<Rightarrow> u16 \<times> disco" where
  "disk_write k lba count datos d =
    (case write_window k lba count of Inl _ \<Rightarrow> (0, d)
     | Inr _ \<Rightarrow>
         if length datos < unat count * SECTOR then (0, d)
         else if k_dma k = 0 then (0, d)
         else case tandas lba (unat count) datos 0 d of (n, d) \<Rightarrow> (word_of_nat n, d))"

definition disk_flush :: "kernel \<Rightarrow> disco \<Rightarrow> bool \<times> disco" where
  "disk_flush k d = (if \<not> k_listo k \<or> \<not> k_armado k then (False, d) else cmd_vacia d)"

text \<open>\<open>read\<close> stops at the first sector that does not come.\<close>

definition seguidos :: "kernel \<Rightarrow> u64 \<Rightarrow> nat \<Rightarrow> nat" where
  "seguidos k lba n = length (takeWhile (k_legible k) (map (\<lambda>i. lba + word_of_nat i) [0 ..< n]))"

datatype block_error = NotReady | ShortBufferB | OutOfRange | Device

definition dev_read :: "kernel \<Rightarrow> u64 \<Rightarrow> u16 \<Rightarrow> nat \<Rightarrow> disco \<Rightarrow> block_error + (u16 \<times> u8 list)" where
  "dev_read k lba count largo d =
    (if \<not> k_listo k then Inl NotReady
     else if count = 0 then Inr (0, [])
     else if largo < unat count * SECTOR then Inl ShortBufferB
     else case checked_add lba (ucast count) of None \<Rightarrow> Inl OutOfRange
     | Some fin \<Rightarrow>
         if k_total k \<noteq> 0 \<and> fin > k_total k then Inl OutOfRange
         else let n = (if k_dma k = 0 then 0 else seguidos k lba (unat count)) in
           if n = 0 then Inl Device
           else Inr (word_of_nat n, concat (map (\<lambda>i. visto d (lba + word_of_nat i)) [0 ..< n])))"

definition read_block_from :: "kernel \<Rightarrow> u64 \<Rightarrow> u64 \<Rightarrow> disco \<Rightarrow> u8 list option" where
  "read_block_from k base bloque d =
    (if \<not> k_dispositivo k then None
     else case dev_read k (base + bloque * ucast SECTORES_POR_BLOQUE) SECTORES_POR_BLOQUE BLOQUE d of
       Inl _ \<Rightarrow> None
     | Inr (n, b) \<Rightarrow> if n = SECTORES_POR_BLOQUE then Some b else None)"

definition read_block :: "kernel \<Rightarrow> disco \<Rightarrow> u64 \<Rightarrow> u8 list option" where
  "read_block k d bloque = read_block_from k (k_base k) bloque d"

definition write_block :: "kernel \<Rightarrow> u64 \<Rightarrow> u8 list \<Rightarrow> disco \<Rightarrow> bool \<times> disco" where
  "write_block k bloque src d =
    (case disk_write k (k_base k + bloque * ucast SECTORES_POR_BLOQUE) SECTORES_POR_BLOQUE src d of
       (n, d) \<Rightarrow> (n = SECTORES_POR_BLOQUE, d))"

definition write_superblock :: "kernel \<Rightarrow> u64 \<Rightarrow> u8 list \<Rightarrow> disco \<Rightarrow> bool \<times> disco" where
  "write_superblock k bloque sb d =
    (case disk_write k (k_base k + bloque * ucast SECTORES_POR_BLOQUE) 1 sb d of (n, d) \<Rightarrow> (n = 1, d))"

datatype write_error =
    SinVolumen | Rechazada rechazo_tx | NoEscribio | SinBarrera | NoCabe | NoSeLeeLaRaiz | RutaNoEsta
  | MuyHondo | CarpetaLlena | CarpetaNoCabeEntera | NombreNoVale

definition poner :: "kernel \<Rightarrow> u64 \<Rightarrow> u8 list \<Rightarrow> disco \<Rightarrow> (write_error + unit) \<times> disco" where
  "poner k bloque datos d =
    (if length datos > BLOQUE then (Inl NoCabe, d)
     else case write_block k bloque (parche 0 datos (replicate BLOQUE 0)) d of
       (True, d) \<Rightarrow> (Inr (), d)
     | (False, d) \<Rightarrow> (Inl NoEscribio, d))"

text \<open>The closure that \<open>copiar.rs\<close> gives to the writer of streams.\<close>

definition poner_es_ok :: "kernel \<Rightarrow> disco poner" where
  "poner_es_ok k lba datos d = (case poner k lba datos d of (Inr _, d) \<Rightarrow> (True, d) | (Inl _, d) \<Rightarrow> (False, d))"

section \<open>What the drive holds\<close>

lemma vuelca_append [simp]: "vuelca (xs @ ys) p = vuelca ys (vuelca xs p)"
  by (simp add: vuelca_def)

lemma vuelca_Nil [simp]: "vuelca [] p = p"
  by (simp add: vuelca_def)

lemma vuelca_Cons [simp]: "vuelca ((l, x) # ws) p = vuelca ws (p(l := x))"
  by (simp add: vuelca_def)

lemma vuelca_fuera: "l \<notin> fst ` set ws \<Longrightarrow> vuelca ws p l = p l"
  by (induction ws arbitrary: p) auto

lemma vuelca_casos: "vuelca ws p l = p l \<or> (l, vuelca ws p l) \<in> set ws"
proof (induction ws arbitrary: p)
  case (Cons w ws)
  obtain a x where "w = (a, x)"
    by fastforce
  moreover define q where "q = p(a := x)"
  moreover have "q l = (if l = a then x else p l)"
    by (simp add: q_def)
  ultimately show ?case
    using Cons [of q] by (auto simp del: fun_upd_apply split: if_splits)
qed simp

lemma vuelca_map_inj:
  "inj_on f (set xs) \<Longrightarrow> x \<in> set xs \<Longrightarrow> distinct xs \<Longrightarrow> vuelca (map (\<lambda>i. (f i, g i)) xs) p (f x) = g x"
proof (induction xs arbitrary: p)
  case (Cons y xs)
  show ?case
  proof (cases "x = y")
    case True
    then have "f x \<notin> fst ` set (map (\<lambda>i. (f i, g i)) xs)"
      using Cons.prems by (auto simp: inj_on_def)
    then show ?thesis
      using True by (simp add: vuelca_fuera)
  next
    case False
    then show ?thesis
      using Cons by simp
  qed
qed simp

lemma inj_suma_word: "n \<le> 2 ^ 64 \<Longrightarrow> inj_on (\<lambda>i. (lba :: u64) + word_of_nat i) {..<n}"
  by (intro inj_onI) (simp add: word_of_nat_eq_iff take_bit_nat_eq_self)

lemma vuelca_numerados:
  assumes "i < length ss" "length ss \<le> 2 ^ 64"
  shows "vuelca (numerados lba ss) p (lba + word_of_nat i) = ss ! i"
proof -
  have "inj_on (\<lambda>i. lba + word_of_nat i) (set [0 ..< length ss])"
    using inj_suma_word [OF assms(2)] by (simp add: lessThan_atLeast0)
  then show ?thesis
    using vuelca_map_inj [of "\<lambda>i. lba + word_of_nat i" "[0 ..< length ss]" i "\<lambda>i. ss ! i"] assms(1)
    by (simp add: numerados_def)
qed

definition tramo_sectores :: "u64 \<Rightarrow> nat \<Rightarrow> u64 set" where
  "tramo_sectores lba n = (\<lambda>i. lba + word_of_nat i) ` {..<n}"

lemma fst_numerados: "fst ` set (numerados lba ss) = tramo_sectores lba (length ss)"
  by (force simp: numerados_def tramo_sectores_def)

lemma set_elegidos: "set (elegidos bs xs) \<subseteq> set xs"
  by (auto simp: elegidos_def dest: set_zip_rightD)

text \<open>\<open>avanza S\<close>: some writes to sectors of \<open>S\<close> were accepted, and nothing else happened.\<close>

definition avanza :: "u64 set \<Rightarrow> disco \<Rightarrow> disco \<Rightarrow> bool" where
  "avanza S d d' \<longleftrightarrow> d_plato d' = d_plato d \<and>
    (\<exists>ws. d_cache d' = d_cache d @ ws \<and> fst ` set ws \<subseteq> S)"

lemma avanza_refl [simp]: "avanza S d d"
  by (simp add: avanza_def)

lemma avanza_trans: "avanza S d d' \<Longrightarrow> avanza S d' d'' \<Longrightarrow> avanza S d d''"
proof -
  assume a: "avanza S d d'" "avanza S d' d''"
  obtain ws vs where w: "d_cache d' = d_cache d @ ws" "fst ` set ws \<subseteq> S" "d_plato d' = d_plato d"
      "d_cache d'' = d_cache d' @ vs" "fst ` set vs \<subseteq> S" "d_plato d'' = d_plato d'"
    using a unfolding avanza_def by blast
  then have "d_cache d'' = d_cache d @ (ws @ vs)" "fst ` set (ws @ vs) \<subseteq> S"
    by (simp_all add: image_Un)
  then show ?thesis
    using w unfolding avanza_def by metis
qed

lemma avanza_mono: "avanza S d d' \<Longrightarrow> S \<subseteq> T \<Longrightarrow> avanza T d d'"
  by (auto simp: avanza_def)

lemma avanza_visto: "avanza S d d' \<Longrightarrow> l \<notin> S \<Longrightarrow> visto d' l = visto d l"
proof -
  assume "avanza S d d'" "l \<notin> S"
  then obtain ws where "d_plato d' = d_plato d" "d_cache d' = d_cache d @ ws" "l \<notin> fst ` set ws"
    unfolding avanza_def by blast
  then show ?thesis
    by (simp add: visto_def vuelca_fuera)
qed

lemma cmd_escribe_avanza:
  "cmd_escribe lba ss d = (r, d') \<Longrightarrow> avanza (tramo_sectores lba (length ss)) d d'"
proof -
  assume e: "cmd_escribe lba ss d = (r, d')"
  have t: "tramo_sectores lba (length (take n ss)) \<subseteq> tramo_sectores lba (length ss)" for n
    by (auto simp: tramo_sectores_def)
  have "fst ` set (elegidos bs (numerados lba ss)) \<subseteq> tramo_sectores lba (length ss)" for bs
    using set_elegidos [of bs "numerados lba ss"] fst_numerados [of lba ss] by blast
  then show ?thesis
    using e t by (auto simp: cmd_escribe_def avanza_def fst_numerados split: respuesta.splits)
qed

lemma length_trocea [simp]: "length (trocea b n) = n"
  by (simp add: trocea_def)

lemma tandas_avanza:
  "tandas lba count datos hechos d = (n, d') \<Longrightarrow> hechos \<le> count \<Longrightarrow>
   avanza (tramo_sectores lba count) d d' \<and> n \<le> count"
proof (induction lba count datos hechos d arbitrary: n d' rule: tandas.induct)
  case (1 lba count datos hechos d)
  show ?case
  proof (cases "hechos < count")
    case False
    then show ?thesis
      using 1 by (subst (asm) (2) tandas.simps) simp
  next
    case True
    define t where "t = min (count - hechos) PER_BATCH"
    have t: "0 < t" "hechos + t \<le> count"
      using True by (auto simp: t_def medidas_disco)
    obtain r d1 where e: "cmd_escribe (lba + word_of_nat hechos) (trocea (drop (hechos * SECTOR) datos) t) d = (r, d1)"
      using prod.exhaust by blast
    have "tramo_sectores (lba + word_of_nat hechos) t \<subseteq> tramo_sectores lba count"
    proof
      fix x assume "x \<in> tramo_sectores (lba + word_of_nat hechos) t"
      then obtain i where i: "i < t" "x = lba + word_of_nat (hechos + i)"
        by (auto simp: tramo_sectores_def add.assoc)
      then have "hechos + i < count"
        using t(2) by simp
      then show "x \<in> tramo_sectores lba count"
        unfolding tramo_sectores_def i(2) by (intro imageI) simp
    qed
    then have a: "avanza (tramo_sectores lba count) d d1"
      using cmd_escribe_avanza [OF e] avanza_mono by simp
    have m: "m \<le> t" if "r = Some m" for m
      using e that by (auto simp: cmd_escribe_def split: respuesta.splits)
    have ih: "tandas lba count datos (hechos + cuenta_hba t m) d1 = (n, d') \<Longrightarrow> r = Some m \<Longrightarrow>
        \<not> cuenta_hba t m < t \<Longrightarrow> avanza (tramo_sectores lba count) d1 d' \<and> n \<le> count" for m
      using "1.IH" [OF True t_def e [symmetric], of m "cuenta_hba t m"] t m [of m]
      by (auto simp: cuenta_hba_def split: if_splits)
    show ?thesis
      using "1.prems" True e a ih t m
      by (subst (asm) tandas.simps)
        (auto simp: t_def [symmetric] Let_def cuenta_hba_def split: option.splits if_splits intro: avanza_trans)
  qed
qed

lemma tandas_una:
  assumes "0 < count" "count \<le> 8"
  shows "tandas lba count datos 0 d =
    (case cmd_escribe lba (trocea datos count) d of
       (None, d) \<Rightarrow> (0, d) | (Some n, d) \<Rightarrow> (cuenta_hba count n, d))"
proof -
  have t: "min count PER_BATCH = count"
    using assms(2) by (simp add: medidas_disco)
  obtain r d1 where e: "cmd_escribe lba (trocea datos count) d = (r, d1)"
    using prod.exhaust by blast
  have m: "m \<le> count" if "r = Some m" for m
    using e that by (auto simp: cmd_escribe_def split: respuesta.splits)
  have fin: "tandas lba count datos count d1 = (count, d1)"
    by (subst tandas.simps) simp
  show ?thesis
    using assms(1) e m fin
    by (subst tandas.simps) (auto simp: t Let_def cuenta_hba_def split: option.splits)
qed

section \<open>Blocks\<close>

definition lba_de :: "kernel \<Rightarrow> u64 \<Rightarrow> u64" where
  "lba_de k b = k_base k + b * 8"

definition sectores_bloque :: "kernel \<Rightarrow> u64 \<Rightarrow> u64 set" where
  "sectores_bloque k b = tramo_sectores (lba_de k b) 8"

definition vista_bloque :: "kernel \<Rightarrow> (u64 \<Rightarrow> sector) \<Rightarrow> u64 \<Rightarrow> u8 list" where
  "vista_bloque k m b = concat (map (\<lambda>i. m (lba_de k b + word_of_nat i)) [0 ..< 8])"

text \<open>The blocks that the device and the partition can address and the medium gives back.\<close>

definition bloques_de :: "kernel \<Rightarrow> u64 set" where
  "bloques_de k = {b. unat (k_base k) + 8 * unat b + 8 < 2 ^ 64 \<and>
     (k_total k = 0 \<or> unat (k_base k) + 8 * unat b + 8 \<le> unat (k_total k)) \<and>
     k_dispositivo k \<and> k_listo k \<and> k_dma k \<noteq> 0 \<and> (\<forall>l \<in> sectores_bloque k b. k_legible k l)}"

lemma SPB [simp]: "SECTORES_POR_BLOQUE = 8" "ucast SECTORES_POR_BLOQUE = (8 :: u64)"
  by (simp_all add: medidas_disco medidas)

lemma unat_lba_de: "unat (k_base k) + 8 * unat b + 8 < 2 ^ 64 \<Longrightarrow> unat (lba_de k b) = unat (k_base k) + 8 * unat b"
proof -
  assume a: "unat (k_base k) + 8 * unat b + 8 < 2 ^ 64"
  then have m: "unat (b * 8) = 8 * unat b"
    by (simp add: unat_word_ariths mult.commute)
  show ?thesis
    unfolding lba_de_def using a by (subst unat_word_ariths(1)) (simp add: m)
qed

lemma unat_suma_sector:
  "unat (k_base k) + 8 * unat b + 8 < 2 ^ 64 \<Longrightarrow> i < 8 \<Longrightarrow>
   unat (lba_de k b + word_of_nat i) = unat (k_base k) + 8 * unat b + i"
  by (subst unat_word_ariths(1)) (simp add: unat_lba_de unat_word_of_nat)

lemma sectores_disjuntos:
  assumes "b \<in> bloques_de k" "c \<in> bloques_de k" "b \<noteq> c"
  shows "sectores_bloque k b \<inter> sectores_bloque k c = {}"
proof (rule ccontr)
  assume "sectores_bloque k b \<inter> sectores_bloque k c \<noteq> {}"
  then obtain i j where ij: "i < 8" "j < 8" "lba_de k b + word_of_nat i = lba_de k c + word_of_nat j"
    by (auto simp: sectores_bloque_def tramo_sectores_def)
  then have "unat (k_base k) + 8 * unat b + i = unat (k_base k) + 8 * unat c + j"
    using assms unat_suma_sector [of k b i] unat_suma_sector [of k c j] by (simp add: bloques_de_def)
  then have "unat b = unat c"
    using ij(1,2) by linarith
  then show False
    using assms(3) unsigned_word_eqI by blast
qed

lemma lee_bloque:
  assumes "b \<in> bloques_de k"
  shows "read_block k d b = Some (vista_bloque k (visto d) b)"
proof -
  have b: "unat (k_base k) + 8 * unat b + 8 < 2 ^ 64"
    "k_total k = 0 \<or> unat (k_base k) + 8 * unat b + 8 \<le> unat (k_total k)"
    "k_dispositivo k" "k_listo k" "k_dma k \<noteq> 0" "\<And>i. i < 8 \<Longrightarrow> k_legible k (lba_de k b + word_of_nat i)"
    using assms by (auto simp: bloques_de_def sectores_bloque_def tramo_sectores_def)
  have u: "unat (lba_de k b) + 8 < 2 ^ 64"
    using b(1) by (simp add: unat_lba_de)
  then have c: "checked_add (lba_de k b) 8 = Some (lba_de k b + 8)"
    by (simp add: checked_add_def)
  have "unat (lba_de k b + 8) = unat (lba_de k b) + 8"
    using u by (simp add: unat_word_ariths)
  then have t: "\<not> (k_total k \<noteq> 0 \<and> lba_de k b + 8 > k_total k)"
    using b(1,2) by (auto simp: unat_lba_de word_less_nat_alt)
  have "seguidos k (lba_de k b) 8 = 8"
    using b(6) by (simp add: seguidos_def takeWhile_eq_all_conv [THEN iffD2])
  then show ?thesis
    using b(3,4,5) c t
    by (simp add: read_block_def read_block_from_def dev_read_def lba_de_def [symmetric] medidas medidas_disco
        vista_bloque_def)
qed

lemma disk_write_avanza:
  "disk_write k lba count b d = (n, d') \<Longrightarrow> avanza (tramo_sectores lba (unat count)) d d'"
  using tandas_avanza [of lba "unat count" b 0 d]
  by (auto simp: disk_write_def split: sum.splits if_splits prod.splits)

lemma write_block_avanza: "write_block k b src d = (r, d') \<Longrightarrow> avanza (sectores_bloque k b) d d'"
  using disk_write_avanza [of k "lba_de k b" 8 src d]
  by (auto simp: write_block_def lba_de_def sectores_bloque_def split: prod.splits)

lemma write_superblock_avanza: "write_superblock k b sb d = (r, d') \<Longrightarrow> avanza {lba_de k b} d d'"
  using disk_write_avanza [of k "lba_de k b" 1 sb d]
  by (auto simp: write_superblock_def lba_de_def tramo_sectores_def lessThan_Suc split: prod.splits)

lemma poner_avanza: "poner k b datos d = (r, d') \<Longrightarrow> avanza (sectores_bloque k b) d d'"
  using write_block_avanza [of k b "parche 0 datos (replicate BLOQUE 0)" d]
  by (auto simp: poner_def split: if_splits prod.splits bool.splits)

lemma disk_write_todo:
  assumes "disk_write k lba count b d = (n, d')" "n = count" "0 < unat count" "unat count \<le> 8"
  shows "d_plato d' = d_plato d \<and> d_cache d' = d_cache d @ numerados lba (trocea b (unat count)) \<and>
    d_resp d' = siguen (d_resp d)"
proof -
  have "count \<noteq> 0"
    using assms(3) by auto
  then obtain m where m: "tandas lba (unat count) b 0 d = (m, d')" "word_of_nat m = count"
    using assms(1,2) by (auto simp: disk_write_def split: sum.splits if_splits prod.splits)
  have "m \<le> unat count"
    using tandas_avanza [OF m(1)] by simp
  then have "unat (word_of_nat m :: u16) = m"
    using assms(4) by (simp add: unat_word_of_nat)
  then have "m = unat count"
    using m(2) by simp
  then show ?thesis
    using m(1) assms(3,4)
    by (auto simp: tandas_una cmd_escribe_def cuenta_hba_def split: respuesta.splits if_splits)
qed

lemma concat_trocea:
  assumes "length b = n * 512"
  shows "concat (trocea b n) = b"
  using assms
proof (induction n arbitrary: b)
  case (Suc n)
  have "trocea b (Suc n) = trocea (take (n * 512) b) n @ [drop (n * 512) b]"
  proof (rule nth_equalityI)
    fix i assume "i < length (trocea b (Suc n))"
    then have "i < n \<or> i = n"
      by auto
    then show "trocea b (Suc n) ! i = (trocea (take (n * 512) b) n @ [drop (n * 512) b]) ! i"
    proof
      assume i: "i < n"
      then have "Suc i * 512 \<le> n * 512"
        by (intro mult_le_mono1) simp
      then show ?thesis
        using i Suc.prems by (simp add: trocea_def rodaja_def nth_append medidas_disco drop_take min_def del: upt_Suc)
    next
      assume "i = n"
      then show ?thesis
        using Suc.prems by (simp add: trocea_def rodaja_def nth_append medidas_disco del: upt_Suc)
    qed
  qed simp
  then show ?case
    using Suc.IH [of "take (n * 512) b"] Suc.prems by simp
qed (simp add: trocea_def)

lemma escribe_lee:
  assumes "write_block k b src d = (True, d')" "length src = 4096"
  shows "vista_bloque k (visto d') b = src" "d_plato d' = d_plato d"
    "d_cache d' = d_cache d @ numerados (lba_de k b) (trocea src 8)" "d_resp d' = siguen (d_resp d)"
proof -
  have w: "disk_write k (lba_de k b) 8 src d = (8, d')"
    using assms(1) by (auto simp: write_block_def lba_de_def split: prod.splits)
  show c: "d_plato d' = d_plato d" "d_resp d' = siguen (d_resp d)"
    "d_cache d' = d_cache d @ numerados (lba_de k b) (trocea src 8)"
    using disk_write_todo [OF w] by simp_all
  have "visto d' (lba_de k b + word_of_nat i) = trocea src 8 ! i" if "i < 8" for i
    using that vuelca_numerados [of i "trocea src 8"] by (simp add: visto_def c)
  then have "map (\<lambda>i. visto d' (lba_de k b + word_of_nat i)) [0 ..< 8] = trocea src 8"
    by (intro nth_equalityI) simp_all
  then show "vista_bloque k (visto d') b = src"
    using concat_trocea [of src 8] assms(2) by (simp add: vista_bloque_def)
qed

lemma parche_rellena: "length d \<le> 4096 \<Longrightarrow> parche 0 d (replicate BLOQUE 0) = rellena d"
  by (simp add: parche_def rellena_def medidas)

lemma poner_lee_bien:
  assumes "poner k b datos d = (Inr (), d')"
  shows "length datos \<le> 4096" "vista_bloque k (visto d') b = rellena datos"
    "d_cache d' = d_cache d @ numerados (lba_de k b) (trocea (rellena datos) 8)"
proof -
  have l: "length datos \<le> 4096" and "write_block k b (rellena datos) d = (True, d')"
    using assms parche_rellena [of datos] by (auto simp: poner_def medidas split: if_splits prod.splits bool.splits)
  moreover have "length (rellena datos) = 4096"
    using l by (simp add: rellena_def)
  ultimately show "length datos \<le> 4096" "vista_bloque k (visto d') b = rellena datos"
    "d_cache d' = d_cache d @ numerados (lba_de k b) (trocea (rellena datos) 8)"
    using escribe_lee by blast+
qed

lemma vista_bloque_igual:
  "(\<And>l. l \<in> sectores_bloque k b \<Longrightarrow> m l = m' l) \<Longrightarrow> vista_bloque k m b = vista_bloque k m' b"
  unfolding vista_bloque_def
  by (intro arg_cong [where f = concat] map_cong) (auto simp: sectores_bloque_def tramo_sectores_def)

section \<open>The store of the stream writer\<close>

text \<open>What \<open>copiar.rs\<close> gives to the writer of \<open>flujo.rs\<close> keeps the laws the writer relies on.\<close>

definition sectores_de_bloques :: "kernel \<Rightarrow> u64 set \<Rightarrow> u64 set" where
  "sectores_de_bloques k W = (\<Union>b \<in> W. sectores_bloque k b)"

lemma poner_es_ok_avanza: "poner_es_ok k l d s = (b, s') \<Longrightarrow> avanza (sectores_bloque k l) s s'"
  using poner_avanza [of k l d s] by (auto simp: poner_es_ok_def split: prod.splits sum.splits)

text \<open>
  A drive that does all it is told, and blocks that the windows let be written: then nothing fails.
\<close>

definition dispuesto :: "disco \<Rightarrow> bool" where
  "dispuesto d \<longleftrightarrow> (\<forall>i. \<exists>n. d_resp d i = Hecho n \<and> (n = 0 \<or> 8 \<le> n))"

definition escribible :: "kernel \<Rightarrow> u64 set \<Rightarrow> bool" where
  "escribible k W \<longleftrightarrow> k_dma k \<noteq> 0 \<and> (\<forall>b \<in> W. write_window k (lba_de k b) 8 = Inr ())"

lemma escribe_dispuesto:
  assumes "dispuesto d" "count \<le> 8" "0 < unat count" "k_dma k \<noteq> 0" "write_window k lba count = Inr ()"
    "unat count * 512 \<le> length b"
  shows "\<exists>d'. disk_write k lba count b d = (count, d') \<and> dispuesto d'"
proof -
  have c8: "unat count \<le> 8"
    using assms(2) by (simp add: word_le_nat_alt)
  obtain n where n: "d_resp d 0 = Hecho n" "n = 0 \<or> 8 \<le> n"
    using assms(1) by (auto simp: dispuesto_def)
  have "cuenta_hba (unat count) (min n (unat count)) = unat count"
    using n(2) c8 by (auto simp: cuenta_hba_def)
  moreover have "dispuesto (d\<lparr>d_cache := x, d_resp := siguen (d_resp d)\<rparr>)" for x
    using assms(1) by (simp add: dispuesto_def siguen_def)
  ultimately show ?thesis
    using n(1) assms(3-6) c8 by (simp add: disk_write_def tandas_una cmd_escribe_def medidas_disco linorder_not_less)
qed

lemma poner_dispuesto:
  assumes "dispuesto d" "k_dma k \<noteq> 0" "write_window k (lba_de k b) 8 = Inr ()" "length datos \<le> 4096"
  shows "\<exists>d'. poner k b datos d = (Inr (), d') \<and> dispuesto d'"
proof -
  have l: "length (rellena datos) = 4096"
    using assms(4) by (simp add: rellena_def)
  obtain d' where "disk_write k (lba_de k b) 8 (rellena datos) d = (8, d')" "dispuesto d'"
    using escribe_dispuesto [OF assms(1) _ _ assms(2,3), of "rellena datos"] l by auto
  then show ?thesis
    using assms(4) parche_rellena [of datos] by (simp add: poner_def write_block_def lba_de_def medidas)
qed

definition toca_zona :: "kernel \<Rightarrow> u64 set \<Rightarrow> bool \<Rightarrow> disco \<Rightarrow> disco \<Rightarrow> bool" where
  "toca_zona k W bien d d' \<longleftrightarrow> avanza (sectores_de_bloques k W) d d' \<and>
    (escribible k W \<and> dispuesto d \<longrightarrow> bien \<and> dispuesto d')"

interpretation dk: almacen "poner_es_ok k" "read_block k" "W \<inter> bloques_de k" "toca_zona k W" for k W
proof
  fix l d s s'
  assume a: "poner_es_ok k l d s = (True, s')" "l \<in> W \<inter> bloques_de k" "length d \<le> 4096"
  then have "poner k l d s = (Inr (), s')"
    by (auto simp: poner_es_ok_def split: prod.splits sum.splits)
  then show "read_block k s' l = Some (rellena d)"
    using a(2) by (simp add: lee_bloque poner_lee_bien(2))
next
  fix l d s b s' l'
  assume a: "poner_es_ok k l d s = (b, s')" "l \<in> W \<inter> bloques_de k" "l' \<in> W \<inter> bloques_de k" "l' \<noteq> l"
  then have "avanza (sectores_bloque k l) s s'"
    by (blast intro: poner_es_ok_avanza)
  moreover have "x \<notin> sectores_bloque k l" if "x \<in> sectores_bloque k l'" for x
    using that sectores_disjuntos [of l k l'] a(2-4) by blast
  ultimately have "visto s' x = visto s x" if "x \<in> sectores_bloque k l'" for x
    using that avanza_visto by metis
  then have "vista_bloque k (visto s') l' = vista_bloque k (visto s) l'"
    by (rule vista_bloque_igual)
  then show "read_block k s' l' = read_block k s l'"
    using a(3) by (simp add: lee_bloque)
next
  fix l d s b s'
  assume p: "poner_es_ok k l d s = (b, s')" "l \<in> W \<inter> bloques_de k" "length d \<le> 4096"
  then have "avanza (sectores_de_bloques k W) s s'"
    by (auto simp: sectores_de_bloques_def intro: avanza_mono poner_es_ok_avanza)
  moreover have "b \<and> dispuesto s'" if "escribible k W" "dispuesto s"
    using poner_dispuesto [OF that(2), of k l d] that(1) p by (auto simp: escribible_def poner_es_ok_def)
  ultimately show "toca_zona k W b s s'"
    by (simp add: toca_zona_def)
qed (auto simp: toca_zona_def intro: avanza_trans)

end
