(* ===== verification/Estratos_Carpeta.thy ===== *)
theory Estratos_Carpeta
  imports Estratos_Objetos
begin

text \<open>
  \<open>platform/drivers/storage/estratos/src/escritura/guardar.rs\<close>: the block of entries of a directory
  after a gesture (one more, one less, one renamed, one pointing elsewhere) and the nodes of a new
  file or directory. The blocks are written apart; here they are only built.

  \<open>previas\<close> are the bytes of the entries of today. The three operations that rewrite a list copy
  it into a block of 4096 bytes and panic (\<^const>\<open>None\<close>) if it is longer.
\<close>

definition ENTRADAS_POR_BLOQUE :: nat where "ENTRADAS_POR_BLOQUE = BLOQUE div ENTRADA_LEN"

definition nodo_de_fichero :: "u8 list \<Rightarrow> format_error + u8 list" where
  "nodo_de_fichero datos =
    (if length datos > RESIDENTE_MAX then Inl BadField
     else case attr_residente ATTR_DATOS datos of Inl e \<Rightarrow> Inl e
     | Inr a \<Rightarrow> map_sum id nodo_encode (con (nodo_nuevo Archivo) a))"

definition nodo_de_fichero_grande :: "u64 \<Rightarrow> u8 \<Rightarrow> block_ptr \<Rightarrow> format_error + u8 list" where
  "nodo_de_fichero_grande tam niveles raiz =
    (case en_bloques ATTR_DATOS tam niveles raiz of Inl e \<Rightarrow> Inl e
     | Inr a \<Rightarrow> map_sum id nodo_encode (con (nodo_nuevo Archivo) a))"

definition nodo_de_directorio_vacio :: "u8 list" where
  "nodo_de_directorio_vacio = nodo_encode (nodo_nuevo Directorio)"

definition nodo_de_directorio :: "block_ptr \<Rightarrow> u64 \<Rightarrow> format_error + u8 list" where
  "nodo_de_directorio entradas bytes =
    (case en_bloques ATTR_ENTRADAS bytes 0 entradas of Inl e \<Rightarrow> Inl e
     | Inr a \<Rightarrow> map_sum id nodo_encode (con (nodo_nuevo Directorio) a))"

section \<open>The four gestures on the bytes\<close>

definition entrada_en :: "u8 list \<Rightarrow> nat \<Rightarrow> format_error + entrada" where
  "entrada_en previas i = entrada_decode (rodaja (i * ENTRADA_LEN) ENTRADA_LEN previas)"

text \<open>The loop that stops at the first entry with a property; an entry that does not decode ends it.\<close>

fun busca_entrada :: "(entrada \<Rightarrow> bool) \<Rightarrow> u8 list \<Rightarrow> nat \<Rightarrow> nat \<Rightarrow> format_error + nat option" where
  "busca_entrada es previas i 0 = Inr None"
| "busca_entrada es previas i (Suc k) =
    (case entrada_en previas i of Inl e \<Rightarrow> Inl e
     | Inr e \<Rightarrow> if es e then Inr (Some i) else busca_entrada es previas (i + 1) k)"

definition cuantas_de :: "u8 list \<Rightarrow> nat" where
  "cuantas_de previas = length previas div ENTRADA_LEN"

definition entradas_con :: "u8 list \<Rightarrow> u8 list \<Rightarrow> block_ptr \<Rightarrow> format_error + (nat \<times> u8 list)" where
  "entradas_con previas nombre nodo =
    (let cuantas = cuantas_de previas in
     if length previas mod ENTRADA_LEN \<noteq> 0 then Inl BadField
     else if cuantas + 1 > ENTRADAS_POR_BLOQUE then Inl BadField
     else case entrada_nueva nombre nodo of Inl e \<Rightarrow> Inl e
     | Inr nueva \<Rightarrow> (case busca_entrada (\<lambda>e. entrada_nombre e = nombre) previas 0 cuantas of
         Inl e \<Rightarrow> Inl e
       | Inr (Some _) \<Rightarrow> Inl BadField
       | Inr None \<Rightarrow>
           let dst = parche 0 previas (replicate BLOQUE 0); fin = cuantas * ENTRADA_LEN
           in Inr (fin + ENTRADA_LEN, parche fin (entrada_encode nueva) dst)))"

definition entradas_repuntando ::
    "u8 list \<Rightarrow> u8 list \<Rightarrow> block_ptr \<Rightarrow> (format_error + (nat \<times> u8 list)) option" where
  "entradas_repuntando previas nombre nodo =
    (let cuantas = cuantas_de previas in
     if length previas mod ENTRADA_LEN \<noteq> 0 then Some (Inl BadField)
     else case busca_entrada (\<lambda>e. se_llama e nombre) previas 0 cuantas of
       Inl e \<Rightarrow> Some (Inl e)
     | Inr None \<Rightarrow> Some (Inl BadField)
     | Inr (Some cual) \<Rightarrow> (case entrada_nueva nombre nodo of Inl e \<Rightarrow> Some (Inl e)
       | Inr nueva \<Rightarrow>
           if length previas > BLOQUE then None
           else
             let dst = parche 0 previas (replicate BLOQUE 0); ini = cual * ENTRADA_LEN
             in Some (Inr (cuantas * ENTRADA_LEN, parche ini (entrada_encode nueva) dst))))"

text \<open>The copy of every entry but one, one after another.\<close>

fun copia_sin :: "u8 list \<Rightarrow> nat \<Rightarrow> nat \<Rightarrow> nat \<Rightarrow> nat \<Rightarrow> u8 list \<Rightarrow> (nat \<times> u8 list) option" where
  "copia_sin previas quitar i 0 fin dst = Some (fin, dst)"
| "copia_sin previas quitar i (Suc k) fin dst =
    (if i = quitar then copia_sin previas quitar (i + 1) k fin dst
     else if fin + ENTRADA_LEN > BLOQUE then None
     else copia_sin previas quitar (i + 1) k (fin + ENTRADA_LEN)
            (parche fin (rodaja (i * ENTRADA_LEN) ENTRADA_LEN previas) dst))"

definition entradas_sin :: "u8 list \<Rightarrow> u8 list \<Rightarrow> (format_error + (nat \<times> u8 list)) option" where
  "entradas_sin previas nombre =
    (let cuantas = cuantas_de previas in
     if length previas mod ENTRADA_LEN \<noteq> 0 then Some (Inl BadField)
     else case busca_entrada (\<lambda>e. se_llama e nombre) previas 0 cuantas of
       Inl e \<Rightarrow> Some (Inl e)
     | Inr None \<Rightarrow> Some (Inl BadField)
     | Inr (Some quitar) \<Rightarrow>
         map_option Inr (copia_sin previas quitar 0 cuantas 0 (replicate BLOQUE 0)))"

fun busca_renombrada ::
    "u8 list \<Rightarrow> u8 list \<Rightarrow> u8 list \<Rightarrow> nat \<Rightarrow> nat \<Rightarrow> (nat \<times> block_ptr) option \<Rightarrow>
     format_error + (nat \<times> block_ptr) option" where
  "busca_renombrada viejo nuevo previas i 0 cual = Inr cual"
| "busca_renombrada viejo nuevo previas i (Suc k) cual =
    (case entrada_en previas i of Inl e \<Rightarrow> Inl e
     | Inr e \<Rightarrow>
         if se_llama e nuevo \<and> \<not> se_llama e viejo then Inl BadField
         else busca_renombrada viejo nuevo previas (i + 1) k
                (if se_llama e viejo then Some (i, en_nodo e) else cual))"

definition entradas_renombrando ::
    "u8 list \<Rightarrow> u8 list \<Rightarrow> u8 list \<Rightarrow> (format_error + (nat \<times> u8 list)) option" where
  "entradas_renombrando previas viejo nuevo =
    (let cuantas = cuantas_de previas in
     if length previas mod ENTRADA_LEN \<noteq> 0 then Some (Inl BadField)
     else case busca_renombrada viejo nuevo previas 0 cuantas None of
       Inl e \<Rightarrow> Some (Inl e)
     | Inr None \<Rightarrow> Some (Inl BadField)
     | Inr (Some (cual, nodo)) \<Rightarrow> (case entrada_nueva nuevo nodo of Inl e \<Rightarrow> Some (Inl e)
       | Inr renombrada \<Rightarrow>
           if length previas > BLOQUE then None
           else
             let dst = parche 0 previas (replicate BLOQUE 0); ini = cual * ENTRADA_LEN
             in Some (Inr (cuantas * ENTRADA_LEN, parche ini (entrada_encode renombrada) dst))))"

section \<open>A directory as a list of entries\<close>

type_synonym carpeta = "entrada list"

definition bytes_de :: "carpeta \<Rightarrow> u8 list" where
  "bytes_de es = concat (map entrada_encode es)"

text \<open>The block an operation leaves, and how many of its bytes count.\<close>

definition bloque_de :: "carpeta \<Rightarrow> nat \<times> u8 list" where
  "bloque_de es = (112 * length es, bytes_de es @ replicate (4096 - 112 * length es) 0)"

fun primero :: "('a \<Rightarrow> bool) \<Rightarrow> 'a list \<Rightarrow> nat option" where
  "primero P [] = None"
| "primero P (x # xs) = (if P x then Some 0 else map_option Suc (primero P xs))"

definition lista_con :: "u8 list \<Rightarrow> block_ptr \<Rightarrow> carpeta \<Rightarrow> format_error + carpeta" where
  "lista_con nombre p es =
    (if 36 \<le> length es then Inl BadField
     else case entrada_nueva nombre p of Inl e \<Rightarrow> Inl e
     | Inr n \<Rightarrow> if list_ex (\<lambda>e. entrada_nombre e = nombre) es then Inl BadField else Inr (es @ [n]))"

definition lista_repuntando :: "u8 list \<Rightarrow> block_ptr \<Rightarrow> carpeta \<Rightarrow> format_error + carpeta" where
  "lista_repuntando nombre p es =
    (case primero (\<lambda>e. se_llama e nombre) es of None \<Rightarrow> Inl BadField
     | Some i \<Rightarrow> map_sum id (\<lambda>n. es[i := n]) (entrada_nueva nombre p))"

definition lista_sin :: "u8 list \<Rightarrow> carpeta \<Rightarrow> format_error + carpeta" where
  "lista_sin nombre es =
    (case primero (\<lambda>e. se_llama e nombre) es of None \<Rightarrow> Inl BadField
     | Some i \<Rightarrow> Inr (take i es @ drop (i + 1) es))"

text \<open>Renaming takes the last entry with the old name.\<close>

definition ultimo :: "('a \<Rightarrow> bool) \<Rightarrow> 'a list \<Rightarrow> nat option" where
  "ultimo P xs = map_option (\<lambda>i. length xs - 1 - i) (primero P (rev xs))"

definition lista_renombrando :: "u8 list \<Rightarrow> u8 list \<Rightarrow> carpeta \<Rightarrow> format_error + carpeta" where
  "lista_renombrando viejo nuevo es =
    (if list_ex (\<lambda>e. se_llama e nuevo \<and> \<not> se_llama e viejo) es then Inl BadField
     else case ultimo (\<lambda>e. se_llama e viejo) es of None \<Rightarrow> Inl BadField
     | Some i \<Rightarrow> map_sum id (\<lambda>n. es[i := n]) (entrada_nueva nuevo (en_nodo (es ! i))))"

definition carpeta_ok :: "carpeta \<Rightarrow> bool" where
  "carpeta_ok es \<longleftrightarrow> list_all entrada_ok es \<and> length es \<le> 36"

subsection \<open>The bytes of a list\<close>

lemma length_bytes_de: "list_all entrada_ok es \<Longrightarrow> length (bytes_de es) = 112 * length es"
  by (induction es) (simp_all add: bytes_de_def)

lemma rodaja_append1: "i + n \<le> length xs \<Longrightarrow> rodaja i n (xs @ ys) = rodaja i n xs"
  by (simp add: rodaja_def)

lemma rodaja_append2: "length xs \<le> i \<Longrightarrow> rodaja i n (xs @ ys) = rodaja (i - length xs) n ys"
  by (simp add: rodaja_def)

lemma rodaja_bytes_de:
  "list_all entrada_ok es \<Longrightarrow> i < length es \<Longrightarrow> rodaja (i * 112) 112 (bytes_de es) = entrada_encode (es ! i)"
proof (induction es arbitrary: i)
  case (Cons e es)
  then have e: "length (entrada_encode e) = 112" "bytes_de (e # es) = entrada_encode e @ bytes_de es"
    by (simp_all add: bytes_de_def)
  show ?case
  proof (cases i)
    case 0
    then show ?thesis
      using e by (simp add: rodaja_append1) (simp add: rodaja_todo)
  next
    case (Suc j)
    then show ?thesis
      using Cons e by (simp add: rodaja_append2)
  qed
qed simp

lemma entrada_en_bytes:
  "list_all entrada_ok es \<Longrightarrow> i < length es \<Longrightarrow> entrada_en (bytes_de es) i = Inr (es ! i)"
  by (simp add: entrada_en_def medidas rodaja_bytes_de entrada_decode_encode list_all_length)

lemma busca_entrada_bytes:
  assumes "list_all entrada_ok es" "i + k = length es"
  shows "busca_entrada P (bytes_de es) i k = Inr (map_option (\<lambda>j. i + j) (primero P (drop i es)))"
  using assms(2)
proof (induction k arbitrary: i)
  case (Suc k)
  then have d: "i < length es" "drop i es = es ! i # drop (i + 1) es"
    by (simp_all add: Cons_nth_drop_Suc)
  show ?case
    using Suc.IH [of "i + 1"] Suc.prems entrada_en_bytes [OF assms(1) d(1)]
    by (simp add: d(2) option.map_comp comp_def)
qed simp

lemma primero_Some: "primero P xs = Some i \<Longrightarrow> i < length xs \<and> P (xs ! i) \<and> (\<forall>j<i. \<not> P (xs ! j))"
proof (induction xs arbitrary: i)
  case (Cons x xs)
  show ?case
  proof (cases "P x")
    case False
    then obtain j where "primero P xs = Some j" "i = Suc j"
      using Cons.prems by auto
    then show ?thesis
      using Cons.IH [of j] False by (auto simp: less_Suc_eq_0_disj)
  qed (use Cons.prems in auto)
qed simp

lemma primero_None: "primero P xs = None \<longleftrightarrow> list_all (\<lambda>x. \<not> P x) xs"
  by (induction xs) auto

lemma cuantas_bytes: "list_all entrada_ok es \<Longrightarrow> cuantas_de (bytes_de es) = length es"
  by (simp add: cuantas_de_def medidas length_bytes_de)

lemma bytes_de_snoc: "bytes_de (es @ [e]) = bytes_de es @ entrada_encode e"
  by (simp add: bytes_de_def)

lemma parche_al_final:
  "length xs + length ys \<le> n \<Longrightarrow>
   parche (length xs) ys (xs @ replicate (n - length xs) x) = xs @ ys @ replicate (n - length xs - length ys) x"
  by (simp add: parche_def)

lemma parche_al_principio: "length xs \<le> n \<Longrightarrow> parche 0 xs (replicate n x) = xs @ replicate (n - length xs) x"
  by (simp add: parche_def)

text \<open>Writing one entry over another.\<close>

lemma parche_bytes_de:
  assumes "list_all entrada_ok es" "i < length es" "entrada_ok n"
  shows "parche (i * 112) (entrada_encode n) (bytes_de es @ zs) = bytes_de (es[i := n]) @ zs"
proof -
  have t: "list_all entrada_ok (take i es)"
    using assms(1) by (auto simp: list_all_iff dest: in_set_takeD)
  have es: "es = take i es @ es ! i # drop (Suc i) es"
    using assms(2) by (rule id_take_nth_drop)
  have b: "bytes_de es = bytes_de (take i es) @ entrada_encode (es ! i) @ bytes_de (drop (Suc i) es)"
    by (subst es) (simp add: bytes_de_def)
  have l: "length (bytes_de (take i es)) = i * 112" "length (entrada_encode (es ! i)) = 112"
    using length_bytes_de [OF t] assms by (simp_all add: list_all_length)
  have "bytes_de (es[i := n]) = bytes_de (take i es) @ entrada_encode n @ bytes_de (drop (Suc i) es)"
    using assms(2) by (simp add: upd_conv_take_nth_drop bytes_de_def)
  then show ?thesis
    unfolding b parche_def using l assms(3) by simp
qed

subsection \<open>Each operation refines the one on lists\<close>

lemma bloque_de_inicio:
  assumes "carpeta_ok es"
  shows "parche 0 (bytes_de es) (replicate 4096 0) = bytes_de es @ replicate (4096 - 112 * length es) 0"
    "length (bytes_de es) = 112 * length es" "112 * length es \<le> 4096" "cuantas_de (bytes_de es) = length es"
    "length (bytes_de es) mod 112 = 0"
  using assms length_bytes_de [of es] cuantas_bytes [of es]
  by (auto simp: carpeta_ok_def parche_al_principio)

lemma con_refina:
  assumes "carpeta_ok es" "ptr_ok p"
  shows "entradas_con (bytes_de es) nombre p = map_sum id bloque_de (lista_con nombre p es)"
proof (cases "36 \<le> length es")
  case True
  then show ?thesis
    using bloque_de_inicio [OF assms(1)]
    by (simp add: entradas_con_def lista_con_def ENTRADAS_POR_BLOQUE_def medidas Let_def)
next
  case False
  note b = bloque_de_inicio [OF assms(1)]
  have es: "list_all entrada_ok es"
    using assms(1) by (simp add: carpeta_ok_def)
  have s: "busca_entrada P (bytes_de es) 0 (length es) = Inr (primero P es)" for P
    using busca_entrada_bytes [OF es, of 0 "length es" P] by (simp add: option.map_ident)
  show ?thesis
  proof (cases "entrada_nueva nombre p")
    case (Inl e)
    then show ?thesis
      using b False by (simp add: entradas_con_def lista_con_def ENTRADAS_POR_BLOQUE_def medidas Let_def)
  next
    case (Inr n)
    note n = entrada_nueva_ok [OF Inr assms(2)]
    show ?thesis
    proof (cases "primero (\<lambda>e. entrada_nombre e = nombre) es")
      case None
      then have "\<not> list_ex (\<lambda>e. entrada_nombre e = nombre) es"
        by (simp add: primero_None list_all_iff list_ex_iff)
      moreover have "parche (112 * length es) (entrada_encode n) (bytes_de es @ replicate (4096 - 112 * length es) 0) =
          bytes_de (es @ [n]) @ replicate (4096 - 112 * length (es @ [n])) 0"
        using parche_al_final [of "bytes_de es" "entrada_encode n" 4096 0] b(2) n(1) False
        by (simp add: bytes_de_snoc)
      ultimately show ?thesis
        using b False None Inr s
        by (simp add: entradas_con_def lista_con_def ENTRADAS_POR_BLOQUE_def medidas Let_def bloque_de_def mult.commute)
    next
      case (Some i)
      then have "list_ex (\<lambda>e. entrada_nombre e = nombre) es"
        using primero_Some [OF Some] by (auto simp: list_ex_iff)
      then show ?thesis
        using b False Some Inr s
        by (simp add: entradas_con_def lista_con_def ENTRADAS_POR_BLOQUE_def medidas Let_def)
    qed
  qed
qed

text \<open>What both rewriting operations do once they know the place.\<close>

lemma reescribe_refina:
  assumes "carpeta_ok es" "i < length es" "entrada_ok n"
  shows "parche (i * 112) (entrada_encode n) (parche 0 (bytes_de es) (replicate 4096 0)) = snd (bloque_de (es[i := n]))"
  using assms parche_bytes_de [of es i n] bloque_de_inicio [OF assms(1)]
  by (simp add: bloque_de_def carpeta_ok_def)

lemma repuntando_refina:
  assumes "carpeta_ok es" "ptr_ok p"
  shows "entradas_repuntando (bytes_de es) nombre p = Some (map_sum id bloque_de (lista_repuntando nombre p es))"
proof -
  note b = bloque_de_inicio [OF assms(1)]
  have s: "busca_entrada P (bytes_de es) 0 (length es) = Inr (primero P es)" for P
    using busca_entrada_bytes [of es 0 "length es" P] assms(1) by (simp add: option.map_ident carpeta_ok_def)
  show ?thesis
  proof (cases "primero (\<lambda>e. se_llama e nombre) es")
    case None
    then show ?thesis
      using b s by (simp add: entradas_repuntando_def lista_repuntando_def medidas Let_def)
  next
    case (Some i)
    note i = primero_Some [OF Some]
    show ?thesis
    proof (cases "entrada_nueva nombre p")
      case (Inr n)
      then show ?thesis
        using b s Some reescribe_refina [OF assms(1) _ entrada_nueva_ok(1) [OF Inr assms(2)]] i
        by (simp add: entradas_repuntando_def lista_repuntando_def medidas Let_def bloque_de_def mult.commute)
    qed (use b s Some in \<open>simp add: entradas_repuntando_def lista_repuntando_def medidas Let_def\<close>)
  qed
qed

lemma copia_sin_resto:
  assumes "list_all entrada_ok es" "q < i" "i + k = length es"
    "dst = bytes_de hechas @ replicate (4096 - 112 * length hechas) 0" "list_all entrada_ok hechas"
    "112 * (length hechas + k) \<le> 4096"
  shows "copia_sin (bytes_de es) q i k (112 * length hechas) dst = Some (bloque_de (hechas @ drop i es))"
  using assms(2-)
proof (induction k arbitrary: i hechas dst)
  case 0
  then show ?case
    by (simp add: bloque_de_def)
next
  case (Suc k)
  have e: "entrada_ok (es ! i)" "drop i es = es ! i # drop (i + 1) es"
    using assms(1) Suc.prems(2) by (simp_all add: list_all_length Cons_nth_drop_Suc)
  have "parche (112 * length hechas) (entrada_encode (es ! i)) dst =
      bytes_de (hechas @ [es ! i]) @ replicate (4096 - 112 * length (hechas @ [es ! i])) 0"
    using parche_al_final [of "bytes_de hechas" "entrada_encode (es ! i)" 4096 0] Suc.prems(3,4,5) e(1)
      length_bytes_de [OF Suc.prems(4)] by (simp add: bytes_de_snoc)
  moreover have "rodaja (i * 112) 112 (bytes_de es) = entrada_encode (es ! i)"
    using assms(1) Suc.prems(2) by (intro rodaja_bytes_de) simp_all
  ultimately show ?case
    using Suc.IH [of "i + 1" _ "hechas @ [es ! i]"] Suc.prems e by (simp add: medidas add.commute)
qed

lemma copia_sin_hasta:
  assumes "list_all entrada_ok es" "i \<le> q" "q < length es" "i + k = length es" "length es \<le> 36"
    "dst = bytes_de (take i es) @ replicate (4096 - 112 * i) 0"
  shows "copia_sin (bytes_de es) q i k (112 * i) dst = Some (bloque_de (take q es @ drop (q + 1) es))"
  using assms(2-)
proof (induction k arbitrary: i dst)
  case (Suc k)
  have t: "list_all entrada_ok (take j es)" for j
    using assms(1) by (auto simp: list_all_iff dest: in_set_takeD)
  show ?case
  proof (cases "i = q")
    case True
    then show ?thesis
      using copia_sin_resto [OF assms(1), of q "i + 1" k dst "take i es"] Suc.prems t [of i]
      by (simp add: min_def)
  next
    case False
    have e: "entrada_ok (es ! i)" "take (i + 1) es = take i es @ [es ! i]"
      using assms(1) Suc.prems by (simp_all add: list_all_length take_Suc_conv_app_nth)
    have l: "length (bytes_de (take i es)) = 112 * i"
      using length_bytes_de [OF t, of i] Suc.prems by (simp add: min_def)
    have "parche (112 * i) (entrada_encode (es ! i)) dst =
        bytes_de (take (i + 1) es) @ replicate (4096 - 112 * (i + 1)) 0"
      using parche_al_final [of "bytes_de (take i es)" "entrada_encode (es ! i)" 4096 0] l Suc.prems e
      by (simp add: bytes_de_snoc)
    moreover have "rodaja (i * 112) 112 (bytes_de es) = entrada_encode (es ! i)"
      using assms(1) Suc.prems by (intro rodaja_bytes_de) simp_all
    ultimately show ?thesis
      using Suc.IH [of "i + 1"] Suc.prems False by (simp add: medidas add.commute)
  qed
qed simp

lemma sin_refina:
  assumes "carpeta_ok es"
  shows "entradas_sin (bytes_de es) nombre = Some (map_sum id bloque_de (lista_sin nombre es))"
proof -
  note b = bloque_de_inicio [OF assms(1)]
  have es: "list_all entrada_ok es" "length es \<le> 36"
    using assms(1) by (simp_all add: carpeta_ok_def)
  have s: "busca_entrada P (bytes_de es) 0 (length es) = Inr (primero P es)" for P
    using busca_entrada_bytes [OF es(1), of 0 "length es" P] by (simp add: option.map_ident)
  show ?thesis
  proof (cases "primero (\<lambda>e. se_llama e nombre) es")
    case (Some q)
    then show ?thesis
      using b s primero_Some [OF Some] copia_sin_hasta [OF es(1), of 0 q "length es" "replicate 4096 0"] es(2)
      by (simp add: entradas_sin_def lista_sin_def medidas Let_def bytes_de_def)
  qed (use b s in \<open>simp add: entradas_sin_def lista_sin_def medidas Let_def\<close>)
qed

lemma ultimo_append: "ultimo P (xs @ [x]) = (if P x then Some (length xs) else ultimo P xs)"
  by (auto simp: ultimo_def option.map_comp comp_def intro!: option.map_cong)

lemma ultimo_Some: "ultimo P xs = Some i \<Longrightarrow> i < length xs \<and> P (xs ! i)"
  by (induction xs arbitrary: i rule: rev_induct) (auto simp: ultimo_append nth_append ultimo_def split: if_splits)

lemma busca_renombrada_bytes:
  assumes "list_all entrada_ok es" "i + k = length es"
    "\<not> list_ex (\<lambda>e. se_llama e nuevo \<and> \<not> se_llama e viejo) (take i es)"
    "cual = map_option (\<lambda>j. (j, en_nodo (es ! j))) (ultimo (\<lambda>e. se_llama e viejo) (take i es))"
  shows "busca_renombrada viejo nuevo (bytes_de es) i k cual =
    (if list_ex (\<lambda>e. se_llama e nuevo \<and> \<not> se_llama e viejo) es then Inl BadField
     else Inr (map_option (\<lambda>j. (j, en_nodo (es ! j))) (ultimo (\<lambda>e. se_llama e viejo) es)))"
  using assms(2-)
proof (induction k arbitrary: i cual)
  case (Suc k)
  have i: "i < length es" "take (i + 1) es = take i es @ [es ! i]"
    using Suc.prems by (simp_all add: take_Suc_conv_app_nth)
  note e = entrada_en_bytes [OF assms(1) i(1)]
  show ?case
  proof (cases "se_llama (es ! i) nuevo \<and> \<not> se_llama (es ! i) viejo")
    case True
    then have "list_ex (\<lambda>e. se_llama e nuevo \<and> \<not> se_llama e viejo) es"
      using i(1) by (auto simp: list_ex_length)
    then show ?thesis
      using True e by simp
  next
    case False
    then show ?thesis
      using e Suc.IH [of "i + 1"] Suc.prems i by (auto simp: ultimo_append)
  qed
qed simp

lemma renombrando_refina:
  assumes "carpeta_ok es"
  shows "entradas_renombrando (bytes_de es) viejo nuevo = Some (map_sum id bloque_de (lista_renombrando viejo nuevo es))"
proof -
  note b = bloque_de_inicio [OF assms(1)]
  have es: "list_all entrada_ok es"
    using assms(1) by (simp add: carpeta_ok_def)
  note s = busca_renombrada_bytes [OF es, of 0 "length es" nuevo viejo None]
  have u: "ultimo P [] = None" for P :: "entrada \<Rightarrow> bool"
    by (simp add: ultimo_def)
  show ?thesis
  proof (cases "list_ex (\<lambda>e. se_llama e nuevo \<and> \<not> se_llama e viejo) es")
    case True
    then show ?thesis
      using b s u by (simp add: entradas_renombrando_def lista_renombrando_def medidas Let_def)
  next
    case no: False
    show ?thesis
    proof (cases "ultimo (\<lambda>e. se_llama e viejo) es")
      case None
      then show ?thesis
        using b s u no by (simp add: entradas_renombrando_def lista_renombrando_def medidas Let_def)
    next
      case (Some i)
      note i = ultimo_Some [OF Some]
      have p: "ptr_ok (en_nodo (es ! i))"
        using es i by (simp add: list_all_length entrada_ok_def)
      show ?thesis
      proof (cases "entrada_nueva nuevo (en_nodo (es ! i))")
        case (Inr n)
        then show ?thesis
          using b s u no Some reescribe_refina [OF assms _ entrada_nueva_ok(1) [OF Inr p]] i
          by (simp add: entradas_renombrando_def lista_renombrando_def medidas Let_def bloque_de_def mult.commute)
      qed (use b s u no Some in \<open>simp add: entradas_renombrando_def lista_renombrando_def medidas Let_def\<close>)
    qed
  qed
qed

lemma carpeta_ok_update: "carpeta_ok es \<Longrightarrow> entrada_ok n \<Longrightarrow> carpeta_ok (es[i := n])"
  by (auto simp: carpeta_ok_def list_all_iff dest!: set_update_subset_insert [THEN subsetD])

lemma map_sum_id_Inr: "map_sum id f x = Inr y \<longleftrightarrow> (\<exists>z. x = Inr z \<and> y = f z)"
  by (cases x) auto

lemma lista_con_ok: "lista_con nombre p es = Inr es' \<Longrightarrow> carpeta_ok es \<Longrightarrow> ptr_ok p \<Longrightarrow> carpeta_ok es'"
  using entrada_nueva_ok(1) by (auto simp: lista_con_def carpeta_ok_def split: if_splits sum.splits)

lemma lista_repuntando_ok:
  "lista_repuntando nombre p es = Inr es' \<Longrightarrow> carpeta_ok es \<Longrightarrow> ptr_ok p \<Longrightarrow> carpeta_ok es'"
  using entrada_nueva_ok(1) carpeta_ok_update
  by (fastforce simp: lista_repuntando_def map_sum_id_Inr split: option.splits)

lemma lista_sin_ok: "lista_sin nombre es = Inr es' \<Longrightarrow> carpeta_ok es \<Longrightarrow> carpeta_ok es'"
  using set_take_subset set_drop_subset by (fastforce simp: lista_sin_def carpeta_ok_def list_all_iff split: option.splits)

lemma lista_renombrando_ok:
  assumes "lista_renombrando viejo nuevo es = Inr es'" "carpeta_ok es"
  shows "carpeta_ok es'"
proof -
  obtain i n where i: "ultimo (\<lambda>e. se_llama e viejo) es = Some i" "entrada_nueva nuevo (en_nodo (es ! i)) = Inr n"
      "es' = es[i := n]"
    using assms(1) by (auto simp: lista_renombrando_def map_sum_id_Inr split: if_splits option.splits)
  have "ptr_ok (en_nodo (es ! i))"
    using ultimo_Some [OF i(1)] assms(2) by (simp add: carpeta_ok_def list_all_length entrada_ok_def)
  then show ?thesis
    using entrada_nueva_ok(1) [OF i(2)] i(3) assms(2) by (simp add: carpeta_ok_update)
qed

text \<open>
  C34: a directory is a list of entries. On the bytes of a list of at most 36 well-formed entries, each
  of the four gestures answers what its counterpart on lists answers (append under a new name, put
  another node under the first entry of that name whatever its case, delete that entry and keep the
  order of the rest, rename the last one), the bytes of the new list padded with zeros to a block; no
  copy leaves the block, and the list is well formed again, so gestures can follow one another.
\<close>

theorem carpeta_refina:
  assumes "carpeta_ok es" "ptr_ok p"
  shows "entradas_con (bytes_de es) nombre p = map_sum id bloque_de (lista_con nombre p es) \<and>
    entradas_repuntando (bytes_de es) nombre p = Some (map_sum id bloque_de (lista_repuntando nombre p es)) \<and>
    entradas_sin (bytes_de es) nombre = Some (map_sum id bloque_de (lista_sin nombre es)) \<and>
    entradas_renombrando (bytes_de es) nombre nuevo = Some (map_sum id bloque_de (lista_renombrando nombre nuevo es)) \<and>
    (\<forall>es'. lista_con nombre p es = Inr es' \<or> lista_repuntando nombre p es = Inr es' \<or> lista_sin nombre es = Inr es' \<or>
       lista_renombrando nombre nuevo es = Inr es' \<longrightarrow> carpeta_ok es')"
  using con_refina [OF assms] repuntando_refina [OF assms] sin_refina [OF assms(1)] renombrando_refina [OF assms(1)]
    lista_con_ok lista_repuntando_ok lista_sin_ok lista_renombrando_ok assms
  by blast

lemma carpeta_refina_witness:
  "\<exists>e. entrada_nueva (ascii ''notas'') NULO = Inr e \<and>
     entradas_con (bytes_de []) (ascii ''notas'') NULO = Inr (bloque_de [e]) \<and>
     entradas_sin (bytes_de [e]) (ascii ''NOTAS'') = Some (Inr (bloque_de []))"
proof -
  have "ascii ''notas'' = [0x6E, 0x6F, 0x74, 0x61, 0x73]" "ascii ''NOTAS'' = [0x4E, 0x4F, 0x54, 0x41, 0x53]"
    by (simp_all add: ascii_def of_char_def)
  note a = this
  obtain e where e: "entrada_nueva (ascii ''notas'') NULO = Inr e"
    by (simp add: entrada_nueva_def medidas a)
  note e_ok = entrada_nueva_ok [OF e ptr_ok_NULO]
  have "se_llama e (ascii ''NOTAS'')"
    by (simp add: se_llama_iff e_ok(2) a baja_def)
  then have "lista_sin (ascii ''NOTAS'') [e] = Inr []" "lista_con (ascii ''notas'') NULO [] = Inr [e]"
    by (simp_all add: lista_sin_def lista_con_def e)
  note l = this
  have c: "carpeta_ok []" "carpeta_ok [e]"
    using e_ok(1) by (simp_all add: carpeta_ok_def)
  have "entradas_con (bytes_de []) (ascii ''notas'') NULO = Inr (bloque_de [e])"
    using carpeta_refina [OF c(1) ptr_ok_NULO, of "ascii ''notas''" "[]"] unfolding l map_sum.simps by blast
  moreover have "entradas_sin (bytes_de [e]) (ascii ''NOTAS'') = Some (Inr (bloque_de []))"
    using carpeta_refina [OF c(2) ptr_ok_NULO, of "ascii ''NOTAS''" "[]"] unfolding l map_sum.simps by blast
  ultimately show ?thesis
    using e by blast
qed

end
