(* ===== verification/Estratos_Volumen.thy ===== *)
theory Estratos_Volumen
  imports Estratos_Disco Estratos_Carpeta
begin

text \<open>
  The mounted volume, \<open>ring0/fsys/estratos/\<close>: reading (\<open>walk.rs\<close>, \<open>dir.rs\<close>, \<open>cursor.rs\<close>), mounting
  and sealing (\<open>mod.rs\<close>), copying a stream in (\<open>copiar.rs\<close>) and publishing (\<open>escribir.rs\<close>).

  The time, the process that asks, the FAT32 volume and the memory of a process a file comes from
  are arguments (\<open>externo\<close>). A \<open>None\<close> around the result of a gesture is a panic of the kernel.
\<close>

section \<open>Reading\<close>

definition NIVELES :: nat where "NIVELES = 5"

definition seguir :: "kernel \<Rightarrow> disco \<Rightarrow> block_ptr \<Rightarrow> nat \<Rightarrow> u8 list option" where
  "seguir k d p nivel =
    (if nivel \<ge> NIVELES then None
     else case read_block k d (bp_lba p) of None \<Rightarrow> None
     | Some buf \<Rightarrow>
         let ini = unat (bp_off p); fin = ini + unat (bp_len p) in
         if fin > BLOQUE then None
         else let datos = rodaja ini (fin - ini) buf in
           if \<not> verifica p datos then None else Some datos)"

definition nodo_en :: "kernel \<Rightarrow> disco \<Rightarrow> block_ptr \<Rightarrow> nodo option" where
  "nodo_en k d p =
    (case seguir k d p 0 of None \<Rightarrow> None
     | Some b \<Rightarrow> (case nodo_decode b of Inr n \<Rightarrow> Some n | Inl _ \<Rightarrow> None))"

text \<open>The closure of \<open>flujo\<close>: it copies what fits and asks for more while there is room.\<close>

definition copia_lo_que_cabe :: "nat \<Rightarrow> u8 list salida" where
  "copia_lo_que_cabe largo cacho hecho =
    (let n = min (length cacho) (largo - length hecho); hecho = hecho @ take n cacho
     in (length hecho < largo, hecho))"

text \<open>The bytes that \<open>flujo\<close> says it left in a buffer of \<open>largo\<close>.\<close>

definition flujo :: "kernel \<Rightarrow> disco \<Rightarrow> attr \<Rightarrow> nat \<Rightarrow> u8 list option" where
  "flujo k d a largo =
    (case datos_residentes a of
       Some b \<Rightarrow> if largo < length b then None else Some b
     | None \<Rightarrow> (case attr_raiz a of None \<Rightarrow> None
       | Some raiz \<Rightarrow>
           (case descender (read_block k d) raiz (at_levels a) (NIVELES - 1) (copia_lo_que_cabe largo) [] of
              (Inl _, _) \<Rightarrow> None
            | (Inr _, hecho) \<Rightarrow> Some (take (min (unat (at_size a)) (length hecho)) hecho))))"

definition estrato_en :: "kernel \<Rightarrow> disco \<Rightarrow> block_ptr \<Rightarrow> estrato option" where
  "estrato_en k d p =
    (case seguir k d p 0 of None \<Rightarrow> None
     | Some b \<Rightarrow> (case estrato_decode b of Inr e \<Rightarrow> Some e | Inl _ \<Rightarrow> None))"

definition estrato_actual :: "kernel \<Rightarrow> disco \<Rightarrow> estrato option" where
  "estrato_actual k d =
    (case k_super k of None \<Rightarrow> None
     | Some sb \<Rightarrow> if es_nulo (sb_estrato sb) then None else estrato_en k d (sb_estrato sb))"

definition raiz :: "kernel \<Rightarrow> disco \<Rightarrow> (block_ptr \<times> nodo) option" where
  "raiz k d =
    (case k_super k of None \<Rightarrow> None
     | Some sb \<Rightarrow>
         if es_nulo (sb_estrato sb) then None
         else case estrato_en k d (sb_estrato sb) of None \<Rightarrow> None
         | Some e \<Rightarrow> map_option (\<lambda>n. (es_raiz e, n)) (nodo_en k d (es_raiz e)))"

definition MAX_ENTRIES :: nat where "MAX_ENTRIES = 64"

text \<open>A listing: how many, the bytes, and whether it was cut.\<close>

definition listar_en :: "kernel \<Rightarrow> disco \<Rightarrow> nodo \<Rightarrow> (nat \<times> u8 list \<times> bool) option" where
  "listar_en k d dir =
    (case nodo_attr dir ATTR_ENTRADAS of None \<Rightarrow> None
     | Some a \<Rightarrow>
         let cabe_todo = unat (at_size a) \<le> MAX_ENTRIES * ENTRADA_LEN in
         (case flujo k d a (MAX_ENTRIES * ENTRADA_LEN) of None \<Rightarrow> None
          | Some b \<Rightarrow> Some (length b div ENTRADA_LEN, b, \<not> cabe_todo)))"

definition entrada_i :: "u8 list \<Rightarrow> nat \<Rightarrow> entrada option" where
  "entrada_i buf i =
    (if i \<ge> MAX_ENTRIES then None
     else case entrada_decode (rodaja (i * ENTRADA_LEN) ENTRADA_LEN buf) of Inr e \<Rightarrow> Some e | Inl _ \<Rightarrow> None)"

fun busca_nombre :: "u8 list \<Rightarrow> u8 list \<Rightarrow> nat \<Rightarrow> nat \<Rightarrow> block_ptr option" where
  "busca_nombre buf name i 0 = None"
| "busca_nombre buf name i (Suc n) =
    (case entrada_i buf i of None \<Rightarrow> None
     | Some e \<Rightarrow> if se_llama e name then Some (en_nodo e) else busca_nombre buf name (i + 1) n)"

definition buscar_en :: "kernel \<Rightarrow> disco \<Rightarrow> nodo \<Rightarrow> u8 list \<Rightarrow> block_ptr option" where
  "buscar_en k d dir name =
    (case listar_en k d dir of None \<Rightarrow> None | Some (n, buf, _) \<Rightarrow> busca_nombre buf name 0 n)"

definition es_barra :: "u8 \<Rightarrow> bool" where
  "es_barra c \<longleftrightarrow> c = 0x2F \<or> c = 0x5C"

text \<open>\<open>open\<close> goes down one name per separator.\<close>

function abrir_desde :: "kernel \<Rightarrow> disco \<Rightarrow> nodo \<Rightarrow> u8 list \<Rightarrow> nodo option" where
  "abrir_desde k d actual resto =
    (case dropWhile (\<lambda>c. \<not> es_barra c) resto of
       [] \<Rightarrow> Option.bind (buscar_en k d actual resto) (nodo_en k d)
     | _ # cola \<Rightarrow>
         (case Option.bind (buscar_en k d actual (takeWhile (\<lambda>c. \<not> es_barra c) resto)) (nodo_en k d) of
            None \<Rightarrow> None
          | Some n \<Rightarrow> if nd_tipo n \<noteq> Directorio then None else abrir_desde k d n cola))"
  by pat_completeness auto

termination
proof (relation "measure (\<lambda>(_, _, _, r). length r)")
  fix resto :: "u8 list" and x cola
  assume "dropWhile (\<lambda>c. \<not> es_barra c) resto = x # cola"
  then have "length (x # cola) \<le> length resto"
    by (metis length_dropWhile_le)
  then show "((k, d, n, cola), (k, d, actual, resto)) \<in> measure (\<lambda>(_, _, _, r). length r)" for k d n actual
    by simp
qed simp

declare abrir_desde.simps [simp del]

definition abrir :: "kernel \<Rightarrow> disco \<Rightarrow> u8 list \<Rightarrow> nodo option" where
  "abrir k d ruta =
    (case raiz k d of None \<Rightarrow> None
     | Some (_, n) \<Rightarrow> abrir_desde k d n (dropWhile (\<lambda>c. c = 0x2F) ruta))"

definition leer_fichero :: "kernel \<Rightarrow> disco \<Rightarrow> nodo \<Rightarrow> nat \<Rightarrow> u8 list option" where
  "leer_fichero k d n largo =
    (if nd_tipo n \<noteq> Archivo then None
     else case nodo_attr n ATTR_DATOS of None \<Rightarrow> None | Some a \<Rightarrow> flujo k d a largo)"

datatype firma = Cuadra | NoCuadra | Ausente

definition firma_de :: "nodo \<Rightarrow> u8 list \<Rightarrow> firma" where
  "firma_de n datos =
    (case nodo_attr n ATTR_FIRMA of None \<Rightarrow> Ausente
     | Some a \<Rightarrow> (case datos_residentes a of
         Some g \<Rightarrow> if length g = 32 then (if suma datos = g then Cuadra else NoCuadra) else Ausente
       | None \<Rightarrow> Ausente))"

section \<open>Mounting\<close>

record particion =
  pa_index :: u32
  pa_first_lba :: u64
  pa_last_lba :: u64
  pa_type_lo :: u32

definition is_esp :: "particion \<Rightarrow> bool" where
  "is_esp p \<longleftrightarrow> pa_type_lo p = 0xC12A7328"

definition copia_en_uso :: "kernel \<Rightarrow> disco \<Rightarrow> u64" where
  "copia_en_uso k d =
    (case (read_block_from k (k_base k) SUPER_A_BLOCK d, read_block_from k (k_base k) SUPER_B_BLOCK d) of
       (Some a, Some b) \<Rightarrow>
         (case pick_superblock (take SUPER_LEN a) (take SUPER_LEN b) of
            Inr (_, copia) \<Rightarrow> copia | Inl _ \<Rightarrow> SUPER_A_BLOCK)
     | _ \<Rightarrow> SUPER_A_BLOCK)"

definition refrescar_fecha :: "kernel \<Rightarrow> disco \<Rightarrow> kernel" where
  "refrescar_fecha k d =
    k\<lparr>k_fecha := (case estrato_actual k d of None \<Rightarrow> 0 | Some e \<Rightarrow> es_tiempo e)\<rparr>"

definition id_del_disco :: "kernel \<Rightarrow> u8 list" where
  "id_del_disco k =
    (if k_dispositivo k then
       (case disk_id (k_model k) (k_serial k) (k_total k) of Some h \<Rightarrow> h | None \<Rightarrow> NO_HASH)
     else replicate 32 0)"

definition monta_en :: "kernel \<Rightarrow> disco \<Rightarrow> particion \<Rightarrow> superblock \<Rightarrow> kernel" where
  "monta_en k d p sb =
    (let k = k\<lparr>k_base := pa_first_lba p, k_particion := pa_index p, k_super := Some sb, k_montado := True\<rparr>;
         k = refrescar_fecha k d;
         ok = belongs_to sb (id_del_disco k);
         k = k\<lparr>k_identidad := ok\<rparr>
     in if ok then k\<lparr>k_ventana := Some (pa_first_lba p, pa_last_lba p)\<rparr> else k)"

fun monta_primera :: "kernel \<Rightarrow> disco \<Rightarrow> particion list \<Rightarrow> kernel" where
  "monta_primera k d [] = k"
| "monta_primera k d (p # ps) =
    (if is_esp p then monta_primera k d ps
     else case read_block_from k (pa_first_lba p) SUPER_A_BLOCK d of None \<Rightarrow> monta_primera k d ps
     | Some a \<Rightarrow> (case read_block_from k (pa_first_lba p) SUPER_B_BLOCK d of None \<Rightarrow> monta_primera k d ps
       | Some b \<Rightarrow> (case pick_superblock (take SUPER_LEN a) (take SUPER_LEN b) of
           Inr (sb, _) \<Rightarrow> monta_en k d p sb
         | Inl _ \<Rightarrow> monta_primera k d ps)))"

definition mount :: "particion list \<Rightarrow> kernel \<Rightarrow> disco \<Rightarrow> kernel" where
  "mount ps k d =
    (let k = k\<lparr>k_montado := False, k_identidad := False, k_super := None, k_ventana := None\<rparr>
     in if \<not> k_dispositivo k then k else monta_primera k d ps)"

section \<open>The end of every publication\<close>

definition fijar_superbloque :: "superblock \<Rightarrow> kernel \<Rightarrow> kernel" where
  "fijar_superbloque nuevo k = k\<lparr>k_super := Some nuevo\<rparr>"

text \<open>
  Data closed, barrier, the other copy of the superblock, and only when the last flush has come back
  the new superblock is the one in memory.
\<close>

definition remata ::
    "kernel \<Rightarrow> transaccion \<Rightarrow> block_ptr \<Rightarrow> disco \<Rightarrow> (write_error + u64) \<times> kernel \<times> disco" where
  "remata k t p d =
    (case cerrar_datos t of (Inl e, _) \<Rightarrow> (Inl (Rechazada e), k, d)
     | (Inr _, t) \<Rightarrow> (case disk_flush k d of (False, d) \<Rightarrow> (Inl SinBarrera, k, d)
     | (True, d) \<Rightarrow> (case barrera_hecha t of (Inl e, _) \<Rightarrow> (Inl (Rechazada e), k, d)
     | (Inr _, t) \<Rightarrow> (case tx_commit p t of (Inl e, _) \<Rightarrow> (Inl (Rechazada e), k, d)
     | (Inr (destino, nuevo), _) \<Rightarrow>
         (case write_superblock k destino (super_encode nuevo) d of (False, d) \<Rightarrow> (Inl NoEscribio, k, d)
     | (True, d) \<Rightarrow> (case disk_flush k d of (False, d) \<Rightarrow> (Inl SinBarrera, k, d)
     | (True, d) \<Rightarrow> (Inr (sb_generation nuevo), fijar_superbloque nuevo k, d)))))))"

definition seal :: "kernel \<Rightarrow> disco \<Rightarrow> (write_error + u64) \<times> kernel \<times> disco" where
  "seal k d =
    (case k_super k of None \<Rightarrow> (Inl SinVolumen, k, d)
     | Some sb \<Rightarrow> (case tx_open sb (copia_en_uso k d) (k_identidad k) of
         Inl e \<Rightarrow> (Inl (Rechazada e), k, d)
       | Inr t \<Rightarrow> remata k t (sb_estrato sb) d))"

text \<open>One new stratum over a root that is already there: \<open>marcar\<close> and \<open>volver\<close>.\<close>

definition con_fecha :: "u64 \<Rightarrow> (write_error + u64) \<times> kernel \<times> disco \<Rightarrow> (write_error + u64) \<times> kernel \<times> disco" where
  "con_fecha cuando r =
    (case r of (Inr g, k, d) \<Rightarrow> (Inr g, k\<lparr>k_fecha := cuando\<rparr>, d) | (Inl e, k, d) \<Rightarrow> (Inl e, k, d))"

definition publica_estrato ::
    "u64 \<Rightarrow> u32 \<Rightarrow> kernel \<Rightarrow> superblock \<Rightarrow> block_ptr \<Rightarrow> u8 list \<Rightarrow> disco \<Rightarrow> (write_error + u64) \<times> kernel \<times> disco" where
  "publica_estrato cuando pid k sb rz nombre d =
    (case tx_open sb (copia_en_uso k d) (k_identidad k) of Inl e \<Rightarrow> (Inl (Rechazada e), k, d)
     | Inr t \<Rightarrow> (case reserve 1 t of (Inl e, _) \<Rightarrow> (Inl (Rechazada e), k, d)
       | (Inr base, t) \<Rightarrow>
           let bytes = estrato_encode (estrato_new rz (sb_estrato sb) cuando (Proceso pid) nombre) in
           (case poner k base bytes d of (Inl e, d) \<Rightarrow> (Inl e, k, d)
            | (Inr _, d) \<Rightarrow> con_fecha cuando (remata k t (ptr_nuevo base 0 bytes) d))))"

definition marcar :: "u64 \<Rightarrow> u32 \<Rightarrow> kernel \<Rightarrow> u8 list \<Rightarrow> disco \<Rightarrow> (write_error + u64) \<times> kernel \<times> disco" where
  "marcar cuando pid k nombre d =
    (case k_super k of None \<Rightarrow> (Inl SinVolumen, k, d)
     | Some sb \<Rightarrow>
         if nombre = [] then (Inl NoCabe, k, d)
         else case estrato_actual k d of None \<Rightarrow> (Inl NoSeLeeLaRaiz, k, d)
         | Some actual \<Rightarrow> publica_estrato cuando pid k sb (es_raiz actual) nombre d)"

text \<open>The walk to the stratum \<open>n\<close> behind the current one; \<open>Inr None\<close> when the chain is shorter.\<close>

fun raiz_de_hace :: "kernel \<Rightarrow> disco \<Rightarrow> block_ptr \<Rightarrow> nat \<Rightarrow> write_error + block_ptr option" where
  "raiz_de_hace k d donde n =
    (if es_nulo donde then Inr None
     else case estrato_en k d donde of None \<Rightarrow> Inl NoSeLeeLaRaiz
     | Some e \<Rightarrow> (case n of 0 \<Rightarrow> Inr (Some (es_raiz e)) | Suc n \<Rightarrow> raiz_de_hace k d (es_padre e) n))"

definition volver :: "u64 \<Rightarrow> u32 \<Rightarrow> kernel \<Rightarrow> nat \<Rightarrow> disco \<Rightarrow> (write_error + u64) \<times> kernel \<times> disco" where
  "volver cuando pid k n d =
    (case k_super k of None \<Rightarrow> (Inl SinVolumen, k, d)
     | Some sb \<Rightarrow>
         if n = 0 then (Inl NoCabe, k, d)
         else case raiz_de_hace k d (sb_estrato sb) n of Inl e \<Rightarrow> (Inl e, k, d)
         | Inr None \<Rightarrow> (Inl RutaNoEsta, k, d)
         | Inr (Some rz) \<Rightarrow> publica_estrato cuando pid k sb rz [] d)"

end
