(* ===== verification/Estratos_Publicar.thy ===== *)
theory Estratos_Publicar
  imports Estratos_Volumen
begin

text \<open>
  \<open>ring0/fsys/estratos/copiar.rs\<close> and \<open>escribir.rs\<close>: a gesture on the volume. A file is brought in
  from outside block by block, and the branch from the directory touched up to the root is written
  again, every node over the new one below it; then a stratum, and the commit of \<open>remata\<close>.
\<close>

section \<open>What comes from outside\<close>

text \<open>
  The clock, the current process, the FAT32 volume (length of a file, whether it opens, the bytes of
  a range), the memory of the process, and what the index buffers held before.
\<close>

record externo =
  ex_ahora :: u64
  ex_pid :: u32
  ex_tamano :: "u8 list \<Rightarrow> u32 option"
  ex_abre :: "u8 list \<Rightarrow> bool"
  ex_rango :: "u8 list \<Rightarrow> nat \<Rightarrow> nat \<Rightarrow> u8 list"
  ex_mem :: "u64 \<Rightarrow> u8"
  ex_indice :: "u8 list list"

datatype origen = Fat32 "u8 list" | Ram u64 u32

definition coste :: "externo \<Rightarrow> origen \<Rightarrow> write_error + (u64 \<times> plan \<times> u32)" where
  "coste ex o' =
    (case (case o' of Fat32 ruta \<Rightarrow> ex_tamano ex ruta | Ram _ tam \<Rightarrow> Some tam) of
       None \<Rightarrow> Inl RutaNoEsta
     | Some tam \<Rightarrow>
         if tam = 0 then Inl NoCabe
         else case plan_de (ucast tam) of None \<Rightarrow> Inl NoCabe
         | Some plan \<Rightarrow> Inr (pl_tot plan, plan, tam))"

definition memoria :: "externo \<Rightarrow> u64 \<Rightarrow> nat \<Rightarrow> u8 list" where
  "memoria ex base n = map (\<lambda>i. ex_mem ex (base + word_of_nat i)) [0 ..< n]"

definition cacho_de :: "externo \<Rightarrow> origen \<Rightarrow> nat \<Rightarrow> nat \<Rightarrow> u8 list option" where
  "cacho_de ex o' leidos piden =
    (case o' of
       Fat32 ruta \<Rightarrow> let b = take piden (ex_rango ex ruta leidos piden) in if b = [] then None else Some b
     | Ram base _ \<Rightarrow> Some (memoria ex (base + word_of_nat leidos) piden))"

lemma cacho_de_pos: "cacho_de ex o' leidos piden = Some b \<Longrightarrow> 0 < piden \<Longrightarrow> 0 < length b \<and> length b \<le> piden"
  by (auto simp: cacho_de_def memoria_def Let_def split: origen.splits if_splits)

function trae_bucle ::
    "externo \<Rightarrow> origen \<Rightarrow> kernel \<Rightarrow> nat \<Rightarrow> nat \<Rightarrow> arbol_st \<Rightarrow> disco \<Rightarrow> (write_error + unit) \<times> arbol_st \<times> disco" where
  "trae_bucle ex o' k tam leidos a d =
    (if leidos < tam then
       (case cacho_de ex o' leidos (min (tam - leidos) BLOQUE) of None \<Rightarrow> (Inl NoSeLeeLaRaiz, a, d)
        | Some b \<Rightarrow> (case empujar_trozo (poner_es_ok k) b a d of
            (Inl _, a, d) \<Rightarrow> (Inl NoEscribio, a, d)
          | (Inr _, a, d) \<Rightarrow> trae_bucle ex o' k tam (leidos + length b) a d))
     else (Inr (), a, d))"
  by pat_completeness auto

termination
proof (relation "measure (\<lambda>(_, _, _, t, l, _). t - l)")
  fix ex o' k tam leidos a d b and r x a' d'
  assume "leidos < tam" "cacho_de ex o' leidos (min (tam - leidos) BLOQUE) = Some b"
  then have "0 < length b"
    using cacho_de_pos [of ex o' leidos "min (tam - leidos) BLOQUE" b] by (simp add: medidas)
  then have "tam - (leidos + length b) < tam - leidos"
    using \<open>leidos < tam\<close> by linarith
  then show "((ex, o', k, tam, leidos + length b, a', d'), (ex, o', k, tam, leidos, a, d))
      \<in> measure (\<lambda>(_, _, _, t, l, _). t - l)" for a' d'
    by simp
qed simp

declare trae_bucle.simps [simp del]

definition traer ::
    "externo \<Rightarrow> origen \<Rightarrow> plan \<Rightarrow> u32 \<Rightarrow> u64 \<Rightarrow> kernel \<Rightarrow> disco \<Rightarrow> (write_error + u8 list) \<times> disco" where
  "traer ex o' plan tam base k d =
    (if (case o' of Fat32 ruta \<Rightarrow> \<not> ex_abre ex ruta | Ram _ _ \<Rightarrow> False) then (Inl RutaNoEsta, d)
     else case arbol_nuevo plan base (take (unat (pl_niveles plan)) (ex_indice ex)) of Inl _ \<Rightarrow> (Inl NoCabe, d)
     | Inr a \<Rightarrow> (case trae_bucle ex o' k (unat tam) 0 a d of (Inl e, _, d) \<Rightarrow> (Inl e, d)
       | (Inr _, a, d) \<Rightarrow> (case cerrar (poner_es_ok k) a d of (Inl _, d) \<Rightarrow> (Inl NoEscribio, d)
         | (Inr rz, d) \<Rightarrow>
             ((case nodo_de_fichero_grande (ucast tam) (pl_niveles plan) rz of
                 Inl _ \<Rightarrow> Inl NoCabe | Inr n \<Rightarrow> Inr n), d))))"

section \<open>The branch\<close>

datatype gesto =
    Fichero "u8 list" "u8 list" | Carpeta "u8 list" | Quitar "u8 list" | Renombrar "u8 list" "u8 list"
  | Copia "u8 list" origen | Guardar "u8 list" origen

fun bloques_de_objeto :: "gesto \<Rightarrow> u64" where
  "bloques_de_objeto (Fichero _ _) = 1"
| "bloques_de_objeto (Carpeta _) = 1"
| "bloques_de_objeto (Copia _ _) = 1"
| "bloques_de_objeto (Guardar _ _) = 1"
| "bloques_de_objeto (Quitar _) = 0"
| "bloques_de_objeto (Renombrar _ _) = 0"

definition HONDO_MAX :: nat where "HONDO_MAX = 8"

text \<open>\<open>split(['/', '\\'])\<close>.\<close>

fun parte_ruta :: "u8 list \<Rightarrow> u8 list \<Rightarrow> u8 list list" where
  "parte_ruta acc [] = [acc]"
| "parte_ruta acc (c # cs) = (if es_barra c then acc # parte_ruta [] cs else parte_ruta (acc @ [c]) cs)"

text \<open>
  The nodes from the root down and the names between them, cut at 64 bytes. \<open>nodos\<close> is never empty.
\<close>

fun baja_tramos ::
    "kernel \<Rightarrow> disco \<Rightarrow> u8 list list \<Rightarrow> nodo list \<Rightarrow> u8 list list \<Rightarrow> write_error + (nodo list \<times> u8 list list)" where
  "baja_tramos k d [] nodos nombres = Inr (nodos, nombres)"
| "baja_tramos k d (t # ts) nodos nombres =
    (if t = [] then baja_tramos k d ts nodos nombres
     else if length nodos > HONDO_MAX then Inl MuyHondo
     else case buscar_en k d (last nodos) t of None \<Rightarrow> Inl RutaNoEsta
     | Some p \<Rightarrow> (case nodo_en k d p of None \<Rightarrow> Inl RutaNoEsta
       | Some n \<Rightarrow>
           if nd_tipo n \<noteq> Directorio then Inl RutaNoEsta
           else baja_tramos k d ts (nodos @ [n]) (nombres @ [take 64 t])))"

definition resolver :: "kernel \<Rightarrow> disco \<Rightarrow> u8 list \<Rightarrow> write_error + (nodo list \<times> u8 list list)" where
  "resolver k d ruta =
    (case raiz k d of None \<Rightarrow> Inl NoSeLeeLaRaiz
     | Some (_, n) \<Rightarrow> baja_tramos k d (parte_ruta [] ruta) [n] [])"

definition leer_entradas :: "kernel \<Rightarrow> disco \<Rightarrow> attr \<Rightarrow> write_error + u8 list" where
  "leer_entradas k d a =
    (if unat (at_size a) > BLOQUE then Inl CarpetaNoCabeEntera
     else case flujo k d a BLOQUE of Some b \<Rightarrow> Inr b | None \<Rightarrow> Inl NoSeLeeLaRaiz)"

definition previas_de :: "kernel \<Rightarrow> disco \<Rightarrow> nodo \<Rightarrow> write_error + u8 list" where
  "previas_de k d n =
    (case nodo_attr n ATTR_ENTRADAS of None \<Rightarrow> Inr [] | Some a \<Rightarrow> leer_entradas k d a)"

definition error_de_hoja :: "u8 list \<Rightarrow> write_error" where
  "error_de_hoja previas =
    (if length previas div ENTRADA_LEN \<ge> ENTRADAS_POR_BLOQUE then CarpetaLlena else NombreNoVale)"

text \<open>The entries of the directory touched, and of one above it.\<close>

definition entradas_hoja ::
    "gesto \<Rightarrow> block_ptr option \<Rightarrow> u8 list \<Rightarrow> (write_error + (nat \<times> u8 list)) option" where
  "entradas_hoja g p_objeto previas =
    (let con = (\<lambda>nombre. case p_objeto of None \<Rightarrow> Some (Inl NoCabe)
           | Some p \<Rightarrow> Some (case entradas_con previas nombre p of
               Inl _ \<Rightarrow> Inl (error_de_hoja previas) | Inr r \<Rightarrow> Inr r));
         da = map_option (\<lambda>r. case r of Inl _ \<Rightarrow> Inl (error_de_hoja previas) | Inr r \<Rightarrow> Inr r)
     in case g of
          Fichero nombre _ \<Rightarrow> con nombre
        | Carpeta nombre \<Rightarrow> con nombre
        | Copia nombre _ \<Rightarrow> con nombre
        | Guardar nombre _ \<Rightarrow> (case p_objeto of None \<Rightarrow> Some (Inl NoCabe)
            | Some p \<Rightarrow> (case entradas_repuntando previas nombre p of
                None \<Rightarrow> None | Some (Inr r) \<Rightarrow> Some (Inr r) | Some (Inl _) \<Rightarrow> con nombre))
        | Quitar nombre \<Rightarrow> da (entradas_sin previas nombre)
        | Renombrar viejo nuevo \<Rightarrow> da (entradas_renombrando previas viejo nuevo))"

definition entradas_rama ::
    "u8 list \<Rightarrow> block_ptr option \<Rightarrow> u8 list \<Rightarrow> (write_error + (nat \<times> u8 list)) option" where
  "entradas_rama nombre hijo previas =
    (if \<not> utf8_ok nombre then Some (Inl RutaNoEsta)
     else case hijo of None \<Rightarrow> Some (Inl RutaNoEsta)
     | Some p \<Rightarrow> map_option (\<lambda>r. case r of Inl _ \<Rightarrow> Inl RutaNoEsta | Inr r \<Rightarrow> Inr r)
         (entradas_repuntando previas nombre p))"

text \<open>The two blocks of a directory: its entries and its node.\<close>

definition pon_carpeta ::
    "kernel \<Rightarrow> u64 \<Rightarrow> nat \<Rightarrow> u8 list \<Rightarrow> disco \<Rightarrow> (write_error + block_ptr) \<times> disco" where
  "pon_carpeta k cursor n_ent entradas d =
    (case poner k cursor (take n_ent entradas) d of (Inl e, d) \<Rightarrow> (Inl e, d)
     | (Inr _, d) \<Rightarrow>
         let p_ent = ptr_nuevo cursor 0 (take n_ent entradas) in
         (case (if n_ent = 0 then Inr nodo_de_directorio_vacio else nodo_de_directorio p_ent (word_of_nat n_ent)) of
            Inl _ \<Rightarrow> (Inl NoCabe, d)
          | Inr nodo_d \<Rightarrow> (case poner k (cursor + 1) nodo_d d of (Inl e, d) \<Rightarrow> (Inl e, d)
            | (Inr _, d) \<Rightarrow> (Inr (ptr_nuevo (cursor + 1) 0 nodo_d), d))))"

fun republica ::
    "kernel \<Rightarrow> gesto \<Rightarrow> block_ptr option \<Rightarrow> nodo list \<Rightarrow> u8 list list \<Rightarrow> nat \<Rightarrow> block_ptr option \<Rightarrow> u64 \<Rightarrow> disco \<Rightarrow>
     ((write_error + (block_ptr option \<times> u64)) \<times> disco) option" where
  "republica k g p_objeto nodos nombres 0 hijo cursor d = Some (Inr (hijo, cursor), d)"
| "republica k g p_objeto nodos nombres (Suc nivel) hijo cursor d =
    (case previas_de k d (nodos ! nivel) of Inl e \<Rightarrow> Some (Inl e, d)
     | Inr previas \<Rightarrow>
         (case (if nivel = length nombres then entradas_hoja g p_objeto previas
                else entradas_rama (nombres ! nivel) hijo previas) of
            None \<Rightarrow> None
          | Some (Inl e) \<Rightarrow> Some (Inl e, d)
          | Some (Inr (n_ent, entradas)) \<Rightarrow>
              (case pon_carpeta k cursor n_ent entradas d of (Inl e, d) \<Rightarrow> Some (Inl e, d)
               | (Inr p, d) \<Rightarrow> republica k g p_objeto nodos nombres nivel (Some p) (cursor + 2) d)))"

section \<open>\<open>publicar\<close>\<close>

text \<open>The object of a gesture that needs no stream, and whether there is one.\<close>

definition objeto_de :: "gesto \<Rightarrow> write_error + (u8 list \<times> bool)" where
  "objeto_de g =
    (case g of
       Fichero _ datos \<Rightarrow> (case nodo_de_fichero datos of Inl _ \<Rightarrow> Inl NoCabe | Inr b \<Rightarrow> Inr (b, True))
     | Carpeta _ \<Rightarrow> Inr (nodo_de_directorio_vacio, True)
     | Copia _ _ \<Rightarrow> Inr (replicate NODO_LEN 0, True)
     | Guardar _ _ \<Rightarrow> Inr (replicate NODO_LEN 0, True)
     | Quitar _ \<Rightarrow> Inr (replicate NODO_LEN 0, False)
     | Renombrar _ _ \<Rightarrow> Inr (replicate NODO_LEN 0, False))"

definition origen_de :: "gesto \<Rightarrow> origen option" where
  "origen_de g = (case g of Copia _ o' \<Rightarrow> Some o' | Guardar _ o' \<Rightarrow> Some o' | _ \<Rightarrow> None)"

definition flujo_de :: "externo \<Rightarrow> gesto \<Rightarrow> write_error + (origen \<times> u64 \<times> plan \<times> u32) option" where
  "flujo_de ex g =
    (case origen_de g of None \<Rightarrow> Inr None
     | Some o' \<Rightarrow> (case coste ex o' of Inl e \<Rightarrow> Inl e | Inr c \<Rightarrow> Inr (Some (o', c))))"

definition cuesta :: "gesto \<Rightarrow> (origen \<times> u64 \<times> plan \<times> u32) option \<Rightarrow> nat \<Rightarrow> u64" where
  "cuesta g fl niveles =
    bloques_de_objeto g + (case fl of None \<Rightarrow> 0 | Some (_, bloques, _, _) \<Rightarrow> bloques) + 2 * word_of_nat niveles + 1"

text \<open>The contents and the node of the object; where the cursor is after it.\<close>

definition pon_objeto ::
    "externo \<Rightarrow> kernel \<Rightarrow> (origen \<times> u64 \<times> plan \<times> u32) option \<Rightarrow> u8 list \<Rightarrow> bool \<Rightarrow> u64 \<Rightarrow> disco \<Rightarrow>
     (write_error + (block_ptr option \<times> u64)) \<times> disco" where
  "pon_objeto ex k fl objeto hay cursor d =
    (case (case fl of None \<Rightarrow> (Inr (objeto, cursor), d)
           | Some (o', bloques, plan, tam) \<Rightarrow> (case traer ex o' plan tam cursor k d of
               (Inl e, d) \<Rightarrow> (Inl e, d) | (Inr b, d) \<Rightarrow> (Inr (b, cursor + bloques), d))) of
       (Inl e, d) \<Rightarrow> (Inl e, d)
     | (Inr (objeto, cursor), d) \<Rightarrow>
         if hay then (case poner k cursor objeto d of (Inl e, d) \<Rightarrow> (Inl e, d)
           | (Inr _, d) \<Rightarrow> (Inr (Some (ptr_nuevo cursor 0 objeto), cursor + 1), d))
         else (Inr (None, cursor), d))"

text \<open>From the reservation on.\<close>

definition publica_rama ::
    "externo \<Rightarrow> kernel \<Rightarrow> gesto \<Rightarrow> superblock \<Rightarrow> nodo list \<Rightarrow> u8 list list \<Rightarrow> u8 list \<Rightarrow> bool \<Rightarrow>
     (origen \<times> u64 \<times> plan \<times> u32) option \<Rightarrow> disco \<Rightarrow> ((write_error + u64) \<times> kernel \<times> disco) option" where
  "publica_rama ex k g sb nodos nombres objeto hay fl d =
    (case tx_open sb (copia_en_uso k d) (k_identidad k) of Inl e \<Rightarrow> Some (Inl (Rechazada e), k, d)
     | Inr t \<Rightarrow> (case reserve (cuesta g fl (length nombres + 1)) t of (Inl e, _) \<Rightarrow> Some (Inl (Rechazada e), k, d)
     | (Inr base, t) \<Rightarrow> (case pon_objeto ex k fl objeto hay base d of (Inl e, d) \<Rightarrow> Some (Inl e, k, d)
     | (Inr (p_objeto, cursor), d) \<Rightarrow>
         (case republica k g p_objeto nodos nombres (length nombres + 1) None cursor d of None \<Rightarrow> None
     | Some (Inl e, d) \<Rightarrow> Some (Inl e, k, d)
     | Some (Inr (None, _), d) \<Rightarrow> Some (Inl NoSeLeeLaRaiz, k, d)
     | Some (Inr (Some p_raiz, cursor), d) \<Rightarrow>
         let b = estrato_encode (estrato_new p_raiz (sb_estrato sb) (ex_ahora ex) (Proceso (ex_pid ex)) []) in
         (case poner k cursor b d of (Inl e, d) \<Rightarrow> Some (Inl e, k, d)
          | (Inr _, d) \<Rightarrow> Some (con_fecha (ex_ahora ex) (remata k t (ptr_nuevo cursor 0 b) d)))))))"

definition publicar ::
    "externo \<Rightarrow> kernel \<Rightarrow> u8 list \<Rightarrow> gesto \<Rightarrow> disco \<Rightarrow> ((write_error + u64) \<times> kernel \<times> disco) option" where
  "publicar ex k ruta g d =
    (case k_super k of None \<Rightarrow> Some (Inl SinVolumen, k, d)
     | Some sb \<Rightarrow> (case resolver k d ruta of Inl e \<Rightarrow> Some (Inl e, k, d)
     | Inr (nodos, nombres) \<Rightarrow> (case objeto_de g of Inl e \<Rightarrow> Some (Inl e, k, d)
     | Inr (objeto, hay) \<Rightarrow> (case flujo_de ex g of Inl e \<Rightarrow> Some (Inl e, k, d)
     | Inr fl \<Rightarrow> publica_rama ex k g sb nodos nombres objeto hay fl d))))"

text \<open>Everything that changes the volume.\<close>

datatype cambio = Sellar | Marcar "u8 list" | Volver nat | Gesto "u8 list" gesto

definition aplicar ::
    "externo \<Rightarrow> kernel \<Rightarrow> cambio \<Rightarrow> disco \<Rightarrow> ((write_error + u64) \<times> kernel \<times> disco) option" where
  "aplicar ex k c d =
    (case c of
       Sellar \<Rightarrow> Some (seal k d)
     | Marcar nombre \<Rightarrow> Some (marcar (ex_ahora ex) (ex_pid ex) k nombre d)
     | Volver n \<Rightarrow> Some (volver (ex_ahora ex) (ex_pid ex) k n d)
     | Gesto ruta g \<Rightarrow> publicar ex k ruta g d)"

end
