(* ===== verification/Estratos_Traer.thy ===== *)
theory Estratos_Traer
  imports Estratos_Publicar
begin

text \<open>
  Where a publication writes: every step of \<open>publicar\<close> stays in the blocks that were reserved for it.
  And what \<open>traer\<close> leaves: a file whose contents read back as the bytes of the source.
\<close>

section \<open>Zones\<close>

definition zona :: "kernel \<Rightarrow> nat \<Rightarrow> nat \<Rightarrow> u64 set" where
  "zona k a n = sectores_de_bloques k (word_of_nat ` {a ..< a + n})"

lemma zona_mono: "a \<le> a' \<Longrightarrow> a' + n' \<le> a + n \<Longrightarrow> zona k a' n' \<subseteq> zona k a n"
  unfolding zona_def sectores_de_bloques_def by (intro UN_mono image_mono) auto

lemma zona_0 [simp]: "zona k a 0 = {}"
  by (simp add: zona_def sectores_de_bloques_def)

lemma poner_zona:
  assumes "poner k c datos d = (r, d')" "a \<le> unat c" "unat c < a + n"
  shows "avanza (zona k a n) d d'"
proof (rule avanza_mono [OF poner_avanza [OF assms(1)]])
  have "c \<in> word_of_nat ` {a ..< a + n}"
    using assms(2,3) by (intro image_eqI [of _ _ "unat c"]) simp_all
  then show "sectores_bloque k c \<subseteq> zona k a n"
    by (auto simp: zona_def sectores_de_bloques_def)
qed

lemma pon_carpeta_zona:
  assumes "pon_carpeta k c n e d = (r, d')" "unat c + 2 < 2 ^ 64"
  shows "avanza (zona k (unat c) 2) d d'"
proof -
  have u: "unat (c + 1) = unat c + 1"
    using assms(2) by (simp add: unat_add_small)
  obtain r1 d1 where e: "poner k c (take n e) d = (r1, d1)"
    by fastforce
  have 1: "avanza (zona k (unat c) 2) d d1"
    using poner_zona [OF e, of "unat c" 2] by simp
  have 2: "avanza (zona k (unat c) 2) d1 d2" if "poner k (c + 1) b d1 = (r2, d2)" for b r2 d2
    using poner_zona [OF that, of "unat c" 2] u by simp
  have "d' = d1 \<or> (\<exists>b r2. poner k (c + 1) b d1 = (r2, d'))"
    using assms(1) e by (auto simp: pon_carpeta_def Let_def split: sum.splits prod.splits if_splits)
  then show ?thesis
    using 1 2 avanza_trans by blast
qed

lemma republica_zona:
  "republica k g po nodos nombres n hijo c d = Some (r, d') \<Longrightarrow> unat c + 2 * n < 2 ^ 64 \<Longrightarrow>
   avanza (zona k (unat c) (2 * n)) d d' \<and> (\<forall>h c'. r = Inr (h, c') \<longrightarrow> unat c' = unat c + 2 * n)"
proof (induction n arbitrary: hijo c d)
  case (Suc n)
  have u: "unat (c + 2) = unat c + 2"
    using Suc.prems(2) by (simp add: unat_add_small)
  consider (nada) "d' = d" "\<exists>e. r = Inl e"
    | (error) m es e where "pon_carpeta k c m es d = (Inl e, d')" "r = Inl e"
    | (sigue) m es p d1 where "pon_carpeta k c m es d = (Inr p, d1)"
        "republica k g po nodos nombres n (Some p) (c + 2) d1 = Some (r, d')"
    using Suc.prems(1) by (auto split: sum.splits option.splits prod.splits if_splits)
  then show ?case
  proof cases
    case error
    then have "avanza (zona k (unat c) 2) d d'"
      using pon_carpeta_zona Suc.prems(2) by simp
    then show ?thesis
      using error(2) avanza_mono zona_mono [of "unat c" "unat c" 2 "2 * Suc n" k] by auto
  next
    case sigue
    then have "avanza (zona k (unat c) 2) d d1"
      using pon_carpeta_zona Suc.prems(2) by simp
    then have 1: "avanza (zona k (unat c) (2 * Suc n)) d d1"
      using avanza_mono zona_mono [of "unat c" "unat c" 2 "2 * Suc n" k] by simp
    have ih: "avanza (zona k (unat c + 2) (2 * n)) d1 d' \<and> (\<forall>h c'. r = Inr (h, c') \<longrightarrow> unat c' = unat c + 2 + 2 * n)"
      using Suc.IH [OF sigue(2)] Suc.prems(2) u by simp
    then have "avanza (zona k (unat c) (2 * Suc n)) d1 d'"
      using avanza_mono zona_mono [of "unat c" "unat c + 2" "2 * n" "2 * Suc n" k] by auto
    then show ?thesis
      using 1 ih avanza_trans by auto
  qed auto
qed auto

section \<open>\<open>traer\<close>\<close>

text \<open>A source that opens and gives \<open>bytes\<close>, whatever the ranges asked for.\<close>

definition abre :: "externo \<Rightarrow> origen \<Rightarrow> bool" where
  "abre ex o' \<longleftrightarrow> (case o' of Fat32 ruta \<Rightarrow> ex_abre ex ruta | Ram _ _ \<Rightarrow> True)"

definition da :: "externo \<Rightarrow> origen \<Rightarrow> u8 list \<Rightarrow> bool" where
  "da ex o' bytes \<longleftrightarrow> abre ex o' \<and> (\<forall>i n. 0 < n \<and> i + n \<le> length bytes \<longrightarrow> cacho_de ex o' i n = Some (rodaja i n bytes))"

lemma lugar_tot:
  assumes "plan_de tam = Some pl"
  shows "lugar pl b (niveles_de pl + 1) \<le> b + unat (pl_tot pl)"
proof -
  note p = plan_de_ok [OF assms]
  have "niveles_de pl + 1 \<le> 5" "length (pl_por_nivel pl) = 5"
    using p(1) by (simp_all add: plan_ok_def)
  then have "sum (por_nivel_de pl) {..<niveles_de pl + 1} \<le> sum (por_nivel_de pl) {..<5}"
    by (intro sum_mono2) auto
  also have "\<dots> = sum_list (map unat (pl_por_nivel pl))"
    using \<open>length (pl_por_nivel pl) = 5\<close> by (simp add: sum_list_sum_nth lessThan_atLeast0)
  finally show ?thesis
    using p(3) by (simp add: lugar_def)
qed

text \<open>
  The pieces of a source that gives its bytes are whole blocks but the last, so their number is the
  one of the plan; \<open>regular\<close> says that the loop has come to \<open>leidos\<close> that way.
\<close>

definition regular :: "externo \<Rightarrow> origen \<Rightarrow> nat \<Rightarrow> nat \<Rightarrow> nat \<Rightarrow> bool" where
  "regular ex o' tam leidos cs \<longleftrightarrow>
    (\<exists>bytes. da ex o' bytes \<and> length bytes = tam) \<and> leidos = min tam (4096 * cs)"

lemma regular_cacho: "regular ex o' tam leidos cs \<Longrightarrow> leidos < tam \<Longrightarrow>
  cacho_de ex o' leidos (min (tam - leidos) BLOQUE) \<noteq> None"
proof -
  assume a: "regular ex o' tam leidos cs" "leidos < tam"
  then obtain bytes where "da ex o' bytes" "length bytes = tam"
    by (auto simp: regular_def)
  moreover have "0 < min (tam - leidos) BLOQUE" "leidos + min (tam - leidos) BLOQUE \<le> tam"
    using a(2) by (auto simp: medidas)
  ultimately show ?thesis
    by (simp add: da_def)
qed

lemma regular_sigue:
  assumes "regular ex o' tam leidos cs" "leidos < tam" "cacho_de ex o' leidos (min (tam - leidos) BLOQUE) = Some x"
  shows "regular ex o' tam (leidos + length x) (cs + 1)"
proof -
  define n where "n = min (tam - leidos) 4096"
  obtain bytes where b: "da ex o' bytes" "length bytes = tam"
    using assms(1) by (auto simp: regular_def)
  have n: "0 < n" "leidos + n \<le> tam"
    using assms(2) by (auto simp: n_def)
  then have "x = rodaja leidos n bytes"
    using b assms(3) by (simp add: da_def medidas n_def [symmetric])
  then have "length x = n"
    using n b(2) by (simp add: rodaja_def)
  then show ?thesis
    using assms(1,2) b by (auto simp: regular_def n_def)
qed

lemma da_concat:
  assumes "da ex o' bytes" "length bytes = tam" "leidos < tam" "cacho_de ex o' leidos (min (tam - leidos) BLOQUE) = Some x"
  shows "x @ drop (leidos + length x) bytes = drop leidos bytes"
proof -
  define n where "n = min (tam - leidos) 4096"
  have n: "0 < n" "leidos + n \<le> tam"
    using assms(3) by (auto simp: n_def)
  then have xn: "x = take n (drop leidos bytes)"
    using assms by (simp add: da_def medidas rodaja_def n_def [symmetric])
  then have "length x = n"
    using n assms(2) by simp
  then have "drop (leidos + length x) bytes = drop n (drop leidos bytes)"
    by (simp add: add.commute)
  then show ?thesis
    by (metis append_take_drop_id xn)
qed

lemma trae_bucle_ok:
  assumes "escrito (read_block k d) b pl 1 cs a" "plan_ok pl" "por_nivel_de pl 0 = techo tam 4096"
    "word_of_nat ` {b ..< lugar pl b (niveles_de pl + 1)} \<subseteq> W \<inter> bloques_de k"
    "trae_bucle ex o' k tam leidos a d = (r, a', d')"
  shows "toca_zona k W (regular ex o' tam leidos (length cs) \<longrightarrow> r = Inr ()) d d' \<and>
    (r = Inr () \<longrightarrow> (\<exists>ds. escrito (read_block k d') b pl 1 (cs @ ds) a' \<and>
       (\<forall>bytes. da ex o' bytes \<and> length bytes = tam \<longrightarrow> concat ds = drop leidos bytes) \<and>
       (regular ex o' tam leidos (length cs) \<longrightarrow> length (cs @ ds) = por_nivel_de pl 0)))"
  using assms(1,3,4,5)
proof (induction ex o' k tam leidos a d arbitrary: cs rule: trae_bucle.induct)
  case (1 ex o' k tam leidos a d)
  have inv: "ar_plan a = pl" "unat (ar_trozos a) = length cs" "length cs \<le> por_nivel_de pl 0"
    using "1.prems"(1) by (auto simp: escrito_def arbol_inv_def medidas_ok_def Let_def)
  have lleno: "tam \<le> 4096 * length cs \<longleftrightarrow> por_nivel_de pl 0 \<le> length cs"
    using "1.prems"(2) by (simp add: techo_le mult.commute)
  consider (fin) "\<not> leidos < tam" | (corto) "leidos < tam" "cacho_de ex o' leidos (min (tam - leidos) BLOQUE) = None"
    | (mas) x where "leidos < tam" "cacho_de ex o' leidos (min (tam - leidos) BLOQUE) = Some x"
    by fastforce
  then show ?case
  proof cases
    case fin
    then have "r = Inr () \<and> a' = a \<and> d' = d"
      using "1.prems"(4) by (subst (asm) trae_bucle.simps) simp
    moreover have "length cs = por_nivel_de pl 0" if "regular ex o' tam leidos (length cs)"
      using that fin lleno inv(3) by (auto simp: regular_def min_def split: if_splits)
    ultimately show ?thesis
      using "1.prems"(1) fin dk.toca_refl by (auto intro!: exI [of _ "[]"])
  next
    case corto
    then have "r \<noteq> Inr () \<and> d' = d"
      using "1.prems"(4) by (subst (asm) trae_bucle.simps) auto
    moreover have "\<not> regular ex o' tam leidos (length cs)"
      using regular_cacho corto by blast
    ultimately show ?thesis
      using dk.toca_refl by simp
  next
    case x: mas
    have lx: "x \<noteq> []" "length x \<le> min (tam - leidos) 4096"
      using cacho_de_pos [OF x(2)] x(1) by (simp_all add: medidas)
    obtain r1 a1 d1 where e: "empujar_trozo (poner_es_ok k) x a d = (r1, a1, d1)"
      using prod_cases3 by blast
    have u: "trae_bucle ex o' k tam leidos a d = (case r1 of Inl _ \<Rightarrow> (Inl NoEscribio, a1, d1)
        | Inr _ \<Rightarrow> trae_bucle ex o' k tam (leidos + length x) a1 d1)"
      using x e by (subst trae_bucle.simps) (simp split: sum.splits)
    show ?thesis
    proof (cases "length cs < por_nivel_de pl 0")
      case False
      then have "r1 = Inl BadField" "d1 = d"
        using e lx inv by (auto simp: empujar_trozo_def medidas word_le_nat_alt)
      then have "r = Inl NoEscribio" "d' = d"
        using "1.prems"(4) u by auto
      moreover have "\<not> regular ex o' tam leidos (length cs)"
        using False lleno x(1) by (auto simp: regular_def)
      ultimately show ?thesis
        using dk.toca_refl by auto
    next
      case True
      have t: "toca_zona k W (r1 \<noteq> Inl Io) d d1 \<and>
          (r1 = Inl Io \<or> (r1 = Inr () \<and> escrito (read_block k d1) b pl 1 (cs @ [x]) a1))"
        using dk.empujar_ok [OF "1.prems"(1) lx(1) _ True "1.prems"(3) e] lx(2) by simp
      show ?thesis
      proof (cases "r1 = Inl Io")
        case True
        then show ?thesis
          using "1.prems"(4) u t by (auto simp: toca_zona_def)
      next
        case False
        then have r1: "r1 = Inr ()" "escrito (read_block k d1) b pl 1 (cs @ [x]) a1"
          using t by simp_all
        have "trae_bucle ex o' k tam (leidos + length x) a1 d1 = (r, a', d')"
          using "1.prems"(4) u r1(1) by simp
        then have ih: "toca_zona k W (regular ex o' tam (leidos + length x) (length (cs @ [x])) \<longrightarrow> r = Inr ()) d1 d' \<and>
            (r = Inr () \<longrightarrow> (\<exists>ds. escrito (read_block k d') b pl 1 ((cs @ [x]) @ ds) a' \<and>
              (\<forall>bytes. da ex o' bytes \<and> length bytes = tam \<longrightarrow> concat ds = drop (leidos + length x) bytes) \<and>
              (regular ex o' tam (leidos + length x) (length (cs @ [x])) \<longrightarrow> length ((cs @ [x]) @ ds) = por_nivel_de pl 0)))"
          using "1.IH" [OF x(1) x(2) e [symmetric] r1(1) refl r1(2) "1.prems"(2,3)] by blast
        have reg: "regular ex o' tam leidos (length cs) \<Longrightarrow> regular ex o' tam (leidos + length x) (length (cs @ [x]))"
          using regular_sigue x by simp
        have z: "toca_zona k W (regular ex o' tam leidos (length cs) \<longrightarrow> r = Inr ()) d d'"
          using t ih reg r1(1) avanza_trans unfolding toca_zona_def by blast
        show ?thesis
        proof (intro conjI impI z)
          assume "r = Inr ()"
          then obtain ds where ds: "escrito (read_block k d') b pl 1 (cs @ (x # ds)) a'"
            "\<forall>bytes. da ex o' bytes \<and> length bytes = tam \<longrightarrow> concat ds = drop (leidos + length x) bytes"
            "regular ex o' tam (leidos + length x) (length (cs @ [x])) \<longrightarrow> length (cs @ (x # ds)) = por_nivel_de pl 0"
            using ih by auto
          then show "\<exists>ds. escrito (read_block k d') b pl 1 (cs @ ds) a' \<and>
              (\<forall>bytes. da ex o' bytes \<and> length bytes = tam \<longrightarrow> concat ds = drop leidos bytes) \<and>
              (regular ex o' tam leidos (length cs) \<longrightarrow> length (cs @ ds) = por_nivel_de pl 0)"
            using da_concat [OF _ _ x] reg by (intro exI [of _ "x # ds"]) auto
        qed
      qed
    qed
  qed
qed

text \<open>What was written reads back, through \<open>flujo\<close>, into a buffer where it fits.\<close>

definition indice_ok :: "externo \<Rightarrow> bool" where
  "indice_ok ex \<longleftrightarrow> length (ex_indice ex) = NIVELES_MAX \<and> list_all (\<lambda>b. length b = 4096) (ex_indice ex)"

lemma alimenta_copia:
  "length (concat cs) + length hecho \<le> largo \<Longrightarrow>
   snd (alimenta (copia_lo_que_cabe largo) cs hecho) = hecho @ concat cs"
proof (induction cs arbitrary: hecho)
  case (Cons c cs)
  have l: "min (length c) (largo - length hecho) = length c"
    using Cons.prems(1) by simp
  show ?case
  proof (cases "length hecho + length c < largo")
    case True
    then show ?thesis
      using Cons l by (simp add: copia_lo_que_cabe_def Let_def)
  next
    case False
    moreover have "length c + length (concat cs) + length hecho \<le> largo"
      using Cons.prems(1) by simp
    ultimately have "length (concat cs) = 0"
      by linarith
    then have "concat cs = []"
      by simp
    then show ?thesis
      using False l by (simp add: copia_lo_que_cabe_def Let_def)
  qed
qed simp

definition bloques_zona :: "nat \<Rightarrow> nat \<Rightarrow> u64 set" where
  "bloques_zona b n = word_of_nat ` {b ..< b + n}"

lemma unat_ucast_u32 [simp]: "unat (ucast (x :: u32) :: u64) = unat x"
proof -
  have "unat x < 2 ^ 32"
    using unsigned_less [of x] by simp
  then show ?thesis
    by (simp add: unsigned_ucast_eq take_bit_nat_eq_self)
qed

lemma fichero_grande_cabe: "unat niveles \<le> 4 \<Longrightarrow> \<exists>n. nodo_de_fichero_grande tam niveles p = Inr n"
proof -
  have "nombre_a_bytes ATTR_DATOS \<noteq> Inl BadField"
    by code_simp
  then show "unat niveles \<le> 4 \<Longrightarrow> \<exists>n. nodo_de_fichero_grande tam niveles p = Inr n"
    by (auto simp: nodo_de_fichero_grande_def en_bloques_def con_nuevo medidas nombre_a_bytes_def split: if_splits)
qed

lemma traer_ok:
  assumes "coste ex o' = Inr (tot, pl, tam)" "indice_ok ex"
    "unat base + unat tot < 2 ^ 64" "bloques_zona (unat base) (unat tot) \<subseteq> bloques_de k"
    "traer ex o' pl tam base k d = (r, d')"
  shows "toca_zona k (bloques_zona (unat base) (unat tot))
      ((\<exists>bytes. da ex o' bytes \<and> length bytes = unat tam) \<longrightarrow> (\<exists>n. r = Inr n)) d d'"
    "r = Inr n \<Longrightarrow> \<exists>p L t. nodo_de_fichero_grande (ucast tam) (pl_niveles pl) p = Inr n \<and>
       guardado (read_block k d') L (niveles_de pl) p t \<and>
       (\<forall>bytes. da ex o' bytes \<and> length bytes = unat tam \<longrightarrow> concat (hojas t) = bytes)"
proof -
  have pl: "plan_de (ucast tam) = Some pl" "tot = pl_tot pl" "tam \<noteq> 0"
    using assms(1) by (auto simp: coste_def split: option.splits if_splits origen.splits)
  note p = plan_de_ok [OF pl(1)]
  define b W where "b = unat base" and "W = bloques_zona b (unat tot)"
  have lug: "lugar pl b (niveles_de pl + 1) \<le> b + unat tot"
    using lugar_tot [OF pl(1), of b] pl(2) by simp
  then have V: "word_of_nat ` {b ..< lugar pl b (niveles_de pl + 1)} \<subseteq> W \<inter> bloques_de k"
    using assms(4) by (auto simp: W_def b_def bloques_zona_def)
  have n0: "por_nivel_de pl 0 = techo (unat tam) 4096"
    using p(2) by simp
  have ix: "niveles_de pl \<le> length (ex_indice ex)" "list_all (\<lambda>x. length x = 4096) (take (niveles_de pl) (ex_indice ex))"
    using assms(2) p(1) by (auto simp: indice_ok_def plan_ok_def medidas list_all_iff dest: in_set_takeD)
  then obtain a where a: "arbol_nuevo pl base (take (niveles_de pl) (ex_indice ex)) = Inr a"
    by (simp add: arbol_nuevo_def)
  have e0: "escrito (read_block k d) b pl 1 [] a"
    unfolding b_def by (rule arbol_nuevo_ok [OF p(1) _ a ix(2)]) (use lug assms(3) in \<open>simp add: b_def\<close>)
  obtain r1 a1 d1 where t: "trae_bucle ex o' k (unat tam) 0 a d = (r1, a1, d1)"
    using prod_cases3 by blast
  define fs where "fs \<longleftrightarrow> (\<exists>bytes. da ex o' bytes \<and> length bytes = unat tam)"
  have reg: "regular ex o' (unat tam) 0 0 \<longleftrightarrow> fs"
    by (simp add: regular_def fs_def)
  have t1: "toca_zona k W (fs \<longrightarrow> r1 = Inr ()) d d1"
    and t2: "r1 = Inr () \<Longrightarrow> \<exists>ds. escrito (read_block k d1) b pl 1 ds a1 \<and>
       (\<forall>bytes. da ex o' bytes \<and> length bytes = unat tam \<longrightarrow> concat ds = bytes) \<and>
       (fs \<longrightarrow> length ds = por_nivel_de pl 0)"
    using trae_bucle_ok [OF e0 p(1) n0 V t] reg by simp_all
  obtain r2 d2 where c: "cerrar (poner_es_ok k) a1 d1 = (r2, d2)"
    by fastforce
  have u: "traer ex o' pl tam base k d =
      (if \<not> abre ex o' then (Inl RutaNoEsta, d)
       else case r1 of Inl e \<Rightarrow> (Inl e, d1)
       | Inr _ \<Rightarrow> (case r2 of Inl _ \<Rightarrow> (Inl NoEscribio, d2)
         | Inr rz \<Rightarrow> ((case nodo_de_fichero_grande (ucast tam) (pl_niveles pl) rz of
             Inl _ \<Rightarrow> Inl NoCabe | Inr n \<Rightarrow> Inr n), d2)))"
    using a t c by (simp add: traer_def abre_def split: sum.splits origen.splits)
  have cierre: "toca_zona k W (length ds = por_nivel_de pl 0 \<longrightarrow> (\<exists>q. r2 = Inr q)) d1 d2 \<and> (\<forall>q. r2 = Inr q \<longrightarrow>
      (\<exists>L t. guardado (read_block k d2) L (niveles_de pl) q t \<and> hojas t = ds))"
    if e: "escrito (read_block k d1) b pl 1 ds a1" for ds
  proof (cases "length ds = por_nivel_de pl 0")
    case False
    have "ar_plan a1 = pl" "unat (ar_trozos a1) = length ds"
      using e by (auto simp: escrito_def arbol_inv_def medidas_ok_def Let_def)
    moreover from this have "ar_trozos a1 \<noteq> pl_por_nivel pl ! 0"
      using False by auto
    ultimately have "r2 = Inl BadField \<and> d2 = d1"
      using c by (simp add: cerrar_def)
    then show ?thesis
      using False dk.toca_refl by simp
  next
    case True
    have i: "ar_plan a1 = pl" "unat (ar_trozos a1) = unat (pl_por_nivel pl ! 0)"
      using e True by (auto simp: escrito_def arbol_inv_def medidas_ok_def Let_def)
    obtain r3 a3 d3 where n: "cierra_niveles (poner_es_ok k) 1 (niveles_de pl) a1 d1 = (r3, a3, d3)"
      using prod_cases3 by blast
    have "ar_trozos a1 = pl_por_nivel pl ! 0"
      using i(2) by (rule unsigned_word_eqI)
    then have r2: "(r2, d2) = (case r3 of Inl e \<Rightarrow> (Inl e, d3)
        | Inr _ \<Rightarrow> (case ar_raiz a3 of Some p \<Rightarrow> (Inr p, d3) | None \<Rightarrow> (Inl BadField, d3)))"
      using c n i(1) by (cases r3) (simp_all add: cerrar_def split: option.splits)
    have f: "toca_zona k W (r3 \<noteq> Inl Io) d1 d3"
        "r3 = Inl Io \<or> (r3 = Inr () \<and> escrito (read_block k d3) b pl (niveles_de pl + 1) ds a3)"
      using dk.cierra_niveles_ok [OF e _ _ _ V n] True by simp_all
    have "d2 = d3"
      using r2 by (auto split: sum.splits option.splits)
    moreover have "\<exists>q. r2 = Inr q \<and> (\<exists>L t. guardado (read_block k d3) L (niveles_de pl) q t \<and> hojas t = ds)"
      if "r3 \<noteq> Inl Io"
      using r2 f(2) that dk.cerrado_raiz [of "read_block k d3" b pl ds a3] True
      by (auto split: sum.splits option.splits)
    moreover have "r2 = Inl Io" if "r3 = Inl Io"
      using r2 that by simp
    ultimately show ?thesis
      using f(1) by (cases "r3 = Inl Io") (auto simp: toca_zona_def)
  qed
  show "toca_zona k (bloques_zona (unat base) (unat tot))
      ((\<exists>bytes. da ex o' bytes \<and> length bytes = unat tam) \<longrightarrow> (\<exists>n. r = Inr n)) d d'"
    unfolding fs_def [symmetric] b_def [symmetric] W_def [symmetric]
  proof (cases "\<not> abre ex o' \<or> r1 \<noteq> Inr ()")
    case True
    then have "(\<not> abre ex o' \<and> d' = d) \<or> (d' = d1 \<and> (\<exists>e. r1 = Inl e \<and> r = Inl e))"
      using u assms(5) by (cases r1) (auto split: if_splits)
    moreover have "\<not> abre ex o' \<Longrightarrow> \<not> fs"
      by (simp add: fs_def da_def)
    ultimately show "toca_zona k W (fs \<longrightarrow> (\<exists>n. r = Inr n)) d d'"
      using t1 dk.toca_refl by (auto simp: toca_zona_def)
  next
    case False
    then obtain ds where e: "escrito (read_block k d1) b pl 1 ds a1" and ds: "fs \<longrightarrow> length ds = por_nivel_de pl 0"
      using t2 by blast
    note ce = cierre [OF e]
    have bien: "\<exists>n. r = Inr n" if "r2 = Inr q" for q
      using u assms(5) False that fichero_grande_cabe [of "pl_niveles pl" "ucast tam" q] p(1)
      by (auto simp: plan_ok_def)
    have "d' = d2"
      using u assms(5) False by (auto split: sum.splits)
    moreover have "avanza (sectores_de_bloques k W) d d2"
      using t1 ce avanza_trans unfolding toca_zona_def by blast
    moreover have "dispuesto d2 \<and> (fs \<longrightarrow> (\<exists>q. r2 = Inr q))" if "escribible k W \<and> dispuesto d"
      using t1 ce ds that unfolding toca_zona_def by blast
    ultimately show "toca_zona k W (fs \<longrightarrow> (\<exists>n. r = Inr n)) d d'"
      using bien unfolding toca_zona_def by blast
  qed
  assume r: "r = Inr n"
  then obtain q where q: "r1 = Inr ()" "r2 = Inr q" "d' = d2"
    "nodo_de_fichero_grande (ucast tam) (pl_niveles pl) q = Inr n"
    using u assms(5) by (auto split: if_splits sum.splits)
  obtain ds where "escrito (read_block k d1) b pl 1 ds a1"
      "\<forall>bytes. da ex o' bytes \<and> length bytes = unat tam \<longrightarrow> concat ds = bytes"
    using t2 q(1) by blast
  then show "\<exists>p L t. nodo_de_fichero_grande (ucast tam) (pl_niveles pl) p = Inr n \<and>
       guardado (read_block k d') L (niveles_de pl) p t \<and>
       (\<forall>bytes. da ex o' bytes \<and> length bytes = unat tam \<longrightarrow> concat (hojas t) = bytes)"
    using cierre q by blast
qed

text \<open>The node that \<open>traer\<close> gives, read back: its attribute is the tree that was written.\<close>

lemma nombres_de_attr:
  "0 \<notin> set ATTR_DATOS \<and> texto ATTR_DATOS = ATTR_DATOS"
  "0 \<notin> set ATTR_ENTRADAS \<and> texto ATTR_ENTRADAS = ATTR_ENTRADAS"
  by code_simp+

lemma fichero_grande_leido:
  assumes "nodo_de_fichero_grande tam niveles p = Inr n" "ptr_ok p"
  shows "\<exists>nd a. nodo_decode n = Inr nd \<and> nd_tipo nd = Archivo \<and> nodo_attr nd ATTR_DATOS = Some a \<and>
    datos_residentes a = None \<and> attr_raiz a = Some p \<and> at_levels a = niveles \<and> at_size a = tam"
proof -
  obtain a where a: "en_bloques ATTR_DATOS tam niveles p = Inr a"
    "n = nodo_encode \<lparr>nd_tipo = Archivo, nd_attrs = map Some [a] @ replicate 3 None\<rparr>"
    using assms(1) by (auto simp: nodo_de_fichero_grande_def con_nuevo split: sum.splits)
  note ok = en_bloques_ok [OF a(1) _ assms(2)]
  have "nodo_ok \<lparr>nd_tipo = Archivo, nd_attrs = map Some [a] @ replicate (4 - length [a]) None\<rparr>"
    using ok(1) nombres_de_attr(1) by (intro nodo_ok_I) simp_all
  then have "nodo_decode n = Inr \<lparr>nd_tipo = Archivo, nd_attrs = map Some [a] @ replicate 3 None\<rparr>"
    using nodo_decode_encode by (simp add: a(2))
  moreover have "attr_nombre a = ATTR_DATOS"
    using ok(3) nombres_de_attr(1) by simp
  then have "nodo_attr \<lparr>nd_tipo = Archivo, nd_attrs = map Some [a] @ replicate 3 None\<rparr> ATTR_DATOS = Some a"
    unfolding nodo_attr_def attrs_de_con by simp
  moreover have "datos_residentes a = None"
    using ok(2) nombres_de_attr(1) by (auto simp: attr_raiz_def datos_residentes_def split: if_splits)
  ultimately show ?thesis
    using ok nombres_de_attr(1) by (intro exI conjI) auto
qed

text \<open>A tree with as many levels as there are buffers is not walked: the last level has none.\<close>

lemma bajar_sin_sitio:
  "guardado r L k p t \<Longrightarrow> m \<le> k \<Longrightarrow> fst (bajar r f k m p s) = Inl SinScratch"
proof (induction k arbitrary: m p t s)
  case (Suc k)
  show ?case
  proof (cases m)
    case (Suc m')
    from Suc.prems(1) show ?thesis
    proof (cases rule: guardado.cases)
      case 1: (rama lba ps ts)
      then have 4: "list_all2 (guardado r L k) ps ts"
        by simp
      note ok = guardados_ptr_ok [OF 4]
      obtain q qs t' ts' where q: "ps = q # qs" "ts = t' # ts'" "guardado r L k q t'"
        using 4 1 by (cases ps; cases ts) auto
      have l: "length (ptrs_bytes ps) = 48 * length ps"
        using length_ptrs_bytes [OF ok] by simp
      have "rodaja (0 * 48) 48 (ptrs_bytes ps) = ptr_encode q"
        using rodaja_ptrs_bytes [OF ok, of 0] q(1) by simp
      then have d: "ptr_decode (rodaja 0 48 (ptrs_bytes ps)) = Inr q"
        using ok q(1) by (simp add: ptr_decode_encode)
      have n: "\<not> es_nulo q"
        using guardado_ptr_ok [OF q(3)] by (simp add: es_nulo_def)
      have "fst (bajar r f k m' q s) = Inl SinScratch"
        using Suc.IH [OF q(3), of m' s] Suc.prems(2) Suc by simp
      then show ?thesis
        using Suc 1 l lee_ptr_nuevo [of "ptrs_bytes ps" r lba] d n q(1)
        by (auto simp: medidas split: prod.splits sum.splits)
    qed
  qed simp
qed simp

section \<open>A file comes back\<close>

lemma niveles_del_plan:
  assumes "plan_de tam = Some pl"
  shows "niveles_de pl \<le> l \<longleftrightarrow> niveles_de pl = 4 \<and> l \<ge> 4 \<or> unat tam \<le> 4096 * 85 ^ l"
proof -
  have "niveles_para tam = Some (pl_niveles pl)"
    using plan_de_ok [OF assms] by simp
  then obtain j where j: "find (\<lambda>l. unat tam \<le> 4096 * 85 ^ l) [0 ..< 5] = Some j" "pl_niveles pl = word_of_nat j"
    by (auto simp: niveles_para_eq)
  then have j5: "j < 5" "unat tam \<le> 4096 * 85 ^ j" "\<And>i. i < j \<Longrightarrow> \<not> unat tam \<le> 4096 * 85 ^ i"
    by (auto simp: find_upt_Some)
  then have n: "niveles_de pl = j"
    using j(2) by (simp add: unat_word_of_nat)
  have "unat tam \<le> 4096 * 85 ^ l" if "j \<le> l"
    using j5(2) that power_increasing [of j l "85 :: nat"] by (simp add: order_trans)
  then show ?thesis
    using j5(1) j5(3) [of l] n by (cases "j \<le> l") auto
qed

text \<open>The common part of the two properties: the node and the tree behind it.\<close>

lemma traido:
  assumes "coste ex o' = Inr (tot, pl, tam)" "indice_ok ex"
    "unat base + unat tot < 2 ^ 64" "bloques_zona (unat base) (unat tot) \<subseteq> bloques_de k"
    "traer ex o' pl tam base k d = (Inr n, d')"
  shows "\<exists>nd a p L t. nodo_decode n = Inr nd \<and> nd_tipo nd = Archivo \<and> nodo_attr nd ATTR_DATOS = Some a \<and>
    datos_residentes a = None \<and> attr_raiz a = Some p \<and> at_levels a = pl_niveles pl \<and> at_size a = ucast tam \<and>
    guardado (read_block k d') L (niveles_de pl) p t \<and>
    (\<forall>bytes. da ex o' bytes \<and> length bytes = unat tam \<longrightarrow> concat (hojas t) = bytes)"
proof -
  obtain p L t where p: "nodo_de_fichero_grande (ucast tam) (pl_niveles pl) p = Inr n"
    "guardado (read_block k d') L (niveles_de pl) p t"
    "\<forall>bytes. da ex o' bytes \<and> length bytes = unat tam \<longrightarrow> concat (hojas t) = bytes"
    using traer_ok(2) [OF assms refl] by blast
  then show ?thesis
    using fichero_grande_leido [OF p(1)] guardado_ptr_ok [OF p(2)] by blast
qed

lemma plan_de_coste: "coste ex o' = Inr (tot, pl, tam) \<Longrightarrow> plan_de (ucast tam) = Some pl"
  by (auto simp: coste_def split: option.splits if_splits origen.splits)

text \<open>
  C7: a file that comes from outside reads back as it was. Whatever \<open>traer\<close> brought, from FAT32 or
  from the memory of a process, the node it made decodes to a file whose data, read into a buffer
  where they fit, are the bytes of the source, as long as they are no more than 2515456000; and it
  only fails when the drive refuses a write or the windows do not let it.
\<close>

theorem fichero_vuelve:
  assumes "coste ex o' = Inr (tot, pl, tam)" "indice_ok ex" "da ex o' bytes" "length bytes = unat tam"
    "unat base + unat tot < 2 ^ 64" "bloques_zona (unat base) (unat tot) \<subseteq> bloques_de k"
    "length bytes \<le> largo" "length bytes \<le> 2515456000" "traer ex o' pl tam base k d = (r, d')"
  shows "case r of Inl e \<Rightarrow> \<not> (escribible k (bloques_zona (unat base) (unat tot)) \<and> dispuesto d)
    | Inr n \<Rightarrow> (\<exists>nd. nodo_decode n = Inr nd \<and> leer_fichero k d' nd largo = Some bytes)"
proof (cases r)
  case (Inl e)
  then show ?thesis
    using traer_ok(1) [OF assms(1,2,5,6,9)] assms(3,4) by (auto simp: toca_zona_def)
next
  case (Inr n)
  obtain nd a p L t where t: "nodo_decode n = Inr nd" "nd_tipo nd = Archivo" "nodo_attr nd ATTR_DATOS = Some a"
    "datos_residentes a = None" "attr_raiz a = Some p" "at_levels a = pl_niveles pl" "at_size a = ucast tam"
    "guardado (read_block k d') L (niveles_de pl) p t" "concat (hojas t) = bytes"
    using traido [OF assms(1,2,5,6)] assms(3,4,9) Inr by blast
  have "niveles_de pl \<le> 3"
    using niveles_del_plan [OF plan_de_coste [OF assms(1)], of 3] assms(4,8) by simp
  then have "bajar (read_block k d') (copia_lo_que_cabe largo) (niveles_de pl) 4 p [] =
      (Inr (), alimenta (copia_lo_que_cabe largo) (hojas t) [])"
    by (intro bajar_guardado [OF t(8)]) simp
  moreover have "snd (alimenta (copia_lo_que_cabe largo) (hojas t) []) = bytes"
    using alimenta_copia [of "hojas t" "[]" largo] t(9) assms(7) by simp
  ultimately have "descender (read_block k d') p (pl_niveles pl) (NIVELES - 1) (copia_lo_que_cabe largo) [] = (Inr (), bytes)"
    by (cases "alimenta (copia_lo_que_cabe largo) (hojas t) []") (simp add: descender_def NIVELES_def)
  then have "flujo k d' a largo = Some bytes"
    using t(4-7) assms(4) by (simp add: flujo_def)
  then show ?thesis
    using t(1-3) Inr by (simp add: leer_fichero_def)
qed

text \<open>
  C33: and no more than that. A file of more than 2515456000 bytes takes four levels of pointers;
  the plan has them, and with an obliging drive \<open>traer\<close> writes it and gives a good node, but the
  kernel reads with the four buffers that are left beside the one of \<open>seguir\<close>, and four levels need
  five: the file never reads back.
\<close>

theorem cuatro_niveles_no_se_leen:
  assumes "coste ex o' = Inr (tot, pl, tam)" "indice_ok ex" "da ex o' bytes" "length bytes = unat tam"
    "unat base + unat tot < 2 ^ 64" "bloques_zona (unat base) (unat tot) \<subseteq> bloques_de k"
    "2515456000 < unat tam" "escribible k (bloques_zona (unat base) (unat tot))" "dispuesto d"
  shows "\<exists>n nd d'. traer ex o' pl tam base k d = (Inr n, d') \<and> nodo_decode n = Inr nd \<and>
    nd_tipo nd = Archivo \<and> leer_fichero k d' nd largo = None"
proof -
  obtain r d' where e: "traer ex o' pl tam base k d = (r, d')"
    by fastforce
  then obtain n where n: "r = Inr n"
    using traer_ok(1) [OF assms(1,2,5,6) e] assms(3,4,8,9) by (auto simp: toca_zona_def)
  obtain nd a p L t where t: "nodo_decode n = Inr nd" "nd_tipo nd = Archivo" "nodo_attr nd ATTR_DATOS = Some a"
    "datos_residentes a = None" "attr_raiz a = Some p" "at_levels a = pl_niveles pl"
    "guardado (read_block k d') L (niveles_de pl) p t"
    using traido [OF assms(1,2,5,6)] e n by blast
  have "\<not> niveles_de pl \<le> 3"
    using niveles_del_plan [OF plan_de_coste [OF assms(1)], of 3] assms(7) by simp
  then have "fst (bajar (read_block k d') (copia_lo_que_cabe largo) (niveles_de pl) 4 p []) = Inl SinScratch"
    by (intro bajar_sin_sitio [OF t(7)]) simp
  then have "flujo k d' a largo = None"
    using t(4-6) by (auto simp: flujo_def descender_def NIVELES_def split: prod.splits)
  then show ?thesis
    using t(1-3) e n by (simp add: leer_fichero_def)
qed

section \<open>An example: an obliging drive, and the memory of a process full of sevens\<close>

definition kernel_ej :: kernel where
  "kernel_ej = \<lparr>k_dispositivo = True, k_listo = True, k_armado = True, k_dma = 4096, k_total = 0, k_model = [],
     k_serial = [], k_legible = (\<lambda>_. True), k_datos = None, k_ventana = Some (0, 0xFFFFFFFF), k_montado = True,
     k_base = 0, k_particion = 0, k_super = None, k_identidad = True, k_fecha = 0\<rparr>"

definition disco_ej :: disco where
  "disco_ej = \<lparr>d_plato = (\<lambda>_. replicate 512 0), d_cache = [], d_resp = (\<lambda>_. Hecho 0)\<rparr>"

definition externo_ej :: externo where
  "externo_ej = \<lparr>ex_ahora = 0, ex_pid = 1, ex_tamano = (\<lambda>_. None), ex_abre = (\<lambda>_. False), ex_rango = (\<lambda>_ _ _. []),
     ex_mem = (\<lambda>_. 7), ex_indice = replicate 4 (replicate 4096 0)\<rparr>"

lemma ejemplo_disco: "dispuesto disco_ej" "indice_ok externo_ej"
  by (simp_all add: dispuesto_def disco_ej_def indice_ok_def externo_ej_def medidas list_all_length)

lemma ejemplo_bloques: "b + n \<le> 0x1FFFFFFF \<Longrightarrow> bloques_zona b n \<subseteq> bloques_de kernel_ej"
  by (auto simp: bloques_zona_def bloques_de_def kernel_ej_def unat_word_of_nat)

lemma ejemplo_escribible: "b + n \<le> 0x1FFFFFFF \<Longrightarrow> escribible kernel_ej (bloques_zona b n)"
proof -
  assume a: "b + n \<le> 0x1FFFFFFF"
  have "write_window kernel_ej (lba_de kernel_ej (word_of_nat x)) 8 = Inr ()" if "x < b + n" for x
  proof -
    have x: "x < 0x1FFFFFFF" "unat (word_of_nat x :: u64) = x"
      using that a by (simp_all add: unat_word_of_nat)
    then have "unat (lba_de kernel_ej (word_of_nat x)) = 8 * x"
      using unat_lba_de [of kernel_ej "word_of_nat x"] by (simp add: kernel_ej_def)
    then show ?thesis
      using x unfolding write_window_def decidir_def decidir_rango_permite_iff
      by (auto simp: kernel_ej_def sectores_de_def)
  qed
  then show ?thesis
    by (auto simp: escribible_def bloques_zona_def kernel_ej_def)
qed

lemma memoria_ej: "memoria externo_ej b n = replicate n 7"
  by (simp add: memoria_def externo_ej_def map_replicate_const)

lemma ejemplo_da: "da externo_ej (Ram b x) (replicate n 7)"
  by (auto simp: da_def abre_def cacho_de_def memoria_ej rodaja_def min_def)

lemma ejemplo_coste:
  "coste externo_ej (Ram 0 1) = Inr (1, \<lparr>pl_niveles = 0, pl_por_nivel = [1, 0, 0, 0, 0], pl_tot = 1\<rparr>, 1)"
  "coste externo_ej (Ram 0 2515456001) =
     Inr (621441, \<lparr>pl_niveles = 4, pl_por_nivel = [614126, 7226, 86, 2, 1], pl_tot = 621441\<rparr>, 2515456001)"
  by code_simp+

lemma fichero_vuelve_witness:
  "\<exists>n nd d'. traer externo_ej (Ram 0 1) \<lparr>pl_niveles = 0, pl_por_nivel = [1, 0, 0, 0, 0], pl_tot = 1\<rparr> 1 2 kernel_ej disco_ej
     = (Inr n, d') \<and> nodo_decode n = Inr nd \<and> leer_fichero kernel_ej d' nd 4096 = Some [7]"
proof -
  obtain r d' where e: "traer externo_ej (Ram 0 1) \<lparr>pl_niveles = 0, pl_por_nivel = [1, 0, 0, 0, 0], pl_tot = 1\<rparr> 1 2
      kernel_ej disco_ej = (r, d')"
    by fastforce
  show ?thesis
    using fichero_vuelve [OF ejemplo_coste(1) ejemplo_disco(2) ejemplo_da [of 0 1 1] _ _ _ _ _ e, of 4096]
      ejemplo_bloques [of 2 1] ejemplo_escribible [of 2 1] ejemplo_disco(1) e
    by (auto split: sum.splits)
qed

lemma cuatro_niveles_witness:
  "\<exists>n nd d'. traer externo_ej (Ram 0 2515456001)
      \<lparr>pl_niveles = 4, pl_por_nivel = [614126, 7226, 86, 2, 1], pl_tot = 621441\<rparr> 2515456001 2 kernel_ej disco_ej
     = (Inr n, d') \<and> nodo_decode n = Inr nd \<and> nd_tipo nd = Archivo \<and> leer_fichero kernel_ej d' nd 4096 = None"
  using cuatro_niveles_no_se_leen [OF ejemplo_coste(2) ejemplo_disco(2) ejemplo_da [of 0 2515456001 2515456001]
      _ _ _ _ _ ejemplo_disco(1), of 2 kernel_ej 4096] ejemplo_bloques [of 2 621441] ejemplo_escribible [of 2 621441]
  by simp

end
