(* ===== verification/Estratos_Corte.thy ===== *)
theory Estratos_Corte
  imports Estratos_Traer
begin

text \<open>
  What survives a power cut. A change of the volume writes only blocks that nobody uses, then the
  copy of the superblock that is not in use; so whatever the drive had put on the platter when the
  power went, mounting finds the volume as it was or as the change left it, whole.
\<close>

section \<open>The two copies of the superblock\<close>

text \<open>The sector of a block: the first of its eight.\<close>

definition copia_en :: "kernel \<Rightarrow> (u64 \<Rightarrow> sector) \<Rightarrow> u64 \<Rightarrow> u8 list" where
  "copia_en k m b = take SUPER_LEN (vista_bloque k m b)"

definition elige :: "kernel \<Rightarrow> (u64 \<Rightarrow> sector) \<Rightarrow> format_error + (superblock \<times> u64)" where
  "elige k m = pick_superblock (copia_en k m SUPER_A_BLOCK) (copia_en k m SUPER_B_BLOCK)"

definition sectores_ok :: "kernel \<Rightarrow> (u64 \<Rightarrow> sector) \<Rightarrow> bool" where
  "sectores_ok k m \<longleftrightarrow> length (m (lba_de k 0)) = 512 \<and> length (m (lba_de k 1)) = 512"

text \<open>
  The volume is mounted on a quiet drive: the superblock in memory is the one the two copies give,
  every block of the volume can be addressed and read, and nothing waits in the cache.
\<close>

definition montado :: "kernel \<Rightarrow> superblock \<Rightarrow> u64 \<Rightarrow> disco \<Rightarrow> bool" where
  "montado k sb copia d \<longleftrightarrow> k_super k = Some sb \<and> elige k (d_plato d) = Inr (sb, copia) \<and> d_cache d = [] \<and>
    sectores_ok k (d_plato d) \<and> sb_log_head sb \<le> sb_total_blocks sb \<and> SUPER_A_BLOCK \<in> bloques_de k \<and> SUPER_B_BLOCK \<in> bloques_de k \<and>
    (\<forall>b. b < sb_total_blocks sb \<longrightarrow> b \<in> bloques_de k)"

lemma upt_8: "[0 ..< 8] = [0, 1, 2, 3, 4, 5, 6, 7 :: nat]"
  by (simp add: upt_rec)

lemma copia_sector: "length (m (lba_de k b)) = 512 \<Longrightarrow> copia_en k m b = m (lba_de k b)"
  unfolding copia_en_def vista_bloque_def upt_8 by (simp add: medidas_super)

lemma elige_igual:
  "m (lba_de k 0) = m' (lba_de k 0) \<Longrightarrow> m (lba_de k 1) = m' (lba_de k 1) \<Longrightarrow>
   sectores_ok k m' \<Longrightarrow> elige k m = elige k m'"
  by (simp add: elige_def copia_sector sectores_ok_def medidas_super)

lemma elige_copia: "elige k m = Inr (sb, c) \<Longrightarrow> c = 0 \<or> c = 1"
  by (auto simp: elige_def pick_superblock_def medidas_super split: sum.splits if_splits)

lemma elige_super_ok: "elige k m = Inr (sb, c) \<Longrightarrow> super_ok sb"
  by (auto simp: elige_def pick_superblock_def intro: super_decode_ok split: sum.splits if_splits)

text \<open>A newer superblock in the other copy is the one that is taken.\<close>

lemma elige_nuevo:
  assumes "elige k m = Inr (sb, c)" "sectores_ok k m" "super_ok nuevo" "sb_generation sb < sb_generation nuevo"
    "lba_de k 0 \<noteq> lba_de k 1"
  shows "elige k (m(lba_de k (next_super_block c) := super_encode nuevo)) = Inr (nuevo, next_super_block c)"
proof -
  define e where "e = super_encode nuevo"
  have e: "length e = 512" "super_decode e = Inr nuevo"
    using assms(3) by (simp_all add: e_def length_super_encode super_decode_encode)
  define a b where "a = m (lba_de k 0)" and "b = m (lba_de k 1)"
  have p: "pick_superblock a b = Inr (sb, c)"
    using assms(1,2) by (simp add: elige_def copia_sector sectores_ok_def medidas_super a_def b_def)
  have c: "c = 0 \<or> c = 1"
    using assms(1) by (rule elige_copia)
  then have "elige k (m(lba_de k (next_super_block c) := e)) =
      (if c = 0 then pick_superblock a e else pick_superblock e b)"
    using assms(2,5) e(1)
    by (auto simp: elige_def copia_sector sectores_ok_def medidas_super next_super_block_def a_def b_def)
  also have "\<dots> = Inr (nuevo, next_super_block c)"
    using p c e(2) assms(4)
    by (auto simp: pick_superblock_def next_super_block_def medidas_super split: sum.splits if_splits)
  finally show ?thesis
    by (simp add: e_def)
qed

section \<open>The end of a publication\<close>

text \<open>
  \<open>d\<close> is the drive before the change, \<open>d1\<close> after its data, \<open>S\<close> the sectors the data went to. After
  the end of the publication the platter is, outside \<open>S\<close>, what it was, or it is all of \<open>d1\<close> and the
  new superblock.
\<close>

lemma tras_corte_avanza:
  assumes "avanza S d d1" "d_cache d = []" "tras_corte d1 m" "l \<notin> S"
  shows "m l = d_plato d l"
proof -
  obtain ws where "d_cache d1 = ws" "fst ` set ws \<subseteq> S" "d_plato d1 = d_plato d"
    using assms(1,2) by (auto simp: avanza_def)
  then show ?thesis
    using assms(3,4) by (force simp: tras_corte_def)
qed

lemma vuelca_dentro: "l \<in> fst ` set ws \<Longrightarrow> vuelca ws p l = vuelca ws p' l"
proof (induction ws arbitrary: p p')
  case (Cons w ws)
  obtain a x where w: "w = (a, x)"
    by fastforce
  show ?case
  proof (cases "l \<in> fst ` set ws")
    case True
    then show ?thesis
      unfolding w vuelca_Cons by (rule Cons.IH)
  next
    case False
    then have "l = a"
      using Cons.prems w by auto
    then show ?thesis
      using False by (simp add: w vuelca_fuera)
  qed
qed simp

lemma cmd_vacia_bien: "cmd_vacia d = (True, d') \<Longrightarrow> d_plato d' = visto d \<and> d_cache d' = []"
  by (auto simp: cmd_vacia_def split: respuesta.splits)

lemma cmd_vacia_mal:
  "cmd_vacia d = (False, d') \<Longrightarrow> d_cache d' = d_cache d \<and>
     (\<forall>l. d_plato d' l = d_plato d l \<or> (l, d_plato d' l) \<in> set (d_cache d))"
  using vuelca_casos set_elegidos
  by (fastforce simp: cmd_vacia_def split: respuesta.splits)

lemma tras_corte_vacia_mal: "cmd_vacia d = (False, d') \<Longrightarrow> tras_corte d' m \<Longrightarrow> tras_corte d m"
  using cmd_vacia_mal [of d d'] by (auto simp: tras_corte_def) metis

lemma numerados_uno: "numerados lba (trocea b 1) = [(lba, take 512 b)]"
  by (simp add: numerados_def trocea_def rodaja_def medidas_disco)

lemma elegidos_uno: "p \<in> set (elegidos bs [q]) \<Longrightarrow> p = q"
  using set_elegidos [of bs "[q]"] by auto

lemma disk_write_uno:
  assumes "disk_write k lba 1 b d = (n, d')" "length b = 512" "d_cache d = []"
  shows "d_plato d' = d_plato d \<and> set (d_cache d') \<subseteq> {(lba, b)} \<and> (n = 1 \<longrightarrow> d_cache d' = [(lba, b)])"
proof -
  have b: "take 512 b = b"
    using assms(2) by simp
  have nu: "numerados lba [] = []"
    by (simp add: numerados_def)
  have t: "tandas lba 1 b 0 d = (case cmd_escribe lba (trocea b 1) d of
      (None, d) \<Rightarrow> (0, d) | (Some n, d) \<Rightarrow> (cuenta_hba 1 n, d))"
    by (rule tandas_una) simp_all
  have c: "cmd_escribe lba (trocea b 1) d = (r, d') \<Longrightarrow> d_plato d' = d_plato d \<and> set (d_cache d') \<subseteq> {(lba, b)} \<and>
      (r \<noteq> None \<longrightarrow> d_cache d' = [(lba, b)])" for r
    using assms(3) numerados_uno [of lba b] b
    by (auto simp: cmd_escribe_def dest: elegidos_uno split: respuesta.splits if_splits)
  obtain r d2 where e: "cmd_escribe lba (trocea b 1) d = (r, d2)"
    using prod.exhaust by blast
  have "d' = d \<and> n = 0 \<or> d' = d2 \<and> (n = 1 \<longrightarrow> r \<noteq> None)"
    using assms(1) t e by (auto simp: disk_write_def split: sum.splits if_splits option.splits)
  then show ?thesis
    using c [of r] e assms(3) by auto
qed

text \<open>What a power cut may leave of a publication, and what one that came back leaves.\<close>

definition corte_limpio ::
    "kernel \<Rightarrow> superblock \<Rightarrow> u64 \<Rightarrow> u64 set \<Rightarrow> disco \<Rightarrow> (u64 \<Rightarrow> sector) \<Rightarrow> superblock \<Rightarrow> (u64 \<Rightarrow> sector) \<Rightarrow> bool" where
  "corte_limpio k sb copia S d v nuevo m \<longleftrightarrow>
    (\<forall>l. l \<notin> S \<longrightarrow> m l = d_plato d l) \<or>
    m = v(lba_de k (next_super_block copia) := super_encode nuevo)"

definition nuevo_de :: "superblock \<Rightarrow> u64 \<Rightarrow> block_ptr \<Rightarrow> superblock" where
  "nuevo_de sb head p = sb\<lparr>sb_generation := sb_generation sb + 1, sb_log_head := head, sb_estrato := p\<rparr>"

lemma visto_vacia: "cmd_vacia d = (b, d') \<Longrightarrow> visto d' = visto d"
proof -
  assume a: "cmd_vacia d = (b, d')"
  show ?thesis
  proof (cases b)
    case True
    then show ?thesis
      using cmd_vacia_bien [of d d'] a by (simp add: visto_def)
  next
    case False
    then have c: "d_cache d' = d_cache d" "\<And>l. d_plato d' l = d_plato d l \<or> (l, d_plato d' l) \<in> set (d_cache d)"
      using cmd_vacia_mal [of d d'] a by auto
    show ?thesis
    proof
      fix l
      show "visto d' l = visto d l"
      proof (cases "l \<in> fst ` set (d_cache d)")
        case True
        then show ?thesis
          unfolding visto_def c(1) by (rule vuelca_dentro)
      next
        case False
        then have "d_plato d' l = d_plato d l"
          using c(2) [of l] by force
        then show ?thesis
          using False by (simp add: visto_def c(1) vuelca_fuera)
      qed
    qed
  qed
qed

lemma remata_visto:
  assumes "tx_fase t = Datos" "tx_copia_en_uso t = copia" "remata k t p d = (r, k', d')" "l \<noteq> lba_de k (next_super_block copia)"
  shows "visto d' l = visto d l"
proof -
  have dest: "(if copia = SUPER_A_BLOCK then SUPER_B_BLOCK else SUPER_A_BLOCK) = next_super_block copia"
    by (simp add: next_super_block_def)
  obtain b1 x where x: "disk_flush k d = (b1, x)"
    by fastforce
  define nuevo where "nuevo = (tx_origen t)\<lparr>sb_generation := tx_generacion t + 1, sb_log_head := tx_log_head t, sb_estrato := p\<rparr>"
  obtain b2 y where y: "write_superblock k (next_super_block copia) (super_encode nuevo) x = (b2, y)"
    by fastforce
  obtain b3 z where z: "disk_flush k y = (b3, z)"
    by fastforce
  have "d' = x \<or> d' = y \<or> d' = z"
    using assms(1-3) x y z
    by (cases b1; cases b2; cases b3)
      (auto simp: remata_def cerrar_datos_def barrera_hecha_def tx_commit_def Let_def dest nuevo_def)
  moreover have f: "visto v = visto u" if "disk_flush k u = (b, v)" for u v b
    using that visto_vacia by (auto simp: disk_flush_def split: if_splits)
  moreover have "visto y l = visto x l"
    using avanza_visto [OF write_superblock_avanza [OF y]] assms(4) by simp
  ultimately show ?thesis
    using f [OF x] f [OF z] by auto
qed

lemma remata_corte:
  assumes "avanza S d d1" "d_cache d = []" "tx_fase t = Datos" "tx_origen t = sb"
    "tx_generacion t = sb_generation sb" "tx_copia_en_uso t = copia"
    "super_ok (nuevo_de sb (tx_log_head t) p)" "lba_de k (next_super_block copia) \<notin> S"
    "remata k t p d1 = (r, k', d')"
  shows "tras_corte d' m \<Longrightarrow> corte_limpio k sb copia S d (visto d1) (nuevo_de sb (tx_log_head t) p) m"
    "r = Inr g \<Longrightarrow> g = sb_generation sb + 1 \<and> d_cache d' = [] \<and>
       d_plato d' = (visto d1)(lba_de k (next_super_block copia) := super_encode (nuevo_de sb (tx_log_head t) p)) \<and>
       k' = fijar_superbloque (nuevo_de sb (tx_log_head t) p) k"
    "r = Inl e \<Longrightarrow> k' = k"
proof -
  define nuevo dest enc where "nuevo = nuevo_de sb (tx_log_head t) p" and "dest = next_super_block copia"
    and "enc = super_encode nuevo"
  have enc: "length enc = 512"
    using assms(7) by (simp add: enc_def nuevo_def length_super_encode)
  have dest: "(if copia = SUPER_A_BLOCK then SUPER_B_BLOCK else SUPER_A_BLOCK) = dest"
    by (simp add: dest_def next_super_block_def)
  have e: "remata k t p d1 = (case disk_flush k d1 of (False, d) \<Rightarrow> (Inl SinBarrera, k, d)
     | (True, d) \<Rightarrow> (case write_superblock k dest enc d of (False, d) \<Rightarrow> (Inl NoEscribio, k, d)
     | (True, d) \<Rightarrow> (case disk_flush k d of (False, d) \<Rightarrow> (Inl SinBarrera, k, d)
     | (True, d) \<Rightarrow> (Inr (sb_generation sb + 1), fijar_superbloque nuevo k, d))))"
    using assms(3-6) unfolding enc_def nuevo_def
    by (simp add: remata_def cerrar_datos_def barrera_hecha_def tx_commit_def Let_def dest nuevo_de_def
        split: prod.splits bool.splits)
  have fl: "disk_flush k x = (True, y) \<Longrightarrow> d_plato y = visto x \<and> d_cache y = []"
    "disk_flush k x = (False, y) \<Longrightarrow> tras_corte y m \<Longrightarrow> tras_corte x m" for x y m
    using cmd_vacia_bien [of x y] tras_corte_vacia_mal [of x y m] by (auto simp: disk_flush_def split: if_splits)
  have fuera: "visto d1 l = d_plato d l" if "l \<notin> S" for l
    using avanza_visto [OF assms(1) that] assms(2) by (simp add: visto_def)
  have viejo: "corte_limpio k sb copia S d (visto d1) nuevo m" if "tras_corte d1 m" for m
    using tras_corte_avanza [OF assms(1,2) that] by (simp add: corte_limpio_def)
  have medio: "corte_limpio k sb copia S d (visto d1) nuevo m"
    if "d_plato x = visto d1" "set (d_cache x) \<subseteq> {(lba_de k dest, enc)}" "tras_corte x m" for x m
  proof (cases "m (lba_de k dest) = enc")
    case True
    then have "m = (visto d1)(lba_de k dest := enc)"
      using that by (auto simp: tras_corte_def fun_eq_iff)
    then show ?thesis
      by (simp add: corte_limpio_def dest_def enc_def)
  next
    case False
    then have "m = visto d1"
      using that by (auto simp: tras_corte_def fun_eq_iff)
    then show ?thesis
      using fuera by (simp add: corte_limpio_def)
  qed
  have ws: "d_plato y = visto d1 \<and> set (d_cache y) \<subseteq> {(lba_de k dest, enc)} \<and>
      (b \<longrightarrow> d_cache y = [(lba_de k dest, enc)])"
    if "write_superblock k dest enc x = (b, y)" "d_plato x = visto d1" "d_cache x = []" for x y b
    using that disk_write_uno [OF _ enc that(3)] by (auto simp: write_superblock_def lba_de_def split: prod.splits)
  obtain b1 x where x: "disk_flush k d1 = (b1, x)"
    by fastforce
  obtain b2 y where y: "write_superblock k dest enc x = (b2, y)"
    by fastforce
  obtain b3 z where z: "disk_flush k y = (b3, z)"
    by fastforce
  have casos: "(\<not> b1 \<and> r = Inl SinBarrera \<and> k' = k \<and> d' = x) \<or> (b1 \<and> \<not> b2 \<and> r = Inl NoEscribio \<and> k' = k \<and> d' = y) \<or>
      (b1 \<and> b2 \<and> \<not> b3 \<and> r = Inl SinBarrera \<and> k' = k \<and> d' = z) \<or>
      (b1 \<and> b2 \<and> b3 \<and> r = Inr (sb_generation sb + 1) \<and> k' = fijar_superbloque nuevo k \<and> d' = z)"
    using assms(9) e x y z by (cases b1; cases b2; cases b3) auto
  have final: "d_cache z = [] \<and> d_plato z = (visto d1)(lba_de k dest := enc)" if "b1" "b2" "b3"
    using that fl(1) [of d1 x] fl(1) [of y z] ws [OF y] x z by (simp add: visto_def)
  have "corte_limpio k sb copia S d (visto d1) nuevo m" if m: "tras_corte d' m"
    using casos
  proof (elim disjE conjE)
    assume "\<not> b1" "d' = x"
    then show ?thesis
      using fl(2) [of d1 x m] x m viejo by simp
  next
    assume "b1" "d' = y"
    then show ?thesis
      using ws [OF y] fl(1) [of d1 x] x m by (intro medio [of y]) simp_all
  next
    assume "b1" "\<not> b3" "d' = z"
    then show ?thesis
      using ws [OF y] fl(1) [of d1 x] fl(2) [of y z m] x z m by (intro medio [of y]) simp_all
  next
    assume "b1" "b2" "b3" "d' = z"
    then have "m = (visto d1)(lba_de k dest := enc)"
      using final m by (auto simp: tras_corte_def fun_eq_iff)
    then show ?thesis
      by (simp add: corte_limpio_def dest_def enc_def)
  qed
  then show "tras_corte d' m \<Longrightarrow> corte_limpio k sb copia S d (visto d1) (nuevo_de sb (tx_log_head t) p) m"
    by (simp add: nuevo_def)
  show "g = sb_generation sb + 1 \<and> d_cache d' = [] \<and>
       d_plato d' = (visto d1)(lba_de k (next_super_block copia) := super_encode (nuevo_de sb (tx_log_head t) p)) \<and>
       k' = fijar_superbloque (nuevo_de sb (tx_log_head t) p) k" if "r = Inr g"
    using casos final that by (auto simp: dest_def enc_def nuevo_def)
  show "k' = k" if "r = Inl e"
    using casos that by auto
qed

section \<open>Every change, up to its end\<close>

text \<open>
  The shape of a change: data in free blocks, and then nothing more, or the end of a publication.
\<close>

definition tx_lista :: "superblock \<Rightarrow> u64 \<Rightarrow> nat \<Rightarrow> transaccion \<Rightarrow> bool" where
  "tx_lista sb copia n t \<longleftrightarrow> tx_fase t = Datos \<and> tx_origen t = sb \<and> tx_generacion t = sb_generation sb \<and>
     tx_copia_en_uso t = copia \<and> unat (tx_log_head t) = unat (sb_log_head sb) + n"

definition remate ::
    "kernel \<Rightarrow> superblock \<Rightarrow> u64 \<Rightarrow> nat \<Rightarrow> disco \<Rightarrow> write_error + u64 \<Rightarrow> kernel \<Rightarrow> disco \<Rightarrow> bool" where
  "remate k sb copia n d1 r k' d' \<longleftrightarrow>
    (\<exists>t p k1 f. tx_lista sb copia n t \<and> ptr_ok p \<and> remata k t p d1 = (r, k1, d') \<and>
       (k' = k1 \<or> (\<exists>g. r = Inr g) \<and> k' = k1\<lparr>k_fecha := f\<rparr>))"

definition publicacion ::
    "kernel \<Rightarrow> superblock \<Rightarrow> u64 \<Rightarrow> disco \<Rightarrow> write_error + u64 \<Rightarrow> kernel \<Rightarrow> disco \<Rightarrow> bool" where
  "publicacion k sb copia d r k' d' \<longleftrightarrow>
    (\<exists>n d1. (n = 0 \<or> unat (sb_log_head sb) + n \<le> unat (sb_total_blocks sb)) \<and>
       avanza (zona k (unat (sb_log_head sb)) n) d d1 \<and>
       ((\<exists>e. r = Inl e) \<and> k' = k \<and> d' = d1 \<or> remate k sb copia n d1 r k' d'))"

lemma publicacion_nada: "publicacion k sb copia d (Inl e) k d"
  unfolding publicacion_def by (intro exI [of _ 0] exI [of _ d]) simp

lemma publicacion_datos:
  "unat (sb_log_head sb) + n \<le> unat (sb_total_blocks sb) \<Longrightarrow> avanza (zona k (unat (sb_log_head sb)) n) d d' \<Longrightarrow>
   publicacion k sb copia d (Inl e) k d'"
  unfolding publicacion_def by (intro exI [of _ n] exI [of _ d']) simp

lemma publicacion_fin:
  assumes "n = 0 \<or> unat (sb_log_head sb) + n \<le> unat (sb_total_blocks sb)"
    "avanza (zona k (unat (sb_log_head sb)) n) d d1" "tx_lista sb copia n t" "ptr_ok p"
    "remata k t p d1 = (r, k1, d')" "k' = k1 \<or> (\<exists>g. r = Inr g) \<and> k' = k1\<lparr>k_fecha := f\<rparr>"
  shows "publicacion k sb copia d r k' d'"
proof -
  have "remate k sb copia n d1 r k' d'"
    unfolding remate_def using assms(3-6) by blast
  then show ?thesis
    unfolding publicacion_def using assms(1,2) by blast
qed

lemma con_fecha_casos:
  "con_fecha f (r1, k1, d1) = (r, k', d') \<Longrightarrow> r = r1 \<and> d' = d1 \<and> (k' = k1 \<or> (\<exists>g. r = Inr g) \<and> k' = k1\<lparr>k_fecha := f\<rparr>)"
  by (auto simp: con_fecha_def split: sum.splits)

lemma tx_open_campos:
  "tx_open sb copia ok = Inr t \<Longrightarrow> tx_fase t = Datos \<and> tx_origen t = sb \<and> tx_generacion t = sb_generation sb \<and>
     tx_copia_en_uso t = copia \<and> tx_log_head t = sb_log_head sb \<and> tx_tot t = sb_total_blocks sb"
  by (auto simp: tx_open_def Let_def split: if_splits)

lemma reserve_campos:
  assumes "tx_open sb copia ok = Inr t" "reserve n t = (Inr base, t')" "n \<noteq> 0"
  shows "base = sb_log_head sb" "unat (sb_log_head sb) + unat n \<le> unat (sb_total_blocks sb)"
    "tx_lista sb copia (unat n) t'"
  unfolding tx_lista_def using tx_open_campos [OF assms(1)] assms(2,3)
  by (auto simp: reserve_def unat_checked_add word_less_nat_alt not_less split: if_splits option.splits)

lemma publicacion_seal:
  assumes "k_super k = Some sb" "copia_en_uso k d = copia" "super_ok sb" "seal k d = (r, k', d')"
  shows "publicacion k sb copia d r k' d'"
proof (cases "tx_open sb copia (k_identidad k)")
  case (Inl e)
  then show ?thesis
    using assms publicacion_nada by (auto simp: seal_def)
next
  case (Inr t)
  then have re: "remata k t (sb_estrato sb) d = (r, k', d')" and p: "ptr_ok (sb_estrato sb)"
    using assms by (simp_all add: seal_def super_ok_def)
  have "tx_lista sb copia 0 t"
    using tx_open_campos [OF Inr] by (simp add: tx_lista_def)
  then show ?thesis
    by (rule publicacion_fin [OF disjI1 [OF refl] avanza_refl _ p re disjI1 [OF refl]])
qed

lemma ptr_estrato_ok: "ptr_ok rz \<Longrightarrow> ptr_ok padre \<Longrightarrow> ptr_ok (ptr_nuevo b 0 (estrato_encode (estrato_new rz padre t a m)))"
  by (rule ptr_ok_nuevo) (simp add: length_estrato_encode estrato_new_ok)

lemma publicacion_estrato:
  assumes "copia_en_uso k d = copia" "super_ok sb" "ptr_ok rz"
    "publica_estrato cuando pid k sb rz nombre d = (r, k', d')"
  shows "publicacion k sb copia d r k' d'"
proof (cases "tx_open sb copia (k_identidad k)")
  case (Inl e)
  then show ?thesis
    using assms publicacion_nada by (auto simp: publica_estrato_def)
next
  case (Inr t)
  obtain x t' where re: "reserve 1 t = (x, t')"
    by fastforce
  show ?thesis
  proof (cases x)
    case Inl
    then show ?thesis
      using assms Inr re publicacion_nada by (auto simp: publica_estrato_def)
  next
    case base: (Inr base)
    note c = reserve_campos [OF Inr re [unfolded base]]
    define b where "b = estrato_encode (estrato_new rz (sb_estrato sb) cuando (Proceso pid) nombre)"
    obtain y d1 where po: "poner k base b d = (y, d1)"
      by fastforce
    have z: "avanza (zona k (unat (sb_log_head sb)) 1) d d1"
      using poner_zona [OF po, of "unat (sb_log_head sb)" 1] c(1) by simp
    show ?thesis
    proof (cases y)
      case Inl
      then show ?thesis
        using assms(1,4) Inr re base po z c publicacion_datos [of sb 1 k d d1]
        by (auto simp: publica_estrato_def Let_def b_def)
    next
      case (Inr u)
      obtain r1 k1 d2 where rm: "remata k t' (ptr_nuevo base 0 b) d1 = (r1, k1, d2)"
        using prod_cases3 by blast
      then have cf: "con_fecha cuando (r1, k1, d2) = (r, k', d')"
        using assms(1,4) \<open>tx_open _ _ _ = Inr t\<close> re base po Inr
        by (simp add: publica_estrato_def Let_def b_def)
      have "ptr_ok (ptr_nuevo base 0 b)"
        unfolding b_def using assms(2,3) by (intro ptr_estrato_ok) (simp_all add: super_ok_def)
      moreover have "remata k t' (ptr_nuevo base 0 b) d1 = (r, k1, d')"
        using rm con_fecha_casos [OF cf] by simp
      ultimately show ?thesis
        using publicacion_fin [OF _ z _ _ _ con_fecha_casos [OF cf, THEN conjunct2, THEN conjunct2]] c by simp
    qed
  qed
qed

subsection \<open>A gesture\<close>

definition bloques_de_flujo :: "(origen \<times> u64 \<times> plan \<times> u32) option \<Rightarrow> nat" where
  "bloques_de_flujo fl = (case fl of None \<Rightarrow> 0 | Some (_, tot, _, _) \<Rightarrow> unat tot)"

definition flujo_ok :: "externo \<Rightarrow> (origen \<times> u64 \<times> plan \<times> u32) option \<Rightarrow> bool" where
  "flujo_ok ex fl \<longleftrightarrow> (\<forall>o' tot pl tam. fl = Some (o', tot, pl, tam) \<longrightarrow> coste ex o' = Inr (tot, pl, tam))"

lemma flujo_de_ok: "flujo_de ex g = Inr fl \<Longrightarrow> flujo_ok ex fl"
  by (auto simp: flujo_de_def flujo_ok_def split: option.splits sum.splits)

lemma flujo_chico: "flujo_ok ex fl \<Longrightarrow> bloques_de_flujo fl < 2 ^ 63"
proof (cases fl)
  case (Some x)
  assume ok: "flujo_ok ex fl"
  obtain o' tot pl tam where x: "x = (o', tot, pl, tam)"
    by (cases x) auto
  then have c: "coste ex o' = Inr (tot, pl, tam)"
    using ok Some by (simp add: flujo_ok_def)
  then have "tot = pl_tot pl"
    by (auto simp: coste_def split: option.splits if_splits)
  then show ?thesis
    using plan_de_ok(4) [OF plan_de_coste [OF c]] Some x by (simp add: bloques_de_flujo_def)
qed (simp add: bloques_de_flujo_def)

lemma zona_bloques: "zona k a n = sectores_de_bloques k (bloques_zona a n)"
  by (simp add: zona_def bloques_zona_def)

lemma pon_objeto_zona:
  assumes "flujo_ok ex fl" "indice_ok ex" "unat c + bloques_de_flujo fl + 1 < 2 ^ 64"
    "bloques_zona (unat c) (bloques_de_flujo fl) \<subseteq> bloques_de k"
    "pon_objeto ex k fl objeto hay c d = (r, d')"
  shows "avanza (zona k (unat c) (bloques_de_flujo fl + (if hay then 1 else 0))) d d' \<and>
    (\<forall>p c'. r = Inr (p, c') \<longrightarrow> unat c' = unat c + bloques_de_flujo fl + (if hay then 1 else 0))"
proof -
  define F where "F = bloques_de_flujo fl"
  define R where "R = (case fl of None \<Rightarrow> (Inr (objeto, c), d)
     | Some (o', bloques, plan, tam) \<Rightarrow> (case traer ex o' plan tam c k d of
         (Inl e, d) \<Rightarrow> (Inl e, d) | (Inr b, d) \<Rightarrow> (Inr (b, c + bloques), d)))"
  obtain x d1 where R: "R = (x, d1)"
    by fastforce
  have 1: "avanza (zona k (unat c) F) d d1 \<and> (\<forall>b c1. x = Inr (b, c1) \<longrightarrow> unat c1 = unat c + F)"
  proof (cases fl)
    case None
    then show ?thesis
      using R by (auto simp: R_def F_def bloques_de_flujo_def)
  next
    case (Some y)
    then obtain o' tot pl tam where y: "fl = Some (o', tot, pl, tam)"
      by (cases y) auto
    then have c: "coste ex o' = Inr (tot, pl, tam)" and F: "F = unat tot"
      using assms(1) by (auto simp: flujo_ok_def F_def bloques_de_flujo_def)
    obtain z d2 where t: "traer ex o' pl tam c k d = (z, d2)"
      by fastforce
    have "toca_zona k (bloques_zona (unat c) (unat tot)) ((\<exists>bytes. da ex o' bytes \<and> length bytes = unat tam) \<longrightarrow> (\<exists>n. z = Inr n)) d d2"
      by (rule traer_ok(1) [OF c assms(2) _ _ t]) (use assms(3,4) F F_def in simp_all)
    then have "avanza (zona k (unat c) F) d d2"
      by (simp add: toca_zona_def zona_bloques F)
    moreover have "unat (c + tot) = unat c + unat tot"
      using assms(3) F F_def by (simp add: unat_add_small)
    ultimately show ?thesis
      using R t y F by (auto simp: R_def split: sum.splits)
  qed
  have m: "zona k (unat c) F \<subseteq> zona k (unat c) (F + (if hay then 1 else 0))"
    by (rule zona_mono) simp_all
  have e: "pon_objeto ex k fl objeto hay c d = (case x of Inl e \<Rightarrow> (Inl e, d1)
     | Inr (objeto, cursor) \<Rightarrow>
         if hay then (case poner k cursor objeto d1 of (Inl e, d) \<Rightarrow> (Inl e, d)
           | (Inr _, d) \<Rightarrow> (Inr (Some (ptr_nuevo cursor 0 objeto), cursor + 1), d))
         else (Inr (None, cursor), d1))"
    using R by (simp add: pon_objeto_def R_def [symmetric] split: sum.splits)
  show ?thesis
  proof (cases x)
    case Inl
    then show ?thesis
      using e assms(5) 1 avanza_mono [OF _ m] by (auto simp: F_def)
  next
    case (Inr y)
    then obtain b c1 where x: "x = Inr (b, c1)"
      by (cases y) auto
    show ?thesis
    proof (cases hay)
      case False
      then show ?thesis
        using e assms(5) 1 x by (auto simp: F_def)
    next
      case True
      have c1: "unat c1 = unat c + F" "unat (c1 + 1) = unat c + F + 1"
        using 1 x assms(3) F_def by (simp_all add: unat_add_small)
      obtain z d2 where po: "poner k c1 b d1 = (z, d2)"
        by fastforce
      have "avanza (zona k (unat c) (F + 1)) d1 d2"
        using poner_zona [OF po] c1(1) by simp
      moreover have "avanza (zona k (unat c) (F + 1)) d d1"
        using avanza_mono [OF conjunct1 [OF 1] m] True by simp
      ultimately have "avanza (zona k (unat c) (F + 1)) d d2"
        using avanza_trans by blast
      then show ?thesis
        using e assms(5) x True po c1(2) by (auto simp: F_def split: sum.splits)
    qed
  qed
qed

lemma poner_ptr_ok: "poner k c b d = (Inr u, d') \<Longrightarrow> ptr_ok (ptr_nuevo c 0 b)"
  using poner_lee_bien(1) [of k c b d d'] by (simp add: ptr_ok_nuevo)

lemma pon_carpeta_ptr: "pon_carpeta k c n e d = (Inr p, d') \<Longrightarrow> ptr_ok p"
  by (auto simp: pon_carpeta_def Let_def split: sum.splits prod.splits if_splits intro: poner_ptr_ok)

lemma republica_ptr:
  "republica k g po nodos nombres n hijo c d = Some (Inr (Some p, c'), d') \<Longrightarrow>
   (\<And>q. hijo = Some q \<Longrightarrow> ptr_ok q) \<Longrightarrow> ptr_ok p"
proof (induction n arbitrary: hijo c d)
  case (Suc n)
  then obtain m es q d1 where "pon_carpeta k c m es d = (Inr q, d1)"
      "republica k g po nodos nombres n (Some q) (c + 2) d1 = Some (Inr (Some p, c'), d')"
    by (auto split: sum.splits option.splits prod.splits if_splits)
  then show ?case
    using Suc.IH pon_carpeta_ptr by blast
qed simp

lemma unat_cuesta:
  assumes "flujo_ok ex fl" "n \<le> 9"
  shows "unat (cuesta g fl n) = unat (bloques_de_objeto g) + bloques_de_flujo fl + 2 * n + 1"
proof -
  define F :: u64 where "F = (case fl of None \<Rightarrow> 0 | Some (_, b, _, _) \<Rightarrow> b)"
  have F: "unat F = bloques_de_flujo fl" "unat F < 2 ^ 63"
    using flujo_chico [OF assms(1)] by (auto simp: F_def bloques_de_flujo_def split: option.splits)
  have o1: "unat (bloques_de_objeto g) \<le> 1"
    by (cases g) simp_all
  have n2: "unat (2 * word_of_nat n :: u64) = 2 * n"
    using assms(2) by (simp add: unat_word_ariths unat_word_of_nat)
  have "unat (bloques_de_objeto g + F) = unat (bloques_de_objeto g) + unat F"
    using F o1 by (simp add: unat_add_small)
  then have "unat (bloques_de_objeto g + F + 2 * word_of_nat n) = unat (bloques_de_objeto g) + unat F + 2 * n"
    using F o1 n2 assms(2) by (subst unat_add_small) simp_all
  then show ?thesis
    unfolding cuesta_def F_def [symmetric] using F o1 n2 assms(2) by (subst unat_add_small) simp_all
qed

text \<open>The path: as many names as levels below the root, at most eight.\<close>

lemma baja_tramos_largo:
  "baja_tramos k d ts nodos nombres = Inr (ns, nms) \<Longrightarrow> length nodos = length nombres + 1 \<Longrightarrow> length nombres \<le> 8 \<Longrightarrow>
   length ns = length nms + 1 \<and> length nms \<le> 8"
  by (induction k d ts nodos nombres rule: baja_tramos.induct)
    (auto simp: HONDO_MAX_def split: if_splits option.splits)

lemma resolver_largo: "resolver k d ruta = Inr (ns, nms) \<Longrightarrow> length ns = length nms + 1 \<and> length nms \<le> 8"
  by (auto simp: resolver_def dest: baja_tramos_largo split: option.splits)

lemma objeto_de_hay: "objeto_de g = Inr (b, hay) \<Longrightarrow> unat (bloques_de_objeto g) = (if hay then 1 else 0)"
  by (cases g) (auto simp: objeto_de_def split: sum.splits)

lemma publicacion_rama:
  assumes "copia_en_uso k d = copia" "super_ok sb" "flujo_ok ex fl" "indice_ok ex" "length nombres \<le> 8"
    "unat (bloques_de_objeto g) = (if hay then 1 else 0)"
    "\<And>b. b < sb_total_blocks sb \<Longrightarrow> b \<in> bloques_de k"
    "publica_rama ex k g sb nodos nombres objeto hay fl d = Some (r, k', d')"
  shows "publicacion k sb copia d r k' d'"
proof (cases "tx_open sb copia (k_identidad k)")
  case (Inl e)
  then show ?thesis
    using assms(1,8) publicacion_nada by (auto simp: publica_rama_def)
next
  case op: (Inr t)
  define n where "n = length nombres + 1"
  define N where "N = bloques_de_flujo fl + (if hay then 1 else 0) + 2 * n + 1"
  have uN: "unat (cuesta g fl n) = N"
    using unat_cuesta [OF assms(3), of n g] assms(5,6) by (simp add: n_def N_def)
  obtain x t' where re: "reserve (cuesta g fl n) t = (x, t')"
    by fastforce
  show ?thesis
  proof (cases x)
    case Inl
    then show ?thesis
      using assms(1,8) op re publicacion_nada by (auto simp: publica_rama_def n_def)
  next
    case base: (Inr base)
    have "cuesta g fl n \<noteq> 0"
      using uN by (auto simp: N_def)
    note c = reserve_campos [OF op re [unfolded base] this, unfolded uN]
    define a where "a = unat (sb_log_head sb)"
    have cabe: "a + N < 2 ^ 64"
      using c(2) unat_u64 [of "sb_total_blocks sb"] unfolding a_def by linarith
    have bl: "bloques_zona (unat base) (bloques_de_flujo fl) \<subseteq> bloques_de k"
    proof
      fix y
      assume "y \<in> bloques_zona (unat base) (bloques_de_flujo fl)"
      then obtain i where i: "y = word_of_nat i" "i < unat (sb_log_head sb) + bloques_de_flujo fl"
        using c(1) by (auto simp: bloques_zona_def)
      then have "i < unat (sb_total_blocks sb)"
        using c(2) by (simp add: N_def)
      moreover from this have "i < 2 ^ 64"
        using unat_u64 [of "sb_total_blocks sb"] by linarith
      then have "unat y = i"
        using i(1) by (simp add: unat_word_of_nat)
      ultimately show "y \<in> bloques_de k"
        using assms(7) by (simp add: word_less_nat_alt)
    qed
    obtain y d1 where po: "pon_objeto ex k fl objeto hay base d = (y, d1)"
      by fastforce
    have z1: "avanza (zona k a (bloques_de_flujo fl + (if hay then 1 else 0))) d d1"
      and u1: "\<And>p c'. y = Inr (p, c') \<Longrightarrow> unat c' = a + bloques_de_flujo fl + (if hay then 1 else 0)"
      using pon_objeto_zona [OF assms(3,4) _ bl po] cabe c(1) by (auto simp: a_def N_def)
    have z1': "avanza (zona k a N) d d1"
      by (rule avanza_mono [OF z1], rule zona_mono) (simp_all add: N_def)
    note datos = publicacion_datos [OF c(2), folded a_def]
    show ?thesis
    proof (cases y)
      case Inl
      then show ?thesis
        using assms(1,8) op re base po datos [OF z1'] by (auto simp: publica_rama_def n_def)
    next
      case (Inr yy)
      then obtain p_obj c1 where y: "y = Inr (p_obj, c1)"
        by (cases yy) auto
      note uc1 = u1 [OF y]
      obtain z where rr: "republica k g p_obj nodos nombres n None c1 d1 = Some z"
        using assms(1,8) op re base po y by (auto simp: publica_rama_def n_def split: option.splits)
      then obtain rz d2 where rp: "republica k g p_obj nodos nombres n None c1 d1 = Some (rz, d2)"
        by (cases z) auto
      have z2: "avanza (zona k (unat c1) (2 * n)) d1 d2" and u2: "\<And>h c'. rz = Inr (h, c') \<Longrightarrow> unat c' = unat c1 + 2 * n"
        using republica_zona [OF rp] cabe uc1 by (auto simp: N_def)
      have "avanza (zona k a N) d1 d2"
        by (rule avanza_mono [OF z2], rule zona_mono) (simp_all add: uc1 N_def)
      then have z2': "avanza (zona k a N) d d2"
        using z1' avanza_trans by blast
      show ?thesis
      proof (cases "\<exists>p c2. rz = Inr (Some p, c2)")
        case False
        then have "(\<exists>e. r = Inl e) \<and> k' = k \<and> d' = d2"
          using assms(1,8) op re base po y rp
          by (auto simp: publica_rama_def n_def split: sum.splits option.splits prod.splits)
        then show ?thesis
          using datos [OF z2'] by auto
      next
        case True
        then obtain p c2 where rz: "rz = Inr (Some p, c2)"
          by blast
        have p: "ptr_ok p"
          using republica_ptr [OF rp [unfolded rz]] by simp
        define b where "b = estrato_encode (estrato_new p (sb_estrato sb) (ex_ahora ex) (Proceso (ex_pid ex)) [])"
        obtain w d3 where pe: "poner k c2 b d2 = (w, d3)"
          by fastforce
        have "avanza (zona k a N) d2 d3"
          by (rule poner_zona [OF pe]) (simp_all add: u2 [OF rz] uc1 N_def)
        then have z3: "avanza (zona k a N) d d3"
          using z2' avanza_trans by blast
        show ?thesis
        proof (cases w)
          case Inl
          then show ?thesis
            using assms(1,8) op re base po y rp rz pe datos [OF z3]
            by (auto simp: publica_rama_def n_def b_def Let_def)
        next
          case w: (Inr u)
          obtain r1 k1 d4 where rm: "remata k t' (ptr_nuevo c2 0 b) d3 = (r1, k1, d4)"
            using prod_cases3 by blast
          then have cf: "con_fecha (ex_ahora ex) (r1, k1, d4) = (r, k', d')"
            using assms(1,8) op re base po y rp rz pe w by (simp add: publica_rama_def n_def b_def Let_def)
          have pk: "ptr_ok (ptr_nuevo c2 0 b)"
            using pe w poner_ptr_ok by blast
          have rm': "remata k t' (ptr_nuevo c2 0 b) d3 = (r, k1, d')"
            using rm con_fecha_casos [OF cf] by simp
          show ?thesis
            by (rule publicacion_fin [OF _ z3 [unfolded a_def] c(3) pk rm' con_fecha_casos [OF cf, THEN conjunct2, THEN conjunct2]])
              (use c(2) in simp)
        qed
      qed
    qed
  qed
qed

lemma estrato_en_ok: "estrato_en k d p = Some e \<Longrightarrow> ptr_ok (es_raiz e) \<and> ptr_ok (es_padre e)"
  by (auto simp: estrato_en_def estrato_ok_def dest: estrato_decode_ok split: option.splits sum.splits)

lemma raiz_de_hace_ok: "raiz_de_hace k d p n = Inr (Some q) \<Longrightarrow> ptr_ok q"
  by (induction n arbitrary: p) (auto dest: estrato_en_ok split: if_splits option.splits)

lemma copia_en_uso_montado: "montado k sb copia d \<Longrightarrow> copia_en_uso k d = copia"
proof -
  assume m: "montado k sb copia d"
  then have v: "visto d = d_plato d"
    by (simp add: montado_def visto_def)
  have "read_block_from k (k_base k) b d = Some (vista_bloque k (d_plato d) b)" if "b \<in> bloques_de k" for b
    using lee_bloque [OF that] by (simp add: read_block_def v)
  then show ?thesis
    using m by (simp add: copia_en_uso_def montado_def elige_def copia_en_def)
qed

lemma aplicar_publicacion:
  assumes "montado k sb copia d" "indice_ok ex" "aplicar ex k c d = Some (r, k', d')"
  shows "publicacion k sb copia d r k' d'"
proof -
  note cu = copia_en_uso_montado [OF assms(1)]
  have sb: "k_super k = Some sb" "super_ok sb" "\<And>b. b < sb_total_blocks sb \<Longrightarrow> b \<in> bloques_de k"
    using assms(1) by (auto simp: montado_def intro: elige_super_ok)
  show ?thesis
  proof (cases c)
    case Sellar
    then show ?thesis
      using assms(3) publicacion_seal [OF sb(1) cu sb(2)] by (simp add: aplicar_def)
  next
    case (Marcar nombre)
    then have e: "marcar (ex_ahora ex) (ex_pid ex) k nombre d = (r, k', d')"
      using assms(3) by (simp add: aplicar_def)
    show ?thesis
    proof (cases "nombre = [] \<or> estrato_actual k d = None")
      case True
      then show ?thesis
        using e sb(1) publicacion_nada by (auto simp: marcar_def split: if_splits option.splits)
    next
      case False
      then obtain ac where ac: "estrato_actual k d = Some ac"
        by blast
      then have "ptr_ok (es_raiz ac)"
        using sb(1) by (auto simp: estrato_actual_def dest: estrato_en_ok split: if_splits)
      then show ?thesis
        using publicacion_estrato [OF cu sb(2)] e sb(1) False ac by (simp add: marcar_def)
    qed
  next
    case (Volver n)
    then have e: "volver (ex_ahora ex) (ex_pid ex) k n d = (r, k', d')"
      using assms(3) by (simp add: aplicar_def)
    show ?thesis
    proof (cases "\<exists>rz. n \<noteq> 0 \<and> raiz_de_hace k d (sb_estrato sb) n = Inr (Some rz)")
      case False
      then show ?thesis
        using e sb(1) publicacion_nada
        by (auto simp: volver_def simp del: raiz_de_hace.simps split: if_splits option.splits sum.splits)
    next
      case True
      then obtain rz where rz: "n \<noteq> 0" "raiz_de_hace k d (sb_estrato sb) n = Inr (Some rz)"
        by blast
      then show ?thesis
        using publicacion_estrato [OF cu sb(2) raiz_de_hace_ok [OF rz(2)]] e sb(1)
        by (simp add: volver_def del: raiz_de_hace.simps)
    qed
  next
    case (Gesto ruta g)
    then have e: "publicar ex k ruta g d = Some (r, k', d')"
      using assms(3) by (simp add: aplicar_def)
    consider (nada) "\<exists>e. r = Inl e" "k' = k" "d' = d"
      | (rama) ns nms b hay fl where "resolver k d ruta = Inr (ns, nms)" "objeto_de g = Inr (b, hay)"
          "flujo_de ex g = Inr fl" "publica_rama ex k g sb ns nms b hay fl d = Some (r, k', d')"
      using e sb(1) by (auto simp: publicar_def split: sum.splits)
    then show ?thesis
    proof cases
      case nada
      then show ?thesis
        using publicacion_nada by auto
    next
      case rama
      then show ?thesis
        using publicacion_rama [OF cu sb(2) flujo_de_ok [OF rama(3)] assms(2) _ objeto_de_hay [OF rama(2)] sb(3) rama(4)]
          resolver_largo [OF rama(1)] by blast
    qed
  qed
qed

section \<open>A power cut\<close>

text \<open>The blocks from the first after the superblocks up to \<open>head\<close>.\<close>

definition mismos_bloques :: "kernel \<Rightarrow> u64 \<Rightarrow> (u64 \<Rightarrow> sector) \<Rightarrow> (u64 \<Rightarrow> sector) \<Rightarrow> bool" where
  "mismos_bloques k head m m' \<longleftrightarrow> (\<forall>b. 2 \<le> b \<and> b < head \<longrightarrow> vista_bloque k m b = vista_bloque k m' b)"

lemma corte_publicacion:
  assumes m: "montado k sb copia d" and g: "sb_generation sb \<noteq> - 1" and p: "publicacion k sb copia d r k' d'"
  shows "tras_corte d' m \<Longrightarrow>
      elige k m = Inr (sb, copia) \<and> mismos_bloques k (sb_log_head sb) m (d_plato d) \<or>
      (\<exists>head q. elige k m = Inr (nuevo_de sb head q, next_super_block copia) \<and> sb_log_head sb \<le> head \<and>
         head \<le> sb_total_blocks sb \<and> mismos_bloques k head m (visto d') \<and> mismos_bloques k (sb_log_head sb) m (d_plato d))"
    "r = Inr gen \<Longrightarrow> \<exists>head q. montado k' (nuevo_de sb head q) (next_super_block copia) d' \<and> sb_log_head sb \<le> head \<and>
         gen = sb_generation sb + 1 \<and> mismos_bloques k (sb_log_head sb) (d_plato d') (d_plato d)"
proof -
  obtain n d1 where n: "n = 0 \<or> unat (sb_log_head sb) + n \<le> unat (sb_total_blocks sb)"
    and a: "avanza (zona k (unat (sb_log_head sb)) n) d d1"
    and fin: "(\<exists>e. r = Inl e) \<and> k' = k \<and> d' = d1 \<or> remate k sb copia n d1 r k' d'"
    using p unfolding publicacion_def by blast
  define S where "S = zona k (unat (sb_log_head sb)) n"
  have mo: "elige k (d_plato d) = Inr (sb, copia)" "d_cache d = []" "sectores_ok k (d_plato d)"
    "sb_log_head sb \<le> sb_total_blocks sb" "0 \<in> bloques_de k" "1 \<in> bloques_de k"
    "\<And>b. b < sb_total_blocks sb \<Longrightarrow> b \<in> bloques_de k"
    using m by (auto simp: montado_def medidas_super)
  have sok: "super_ok sb"
    using elige_super_ok [OF mo(1)] .
  then have lh2: "2 \<le> unat (sb_log_head sb)"
    by (simp add: super_ok_def word_le_nat_alt)
  have fuera: "sectores_bloque k b \<inter> S = {}" if b: "b \<in> bloques_de k" "b < sb_log_head sb" for b
  proof -
    have "sectores_bloque k b \<inter> sectores_bloque k (word_of_nat x) = {}"
      if x: "x \<in> {unat (sb_log_head sb) ..< unat (sb_log_head sb) + n}" for x
    proof -
      have x': "x < unat (sb_total_blocks sb)"
        using x n by auto
      then have "x < 2 ^ 64"
        using unat_u64 [of "sb_total_blocks sb"] by linarith
      then have ux: "unat (word_of_nat x :: u64) = x"
        by (simp add: unat_word_of_nat)
      then have "word_of_nat x \<in> bloques_de k"
        using mo(7) x' by (simp add: word_less_nat_alt)
      moreover have "b \<noteq> word_of_nat x"
        using b(2) x ux by (auto simp: word_less_nat_alt)
      ultimately show ?thesis
        using sectores_disjuntos b(1) by blast
    qed
    then show ?thesis
      unfolding S_def zona_def sectores_de_bloques_def by blast
  qed
  have super: "lba_de k 0 \<notin> S" "lba_de k 1 \<notin> S" "lba_de k 0 \<noteq> lba_de k 1"
  proof -
    have l: "lba_de k b \<in> sectores_bloque k b" for b
      unfolding sectores_bloque_def tramo_sectores_def by (rule image_eqI [of _ _ 0]) simp_all
    show "lba_de k 0 \<notin> S" "lba_de k 1 \<notin> S"
      using fuera [of 0] fuera [of 1] mo(5,6) lh2 l by (auto simp: word_less_nat_alt)
    show "lba_de k 0 \<noteq> lba_de k 1"
      using sectores_disjuntos [OF mo(5,6)] l [of 0] l [of 1] by auto
  qed
  have copia01: "copia = 0 \<or> copia = 1"
    using elige_copia [OF mo(1)] .
  define dest where "dest = lba_de k (next_super_block copia)"
  have destS: "dest \<notin> S" "dest = lba_de k 0 \<or> dest = lba_de k 1"
    using super copia01 by (auto simp: dest_def next_super_block_def medidas_super)
  have dest_fuera: "dest \<notin> sectores_bloque k b" if "2 \<le> b" "b < sb_total_blocks sb" for b
  proof -
    have "b \<in> bloques_de k" "b \<noteq> 0" "b \<noteq> 1"
      using mo(7) that by (auto simp: word_le_nat_alt)
    then have "sectores_bloque k b \<inter> sectores_bloque k 0 = {}" "sectores_bloque k b \<inter> sectores_bloque k 1 = {}"
      using sectores_disjuntos mo(5,6) by blast+
    moreover have "lba_de k c \<in> sectores_bloque k c" for c
      unfolding sectores_bloque_def tramo_sectores_def by (rule image_eqI [of _ _ 0]) simp_all
    ultimately show ?thesis
      using destS(2) by blast
  qed
  have v1: "visto d1 l = d_plato d l" if "l \<notin> S" for l
    using avanza_visto [OF a] that mo(2) by (simp add: S_def visto_def)
  have viejos: "mismos_bloques k (sb_log_head sb) m (d_plato d)"
    if "\<And>l. l \<notin> S \<Longrightarrow> l \<noteq> dest \<Longrightarrow> m l = d_plato d l" for m
    unfolding mismos_bloques_def
  proof (intro allI impI)
    fix b
    assume b: "2 \<le> b \<and> b < sb_log_head sb"
    then have "b < sb_total_blocks sb"
      using mo(4) by auto
    then have "sectores_bloque k b \<inter> S = {}" "dest \<notin> sectores_bloque k b"
      using fuera mo(7) b dest_fuera by auto
    then show "vista_bloque k m b = vista_bloque k (d_plato d) b"
      using that by (intro vista_bloque_igual) blast
  qed
  have viejo: "elige k m = Inr (sb, copia) \<and> mismos_bloques k (sb_log_head sb) m (d_plato d)"
    if "\<And>l. l \<notin> S \<Longrightarrow> m l = d_plato d l" for m
    using elige_igual [of m k "d_plato d"] mo(1,3) super that viejos by auto
  have remate: "(tras_corte d' m \<longrightarrow>
        elige k m = Inr (sb, copia) \<and> mismos_bloques k (sb_log_head sb) m (d_plato d) \<or>
        (\<exists>head q. elige k m = Inr (nuevo_de sb head q, next_super_block copia) \<and> sb_log_head sb \<le> head \<and>
           head \<le> sb_total_blocks sb \<and> mismos_bloques k head m (visto d') \<and> mismos_bloques k (sb_log_head sb) m (d_plato d))) \<and>
      (\<forall>gen. r = Inr gen \<longrightarrow> (\<exists>head q. montado k' (nuevo_de sb head q) (next_super_block copia) d' \<and> sb_log_head sb \<le> head \<and>
         gen = sb_generation sb + 1 \<and> mismos_bloques k (sb_log_head sb) (d_plato d') (d_plato d)))"
    if re: "remate k sb copia n d1 r k' d'" for m
  proof -
    obtain t q k1 f where t: "tx_lista sb copia n t" "ptr_ok q" "remata k t q d1 = (r, k1, d')"
        "k' = k1 \<or> (\<exists>g. r = Inr g) \<and> k' = k1\<lparr>k_fecha := f\<rparr>"
      using re unfolding remate_def by blast
    define head where "head = tx_log_head t"
    define nuevo where "nuevo = nuevo_de sb head q"
    have uh: "unat head = unat (sb_log_head sb) + n"
      using t(1) by (simp add: tx_lista_def head_def)
    have hd: "sb_log_head sb \<le> head" "head \<le> sb_total_blocks sb"
      using uh n mo(4) by (auto simp: word_le_nat_alt)
    have nok: "super_ok nuevo"
      using sok t(2) hd uh lh2 by (auto simp: super_ok_def nuevo_def nuevo_de_def word_le_nat_alt)
    have "unat (1 + sb_generation sb) = Suc (unat (sb_generation sb))"
      using g by (intro unatSuc) (simp add: add_eq_0_iff)
    then have gen: "sb_generation sb < sb_generation nuevo"
      by (simp add: nuevo_def nuevo_de_def word_less_nat_alt add.commute)
    have txf: "tx_fase t = Datos" "tx_origen t = sb" "tx_generacion t = sb_generation sb" "tx_copia_en_uso t = copia"
      using t(1) by (simp_all add: tx_lista_def)
    have nok': "super_ok (nuevo_de sb (tx_log_head t) q)" and dS: "lba_de k (next_super_block copia) \<notin> S"
      using nok destS(1) by (simp_all add: nuevo_def head_def dest_def)
    note rc = remata_corte [OF a [folded S_def] mo(2) txf nok' dS t(3), folded head_def, folded nuevo_def, folded dest_def]
    have s1: "sectores_ok k (visto d1)" "elige k (visto d1) = Inr (sb, copia)"
      using v1 super mo(3) viejo [of "visto d1"] by (auto simp: sectores_ok_def)
    define m1 where "m1 = (visto d1)(dest := super_encode nuevo)"
    have el: "elige k m1 = Inr (nuevo, next_super_block copia)"
      unfolding m1_def dest_def by (rule elige_nuevo [OF s1(2,1) nok gen super(3)])
    have mm: "mismos_bloques k head m1 (visto d')" "mismos_bloques k (sb_log_head sb) m1 (d_plato d)"
    proof -
      show "mismos_bloques k head m1 (visto d')"
        unfolding mismos_bloques_def
      proof (intro allI impI vista_bloque_igual)
        fix b l
        assume b: "2 \<le> b \<and> b < head" and l: "l \<in> sectores_bloque k b"
        then have "b < sb_total_blocks sb"
          using hd(2) by auto
        then have "l \<noteq> dest"
          using dest_fuera b l by blast
        then show "m1 l = visto d' l"
          using remata_visto [OF txf(1,4) t(3), of l] by (simp add: m1_def dest_def)
      qed
      show "mismos_bloques k (sb_log_head sb) m1 (d_plato d)"
        by (rule viejos) (simp add: m1_def v1)
    qed
    have nuevo_casos: "\<exists>head q. elige k m1 = Inr (nuevo_de sb head q, next_super_block copia) \<and> sb_log_head sb \<le> head \<and>
           head \<le> sb_total_blocks sb \<and> mismos_bloques k head m1 (visto d') \<and> mismos_bloques k (sb_log_head sb) m1 (d_plato d)"
      using el mm hd unfolding nuevo_def by blast
    show ?thesis
    proof (intro conjI impI allI)
      assume "tras_corte d' m"
      then have "corte_limpio k sb copia S d (visto d1) nuevo m"
        by (rule rc(1))
      then have "(\<forall>l. l \<notin> S \<longrightarrow> m l = d_plato d l) \<or> m = m1"
        by (simp add: corte_limpio_def m1_def dest_def)
      then show "elige k m = Inr (sb, copia) \<and> mismos_bloques k (sb_log_head sb) m (d_plato d) \<or>
        (\<exists>head q. elige k m = Inr (nuevo_de sb head q, next_super_block copia) \<and> sb_log_head sb \<le> head \<and>
           head \<le> sb_total_blocks sb \<and> mismos_bloques k head m (visto d') \<and> mismos_bloques k (sb_log_head sb) m (d_plato d))"
        using viejo nuevo_casos by blast
    next
      fix gen
      assume "r = Inr gen"
      then have f: "gen = sb_generation sb + 1" "d_cache d' = []" "d_plato d' = m1" "k1 = fijar_superbloque nuevo k"
        using rc(2) by (auto simp: m1_def dest_def)
      have k': "k' = fijar_superbloque nuevo k \<or> k' = (fijar_superbloque nuevo k)\<lparr>k_fecha := f\<rparr>"
        using t(4) f(4) by blast
      then have ap: "lba_de k' = lba_de k" "bloques_de k' = bloques_de k" "k_super k' = Some nuevo"
        by (auto simp: fun_eq_iff lba_de_def bloques_de_def sectores_bloque_def fijar_superbloque_def)
      then have "elige k' = elige k" "sectores_ok k' = sectores_ok k"
        by (simp_all add: fun_eq_iff elige_def copia_en_def vista_bloque_def sectores_ok_def)
      moreover have "sectores_ok k m1"
        using s1(1) nok by (auto simp: m1_def sectores_ok_def length_super_encode)
      moreover have "sb_total_blocks nuevo = sb_total_blocks sb" "sb_log_head nuevo = head"
        by (simp_all add: nuevo_def nuevo_de_def)
      ultimately have "montado k' nuevo (next_super_block copia) d'"
        using f el ap mo hd by (simp add: montado_def medidas_super)
      then show "\<exists>head q. montado k' (nuevo_de sb head q) (next_super_block copia) d' \<and> sb_log_head sb \<le> head \<and>
         gen = sb_generation sb + 1 \<and> mismos_bloques k (sb_log_head sb) (d_plato d') (d_plato d)"
        using f mm(2) hd(1) unfolding nuevo_def by blast
    qed
  qed
  show "elige k m = Inr (sb, copia) \<and> mismos_bloques k (sb_log_head sb) m (d_plato d) \<or>
      (\<exists>head q. elige k m = Inr (nuevo_de sb head q, next_super_block copia) \<and> sb_log_head sb \<le> head \<and>
         head \<le> sb_total_blocks sb \<and> mismos_bloques k head m (visto d') \<and> mismos_bloques k (sb_log_head sb) m (d_plato d))"
    if "tras_corte d' m"
    using fin
  proof
    assume "(\<exists>e. r = Inl e) \<and> k' = k \<and> d' = d1"
    then show ?thesis
      using tras_corte_avanza [OF a mo(2)] that viejo by (auto simp: S_def)
  next
    assume "remate k sb copia n d1 r k' d'"
    then show ?thesis
      using remate that by blast
  qed
  show "\<exists>head q. montado k' (nuevo_de sb head q) (next_super_block copia) d' \<and> sb_log_head sb \<le> head \<and>
         gen = sb_generation sb + 1 \<and> mismos_bloques k (sb_log_head sb) (d_plato d') (d_plato d)" if "r = Inr gen"
    using fin that remate by auto
qed

section \<open>Mounting what is left\<close>

text \<open>The drive after the power comes back.\<close>

definition reinicio :: "(u64 \<Rightarrow> sector) \<Rightarrow> (nat \<Rightarrow> respuesta) \<Rightarrow> disco" where
  "reinicio m rs = \<lparr>d_plato = m, d_cache = [], d_resp = rs\<rparr>"

lemma monta_primera_esp: "list_all is_esp ps \<Longrightarrow> monta_primera k d (ps @ qs) = monta_primera k d qs"
  by (induction ps) simp_all

lemma mount_elige:
  assumes "elige k m = Inr (s, c)" "0 \<in> bloques_de k" "1 \<in> bloques_de k"
    "list_all is_esp ps" "\<not> is_esp p" "pa_first_lba p = k_base k"
  shows "k_super (mount (ps @ p # qs) k (reinicio m rs)) = Some s"
proof -
  define k0 where "k0 = k\<lparr>k_montado := False, k_identidad := False, k_super := None, k_ventana := None\<rparr>"
  have v: "visto (reinicio m rs) = m"
    by (simp add: reinicio_def visto_def)
  have k0: "bloques_de k0 = bloques_de k" "vista_bloque k0 = vista_bloque k" "k_base k0 = k_base k"
    by (auto simp: k0_def bloques_de_def sectores_bloque_def lba_de_def vista_bloque_def fun_eq_iff)
  have rb: "read_block_from k0 (k_base k) b (reinicio m rs) = Some (vista_bloque k m b)" if "b \<in> bloques_de k" for b
    using lee_bloque [of b k0 "reinicio m rs"] that by (simp add: read_block_def k0 v)
  have "k_dispositivo k0"
    using assms(2) by (simp add: bloques_de_def k0_def)
  then have "mount (ps @ p # qs) k (reinicio m rs) = monta_en k0 (reinicio m rs) p s"
    using assms rb by (simp add: mount_def k0_def [symmetric] Let_def monta_primera_esp medidas_super elige_def
        copia_en_def)
  then show ?thesis
    by (simp add: monta_en_def refrescar_fecha_def Let_def)
qed

section \<open>With an obliging drive\<close>

lemma vacia_dispuesto: "dispuesto d \<Longrightarrow> k_listo k \<Longrightarrow> k_armado k \<Longrightarrow> \<exists>d'. disk_flush k d = (True, d') \<and> dispuesto d'"
proof -
  assume a: "dispuesto d" "k_listo k" "k_armado k"
  then obtain n where "d_resp d 0 = Hecho n"
    by (auto simp: dispuesto_def)
  then show ?thesis
    using a by (simp add: disk_flush_def cmd_vacia_def dispuesto_def siguen_def)
qed

lemma remata_dispuesto:
  assumes "dispuesto d" "k_dma k \<noteq> 0" "write_window k (lba_de k (next_super_block copia)) 1 = Inr ()"
    "tx_lista sb copia n t" "super_ok (nuevo_de sb (tx_log_head t) p)"
  shows "\<exists>k' d'. remata k t p d = (Inr (sb_generation sb + 1), k', d')"
proof -
  have k: "k_listo k" "k_armado k"
    using assms(3) by (auto simp: write_window_def decidir_def decidir_rango_def split: if_splits)
  have dest: "(if copia = SUPER_A_BLOCK then SUPER_B_BLOCK else SUPER_A_BLOCK) = next_super_block copia"
    by (simp add: next_super_block_def)
  obtain d1 where d1: "disk_flush k d = (True, d1)" "dispuesto d1"
    using vacia_dispuesto [OF assms(1) k] by blast
  define enc where "enc = super_encode (nuevo_de sb (tx_log_head t) p)"
  have "length enc = 512"
    using assms(5) by (simp add: enc_def length_super_encode)
  then obtain d2 where d2: "write_superblock k (next_super_block copia) enc d1 = (True, d2)" "dispuesto d2"
    using escribe_dispuesto [OF d1(2) _ _ assms(2,3), of enc] by (auto simp: write_superblock_def lba_de_def)
  obtain d3 where "disk_flush k d2 = (True, d3)"
    using vacia_dispuesto [OF d2(2) k] by blast
  then show ?thesis
    using assms(4) d1(1) d2(1)
    by (simp add: remata_def cerrar_datos_def barrera_hecha_def tx_commit_def Let_def dest tx_lista_def nuevo_de_def enc_def)
qed

section \<open>The properties\<close>

text \<open>
  C1: no power cut loses the volume. From a mounted volume on a quiet drive, whatever change is
  asked for, whatever the drive answers and whenever it stops answering, and whichever of the
  sectors it had accepted are on the platter: mounting again gives the superblock of before, and every
  block of it is as it was; or the one of the change, with every block up to its head as written.
\<close>

theorem corte_seguro:
  assumes "montado k sb copia d" "sb_generation sb \<noteq> - 1" "indice_ok ex" "aplicar ex k c d = Some (r, k', d')"
    "tras_corte d' m" "list_all is_esp ps" "\<not> is_esp p" "pa_first_lba p = k_base k"
  shows "k_super (mount (ps @ p # qs) k (reinicio m rs)) = Some sb \<and> mismos_bloques k (sb_log_head sb) m (d_plato d) \<or>
    (\<exists>head q. k_super (mount (ps @ p # qs) k (reinicio m rs)) = Some (nuevo_de sb head q) \<and> sb_log_head sb \<le> head \<and>
       mismos_bloques k head m (visto d') \<and> mismos_bloques k (sb_log_head sb) m (d_plato d))"
proof -
  have b: "0 \<in> bloques_de k" "1 \<in> bloques_de k"
    using assms(1) by (simp_all add: montado_def medidas_super)
  show ?thesis
    using corte_publicacion(1) [OF assms(1,2) aplicar_publicacion [OF assms(1,3,4)] assms(5)]
      mount_elige [OF _ b assms(6-8), of m] by blast
qed

text \<open>
  C13: from a mounted volume with nothing waiting in the cache of its drive, a change that comes back with a
  generation is done and durable: the volume is mounted with the
  next generation in the other copy and an empty cache, ready for the next change, and nothing that
  was there before has moved.
\<close>

theorem cambio_hecho:
  assumes "montado k sb copia d" "sb_generation sb \<noteq> - 1" "indice_ok ex" "aplicar ex k c d = Some (Inr gen, k', d')"
  shows "\<exists>head q. montado k' (nuevo_de sb head q) (next_super_block copia) d' \<and> sb_log_head sb \<le> head \<and>
    gen = sb_generation sb + 1 \<and> mismos_bloques k (sb_log_head sb) (d_plato d') (d_plato d)"
  by (rule corte_publicacion(2) [OF assms(1,2) aplicar_publicacion [OF assms(1,3,4)] refl])

definition super_ej :: superblock where
  "super_ej = superblock_new (replicate 32 0) 1000"

definition volumen_ej :: "kernel \<times> disco" where
  "volumen_ej = (kernel_ej\<lparr>k_super := Some super_ej\<rparr>,
     disco_ej\<lparr>d_plato := (\<lambda>_. replicate 512 0)(0 := super_encode super_ej)\<rparr>)"

definition particion_ej :: particion where
  "particion_ej = \<lparr>pa_index = 0, pa_first_lba = 0, pa_last_lba = 0xFFFFFFFF, pa_type_lo = 0\<rparr>"

lemma super_ej_ok: "super_ok super_ej"
  by (simp add: super_ej_def superblock_new_def super_ok_def medidas_super)

lemma volumen_ej_montado: "montado (fst volumen_ej) super_ej 0 (snd volumen_ej)"
proof -
  define k d where "k = fst volumen_ej" and "d = snd volumen_ej"
  have l: "lba_de k b = b * 8" for b
    by (simp add: k_def volumen_ej_def kernel_ej_def lba_de_def)
  have b: "b \<in> bloques_de k" if "unat b < 0x1FFFFFFF" for b
    using that by (simp add: bloques_de_def k_def volumen_ej_def kernel_ej_def)
  have "rodaja 0 8 (replicate 512 0) \<noteq> MAGIC"
    by code_simp
  then have "super_decode (replicate 512 0) = Inl BadMagic"
    by (simp add: super_decode_def medidas_super)
  moreover have "d_plato d (lba_de k 0) = super_encode super_ej" "d_plato d (lba_de k 1) = replicate 512 0"
    by (simp_all add: l d_def volumen_ej_def)
  moreover have "length (super_encode super_ej) = 512" "super_decode (super_encode super_ej) = Inr super_ej"
    using super_ej_ok by (simp_all add: length_super_encode super_decode_encode)
  ultimately have "elige k (d_plato d) = Inr (super_ej, 0)" "sectores_ok k (d_plato d)"
    by (simp_all add: elige_def copia_sector pick_superblock_def medidas_super sectores_ok_def)
  then show ?thesis
    unfolding k_def [symmetric] d_def [symmetric]
    using b by (auto simp: montado_def k_def d_def volumen_ej_def disco_ej_def super_ej_def superblock_new_def
        medidas_super word_less_nat_alt)
qed

lemma seal_ej: "\<exists>r k' d'. aplicar externo_ej (fst volumen_ej) Sellar (snd volumen_ej) = Some (r, k', d')"
  by (simp add: aplicar_def) (metis prod_cases3)

lemma corte_seguro_witness:
  "\<exists>r k' d'. aplicar externo_ej (fst volumen_ej) Sellar (snd volumen_ej) = Some (r, k', d') \<and>
    (k_super (mount [particion_ej] (fst volumen_ej) (reinicio (d_plato d') (\<lambda>_. Hecho 0))) = Some super_ej \<and>
       mismos_bloques (fst volumen_ej) 2 (d_plato d') (d_plato (snd volumen_ej)) \<or>
     (\<exists>head q. k_super (mount [particion_ej] (fst volumen_ej) (reinicio (d_plato d') (\<lambda>_. Hecho 0))) =
         Some (nuevo_de super_ej head q) \<and> 2 \<le> head \<and> mismos_bloques (fst volumen_ej) head (d_plato d') (visto d') \<and>
         mismos_bloques (fst volumen_ej) 2 (d_plato d') (d_plato (snd volumen_ej))))"
proof -
  obtain r k' d' where e: "aplicar externo_ej (fst volumen_ej) Sellar (snd volumen_ej) = Some (r, k', d')"
    using seal_ej by blast
  have "tras_corte d' (d_plato d')" "sb_generation super_ej \<noteq> - 1" "sb_log_head super_ej = 2"
    "pa_first_lba particion_ej = k_base (fst volumen_ej)" "\<not> is_esp particion_ej"
    by (simp_all add: tras_corte_def super_ej_def superblock_new_def particion_ej_def volumen_ej_def kernel_ej_def is_esp_def)
  then show ?thesis
    using corte_seguro [OF volumen_ej_montado _ ejemplo_disco(2) e, of "d_plato d'" "[]" particion_ej "[]" "\<lambda>_. Hecho 0"] e
    by auto
qed

lemma ventana_ej: "unat l + 1 \<le> 0xFFFFFFFF \<Longrightarrow> write_window (fst volumen_ej) l 1 = Inr ()"
  unfolding write_window_def decidir_def decidir_rango_permite_iff
  by (auto simp: volumen_ej_def kernel_ej_def sectores_de_def)

lemma seal_ej_sale: "\<exists>k' d'. aplicar externo_ej (fst volumen_ej) Sellar (snd volumen_ej) = Some (Inr 2, k', d')"
proof -
  define k d where "k = fst volumen_ej" and "d = snd volumen_ej"
  have "por_mil (ocupacion_de 2 1000 4096) = 2"
    by (simp add: por_mil_def ocupacion_de_def saturating_mul_def)
  then have "admite_escritura (nivel_de (ocupacion_de 2 1000 4096))"
    by (simp add: nivel_de_def admite_escritura_def SOLO_LECTURA_def ROJO_def AMBAR_def)
  then have "case tx_open super_ej 0 True of Inl _ \<Rightarrow> False | Inr _ \<Rightarrow> True"
    by (simp add: tx_open_def super_ej_def superblock_new_def medidas_super)
  then obtain t where t: "tx_open super_ej 0 True = Inr t"
    by (auto split: sum.splits)
  then have l: "tx_lista super_ej 0 0 t" "tx_log_head t = sb_log_head super_ej"
    using tx_open_campos by (auto simp: tx_lista_def)
  have n: "super_ok (nuevo_de super_ej (tx_log_head t) (sb_estrato super_ej))"
    using super_ej_ok l(2) by (simp add: super_ok_def nuevo_de_def)
  have c: "copia_en_uso k d = 0"
    unfolding k_def d_def by (rule copia_en_uso_montado [OF volumen_ej_montado])
  have "lba_de k (next_super_block 0) = 8"
    by (simp add: k_def volumen_ej_def kernel_ej_def lba_de_def next_super_block_def medidas_super)
  then have w: "write_window k (lba_de k (next_super_block 0)) 1 = Inr ()"
    using ventana_ej by (simp add: k_def)
  have "dispuesto d" "k_dma k \<noteq> 0" "k_super k = Some super_ej" "k_identidad k"
    by (simp_all add: d_def k_def volumen_ej_def disco_ej_def kernel_ej_def dispuesto_def)
  moreover have "sb_generation super_ej = 1"
    by (simp add: super_ej_def superblock_new_def)
  ultimately show ?thesis
    using remata_dispuesto [OF _ _ w l(1) n, of d] t c
    by (auto simp: aplicar_def seal_def k_def [symmetric] d_def [symmetric])
qed

lemma cambio_hecho_witness:
  "\<exists>k' d' head q. aplicar externo_ej (fst volumen_ej) Sellar (snd volumen_ej) = Some (Inr 2, k', d') \<and>
     montado k' (nuevo_de super_ej head q) 1 d' \<and> mismos_bloques (fst volumen_ej) 2 (d_plato d') (d_plato (snd volumen_ej))"
proof -
  obtain k' d' where e: "aplicar externo_ej (fst volumen_ej) Sellar (snd volumen_ej) = Some (Inr 2, k', d')"
    using seal_ej_sale by blast
  have "sb_generation super_ej \<noteq> - 1" "sb_log_head super_ej = 2" "next_super_block 0 = 1"
    by (simp_all add: super_ej_def superblock_new_def next_super_block_def medidas_super)
  then show ?thesis
    using cambio_hecho [OF volumen_ej_montado _ ejemplo_disco(2) e] e by auto
qed

end
