(* ===== verification/Orden_Red.thy ===== *)
theory Orden_Red
  imports Bytes
begin

text \<open>
  Big-endian numbers (\<open>to_be_bytes\<close>, \<open>from_be_bytes\<close>), the order of the network and of SHA-256, and
  what a piece of a byte string is after another was written over.
\<close>

definition be :: "nat \<Rightarrow> 'a::len word \<Rightarrow> u8 list" where
  "be n w = rev (le n w)"

definition de_be :: "u8 list \<Rightarrow> 'a::len word" where
  "de_be bs = de_le (rev bs)"

lemma length_be [simp]: "length (be n w) = n"
  by (simp add: be_def)

lemma de_be_be [bytes_simps]: "LENGTH('a) \<le> 8 * n \<Longrightarrow> de_be (be n w) = (w :: 'a::len word)"
  by (simp add: de_be_def be_def de_le_le)

lemma de_be_u16 [simp]: "de_be (be 2 w) = (w :: u16)"
  by (rule de_be_be) simp

lemma de_be_u32 [simp]: "de_be (be 4 w) = (w :: u32)"
  by (rule de_be_be) simp

lemma de_be_u64 [simp]: "de_be (be 8 w) = (w :: u64)"
  by (rule de_be_be) simp

lemma le_uno [simp]: "le (Suc 0) w = [ucast w]"
  by simp

lemma be_dos: "be 2 (w :: u16) = [ucast (drop_bit 8 w), ucast w]"
  by (simp add: be_def numeral_2_eq_2)

lemma unat_be_dos: "256 * unat (ucast (drop_bit 8 (w :: u16)) :: u8) + unat (ucast w :: u8) = unat w"
proof -
  have w: "unat w < 65536"
    using unsigned_less [of w] by simp
  have "unat (ucast (drop_bit 8 w) :: u8) = unat w div 256 mod 256"
    by (simp add: unsigned_ucast_eq take_bit_eq_mod drop_bit_eq_div unat_div)
  moreover have "unat w div 256 < 256"
    using w by (simp add: div_less_iff_less_mult)
  moreover have "unat (ucast w :: u8) = unat w mod 256"
    by (simp add: unsigned_ucast_eq take_bit_eq_mod)
  ultimately show ?thesis
    by (simp add: mult.commute)
qed

lemma de_be_dos: "unat (de_be [a, b] :: u16) = 256 * unat a + unat b"
proof -
  have a: "unat a < 256" "unat b < 256"
    using unsigned_less [of a] unsigned_less [of b] by simp_all
  have "(ucast b :: u16) OR push_bit 8 (ucast a) = ucast b + push_bit 8 (ucast a)"
    by (rule disjunctive_add [symmetric]) (auto simp: bit_simps dest: bit_imp_le_length)
  then have "unat (de_be [a, b] :: u16) = unat ((ucast b :: u16) + push_bit 8 (ucast a))"
    by (simp add: de_be_def)
  moreover have "unat (push_bit 8 (ucast a) :: u16) = 256 * unat a"
    using a by (simp add: push_bit_eq_mult unat_word_ariths unsigned_ucast_eq take_bit_eq_mod mult.commute)
  moreover have "unat (ucast b :: u16) = unat b"
    using a by (simp add: unsigned_ucast_eq take_bit_eq_mod)
  ultimately show ?thesis
    using a by (simp add: unat_add_small)
qed

end
