(* ===== verification/Red_Suma.thy ===== *)
theory Red_Suma
  imports Orden_Red
begin

unbundle bit_operations_syntax

text \<open>
  \<open>platform/shared/bmo-pila/src/lib.rs\<close> and \<open>suma.rs\<close>: why the network stack refuses something,
  and the checksum of IP, UDP, TCP and ICMP, fed in pieces of any length.
\<close>

datatype rechazo =
    Corto | Largo | Version | Cabecera | Opciones | Fragmento | Banderas | SumaMala | Direccion | TipoMalo
  | Protocolo | Puerto | Secuencia | Lleno | EstadoMalo | Asa | NoEsParaMi

definition be16 :: "u8 list \<Rightarrow> nat \<Rightarrow> u16" where
  "be16 b i = de_be [b ! i, b ! (i + 1)]"

definition be32 :: "u8 list \<Rightarrow> nat \<Rightarrow> u32" where
  "be32 b i = de_be [b ! i, b ! (i + 1), b ! (i + 2), b ! (i + 3)]"

definition pon16 :: "u8 list \<Rightarrow> nat \<Rightarrow> u16 \<Rightarrow> u8 list" where
  "pon16 b i v = parche i (be 2 v) b"

definition pon32 :: "u8 list \<Rightarrow> nat \<Rightarrow> u32 \<Rightarrow> u8 list" where
  "pon32 b i v = parche i (be 4 v) b"

section \<open>The checksum\<close>

record suma16 =
  su_acum :: u32
  su_impar :: "u8 option"

definition suma_nueva :: suma16 where
  "suma_nueva = \<lparr>su_acum = 0, su_impar = None\<rparr>"

definition anadir :: "u16 \<Rightarrow> suma16 \<Rightarrow> suma16" where
  "anadir v s =
    (let a = su_acum s + ucast v in s\<lparr>su_acum := (a AND 0xFFFF) + drop_bit 16 a\<rparr>)"

text \<open>The pairs of \<open>chunks_exact(2)\<close>, and the byte that is left.\<close>

fun suma_pares :: "u8 list \<Rightarrow> suma16 \<Rightarrow> suma16" where
  "suma_pares [] s = s"
| "suma_pares [x] s = s\<lparr>su_impar := Some x\<rparr>"
| "suma_pares (x # y # b) s = suma_pares b (anadir (de_be [x, y]) s)"

definition suma_bytes :: "u8 list \<Rightarrow> suma16 \<Rightarrow> suma16" where
  "suma_bytes b s =
    (case su_impar s of None \<Rightarrow> suma_pares b s
     | Some alto \<Rightarrow>
        (case b of [] \<Rightarrow> s
         | bajo # resto \<Rightarrow> suma_pares resto (anadir (de_be [alto, bajo]) (s\<lparr>su_impar := None\<rparr>))))"

definition suma_u16 :: "u16 \<Rightarrow> suma16 \<Rightarrow> suma16" where
  "suma_u16 v s = suma_bytes (be 2 v) s"

definition suma_cerrar :: "suma16 \<Rightarrow> u16" where
  "suma_cerrar s =
    (let s = (case su_impar s of None \<Rightarrow> s | Some alto \<Rightarrow> anadir (de_be [alto, 0]) (s\<lparr>su_impar := None\<rparr>))
     in NOT (ucast (su_acum s)))"

definition suma_de :: "u8 list \<Rightarrow> u16" where
  "suma_de b = suma_cerrar (suma_bytes b suma_nueva)"

definition pseudo :: "u8 list \<Rightarrow> u8 list \<Rightarrow> u8 \<Rightarrow> u16 \<Rightarrow> suma16" where
  "pseudo origen destino protocolo largo =
    suma_u16 largo (suma_u16 (ucast protocolo) (suma_bytes destino (suma_bytes origen suma_nueva)))"

section \<open>What it computes\<close>

text \<open>The sum of the 16-bit words, the last byte alone being the high half of one.\<close>

fun palabras :: "u8 list \<Rightarrow> nat" where
  "palabras [] = 0"
| "palabras [x] = 256 * unat x"
| "palabras (x # y # b) = 256 * unat x + unat y + palabras b"

text \<open>One's complement addition: a sum modulo 65535, which is 0 only for nothing.\<close>

definition plegada :: "nat \<Rightarrow> nat" where
  "plegada n = (if n = 0 then 0 else (n - 1) mod 65535 + 1)"

lemma plegada_le: "plegada n \<le> 65535"
  using mod_less_divisor [of 65535 "n - 1"] by (simp add: plegada_def Suc_le_eq del: mod_less_divisor)

lemma plegada_chica: "n \<le> 65535 \<Longrightarrow> plegada n = n"
  by (simp add: plegada_def)

lemma plegada_paso: "plegada (n + 65535) = (if n = 0 then 65535 else plegada n)"
proof (cases "n = 0")
  case False
  then have "n + 65535 - 1 = (n - 1) + 65535"
    by simp
  then show ?thesis
    using False unfolding plegada_def by (simp only: mod_add_self2) simp
qed (simp add: plegada_def)

lemma plegada_mas: "plegada (plegada m + n) = plegada (m + n)"
proof (cases "m = 0")
  case False
  define q r where "q = (m - 1) div 65535" and "r = (m - 1) mod 65535"
  then have "m - 1 = q * 65535 + r"
    by simp
  then have m: "m = q * 65535 + (r + 1)" "plegada m = r + 1"
    using False by (simp_all add: plegada_def r_def)
  have "plegada (k * 65535 + (r + 1 + n)) = plegada (r + 1 + n)" for k
  proof (induction k)
    case (Suc k)
    then show ?case
      using plegada_paso [of "k * 65535 + (r + 1 + n)"] by (simp add: ac_simps)
  qed simp
  from this [of q] show ?thesis
    by (simp only: m(2)) (simp add: m(1) add.assoc)
qed (simp add: plegada_def)

lemma plegada_65535: "plegada n = 65535 \<longleftrightarrow> 0 < n \<and> 65535 dvd n"
proof (cases n)
  case (Suc k)
  have "k mod 65535 = 65534 \<longleftrightarrow> Suc k mod 65535 = 0"
    by (simp add: mod_Suc)
  then show ?thesis
    using Suc by (simp add: plegada_def dvd_eq_mod_eq_0)
qed (simp add: plegada_def)

lemma unat_fold_16:
  assumes "unat (a :: u32) \<le> 131070"
  shows "unat ((a AND 0xFFFF) + drop_bit 16 a) = plegada (unat a)"
proof -
  have "unat (a AND 0xFFFF) = unat a mod 65536"
    using unat_and_mask [of a 16] by (simp add: mask_eq_exp_minus_1)
  moreover have "unat (drop_bit 16 a) = unat a div 65536"
    by (simp add: drop_bit_eq_div unat_div)
  moreover have "unat a mod 65536 + unat a div 65536 = plegada (unat a)"
  proof (cases "unat a \<le> 65535")
    case False
    define r where "r = unat a - 65536"
    then have r: "unat a = r + 65536" "r < 65535"
      using False assms by simp_all
    have "plegada (unat a) = r + 1"
      using plegada_paso [of "r + 1"] r plegada_chica [of "r + 1"] by (simp add: add.commute)
    then show ?thesis
      using r by simp
  qed (simp add: plegada_chica)
  ultimately show ?thesis
    using assms by (simp add: unat_word_ariths plegada_le)
qed

section \<open>Feeding it in pieces\<close>

text \<open>The words summed so far, and the byte that waits for its pair.\<close>

definition lleva :: "u8 list \<Rightarrow> suma16 \<Rightarrow> bool" where
  "lleva b s \<longleftrightarrow>
    (if even (length b) then su_impar s = None \<and> unat (su_acum s) = plegada (palabras b)
     else su_impar s = Some (last b) \<and> unat (su_acum s) = plegada (palabras (butlast b)))"

lemma palabras_append: "even (length a) \<Longrightarrow> palabras (a @ b) = palabras a + palabras b"
  by (induction a rule: palabras.induct) simp_all

lemma anadir_plegada:
  assumes "unat (su_acum s) = plegada n"
  shows "unat (su_acum (anadir (de_be [x, y]) s)) = plegada (n + 256 * unat x + unat y)"
    "su_impar (anadir v s) = su_impar s"
proof -
  have xy: "unat x < 256" "unat y < 256"
    using unsigned_less [of x] unsigned_less [of y] by simp_all
  define a :: u32 where "a = su_acum s + ucast (de_be [x, y] :: u16)"
  have "unat (ucast (de_be [x, y] :: u16) :: u32) = 256 * unat x + unat y"
    using xy de_be_dos [of x y]
    by (simp add: unsigned_ucast_eq take_bit_eq_mod)
  moreover have "256 * unat x + unat y \<le> 65535"
    using xy by simp
  ultimately have "unat a = plegada n + (256 * unat x + unat y)" "unat a \<le> 131070"
    using plegada_le [of n] assms by (simp_all add: a_def unat_word_ariths)
  then have "unat ((a AND 0xFFFF) + drop_bit 16 a) = plegada (n + (256 * unat x + unat y))"
    by (simp add: unat_fold_16 plegada_mas)
  then show "unat (su_acum (anadir (de_be [x, y]) s)) = plegada (n + 256 * unat x + unat y)"
    by (simp add: anadir_def Let_def a_def [symmetric] add.assoc)
  show "su_impar (anadir v s) = su_impar s"
    by (simp add: anadir_def Let_def)
qed

lemma lleva_pares:
  "lleva a s \<Longrightarrow> even (length a) \<Longrightarrow> lleva (a @ b) (suma_pares b s)"
proof (induction b s arbitrary: a rule: suma_pares.induct)
  case (3 x y b s)
  have "lleva (a @ [x, y]) (anadir (de_be [x, y]) s)"
    using 3 anadir_plegada(1) [of s "palabras a" x y] anadir_plegada(2) [of s]
    by (auto simp: lleva_def palabras_append add.assoc)
  then show ?case
    using "3.IH" [of "a @ [x, y]"] "3.prems"(2) by simp
qed (auto simp: lleva_def butlast_append)

lemma lleva_bytes: "lleva a s \<Longrightarrow> lleva (a @ b) (suma_bytes b s)"
proof (cases "even (length a)")
  case False
  assume l: "lleva a s"
  then have a: "a = butlast a @ [last a]" "even (length (butlast a))"
    using False by (cases a rule: rev_cases; simp)+
  show ?thesis
  proof (cases b)
    case (Cons x r)
    have "lleva (butlast a @ [last a, x]) (anadir (de_be [last a, x]) (s\<lparr>su_impar := None\<rparr>))"
      using l False a(2) anadir_plegada(1) [of "s\<lparr>su_impar := None\<rparr>" "palabras (butlast a)" "last a" x]
        anadir_plegada(2) [of "s\<lparr>su_impar := None\<rparr>" "palabras (butlast a)"]
      by (auto simp: lleva_def palabras_append add.assoc)
    then have "lleva ((butlast a @ [last a, x]) @ r) (suma_pares r (anadir (de_be [last a, x]) (s\<lparr>su_impar := None\<rparr>)))"
      by (rule lleva_pares) (use a(2) in simp)
    moreover have "(butlast a @ [last a, x]) @ r = a @ b"
      using a(1) Cons by (metis append.assoc append_Cons append_Nil)
    moreover have "suma_bytes b s = suma_pares r (anadir (de_be [last a, x]) (s\<lparr>su_impar := None\<rparr>))"
      using l False Cons by (simp add: suma_bytes_def lleva_def)
    ultimately show ?thesis
      by (simp only:)
  qed (use l False in \<open>simp add: suma_bytes_def lleva_def\<close>)
next
  case True
  assume l: "lleva a s"
  then have "su_impar s = None"
    using True by (simp add: lleva_def)
  then show ?thesis
    using lleva_pares [OF l True] by (simp add: suma_bytes_def)
qed

lemma lleva_nueva: "lleva [] suma_nueva"
  by (simp add: lleva_def suma_nueva_def plegada_def)

lemma lleva_u16: "lleva a s \<Longrightarrow> lleva (a @ be 2 v) (suma_u16 v s)"
  by (simp add: suma_u16_def lleva_bytes)

lemma lleva_cerrar:
  assumes "lleva b s"
  shows "unat (suma_cerrar s) = 65535 - plegada (palabras b)"
proof -
  have n: "unat (NOT (ucast a) :: u16) = 65535 - unat a" if "unat (a :: u32) \<le> 65535" for a
  proof -
    have "unat (ucast a :: u16) = unat a"
      using that by (simp add: unsigned_ucast_eq take_bit_eq_mod)
    moreover have "NOT (ucast a :: u16) = - 1 - ucast a"
      by (simp add: not_eq_complement)
    moreover have "unat (- 1 - (ucast a :: u16)) = unat (- 1 :: u16) - unat (ucast a :: u16)"
      by (simp add: unat_sub)
    moreover have "unat (- 1 :: u16) = 65535"
      by (simp add: unsigned_minus_1_eq_mask mask_eq_exp_minus_1)
    ultimately show ?thesis
      by simp
  qed
  show ?thesis
  proof (cases "even (length b)")
    case True
    then show ?thesis
      using assms n [of "su_acum s"] plegada_le by (simp add: lleva_def suma_cerrar_def)
  next
    case False
    then have b: "b = butlast b @ [last b]" "even (length (butlast b))"
      by (cases b rule: rev_cases; simp)+
    have "palabras b = palabras (butlast b) + 256 * unat (last b)"
      by (subst b(1)) (simp only: palabras_append [OF b(2)] palabras.simps)
    then have "unat (su_acum (anadir (de_be [last b, 0]) (s\<lparr>su_impar := None\<rparr>))) = plegada (palabras b)"
      using assms False anadir_plegada(1) [of "s\<lparr>su_impar := None\<rparr>" "palabras (butlast b)" "last b" 0]
      by (simp add: lleva_def)
    then show ?thesis
      using assms False n plegada_le by (simp add: lleva_def suma_cerrar_def)
  qed
qed

lemma suma_de_eq: "unat (suma_de b) = 65535 - plegada (palabras b)"
  using lleva_cerrar [OF lleva_bytes [OF lleva_nueva, of b]] by (simp add: suma_de_def)

lemma lleva_trozos: "lleva a s \<Longrightarrow> lleva (a @ concat bs) (fold suma_bytes bs s)"
proof (induction bs arbitrary: a s)
  case (Cons b bs)
  then show ?case
    using Cons.IH [OF lleva_bytes [OF Cons.prems, of b]] by simp
qed simp

text \<open>When the sum of a message is zero.\<close>

lemma cerrar_0_iff:
  assumes "lleva b s"
  shows "suma_cerrar s = 0 \<longleftrightarrow> 0 < palabras b \<and> 65535 dvd palabras b"
proof -
  have "suma_cerrar s = 0 \<longleftrightarrow> unat (suma_cerrar s) = 0"
    by (simp add: unat_eq_zero)
  also have "\<dots> \<longleftrightarrow> plegada (palabras b) = 65535"
    using lleva_cerrar [OF assms] plegada_le [of "palabras b"] by linarith
  finally show ?thesis
    by (simp add: plegada_65535)
qed

section \<open>Tables\<close>

text \<open>\<open>position\<close> of the iterators.\<close>

fun primera_pos :: "('a \<Rightarrow> bool) \<Rightarrow> 'a list \<Rightarrow> nat option" where
  "primera_pos P [] = None"
| "primera_pos P (x # xs) = (if P x then Some 0 else map_option Suc (primera_pos P xs))"

lemma primera_pos_Some: "primera_pos P xs = Some i \<Longrightarrow> i < length xs \<and> P (xs ! i)"
proof (induction xs arbitrary: i)
  case (Cons x xs)
  then show ?case
    by (cases "P x") auto
qed simp

lemma primera_pos_ninguno: "(\<forall>x \<in> set xs. \<not> P x) \<Longrightarrow> primera_pos P xs = None"
  by (induction xs) simp_all

end
