(* ===== verification/Red_Paquetes.thy ===== *)
theory Red_Paquetes
  imports Red_Suma
begin

unbundle bit_operations_syntax

text \<open>
  \<open>platform/shared/bmo-pila/src/ether.rs\<close>, \<open>ipv4.rs\<close>, \<open>udp.rs\<close> and \<open>icmp.rs\<close>: reading and writing the
  headers. A reader answers a packet or why not; a writer the length it wrote and the buffer after it.
  Addresses are byte lists of six and of four.
\<close>

section \<open>Ethernet\<close>

definition CABECERA_ETHER :: nat where "CABECERA_ETHER = 14"
definition MAX_CARGA :: nat where "MAX_CARGA = 1500"
definition MIN_TRAMA :: nat where "MIN_TRAMA = 60"
definition TIPO_IPV4 :: u16 where "TIPO_IPV4 = 0x0800"
definition TIPO_ARP :: u16 where "TIPO_ARP = 0x0806"

definition es_grupo_mac :: "u8 list \<Rightarrow> bool" where
  "es_grupo_mac m \<longleftrightarrow> (m ! 0) AND 1 \<noteq> 0"

record trama =
  tr_destino :: "u8 list"
  tr_origen :: "u8 list"
  tr_tipo :: u16
  tr_carga :: "u8 list"

definition leer_trama :: "u8 list \<Rightarrow> rechazo + trama" where
  "leer_trama b =
    (if length b < CABECERA_ETHER then Inl Corto
     else if length b > CABECERA_ETHER + MAX_CARGA then Inl Largo
     else let destino = rodaja 0 6 b; origen = rodaja 6 6 b in
       if es_grupo_mac origen \<or> origen = replicate 6 0 then Inl Direccion
       else let tipo = be16 b 12 in
         if tipo \<noteq> TIPO_IPV4 \<and> tipo \<noteq> TIPO_ARP then Inl TipoMalo
         else Inr \<lparr>tr_destino = destino, tr_origen = origen, tr_tipo = tipo, tr_carga = drop CABECERA_ETHER b\<rparr>)"

definition escribir_trama :: "u8 list \<Rightarrow> u8 list \<Rightarrow> u8 list \<Rightarrow> u16 \<Rightarrow> rechazo + (nat \<times> u8 list)" where
  "escribir_trama dst destino origen tipo =
    (if length dst < CABECERA_ETHER then Inl Corto
     else Inr (CABECERA_ETHER, pon16 (parche 6 origen (parche 0 destino dst)) 12 tipo))"

definition con_relleno :: "u8 list \<Rightarrow> nat \<Rightarrow> nat \<times> u8 list" where
  "con_relleno dst largo =
    (if largo \<ge> MIN_TRAMA \<or> length dst < MIN_TRAMA then (largo, dst)
     else (MIN_TRAMA, parche largo (replicate (MIN_TRAMA - largo) 0) dst))"

section \<open>IPv4\<close>

definition CABECERA_IP :: nat where "CABECERA_IP = 20"
definition MTU :: nat where "MTU = 1500"
definition TTL :: u8 where "TTL = 64"
definition PROTO_ICMP :: u8 where "PROTO_ICMP = 1"
definition PROTO_TCP :: u8 where "PROTO_TCP = 6"
definition PROTO_UDP :: u8 where "PROTO_UDP = 17"

definition es_difusion_ip :: "u8 list \<Rightarrow> bool" where
  "es_difusion_ip ip \<longleftrightarrow> ip = replicate 4 255"

definition es_grupo_ip :: "u8 list \<Rightarrow> bool" where
  "es_grupo_ip ip \<longleftrightarrow> 224 \<le> ip ! 0 \<and> ip ! 0 \<le> 239"

definition origen_imposible :: "u8 list \<Rightarrow> bool" where
  "origen_imposible ip \<longleftrightarrow> ip = replicate 4 0 \<or> ip ! 0 = 127 \<or> ip ! 0 \<ge> 224"

record paquete =
  pq_origen :: "u8 list"
  pq_destino :: "u8 list"
  pq_protocolo :: u8
  pq_ttl :: u8
  pq_id :: u16
  pq_carga :: "u8 list"

definition leer_ip :: "u8 list \<Rightarrow> rechazo + paquete" where
  "leer_ip b =
    (if length b < CABECERA_IP then Inl Corto
     else if drop_bit 4 (b ! 0) \<noteq> 4 then Inl Version
     else if (b ! 0) AND 0x0F \<noteq> 5 then Inl Opciones
     else let tot = unat (be16 b 2) in
       if tot < CABECERA_IP then Inl Cabecera
       else if tot > length b then Inl Corto
       else let banderas = be16 b 6 in
         if banderas AND 0x8000 \<noteq> 0 then Inl Banderas
         else if banderas AND 0x3FFF \<noteq> 0 then Inl Fragmento
         else if b ! 8 = 0 then Inl Cabecera
         else if suma_de (take CABECERA_IP b) \<noteq> 0 then Inl SumaMala
         else let origen = rodaja 12 4 b in
           if origen_imposible origen then Inl Direccion
           else Inr \<lparr>pq_origen = origen, pq_destino = rodaja 16 4 b, pq_protocolo = b ! 9, pq_ttl = b ! 8,
                     pq_id = be16 b 4, pq_carga = rodaja CABECERA_IP (tot - CABECERA_IP) b\<rparr>)"

text \<open>The header with a zero for its sum.\<close>

definition cabecera_ip :: "u8 list \<Rightarrow> u8 list \<Rightarrow> u8 list \<Rightarrow> u8 \<Rightarrow> nat \<Rightarrow> u16 \<Rightarrow> u8 list" where
  "cabecera_ip b origen destino protocolo tot ident =
    (let b = parche 0 [0x45] b; b = parche 1 [0] b; b = pon16 b 2 (word_of_nat tot); b = pon16 b 4 ident;
         b = pon16 b 6 0x4000; b = parche 8 [TTL] b; b = parche 9 [protocolo] b; b = pon16 b 10 0;
         b = parche 12 origen b
     in parche 16 destino b)"

definition escribir_ip ::
    "u8 list \<Rightarrow> u8 list \<Rightarrow> u8 list \<Rightarrow> u8 \<Rightarrow> nat \<Rightarrow> u16 \<Rightarrow> rechazo + (nat \<times> u8 list)" where
  "escribir_ip dst origen destino protocolo largo_carga ident =
    (let tot = CABECERA_IP + largo_carga in
     if tot > MTU then Inl Largo
     else if length dst < CABECERA_IP then Inl Corto
     else let b = cabecera_ip (take CABECERA_IP dst) origen destino protocolo tot ident; b = pon16 b 10 (suma_de b)
       in Inr (CABECERA_IP, b @ drop CABECERA_IP dst))"

section \<open>UDP\<close>

definition CABECERA_UDP :: nat where "CABECERA_UDP = 8"
definition MAX_DATOS :: nat where "MAX_DATOS = MTU - CABECERA_IP - CABECERA_UDP"

record datagrama =
  dg_origen :: u16
  dg_destino :: u16
  dg_datos :: "u8 list"

definition leer_udp :: "u8 list \<Rightarrow> u8 list \<Rightarrow> u8 list \<Rightarrow> rechazo + datagrama" where
  "leer_udp b ip_origen ip_destino =
    (if length b < CABECERA_UDP then Inl Corto
     else let largo = unat (be16 b 4) in
       if largo < CABECERA_UDP then Inl Cabecera
       else if largo > length b then Inl Corto
       else let b = take largo b in
         if be16 b 6 = 0 then Inl SumaMala
         else if suma_cerrar (suma_bytes b (pseudo ip_origen ip_destino PROTO_UDP (word_of_nat largo))) \<noteq> 0
         then Inl SumaMala
         else let origen = be16 b 0; destino = be16 b 2 in
           if origen = 0 \<or> destino = 0 then Inl Puerto
           else Inr \<lparr>dg_origen = origen, dg_destino = destino, dg_datos = drop CABECERA_UDP b\<rparr>)"

definition cabecera_udp :: "u8 list \<Rightarrow> u16 \<Rightarrow> u16 \<Rightarrow> nat \<Rightarrow> u8 list \<Rightarrow> u8 list" where
  "cabecera_udp b origen destino n datos =
    parche CABECERA_UDP datos (pon16 (pon16 (pon16 (pon16 b 0 origen) 2 destino) 4 (word_of_nat n)) 6 0)"

definition escribir_udp ::
    "u8 list \<Rightarrow> u8 list \<Rightarrow> u8 list \<Rightarrow> u16 \<Rightarrow> u16 \<Rightarrow> u8 list \<Rightarrow> rechazo + (nat \<times> u8 list)" where
  "escribir_udp dst ip_origen ip_destino origen destino datos =
    (if length datos > MAX_DATOS then Inl Largo
     else let n = CABECERA_UDP + length datos in
       if length dst < n then Inl Corto
       else let b = cabecera_udp (take n dst) origen destino n datos;
                s = suma_cerrar (suma_bytes b (pseudo ip_origen ip_destino PROTO_UDP (word_of_nat n)));
                s = (if s = 0 then 0xFFFF else s)
         in Inr (n, pon16 b 6 s @ drop n dst))"

section \<open>ICMP\<close>

definition CABECERA_ICMP :: nat where "CABECERA_ICMP = 8"
definition ECO_RESPUESTA :: u8 where "ECO_RESPUESTA = 0"
definition ECO_PETICION :: u8 where "ECO_PETICION = 8"

record eco =
  ec_tipo :: u8
  ec_id :: u16
  ec_secuencia :: u16
  ec_datos :: "u8 list"

definition leer_icmp :: "u8 list \<Rightarrow> rechazo + eco" where
  "leer_icmp b =
    (if length b < CABECERA_ICMP then Inl Corto
     else if suma_de b \<noteq> 0 then Inl SumaMala
     else if b ! 0 \<noteq> ECO_PETICION \<and> b ! 0 \<noteq> ECO_RESPUESTA \<or> b ! 1 \<noteq> 0 then Inl TipoMalo
     else Inr \<lparr>ec_tipo = b ! 0, ec_id = be16 b 4, ec_secuencia = be16 b 6, ec_datos = drop CABECERA_ICMP b\<rparr>)"

definition cabecera_icmp :: "u8 list \<Rightarrow> u8 \<Rightarrow> u16 \<Rightarrow> u16 \<Rightarrow> u8 list \<Rightarrow> u8 list" where
  "cabecera_icmp b tipo ident secuencia datos =
    (let b = parche 0 [tipo] b; b = parche 1 [0] b; b = pon16 b 2 0; b = pon16 b 4 ident; b = pon16 b 6 secuencia
     in parche CABECERA_ICMP datos b)"

definition escribir_icmp :: "u8 list \<Rightarrow> u8 \<Rightarrow> u16 \<Rightarrow> u16 \<Rightarrow> u8 list \<Rightarrow> rechazo + (nat \<times> u8 list)" where
  "escribir_icmp dst tipo ident secuencia datos =
    (let n = CABECERA_ICMP + length datos in
     if length dst < n then Inl Corto
     else let b = cabecera_icmp (take n dst) tipo ident secuencia datos
       in Inr (n, pon16 b 2 (suma_de b) @ drop n dst))"

section \<open>Facts of fields and sums\<close>

lemmas medidas_red = CABECERA_ETHER_def MAX_CARGA_def MIN_TRAMA_def CABECERA_IP_def MTU_def CABECERA_UDP_def
  MAX_DATOS_def CABECERA_ICMP_def TTL_def

lemma rodaja_al_frente: "i + k \<le> length xs \<Longrightarrow> rodaja i k (xs @ ys) = rodaja i k xs"
  by (simp add: rodaja_def)

lemma rodaja_take: "i + k \<le> m \<Longrightarrow> rodaja i k (take m b) = rodaja i k b"
  by (simp add: rodaja_def drop_take min_def)

lemma rodaja_dos: "i + 2 \<le> length b \<Longrightarrow> rodaja i 2 b = [b ! i, b ! (i + 1)]"
  by (simp add: rodaja_def list_eq_iff_nth_eq less_Suc_eq numeral_2_eq_2)

lemma be16_rodaja: "i + 2 \<le> length b \<Longrightarrow> be16 b i = de_be (rodaja i 2 b)"
  by (simp add: be16_def rodaja_dos)

lemma be16_pon16 [bytes_simps]: "i + 2 \<le> length b \<Longrightarrow> be16 (pon16 b i v) i = v"
  by (simp add: be16_rodaja pon16_def bytes_simps)

lemma be16_pon16_otro [bytes_simps]:
  "i + 2 \<le> j \<or> j + 2 \<le> i \<Longrightarrow> i + 2 \<le> length b \<Longrightarrow> j + 2 \<le> length b \<Longrightarrow> be16 (pon16 b i v) j = be16 b j"
  by (auto simp: be16_rodaja pon16_def bytes_simps)

lemma be16_parche [bytes_simps]:
  "i + length xs \<le> j \<or> j + 2 \<le> i \<Longrightarrow> i + length xs \<le> length b \<Longrightarrow> j + 2 \<le> length b \<Longrightarrow> be16 (parche i xs b) j = be16 b j"
  by (auto simp: be16_rodaja bytes_simps)

lemma length_pon16 [bytes_simps]: "i + 2 \<le> length b \<Longrightarrow> length (pon16 b i v) = length b"
  by (simp add: pon16_def bytes_simps)

lemma rodaja_pon16 [bytes_simps]:
  "i + 2 \<le> j \<or> j + n \<le> i \<Longrightarrow> i + 2 \<le> length b \<Longrightarrow> rodaja j n (pon16 b i v) = rodaja j n b"
  by (auto simp: pon16_def bytes_simps)

lemma nth_pon16 [bytes_simps]: "j < i \<or> i + 2 \<le> j \<Longrightarrow> i + 2 \<le> length b \<Longrightarrow> pon16 b i v ! j = b ! j"
  by (auto simp: pon16_def bytes_simps)

lemma be16_append [bytes_simps]: "i + 2 \<le> length a \<Longrightarrow> be16 (a @ b) i = be16 a i"
  by (simp add: be16_def nth_append)

text \<open>A field at an even place, taken out of the sum and put into it.\<close>

lemma palabras_be [simp]: "palabras (be 2 v) = unat (v :: u16)"
  using unat_be_dos [of v] by (simp add: be_dos)

lemma palabras_pon16:
  assumes "even i" "i + 2 \<le> length b" "be16 b i = 0"
  shows "palabras (pon16 b i v) = palabras b + unat v"
proof -
  have z: "palabras (rodaja i 2 b) = 0"
    using assms(2,3) de_be_dos [of "b ! i" "b ! (i + 1)"] by (simp add: rodaja_dos be16_def)
  have "rodaja i 2 b @ drop (i + 2) b = drop i b"
    using append_take_drop_id [of 2 "drop i b"] by (simp add: rodaja_def add.commute)
  then have b: "b = take i b @ rodaja i 2 b @ drop (i + 2) b"
    by simp
  have l: "even (length (take i b))" "even (length (rodaja i 2 b))"
    using assms(1,2) by (simp_all add: length_rodaja)
  have "palabras b = palabras (take i b) + (palabras (rodaja i 2 b) + palabras (drop (i + 2) b))"
    by (subst b) (simp only: palabras_append l)
  moreover have "palabras (pon16 b i v) = palabras (take i b) + (unat v + palabras (drop (i + 2) b))"
    using l(1) by (simp add: pon16_def parche_def palabras_append)
  ultimately show ?thesis
    using z by simp
qed

lemma cuadra: "0 < n + (65535 - plegada n)" "65535 dvd n + (65535 - plegada n)"
proof -
  have "plegada (n + (65535 - plegada n)) = plegada (plegada n + (65535 - plegada n))"
    by (simp add: plegada_mas)
  also have "\<dots> = 65535"
    using plegada_le [of n] by (simp add: plegada_chica)
  finally show "0 < n + (65535 - plegada n)" "65535 dvd n + (65535 - plegada n)"
    by (simp_all add: plegada_65535)
qed

text \<open>A message with its sum in place, behind whatever was summed before it.\<close>

lemma suma_puesta:
  assumes "lleva a s" "even (length a)" "even i" "i + 2 \<le> length b" "be16 b i = 0"
    "v = suma_cerrar (suma_bytes b s) \<or> v = 0xFFFF \<and> suma_cerrar (suma_bytes b s) = 0"
  shows "suma_cerrar (suma_bytes (pon16 b i v) s) = 0"
proof -
  define n where "n = palabras (a @ b)"
  have s: "unat (suma_cerrar (suma_bytes b s)) = 65535 - plegada n"
    using lleva_cerrar [OF lleva_bytes [OF assms(1)]] by (simp add: n_def)
  have m: "palabras (a @ pon16 b i v) = n + unat v"
    using assms(2-5) by (simp add: n_def palabras_append palabras_pon16)
  have "0 < n + unat v \<and> 65535 dvd n + unat v"
  proof (cases "v = suma_cerrar (suma_bytes b s)")
    case True
    then show ?thesis
      using cuadra [of n] s by simp
  next
    case False
    then have v: "unat v = 65535" "plegada n = 65535"
      using assms(6) s plegada_le [of n] by auto
    then show ?thesis
      by (simp add: plegada_65535)
  qed
  then show ?thesis
    using cerrar_0_iff [OF lleva_bytes [OF assms(1), of "pon16 b i v"]] m by simp
qed

lemma suma_de_puesta: "even i \<Longrightarrow> i + 2 \<le> length b \<Longrightarrow> be16 b i = 0 \<Longrightarrow> suma_de (pon16 b i (suma_de b)) = 0"
  unfolding suma_de_def by (rule suma_puesta [OF lleva_nueva]) simp_all

lemma lleva_pseudo: "lleva (o' @ d @ be 2 (ucast p :: u16) @ be 2 l) (pseudo o' d p l)"
  using lleva_u16 [OF lleva_u16 [OF lleva_bytes [OF lleva_bytes [OF lleva_nueva, of o'], of d], of "ucast p"], of l]
  by (simp add: pseudo_def)

section \<open>What is written is read\<close>

lemma ether_vuelve:
  assumes "escribir_trama dst destino origen tipo = Inr (n, b)" "length destino = 6" "length origen = 6"
    "\<not> es_grupo_mac origen" "origen \<noteq> replicate 6 0" "tipo = TIPO_IPV4 \<or> tipo = TIPO_ARP" "length carga \<le> 1500"
  shows "leer_trama (take n b @ carga) =
    Inr \<lparr>tr_destino = destino, tr_origen = origen, tr_tipo = tipo, tr_carga = carga\<rparr>"
proof -
  have d: "14 \<le> length dst"
    using assms(1) by (simp add: escribir_trama_def medidas_red split: if_splits)
  then have n: "n = 14" "b = pon16 (parche 6 origen (parche 0 destino dst)) 12 tipo"
    using assms(1) by (simp_all add: escribir_trama_def medidas_red)
  define c where "c = take 14 b @ carga"
  have l: "length b = length dst"
    using n(2) d assms(2,3) by (simp add: bytes_simps)
  have "rodaja i k c = rodaja i k b" if "i + k \<le> 14" for i k
    using that d l by (simp add: c_def rodaja_al_frente rodaja_take)
  then have "rodaja 0 6 c = destino" "rodaja 6 6 c = origen" "be16 c 12 = tipo" "length c = 14 + length carga" "drop 14 c = carga"
    using d assms(2,3) l by (simp_all add: be16_rodaja c_def) (simp_all add: n(2) bytes_simps pon16_def)
  then show ?thesis
    using assms(4-7) unfolding n(1) c_def [symmetric] by (auto simp: leer_trama_def medidas_red)
qed

lemma pon16_al_frente: "i + 2 \<le> length a \<Longrightarrow> pon16 (a @ c) i v = pon16 a i v @ c"
  by (simp add: pon16_def parche_def)

lemma length_cabecera_ip [simp]:
  "length b = 20 \<Longrightarrow> length origen = 4 \<Longrightarrow> length destino = 4 \<Longrightarrow> length (cabecera_ip b origen destino p t ident) = 20"
  by (simp add: cabecera_ip_def Let_def bytes_simps)

lemma ip_vuelve:
  assumes "escribir_ip dst origen destino protocolo (length carga) ident = Inr (n, b)" "length origen = 4" "length destino = 4"
    "\<not> origen_imposible origen"
  shows "leer_ip (take n b @ carga @ relleno) =
    Inr \<lparr>pq_origen = origen, pq_destino = destino, pq_protocolo = protocolo, pq_ttl = 64, pq_id = ident, pq_carga = carga\<rparr>"
proof -
  define tot where "tot = 20 + length carga"
  define h where "h = cabecera_ip (take 20 dst) origen destino protocolo tot ident"
  define c where "c = pon16 h 10 (suma_de h)"
  have d: "tot \<le> 1500" "20 \<le> length dst" "n = 20" "b = c @ drop 20 dst"
    using assms(1) by (auto simp: escribir_ip_def medidas_red Let_def tot_def h_def c_def split: if_splits)
  have l: "length h = 20" "length c = 20"
    using d(2) assms(2,3) by (simp_all add: h_def c_def bytes_simps)
  have t: "unat (word_of_nat tot :: u16) = tot"
    using d(1) by (simp add: unat_word_of_nat)
  have h: "h ! 0 = 0x45" "be16 h 2 = word_of_nat tot" "be16 h 4 = ident" "be16 h 6 = 0x4000" "h ! 8 = 64" "h ! 9 = protocolo"
    "be16 h 10 = 0" "rodaja 12 4 h = origen" "rodaja 16 4 h = destino"
    using d(2) assms(2,3) by (simp_all add: h_def cabecera_ip_def Let_def bytes_simps TTL_def)
  have c: "c ! 0 = 0x45" "be16 c 2 = word_of_nat tot" "be16 c 4 = ident" "be16 c 6 = 0x4000" "c ! 8 = 64" "c ! 9 = protocolo"
    "rodaja 12 4 c = origen" "rodaja 16 4 c = destino" "suma_de c = 0"
    using l(1) h by (simp_all add: c_def bytes_simps suma_de_puesta)
  define e where "e = c @ carga @ relleno"
  have e: "e ! 0 = 0x45" "be16 e 2 = word_of_nat tot" "be16 e 4 = ident" "be16 e 6 = 0x4000" "e ! 8 = 64" "e ! 9 = protocolo"
    "rodaja 12 4 e = origen" "rodaja 16 4 e = destino" "take 20 e = c" "20 \<le> length e" "tot \<le> length e" "rodaja 20 (length carga) e = carga"
    using c l(2) by (simp_all add: e_def nth_append bytes_simps rodaja_al_frente tot_def) (simp add: rodaja_def)
  have "take n b @ carga @ relleno = e"
    using l(2) by (simp add: d(3,4) e_def)
  moreover have "leer_ip e = Inr \<lparr>pq_origen = origen, pq_destino = destino, pq_protocolo = protocolo, pq_ttl = 64,
      pq_id = ident, pq_carga = carga\<rparr>"
    using e c(9) t assms(4) unfolding leer_ip_def by (simp add: medidas_red Let_def tot_def)
  ultimately show ?thesis
    by simp
qed

lemma udp_vuelve:
  assumes "escribir_udp dst ip_origen ip_destino origen destino datos = Inr (n, b)" "length ip_origen = 4" "length ip_destino = 4"
  shows "leer_udp (take n b @ relleno) ip_origen ip_destino =
    (if origen = 0 \<or> destino = 0 then Inl Puerto
     else Inr \<lparr>dg_origen = origen, dg_destino = destino, dg_datos = datos\<rparr>)"
proof -
  define s where "s = pseudo ip_origen ip_destino PROTO_UDP (word_of_nat n)"
  define h where "h = cabecera_udp (take n dst) origen destino n datos"
  define v where "v = (let v = suma_cerrar (suma_bytes h s) in if v = 0 then 0xFFFF else v)"
  define c where "c = pon16 h 6 v"
  have d: "length datos \<le> 1472" "n = 8 + length datos" "n \<le> length dst" "b = c @ drop n dst"
    using assms(1) by (auto simp: escribir_udp_def medidas_red Let_def h_def c_def s_def v_def split: if_splits)
  have l: "length h = n" "length c = n"
    using d(2,3) by (simp_all add: h_def c_def cabecera_udp_def bytes_simps medidas_red)
  have t: "unat (word_of_nat n :: u16) = n"
    using d(1,2) by (intro unat_word_of_nat) simp
  have h: "be16 h 0 = origen" "be16 h 2 = destino" "be16 h 4 = word_of_nat n" "be16 h 6 = 0" "drop 8 h = datos"
    using d(2,3) by (simp_all add: h_def cabecera_udp_def bytes_simps medidas_red)
      (simp add: parche_def pon16_def)
  have "suma_cerrar (suma_bytes c s) = 0"
    unfolding c_def s_def
  proof (rule suma_puesta [OF lleva_pseudo])
    show "v = suma_cerrar (suma_bytes h (pseudo ip_origen ip_destino PROTO_UDP (word_of_nat n))) \<or>
        v = 0xFFFF \<and> suma_cerrar (suma_bytes h (pseudo ip_origen ip_destino PROTO_UDP (word_of_nat n))) = 0"
      by (simp add: v_def s_def Let_def)
  qed (use h d(2) l(1) assms(2,3) in simp_all)
  moreover have "v \<noteq> 0"
    by (simp add: v_def Let_def)
  ultimately have c: "be16 c 0 = origen" "be16 c 2 = destino" "be16 c 4 = word_of_nat n" "be16 c 6 \<noteq> 0" "drop 8 c = datos"
    "suma_cerrar (suma_bytes c s) = 0"
    using h l d(2) by (simp_all add: c_def bytes_simps) (simp add: pon16_def parche_def)
  have "take n b @ relleno = c @ relleno" "be16 (c @ relleno) 4 = word_of_nat n"
    using l(2) c(3) d(2) by (simp_all add: d(4) bytes_simps)
  then show ?thesis
    using c l(2) t d(2) by (simp add: leer_udp_def medidas_red Let_def s_def)
qed

lemma icmp_vuelve:
  assumes "escribir_icmp dst tipo ident secuencia datos = Inr (n, b)" "tipo = ECO_PETICION \<or> tipo = ECO_RESPUESTA"
  shows "leer_icmp (take n b) = Inr \<lparr>ec_tipo = tipo, ec_id = ident, ec_secuencia = secuencia, ec_datos = datos\<rparr>"
proof -
  define h where "h = cabecera_icmp (take n dst) tipo ident secuencia datos"
  define c where "c = pon16 h 2 (suma_de h)"
  have d: "n = 8 + length datos" "n \<le> length dst" "b = c @ drop n dst"
    using assms(1) by (auto simp: escribir_icmp_def medidas_red Let_def h_def c_def split: if_splits)
  have l: "length h = n" "length c = n"
    using d(1,2) by (simp_all add: h_def c_def cabecera_icmp_def bytes_simps medidas_red Let_def)
  have h: "h ! 0 = tipo" "h ! 1 = 0" "be16 h 2 = 0" "be16 h 4 = ident" "be16 h 6 = secuencia" "drop 8 h = datos"
    using d(1,2) by (simp_all add: h_def cabecera_icmp_def bytes_simps medidas_red Let_def)
      (simp add: parche_def pon16_def)
  have c: "c ! 0 = tipo" "c ! 1 = 0" "be16 c 4 = ident" "be16 c 6 = secuencia" "drop 8 c = datos" "suma_de c = 0"
    using h l d(1) by (simp_all add: c_def bytes_simps suma_de_puesta) (simp add: pon16_def parche_def)
  have "take n b = c"
    using l(2) by (simp add: d(3))
  then show ?thesis
    using c l(2) d(1) assms(2) by (auto simp: leer_icmp_def medidas_red)
qed

end
