(* ===== verification/Tcp_Segmento.thy ===== *)
theory Tcp_Segmento
  imports Red_Paquetes
begin

text \<open>
  \<open>platform/shared/bmo-pila/src/tcp/segmento.rs\<close>: the TCP segment, read without believing it and
  written. The options are walked with their lengths checked: the walk always ends, whatever the bytes.
\<close>

section \<open>The segment\<close>

definition CABECERA_TCP :: nat where "CABECERA_TCP = 20"

definition FIN :: u8 where "FIN = 0x01"
definition SYN :: u8 where "SYN = 0x02"
definition RST :: u8 where "RST = 0x04"
definition PSH :: u8 where "PSH = 0x08"
definition ACK :: u8 where "ACK = 0x10"
definition URG :: u8 where "URG = 0x20"

lemmas banderas_tcp = FIN_def SYN_def RST_def PSH_def ACK_def URG_def

record segmento =
  sg_origen :: u16
  sg_destino :: u16
  sg_sec :: u32
  sg_ack :: u32
  sg_banderas :: u8
  sg_ventana :: u16
  sg_mss :: "u16 option"
  sg_datos :: "u8 list"

text \<open>The combinations no honest conversation has.\<close>

definition raras :: "u8 \<Rightarrow> bool" where
  "raras f \<longleftrightarrow> f = 0 \<or> f AND (SYN OR FIN) = SYN OR FIN \<or> f AND (SYN OR RST) = SYN OR RST \<or>
    f AND URG \<noteq> 0 \<or> f AND FIN \<noteq> 0 \<and> f AND ACK = 0"

text \<open>The \<open>while\<close> over the options: \<open>i\<close> only grows, so it ends.\<close>

function opciones_tcp :: "u8 list \<Rightarrow> nat \<Rightarrow> nat \<Rightarrow> u16 option \<Rightarrow> rechazo + u16 option" where
  "opciones_tcp b desp i mss =
    (if \<not> i < desp then Inr mss
     else if b ! i = 0 then Inr mss
     else if b ! i = 1 then opciones_tcp b desp (i + 1) mss
     else if i + 1 \<ge> desp then Inl Opciones
     else let largo = unat (b ! (i + 1)) in
       if largo < 2 \<or> i + largo > desp then Inl Opciones
       else if b ! i = 2 then
         (if largo \<noteq> 4 then Inl Opciones else opciones_tcp b desp (i + largo) (Some (be16 b (i + 2))))
       else opciones_tcp b desp (i + largo) mss)"
  by pat_completeness auto
termination
  by (relation "measure (\<lambda>(b, desp, i, mss). desp - i)") auto

declare opciones_tcp.simps [simp del]

definition leer_segmento :: "u8 list \<Rightarrow> u8 list \<Rightarrow> u8 list \<Rightarrow> rechazo + segmento" where
  "leer_segmento b ip_origen ip_destino =
    (if length b < CABECERA_TCP then Inl Corto
     else if length b > MTU - CABECERA_IP then Inl Largo
     else let desp = unat (drop_bit 4 (b ! 12)) * 4 in
       if desp < CABECERA_TCP then Inl Cabecera
       else if desp > length b then Inl Corto
       else if suma_cerrar (suma_bytes b (pseudo ip_origen ip_destino PROTO_TCP (word_of_nat (length b)))) \<noteq> 0
       then Inl SumaMala
       else let origen = be16 b 0; destino = be16 b 2 in
         if origen = 0 \<or> destino = 0 then Inl Puerto
         else let banderas = b ! 13 AND 0x3F in
           if raras banderas then Inl Banderas
           else (case opciones_tcp b desp CABECERA_TCP None of
               Inl e \<Rightarrow> Inl e
             | Inr mss \<Rightarrow> Inr \<lparr>sg_origen = origen, sg_destino = destino, sg_sec = be32 b 4, sg_ack = be32 b 8,
                 sg_banderas = banderas, sg_ventana = be16 b 14, sg_mss = mss, sg_datos = drop desp b\<rparr>))"

definition cabecera_tcp ::
    "u8 list \<Rightarrow> u16 \<Rightarrow> u16 \<Rightarrow> u32 \<Rightarrow> u32 \<Rightarrow> nat \<Rightarrow> u8 \<Rightarrow> u16 \<Rightarrow> u16 option \<Rightarrow> u8 list \<Rightarrow> u8 list" where
  "cabecera_tcp b origen destino sec ack desp banderas ventana mss datos =
    (let b = pon16 b 0 origen; b = pon16 b 2 destino; b = pon32 b 4 sec; b = pon32 b 8 ack;
         b = parche 12 [push_bit 4 (word_of_nat (desp div 4))] b; b = parche 13 [banderas] b;
         b = pon16 b 14 ventana; b = pon16 b 16 0; b = pon16 b 18 0;
         b = (case mss of None \<Rightarrow> b | Some m \<Rightarrow> pon16 (parche 21 [4] (parche 20 [2] b)) 22 m)
     in parche desp datos b)"

definition escribir_segmento ::
    "u8 list \<Rightarrow> u8 list \<Rightarrow> u8 list \<Rightarrow> u16 \<Rightarrow> u16 \<Rightarrow> u32 \<Rightarrow> u32 \<Rightarrow> u8 \<Rightarrow> u16 \<Rightarrow> u16 option \<Rightarrow> u8 list \<Rightarrow>
      rechazo + (nat \<times> u8 list)" where
  "escribir_segmento dst ip_origen ip_destino origen destino sec ack banderas ventana mss datos =
    (let desp = CABECERA_TCP + (if mss \<noteq> None then 4 else 0); n = desp + length datos in
     if n > MTU - CABECERA_IP then Inl Largo
     else if length dst < n then Inl Corto
     else let b = cabecera_tcp (take n dst) origen destino sec ack desp banderas ventana mss datos;
              v = suma_cerrar (suma_bytes b (pseudo ip_origen ip_destino PROTO_TCP (word_of_nat n)))
       in Inr (n, pon16 b 16 v @ drop n dst))"

section \<open>What is read stays inside\<close>

text \<open>What a rejected option leaves, and the bounds every accepted segment has.\<close>

lemma leer_segmento_bien:
  assumes "leer_segmento b o' d = Inr s"
  shows "length (sg_datos s) \<le> 1460" "\<not> raras (sg_banderas s)" "sg_origen s \<noteq> 0" "sg_destino s \<noteq> 0"
  using assms
  by (auto simp: leer_segmento_def Let_def medidas_red CABECERA_TCP_def split: if_splits sum.splits)

section \<open>What is written is read\<close>

lemma rodaja_cuatro: "i + 4 \<le> length b \<Longrightarrow> rodaja i 4 b = [b ! i, b ! (i + 1), b ! (i + 2), b ! (i + 3)]"
proof -
  assume i: "i + 4 \<le> length b"
  have "rodaja i (2 + 2) b = rodaja i 2 b @ rodaja (i + 2) 2 b"
    by (simp only: rodaja_def take_add drop_drop add.commute)
  moreover have "b ! (i + 3) = b ! Suc (Suc (Suc i))"
    by (simp only: numeral_3_eq_3 add_Suc_right add_0_right)
  ultimately show ?thesis
    using i by (simp add: rodaja_dos)
qed

lemma be32_rodaja: "i + 4 \<le> length b \<Longrightarrow> be32 b i = de_be (rodaja i 4 b)"
  by (simp add: be32_def rodaja_cuatro)

lemma be32_pon32 [bytes_simps]: "i + 4 \<le> length b \<Longrightarrow> be32 (pon32 b i v) i = v"
  by (simp add: be32_rodaja pon32_def bytes_simps)

lemma be32_pon32_otro [bytes_simps]:
  "i + 4 \<le> j \<or> j + 4 \<le> i \<Longrightarrow> i + 4 \<le> length b \<Longrightarrow> j + 4 \<le> length b \<Longrightarrow> be32 (pon32 b i v) j = be32 b j"
  by (auto simp: be32_rodaja pon32_def bytes_simps)

lemma be32_pon16 [bytes_simps]:
  "i + 2 \<le> j \<or> j + 4 \<le> i \<Longrightarrow> i + 2 \<le> length b \<Longrightarrow> j + 4 \<le> length b \<Longrightarrow> be32 (pon16 b i v) j = be32 b j"
  by (auto simp: be32_rodaja pon16_def bytes_simps)

lemma be16_pon32 [bytes_simps]:
  "i + 4 \<le> j \<or> j + 2 \<le> i \<Longrightarrow> i + 4 \<le> length b \<Longrightarrow> j + 2 \<le> length b \<Longrightarrow> be16 (pon32 b i v) j = be16 b j"
  by (auto simp: be16_rodaja pon32_def bytes_simps)

lemma be32_parche [bytes_simps]:
  "i + length xs \<le> j \<or> j + 4 \<le> i \<Longrightarrow> i + length xs \<le> length b \<Longrightarrow> j + 4 \<le> length b \<Longrightarrow> be32 (parche i xs b) j = be32 b j"
  by (auto simp: be32_rodaja bytes_simps)

lemma length_pon32 [bytes_simps]: "i + 4 \<le> length b \<Longrightarrow> length (pon32 b i v) = length b"
  by (simp add: pon32_def bytes_simps)

lemma nth_pon32 [bytes_simps]: "j < i \<or> i + 4 \<le> j \<Longrightarrow> i + 4 \<le> length b \<Longrightarrow> pon32 b i v ! j = b ! j"
  by (auto simp: pon32_def bytes_simps)

lemma drop_pon16 [bytes_simps]: "i + 2 \<le> j \<Longrightarrow> i + 2 \<le> length b \<Longrightarrow> drop j (pon16 b i v) = drop j b"
  by (auto simp: pon16_def parche_def dest!: le_Suc_ex)

lemma opciones_mss:
  "b ! 20 = 2 \<Longrightarrow> b ! 21 = 4 \<Longrightarrow> opciones_tcp b 24 20 None = Inr (Some (be16 b 22))"
  by (simp add: opciones_tcp.simps [of b 24 20] opciones_tcp.simps [of b 24 24])

lemma tcp_vuelve:
  assumes "escribir_segmento dst ip_origen ip_destino origen destino sec ack banderas ventana mss datos = Inr (n, b)"
    "length ip_origen = 4" "length ip_destino = 4" "origen \<noteq> 0" "destino \<noteq> 0"
    "banderas AND 0x3F = banderas" "\<not> raras banderas"
  shows "leer_segmento (take n b) ip_origen ip_destino =
    Inr \<lparr>sg_origen = origen, sg_destino = destino, sg_sec = sec, sg_ack = ack, sg_banderas = banderas,
      sg_ventana = ventana, sg_mss = mss, sg_datos = datos\<rparr>"
proof -
  define k where "k = 20 + (if mss \<noteq> None then 4 else 0 :: nat)"
  define s where "s = pseudo ip_origen ip_destino PROTO_TCP (word_of_nat n)"
  define h where "h = cabecera_tcp (take n dst) origen destino sec ack k banderas ventana mss datos"
  define v where "v = suma_cerrar (suma_bytes h s)"
  define c where "c = pon16 h 16 v"
  have d: "n = k + length datos" "n \<le> 1480" "n \<le> length dst" "b = c @ drop n dst"
    using assms(1) [unfolded escribir_segmento_def CABECERA_TCP_def, folded k_def]
    by (auto simp: medidas_red Let_def h_def c_def s_def v_def split: if_splits)
  have k: "k = 20 \<and> mss = None \<or> k = 24 \<and> mss \<noteq> None"
    by (auto simp: k_def)
  define a where "a = (let b = pon16 (take n dst) 0 origen; b = pon16 b 2 destino; b = pon32 b 4 sec; b = pon32 b 8 ack;
         b = parche 12 [push_bit 4 (word_of_nat (k div 4))] b; b = parche 13 [banderas] b;
         b = pon16 b 14 ventana; b = pon16 b 16 0 in pon16 b 18 0)"
  define e where "e = (case mss of None \<Rightarrow> a | Some m \<Rightarrow> pon16 (parche 21 [4] (parche 20 [2] a)) 22 m)"
  have he: "h = parche k datos e"
    by (simp only: h_def cabecera_tcp_def e_def a_def Let_def)
  have n: "k + length datos = n" "20 \<le> n" "20 \<le> k"
    using d(1) k by auto
  have a: "length a = n" "be16 a 0 = origen" "be16 a 2 = destino" "be32 a 4 = sec" "be32 a 8 = ack"
    "a ! 12 = push_bit 4 (word_of_nat (k div 4))" "a ! 13 = banderas" "be16 a 14 = ventana" "be16 a 16 = 0"
    using d(3) n(2) by (simp_all add: a_def Let_def bytes_simps)
  have e: "length e = n" "be16 e 0 = origen" "be16 e 2 = destino" "be32 e 4 = sec" "be32 e 8 = ack"
    "e ! 12 = push_bit 4 (word_of_nat (k div 4))" "e ! 13 = banderas" "be16 e 14 = ventana" "be16 e 16 = 0"
    using a n k by (auto simp: e_def bytes_simps split: option.splits)
  have em: "e ! 20 = 2 \<and> e ! 21 = 4 \<and> be16 e 22 = m \<and> k = 24" if "mss = Some m" for m
    using that a(1) n k by (auto simp: e_def bytes_simps)
  have h: "length h = n" "be16 h 0 = origen" "be16 h 2 = destino" "be32 h 4 = sec" "be32 h 8 = ack"
    "h ! 12 = push_bit 4 (word_of_nat (k div 4))" "h ! 13 = banderas" "be16 h 14 = ventana" "be16 h 16 = 0"
    using e n by (simp_all add: he bytes_simps)
  have hm: "h ! 20 = 2 \<and> h ! 21 = 4 \<and> be16 h 22 = m \<and> k = 24" if "mss = Some m" for m
    using em [OF that] e(1) n by (simp add: he bytes_simps)
  have hd: "drop k h = datos"
    using e(1) n by (simp add: he parche_def)
  have l: "length c = n"
    using h(1) n by (simp add: c_def bytes_simps)
  have g: "be16 c 0 = origen" "be16 c 2 = destino" "be32 c 4 = sec" "be32 c 8 = ack"
    "c ! 12 = push_bit 4 (word_of_nat (k div 4))" "c ! 13 = banderas" "be16 c 14 = ventana" "drop k c = datos"
    using h hd n by (simp_all add: c_def bytes_simps)
  have m: "opciones_tcp c k 20 None = Inr mss"
  proof (cases mss)
    case None
    then show ?thesis
      using k by (simp add: opciones_tcp.simps)
  next
    case (Some m)
    then have "c ! 20 = 2 \<and> c ! 21 = 4 \<and> be16 c 22 = m \<and> k = 24"
      using hm [OF Some] h(1) n by (simp add: c_def bytes_simps)
    then show ?thesis
      using Some opciones_mss [of c] by simp
  qed
  have z: "unat (drop_bit 4 (c ! 12)) * 4 = k"
    using k by (auto simp: g(5))
  have "suma_cerrar (suma_bytes c s) = 0"
    unfolding c_def s_def
    by (rule suma_puesta [OF lleva_pseudo]) (use h n assms(2,3) in \<open>simp_all add: v_def s_def\<close>)
  moreover have "take n b = c"
    using l by (simp add: d(4))
  ultimately show ?thesis
    using m z l g n d(2) assms(4-)
    by (simp add: leer_segmento_def medidas_red CABECERA_TCP_def Let_def s_def)
qed

end
