(* ===== verification/Sha256.thy ===== *)
theory Sha256
  imports Orden_Red
begin

unbundle bit_operations_syntax

text \<open>
  \<open>platform/shared/bmo-cripto/src/sha256.rs\<close> and \<open>hmac.rs\<close>: SHA-256 fed in pieces, HMAC over it and the
  expansion of keys. The arrays are lists; the counters of bytes inside a block are natural numbers.
  \<^const>\<open>None\<close> is the loop of the padding that would not end.
\<close>

section \<open>The compression function\<close>

definition BLOQUE_SHA :: nat where "BLOQUE_SHA = 64"
definition LARGO_SHA :: nat where "LARGO_SHA = 32"

definition RAICES :: "u32 list" where
  "RAICES = [0x6a09e667, 0xbb67ae85, 0x3c6ef372, 0xa54ff53a, 0x510e527f, 0x9b05688c, 0x1f83d9ab, 0x5be0cd19]"

definition K_SHA :: "u32 list" where
  "K_SHA = [
    0x428A2F98, 0x71374491, 0xB5C0FBCF, 0xE9B5DBA5, 0x3956C25B, 0x59F111F1, 0x923F82A4, 0xAB1C5ED5,
    0xD807AA98, 0x12835B01, 0x243185BE, 0x550C7DC3, 0x72BE5D74, 0x80DEB1FE, 0x9BDC06A7, 0xC19BF174,
    0xE49B69C1, 0xEFBE4786, 0x0FC19DC6, 0x240CA1CC, 0x2DE92C6F, 0x4A7484AA, 0x5CB0A9DC, 0x76F988DA,
    0x983E5152, 0xA831C66D, 0xB00327C8, 0xBF597FC7, 0xC6E00BF3, 0xD5A79147, 0x06CA6351, 0x14292967,
    0x27B70A85, 0x2E1B2138, 0x4D2C6DFC, 0x53380D13, 0x650A7354, 0x766A0ABB, 0x81C2C92E, 0x92722C85,
    0xA2BFE8A1, 0xA81A664B, 0xC24B8B70, 0xC76C51A3, 0xD192E819, 0xD6990624, 0xF40E3585, 0x106AA070,
    0x19A4C116, 0x1E376C08, 0x2748774C, 0x34B0BCB5, 0x391C0CB3, 0x4ED8AA4A, 0x5B9CCA4F, 0x682E6FF3,
    0x748F82EE, 0x78A5636F, 0x84C87814, 0x8CC70208, 0x90BEFFFA, 0xA4506CEB, 0xBEF9A3F7, 0xC67178F2]"

text \<open>The message schedule: sixteen words of the block, and forty-eight more.\<close>

primrec agenda :: "nat \<Rightarrow> u32 list \<Rightarrow> u32 list" where
  "agenda 0 w = w"
| "agenda (Suc n) w =
    (let i = length w;
         s0 = word_rotr 7 (w ! (i - 15)) XOR word_rotr 18 (w ! (i - 15)) XOR drop_bit 3 (w ! (i - 15));
         s1 = word_rotr 17 (w ! (i - 2)) XOR word_rotr 19 (w ! (i - 2)) XOR drop_bit 10 (w ! (i - 2))
     in agenda n (w @ [w ! (i - 16) + s0 + w ! (i - 7) + s1]))"

definition palabras_sha :: "u8 list \<Rightarrow> u32 list" where
  "palabras_sha b = agenda 48 (map (\<lambda>i. de_be (rodaja (i * 4) 4 b)) [0 ..< 16])"

fun vuelta_sha :: "u32 \<Rightarrow> u32 \<Rightarrow> u32 list \<Rightarrow> u32 list" where
  "vuelta_sha k w [a, b, c, d, e, f, g, h] =
    (let s1 = word_rotr 6 e XOR word_rotr 11 e XOR word_rotr 25 e;
         ch = (e AND f) XOR (NOT e AND g);
         t1 = h + s1 + ch + k + w;
         s0 = word_rotr 2 a XOR word_rotr 13 a XOR word_rotr 22 a;
         maj = (a AND b) XOR (a AND c) XOR (b AND c);
         t2 = s0 + maj
     in [t1 + t2, a, b, c, d + t1, e, f, g])"
| "vuelta_sha k w s = s"

definition bloque_sha :: "u8 list \<Rightarrow> u32 list \<Rightarrow> u32 list" where
  "bloque_sha b h = (let w = palabras_sha b in
     map2 (+) h (fold (\<lambda>i. vuelta_sha (K_SHA ! i) (w ! i)) [0 ..< 64] h))"

section \<open>The hash fed in pieces\<close>

record sha256 =
  sh_h :: "u32 list"
  sh_resto :: "u8 list"
  sh_pendientes :: nat
  sh_tot :: u64

definition sha_nuevo :: sha256 where
  "sha_nuevo = \<lparr>sh_h = RAICES, sh_resto = replicate BLOQUE_SHA 0, sh_pendientes = 0, sh_tot = 0\<rparr>"

text \<open>The bytes that complete the block in progress; what is left of the data.\<close>

definition sha_completa :: "u8 list \<Rightarrow> sha256 \<Rightarrow> u8 list \<times> sha256" where
  "sha_completa datos s =
    (if sh_pendientes s > 0 then
       let cuantos = min (BLOQUE_SHA - sh_pendientes s) (length datos);
           s = s\<lparr>sh_resto := parche (sh_pendientes s) (take cuantos datos) (sh_resto s),
                 sh_pendientes := sh_pendientes s + cuantos\<rparr>
       in (drop cuantos datos,
           if sh_pendientes s = BLOQUE_SHA
           then s\<lparr>sh_h := bloque_sha (sh_resto s) (sh_h s), sh_pendientes := 0\<rparr> else s)
     else (datos, s))"

function sha_bloques :: "u8 list \<Rightarrow> u32 list \<Rightarrow> u8 list \<times> u32 list" where
  "sha_bloques datos h =
    (if BLOQUE_SHA \<le> length datos
     then sha_bloques (drop BLOQUE_SHA datos) (bloque_sha (take BLOQUE_SHA datos) h) else (datos, h))"
  by pat_completeness auto

termination
  by (relation "measure (\<lambda>(datos, h). length datos)") (auto simp: BLOQUE_SHA_def)

declare sha_bloques.simps [simp del]

definition sha_mete :: "u8 list \<Rightarrow> sha256 \<Rightarrow> sha256" where
  "sha_mete datos s =
    (let s = s\<lparr>sh_tot := sh_tot s + word_of_nat (length datos)\<rparr>;
         (datos, s) = sha_completa datos s;
         (datos, h) = sha_bloques datos (sh_h s);
         s = s\<lparr>sh_h := h\<rparr>
     in if datos \<noteq> [] then s\<lparr>sh_resto := parche 0 datos (sh_resto s), sh_pendientes := length datos\<rparr> else s)"

partial_function (option) sha_rellena :: "sha256 \<Rightarrow> sha256 option" where
  "sha_rellena s = (if sh_pendientes s = BLOQUE_SHA - 8 then Some s else sha_rellena (sha_mete [0] s))"

declare sha_rellena.simps [code]

definition sha_cierra :: "sha256 \<Rightarrow> u8 list option" where
  "sha_cierra s =
    (let bits = sh_tot s * 8 in
     case sha_rellena (sha_mete [0x80] s) of None \<Rightarrow> None
     | Some s \<Rightarrow> Some (concat (map (be 4) (sh_h (sha_mete (be 8 bits) s)))))"

definition sha_hash :: "u8 list \<Rightarrow> u8 list option" where
  "sha_hash datos = sha_cierra (sha_mete datos sha_nuevo)"

section \<open>HMAC\<close>

definition hmac :: "u8 list \<Rightarrow> u8 list \<Rightarrow> u8 list option" where
  "hmac clave mensaje =
    (case (if length clave > BLOQUE_SHA
           then map_option (\<lambda>h. parche 0 h (replicate BLOQUE_SHA 0)) (sha_hash clave)
           else Some (parche 0 clave (replicate BLOQUE_SHA 0))) of None \<Rightarrow> None
     | Some k \<Rightarrow>
         let ipad = map (\<lambda>x. 0x36 XOR x) k; opad = map (\<lambda>x. 0x5C XOR x) k in
         (case sha_cierra (sha_mete mensaje (sha_mete ipad sha_nuevo)) of None \<Rightarrow> None
          | Some interior \<Rightarrow> sha_cierra (sha_mete interior (sha_mete opad sha_nuevo))))"

definition iguales :: "u8 list \<Rightarrow> u8 list \<Rightarrow> bool" where
  "iguales a b \<longleftrightarrow> fold (\<lambda>i sobra. sobra OR (a ! i XOR b ! i)) [0 ..< LARGO_SHA] 0 = 0"

definition extraer :: "u8 list \<Rightarrow> u8 list \<Rightarrow> u8 list option" where
  "extraer sal secreto = hmac sal secreto"

text \<open>
  The loop of \<open>expandir\<close> from the \<open>n\<close>th block on: \<open>previo\<close> is empty before the first. The answer
  is the bytes put so far, and whether the label was too long.
\<close>

primrec expande :: "u8 list \<Rightarrow> u8 list \<Rightarrow> nat \<Rightarrow> nat \<Rightarrow> nat \<Rightarrow> u8 list \<Rightarrow> u8 list \<Rightarrow> (u8 list \<times> bool) option" where
  "expande llave etiqueta largo n 0 previo salida = Some (salida, True)"
| "expande llave etiqueta largo n (Suc k) previo salida =
    (if length etiqueta > 256 then Some (salida, False)
     else case hmac llave (previo @ etiqueta @ [word_of_nat n]) of None \<Rightarrow> None
     | Some h \<Rightarrow> expande llave etiqueta largo (n + 1) k h (salida @ take (min LARGO_SHA (largo - length salida)) h))"

definition expandir :: "u8 list \<Rightarrow> u8 list \<Rightarrow> nat \<Rightarrow> (u8 list \<times> bool) option" where
  "expandir llave etiqueta largo =
    (let bloques = (largo + LARGO_SHA - 1) div LARGO_SHA in
     if bloques > 255 then Some ([], False)
     else expande llave etiqueta largo 1 bloques [] [])"

section \<open>Pieces make no difference\<close>

text \<open>The hash of whole blocks, and the bytes that do not fill one.\<close>

function comprime :: "u32 list \<Rightarrow> u8 list \<Rightarrow> u32 list" where
  "comprime h xs = (if length xs < 64 then h else comprime (bloque_sha (take 64 xs) h) (drop 64 xs))"
  by pat_completeness auto

termination
  by (relation "measure (\<lambda>(h, xs). length xs)") auto

declare comprime.simps [simp del]

definition cola_sha :: "u8 list \<Rightarrow> u8 list" where
  "cola_sha xs = drop (length xs div 64 * 64) xs"

lemma length_cola_sha: "length (cola_sha xs) = length xs mod 64"
  by (simp add: cola_sha_def minus_div_mult_eq_mod)

lemma cola_sha_corta: "length xs < 64 \<Longrightarrow> cola_sha xs = xs"
  by (simp add: cola_sha_def)

lemma cola_sha_drop: "64 \<le> length xs \<Longrightarrow> cola_sha (drop 64 xs) = cola_sha xs"
proof -
  assume l: "64 \<le> length xs"
  have "length xs div 64 = Suc ((length xs - 64) div 64)"
    using l by (subst div_if) auto
  then have "length xs div 64 * 64 = (length xs - 64) div 64 * 64 + 64"
    by simp
  then show ?thesis
    by (simp add: cola_sha_def)
qed

lemma comprime_append:
  "comprime h (xs @ ys) = comprime (comprime h xs) (cola_sha xs @ ys)"
  "cola_sha (xs @ ys) = cola_sha (cola_sha xs @ ys)"
proof (induction h xs rule: comprime.induct)
  case (1 h xs)
  {
    case 1
    show ?case
    proof (cases "length xs < 64")
      case True
      then show ?thesis
        by (simp add: cola_sha_corta comprime.simps [of h xs])
    next
      case False
      then have "comprime h (xs @ ys) = comprime (bloque_sha (take 64 xs) h) (drop 64 xs @ ys)"
        by (subst comprime.simps) simp
      then show ?thesis
        using False "1.IH" by (simp add: comprime.simps [of h xs] cola_sha_drop)
    qed
  next
    case 2
    show ?case
    proof (cases "length xs < 64")
      case False
      then have "cola_sha (xs @ ys) = cola_sha (drop 64 xs @ ys)"
        using cola_sha_drop [of "xs @ ys"] by simp
      then show ?thesis
        using False "1.IH" by (simp add: cola_sha_drop)
    qed (simp add: cola_sha_corta)
  }
qed

lemma sha_bloques_eq: "sha_bloques xs h = (cola_sha xs, comprime h xs)"
proof (induction xs h rule: sha_bloques.induct)
  case (1 xs h)
  show ?case
    by (cases "64 \<le> length xs")
      (use 1 in \<open>simp_all add: sha_bloques.simps [of xs h] comprime.simps [of h xs] BLOQUE_SHA_def cola_sha_drop
        cola_sha_corta\<close>)
qed

text \<open>A state that has been fed \<open>xs\<close>.\<close>

definition ha_leido :: "u8 list \<Rightarrow> sha256 \<Rightarrow> bool" where
  "ha_leido xs s \<longleftrightarrow> sh_h s = comprime RAICES xs \<and> sh_pendientes s = length xs mod 64 \<and>
    take (sh_pendientes s) (sh_resto s) = cola_sha xs \<and> length (sh_resto s) = 64 \<and>
    sh_tot s = word_of_nat (length xs)"

lemma ha_leido_nuevo: "ha_leido [] sha_nuevo"
  by (simp add: ha_leido_def sha_nuevo_def comprime.simps [of _ "[]"] cola_sha_def BLOQUE_SHA_def)

lemma comprime_cola: "length ys + length (cola_sha xs) < 64 \<Longrightarrow> comprime h (xs @ ys) = comprime h xs"
  by (subst comprime_append(1)) (simp add: comprime.simps [of _ "cola_sha xs @ ys"])

lemma ha_leido_completa:
  assumes "ha_leido xs s" "sha_completa datos s = (resto, t)" "0 < sh_pendientes s"
  shows "\<exists>ys. datos = ys @ resto \<and> sh_h t = comprime RAICES (xs @ ys) \<and> sh_pendientes t = length (xs @ ys) mod 64 \<and>
    take (sh_pendientes t) (sh_resto t) = cola_sha (xs @ ys) \<and> length (sh_resto t) = 64 \<and>
    (resto \<noteq> [] \<longrightarrow> sh_pendientes t = 0) \<and> sh_tot t = sh_tot s"
proof -
  define p where "p = sh_pendientes s"
  define n where "n = min (64 - p) (length datos)"
  define b where "b = parche p (take n datos) (sh_resto s)"
  have s: "sh_h s = comprime RAICES xs" "p = length xs mod 64" "take p (sh_resto s) = cola_sha xs" "length (sh_resto s) = 64"
    using assms(1) unfolding ha_leido_def p_def by auto
  have p: "0 < p" "p < 64" "p + n \<le> 64"
    using s(2) assms(3) by (auto simp: n_def p_def)
  have c: "length (cola_sha xs) = p"
    using s(2) by (simp add: length_cola_sha)
  have "b = cola_sha xs @ take n datos @ drop (p + n) (sh_resto s)"
    using s(3) by (simp add: b_def parche_def n_def)
  then have b: "length b = 64" "take (p + n) b = cola_sha xs @ take n datos"
    using p s(4) c by (simp_all add: n_def)
  have r: "resto = drop n datos" "sh_tot t = sh_tot s" "sh_resto t = b"
    "sh_h t = (if p + n = 64 then bloque_sha b (sh_h s) else sh_h s)" "sh_pendientes t = (if p + n = 64 then 0 else p + n)"
    using assms(2,3) by (auto simp: sha_completa_def BLOQUE_SHA_def Let_def p_def [symmetric] n_def [symmetric] b_def [symmetric])
  have l: "length (xs @ take n datos) mod 64 = (p + n) mod 64"
    by (simp add: s(2) n_def mod_add_left_eq)
  show ?thesis
  proof (cases "p + n = 64")
    case True
    have b64: "cola_sha xs @ take n datos = b"
      using b True by simp
    have "comprime RAICES (xs @ take n datos) = bloque_sha b (comprime RAICES xs)"
      using b(1) unfolding comprime_append(1) [of RAICES xs] b64
      by (simp add: comprime.simps [of _ b] comprime.simps [of _ "[]"])
    moreover have "cola_sha (xs @ take n datos) = []"
      using l True length_cola_sha [of "xs @ take n datos"] by simp
    ultimately show ?thesis
      using True r s l b by (intro exI [of _ "take n datos"]) simp
  next
    case False
    then have n: "n = length datos" "p + n < 64"
      using p by (auto simp: n_def)
    then have "comprime RAICES (xs @ take n datos) = comprime RAICES xs"
      using c by (intro comprime_cola) simp
    moreover have "cola_sha (xs @ take n datos) = cola_sha xs @ take n datos"
      using n c by (simp add: comprime_append(2) [of xs] cola_sha_corta)
    ultimately show ?thesis
      using False r s l b n by (intro exI [of _ "take n datos"]) simp
  qed
qed

lemma ha_leido_mete:
  assumes "ha_leido xs s"
  shows "ha_leido (xs @ datos) (sha_mete datos s)"
proof -
  define s0 where "s0 = s\<lparr>sh_tot := sh_tot s + word_of_nat (length datos)\<rparr>"
  obtain resto t where c: "sha_completa datos s0 = (resto, t)"
    by fastforce
  have m: "sha_mete datos s = (let s = t\<lparr>sh_h := comprime (sh_h t) resto\<rparr>; d = cola_sha resto in
      if d \<noteq> [] then s\<lparr>sh_resto := parche 0 d (sh_resto s), sh_pendientes := length d\<rparr> else s)"
    using c by (simp add: sha_mete_def s0_def [symmetric] sha_bloques_eq Let_def)
  obtain ys where ys: "datos = ys @ resto" "sh_h t = comprime RAICES (xs @ ys)" "sh_pendientes t = length (xs @ ys) mod 64"
    "take (sh_pendientes t) (sh_resto t) = cola_sha (xs @ ys)" "length (sh_resto t) = 64"
    "resto \<noteq> [] \<longrightarrow> sh_pendientes t = 0" "sh_tot t = word_of_nat (length (xs @ datos))"
  proof (cases "0 < sh_pendientes s")
    case True
    define s1 where "s1 = s"
    have h: "ha_leido xs s" "0 < sh_pendientes s"
      using assms True by simp_all
    obtain resto' t' where c': "sha_completa datos s = (resto', t')"
      by fastforce
    have "resto' = resto" "t = t'\<lparr>sh_tot := sh_tot s + word_of_nat (length datos)\<rparr>"
      using c c' True by (auto simp: sha_completa_def s0_def Let_def split: if_splits)
    moreover have "sh_tot s = word_of_nat (length xs)"
      using assms by (simp add: ha_leido_def)
    ultimately show ?thesis
      using ha_leido_completa [OF h(1) c' h(2)] that by force
  next
    case False
    then have "resto = datos" "t = s0"
      using c by (auto simp: sha_completa_def s0_def)
    then show ?thesis
      using that [of "[]"] assms False by (auto simp: ha_leido_def s0_def)
  qed
  have a: "comprime RAICES (xs @ datos) = comprime (sh_h t) (cola_sha (xs @ ys) @ resto)"
    "cola_sha (xs @ datos) = cola_sha (cola_sha (xs @ ys) @ resto)"
    using comprime_append(1) [of RAICES "xs @ ys" resto] comprime_append(2) [of "xs @ ys" resto] by (simp_all add: ys(1,2))
  show ?thesis
  proof (cases "resto = []")
    case True
    have "length (cola_sha (xs @ ys)) < 64"
      by (simp add: length_cola_sha)
    then have "comprime (sh_h t) (cola_sha (xs @ ys)) = sh_h t" "cola_sha (cola_sha (xs @ ys)) = cola_sha (xs @ ys)"
      by (simp_all add: comprime.simps [of _ "cola_sha (xs @ ys)"] cola_sha_corta)
    moreover have "cola_sha [] = []"
      by (simp add: cola_sha_def)
    ultimately show ?thesis
      using True ys a m by (simp add: ha_leido_def Let_def comprime.simps [of _ "[]"])
  next
    case False
    then have z: "sh_pendientes t = 0" "cola_sha (xs @ ys) = []" "length (xs @ ys) mod 64 = 0"
      using ys(3,4,6) by simp_all
    define d where "d = cola_sha resto"
    have d: "cola_sha (xs @ datos) = d" "comprime RAICES (xs @ datos) = comprime (sh_h t) resto"
      using a z(2) by (simp_all add: d_def)
    have l: "length d = length (xs @ datos) mod 64" "length d \<le> 64"
      using length_cola_sha [of "xs @ datos"] unfolding d(1) by simp_all
    have "length (parche 0 d (sh_resto t)) = 64" "take (length d) (parche 0 d (sh_resto t)) = d"
      using l(2) ys(5) by (simp_all add: length_parche) (simp add: parche_def)
    then show ?thesis
      using ys(5,7) z(1) l(1) unfolding m ha_leido_def d d_def [symmetric] Let_def by (cases "d = []") simp_all
  qed
qed

lemma ha_leido_rellena:
  "ha_leido xs s \<Longrightarrow> (length xs + z) mod 64 = 56 \<Longrightarrow> (\<And>i. i < z \<Longrightarrow> (length xs + i) mod 64 \<noteq> 56) \<Longrightarrow>
   \<exists>t. sha_rellena s = Some t \<and> ha_leido (xs @ replicate z 0) t"
proof (induction z arbitrary: xs s)
  case 0
  then have "sh_pendientes s = BLOQUE_SHA - 8"
    by (simp add: ha_leido_def BLOQUE_SHA_def)
  then show ?case
    using 0 by (simp add: sha_rellena.simps [of s])
next
  case (Suc z)
  have "sh_pendientes s \<noteq> BLOQUE_SHA - 8"
    using Suc.prems(1) Suc.prems(3) [of 0] by (auto simp: ha_leido_def BLOQUE_SHA_def)
  moreover have "(length (xs @ [0]) + i) mod 64 \<noteq> 56" if "i < z" for i
    using Suc.prems(3) [of "Suc i"] that by simp
  ultimately show ?case
    using Suc.IH [of "xs @ [0]" "sha_mete [0] s"] ha_leido_mete [OF Suc.prems(1), of "[0]"] Suc.prems(2)
    by (simp add: sha_rellena.simps [of s])
qed

text \<open>How many zeros FIPS 180-4 puts after the byte \<open>0x80\<close>.\<close>

definition ceros :: "nat \<Rightarrow> nat" where
  "ceros n = (119 - n mod 64) mod 64"

definition rellenado :: "u8 list \<Rightarrow> u8 list" where
  "rellenado xs = xs @ [0x80] @ replicate (ceros (length xs)) 0 @ be 8 (word_of_nat (length xs) * 8 :: u64)"

lemma ceros_bien:
  "(n + 1 + ceros n) mod 64 = 56" "i < ceros n \<Longrightarrow> (n + 1 + i) mod 64 \<noteq> 56"
proof -
  define q r where "q = n div 64" and "r = n mod 64"
  then have n: "n = q * 64 + r" "r < 64" "n mod 64 = r"
    by simp_all
  have c: "ceros n = (119 - r) mod 64"
    by (simp add: ceros_def n(3))
  have m: "(n + 1 + k) mod 64 = (r + 1 + k) mod 64" for k
  proof -
    have "n + 1 + k = (r + 1 + k) + q * 64"
      using n(1) by linarith
    then show ?thesis
      by (simp only: mod_mult_self1)
  qed
  show "(n + 1 + ceros n) mod 64 = 56"
    unfolding m c mod_add_right_eq using n(2) by simp
  show "(n + 1 + i) mod 64 \<noteq> 56" if i: "i < ceros n"
  proof (cases "r < 56")
    case True
    then have "119 - r = (55 - r) + 64"
      by linarith
    then have "ceros n = (55 - r) mod 64"
      unfolding c by (simp only: mod_add_self2)
    then have "r + 1 + i < 56"
      using i True by simp
    then show ?thesis
      unfolding m by simp
  next
    case False
    then have "i < 119 - r"
      using i unfolding c by (metis mod_less_eq_dividend order_less_le_trans)
    then have r: "56 < r + 1 + i" "r + 1 + i < 120"
      using False by simp_all
    show ?thesis
    proof (cases "r + 1 + i < 64")
      case False
      then show ?thesis
        unfolding m using r(2) by (simp add: le_mod_geq)
    next
      case True
      then show ?thesis
        unfolding m using r(1) by simp
    qed
  qed
qed

lemma cierra_leido:
  assumes "ha_leido xs s"
  shows "sha_cierra s = Some (concat (map (be 4) (comprime RAICES (rellenado xs))))"
proof -
  have 1: "ha_leido (xs @ [0x80]) (sha_mete [0x80] s)"
    using assms by (rule ha_leido_mete)
  obtain t where t: "sha_rellena (sha_mete [0x80] s) = Some t"
    "ha_leido ((xs @ [0x80]) @ replicate (ceros (length xs)) 0) t"
    using ha_leido_rellena [OF 1, of "ceros (length xs)"] ceros_bien(1) [of "length xs"]
      ceros_bien(2) [of _ "length xs"]
    by auto
  have "sh_tot s = word_of_nat (length xs)"
    using assms by (simp add: ha_leido_def)
  then have "ha_leido (rellenado xs) (sha_mete (be 8 (sh_tot s * 8)) t)"
    using ha_leido_mete [OF t(2)] by (simp add: rellenado_def)
  then show ?thesis
    using t(1) by (simp add: sha_cierra_def ha_leido_def)
qed

lemma ha_leido_trozos: "ha_leido xs s \<Longrightarrow> ha_leido (xs @ concat ys) (fold sha_mete ys s)"
proof (induction ys arbitrary: xs s)
  case (Cons y ys)
  then show ?case
    using ha_leido_mete [of xs s y] by (simp add: append_assoc [symmetric] del: append_assoc)
qed simp

text \<open>
  C17: SHA-256 whatever the pieces. However a message is cut, feeding its pieces one after another and
  closing gives the compression, block by block, of the message followed by the byte 80, the zeros
  that make room and its length in bits; the loop that puts the zeros ends, and no byte is left
  outside the last block.
\<close>

theorem sha_por_bloques:
  "sha_cierra (fold sha_mete trozos sha_nuevo) = Some (concat (map (be 4) (comprime RAICES (rellenado (concat trozos))))) \<and>
   64 dvd length (rellenado (concat trozos))"
proof
  show "sha_cierra (fold sha_mete trozos sha_nuevo) = Some (concat (map (be 4) (comprime RAICES (rellenado (concat trozos)))))"
    using cierra_leido [OF ha_leido_trozos [OF ha_leido_nuevo, of trozos]] by simp
  define n where "n = length (concat trozos)"
  have "(n + 1 + ceros n + 8) mod 64 = 0"
    using mod_add_left_eq [of "n + 1 + ceros n" 64 8] unfolding ceros_bien(1) by simp
  then show "64 dvd length (rellenado (concat trozos))"
    by (simp add: rellenado_def n_def [symmetric] dvd_eq_mod_eq_0 ac_simps del: length_concat)
qed

section \<open>HMAC and the comparison of codes\<close>

definition sha :: "u8 list \<Rightarrow> u8 list" where
  "sha xs = concat (map (be 4) (comprime RAICES (rellenado xs)))"

lemma sha_hash_eq: "sha_hash xs = Some (sha xs)"
  using cierra_leido [OF ha_leido_mete [OF ha_leido_nuevo, of xs]] by (simp add: sha_hash_def sha_def)

lemma sha_dos: "sha_cierra (sha_mete ys (sha_mete xs sha_nuevo)) = Some (sha (xs @ ys))"
  using cierra_leido [OF ha_leido_mete [OF ha_leido_mete [OF ha_leido_nuevo, of xs], of ys]] by (simp add: sha_def)

text \<open>The key of a block: hashed when it is longer, and followed by zeros.\<close>

definition clave_hmac :: "u8 list \<Rightarrow> u8 list" where
  "clave_hmac clave = parche 0 (if length clave > 64 then sha clave else clave) (replicate 64 0)"

lemma hmac_eq:
  "hmac clave m = Some (sha (map (\<lambda>x. 0x5C XOR x) (clave_hmac clave) @ sha (map (\<lambda>x. 0x36 XOR x) (clave_hmac clave) @ m)))"
  by (simp add: hmac_def clave_hmac_def sha_hash_eq sha_dos Let_def BLOQUE_SHA_def)

lemma fold_or_0: "fold (\<lambda>i s. s OR f i) xs a = (0 :: 'a::len word) \<longleftrightarrow> a = 0 \<and> (\<forall>i \<in> set xs. f i = 0)"
  by (induction xs arbitrary: a) (auto simp: or_eq_0_iff)

lemma xor_0_iff: "x XOR y = 0 \<longleftrightarrow> x = y" for x y :: "'a::len word"
  by (metis xor.assoc xor.right_neutral xor_self_eq)

lemma iguales_iff: "length a = 32 \<Longrightarrow> length b = 32 \<Longrightarrow> iguales a b \<longleftrightarrow> a = b"
  by (auto simp: iguales_def fold_or_0 LARGO_SHA_def list_eq_iff_nth_eq xor_0_iff)

lemma length_vuelta_sha: "length (vuelta_sha k w s) = length s"
  by (induction k w s rule: vuelta_sha.induct) (simp_all add: Let_def)

lemma length_vueltas_sha: "length (fold (\<lambda>i. vuelta_sha (f i) (g i)) ns s) = length s"
  by (induction ns arbitrary: s) (simp_all add: length_vuelta_sha)

lemma length_bloque_sha: "length h = 8 \<Longrightarrow> length (bloque_sha b h) = 8"
  by (simp add: bloque_sha_def Let_def length_vueltas_sha)

lemma length_comprime: "length h = 8 \<Longrightarrow> length (comprime h xs) = 8"
  by (induction h xs rule: comprime.induct) (subst comprime.simps, simp add: length_bloque_sha)

lemma length_concat_be: "length (concat (map (be n) ws)) = length ws * n"
  by (induction ws) simp_all

lemma length_sha [simp]: "length (sha xs) = 32"
  by (simp add: sha_def length_concat_be length_comprime RAICES_def)

text \<open>
  C37: HMAC as RFC 2104 has it. For any key and message \<open>hmac\<close> answers the hash of the outer pad and
  the hash of the inner pad and the message, 32 bytes; and the comparison of two such codes, which
  looks at every byte, says yes exactly when they are equal.
\<close>

theorem hmac_exacto:
  "\<exists>h. hmac clave m = Some h \<and> length h = 32 \<and>
     h = sha (map (\<lambda>x. 0x5C XOR x) (clave_hmac clave) @ sha (map (\<lambda>x. 0x36 XOR x) (clave_hmac clave) @ m)) \<and>
     (length h' = 32 \<and> iguales h h') = (h = h')"
  by (auto simp: hmac_eq iguales_iff)

end
