(* ===== verification/Tcp.thy ===== *)
theory Tcp
  imports Tcp_Segmento Sha256
begin

text \<open>
  \<open>platform/shared/bmo-pila/src/tcp/mod.rs\<close>: eight TCP connections of fixed size, without a clock of
  their own. Every operation takes the whole \<^typ>\<open>u8 list\<close> arrays of the code with their used lengths;
  \<open>+\<close> wraps on the words, as in the kernel, which is built without overflow checks. An operation that
  fails returns the state as it leaves it.
\<close>

section \<open>The connection\<close>

definition CONEXIONES :: nat where "CONEXIONES = 8"
definition BUFER :: nat where "BUFER = 8192"
definition MSS :: u16 where "MSS = 1460"
definition MSS_MIN :: u16 where "MSS_MIN = 536"
definition RTO_INICIAL_MS :: u64 where "RTO_INICIAL_MS = 1000"
definition RTO_MAX_MS :: u64 where "RTO_MAX_MS = 32000"
definition REINTENTOS :: u8 where "REINTENTOS = 6"
definition TIEMPO_ESPERA_MS :: u64 where "TIEMPO_ESPERA_MS = 60000"
definition RETOS_POR_SEGUNDO :: u32 where "RETOS_POR_SEGUNDO = 10"
definition PUERTO_BAJO :: u16 where "PUERTO_BAJO = 49152"
definition PUERTOS :: nat where "PUERTOS = 16384"

lemmas medidas_tcp = CONEXIONES_def BUFER_def MSS_def MSS_MIN_def RTO_INICIAL_MS_def RTO_MAX_MS_def REINTENTOS_def
  TIEMPO_ESPERA_MS_def RETOS_POR_SEGUNDO_def PUERTO_BAJO_def PUERTOS_def

datatype cierre = Normal | Reset | Agotada | Abortada

datatype estado_tcp =
    Libre | Escucha | SynEnviado | SynRecibido | Establecida | FinEspera1 | FinEspera2 | CierreEspera
  | Cerrando | UltimoAck | TiempoEspera | CerradaPor cierre

record conexion =
  co_estado :: estado_tcp
  co_mi_ip :: "u8 list"
  co_su_ip :: "u8 list"
  co_mi_puerto :: u16
  co_su_puerto :: u16
  co_isn :: u32
  co_snd_una :: u32
  co_snd_nxt :: u32
  co_snd_wnd :: u32
  co_su_mss :: u16
  co_tx :: "u8 list"
  co_tx_len :: nat
  co_fin_pedido :: bool
  co_fin_confirmado :: bool
  co_rcv_nxt :: u32
  co_rx :: "u8 list"
  co_rx_len :: nat
  co_rto :: u64
  co_reintentos :: u8
  co_vence :: "u64 option"
  co_sondear :: bool
  co_cwnd :: u32
  co_ssthresh :: u32
  co_ack_debido :: bool
  co_desde :: u64
  co_escucha :: "u8 option"
  co_huerfana :: bool

definition LIBRE :: conexion where
  "LIBRE =
    \<lparr>co_estado = Libre, co_mi_ip = replicate 4 0, co_su_ip = replicate 4 0, co_mi_puerto = 0, co_su_puerto = 0,
     co_isn = 0, co_snd_una = 0, co_snd_nxt = 0, co_snd_wnd = 0, co_su_mss = MSS_MIN, co_tx = replicate BUFER 0,
     co_tx_len = 0, co_fin_pedido = False, co_fin_confirmado = False, co_rcv_nxt = 0, co_rx = replicate BUFER 0,
     co_rx_len = 0, co_rto = RTO_INICIAL_MS, co_reintentos = 0, co_vence = None, co_sondear = False,
     co_cwnd = 2 * ucast MSS, co_ssthresh = - 1, co_ack_debido = False, co_desde = 0, co_escucha = None,
     co_huerfana = False\<rparr>"

text \<open>\<open>a\<close> comes before \<open>b\<close> in half the circle of sequence numbers.\<close>

definition antes :: "u32 \<Rightarrow> u32 \<Rightarrow> bool" where
  "antes a b \<longleftrightarrow> (let d = b - a in d \<noteq> 0 \<and> d < 0x80000000)"

definition dentro :: "u32 \<Rightarrow> u32 \<Rightarrow> u32 \<Rightarrow> bool" where
  "dentro x desde largo \<longleftrightarrow> x - desde < largo"

definition mss_de :: "segmento \<Rightarrow> u16" where
  "mss_de s = min (max (case sg_mss s of None \<Rightarrow> MSS_MIN | Some m \<Rightarrow> m) MSS_MIN) MSS"

definition viva :: "conexion \<Rightarrow> bool" where
  "viva c \<longleftrightarrow> (case co_estado c of Libre \<Rightarrow> False | Escucha \<Rightarrow> False | CerradaPor x \<Rightarrow> False | _ \<Rightarrow> True)"

definition ventana_rx :: "conexion \<Rightarrow> u16" where
  "ventana_rx c = word_of_nat (min (BUFER - co_rx_len c) 65535)"

definition vuelo_co :: "conexion \<Rightarrow> u32" where
  "vuelo_co c = co_snd_nxt c - co_snd_una c"

definition mss_co :: "conexion \<Rightarrow> u32" where
  "mss_co c = ucast (min (co_su_mss c) MSS)"

definition armar :: "u64 \<Rightarrow> conexion \<Rightarrow> conexion" where
  "armar ahora c = (if co_vence c = None then c\<lparr>co_vence := Some (ahora + co_rto c)\<rparr> else c)"

definition cerrar_con :: "cierre \<Rightarrow> conexion \<Rightarrow> conexion" where
  "cerrar_con x c = c\<lparr>co_vence := None, co_estado := (if co_huerfana c then Libre else CerradaPor x)\<rparr>"

section \<open>The table of connections\<close>

record rst_tcp =
  rs_mi_ip :: "u8 list"
  rs_su_ip :: "u8 list"
  rs_mi_puerto :: u16
  rs_su_puerto :: u16
  rs_sec :: u32
  rs_ack :: u32

record tcp =
  tc_c :: "conexion list"
  tc_secreto :: "u8 list"
  tc_contador :: u32
  tc_retos :: "u64 \<times> u32"
  tc_rst :: "rst_tcp option"
  tc_turno :: nat

definition tcp_nueva :: "u8 list \<Rightarrow> tcp" where
  "tcp_nueva secreto =
    \<lparr>tc_c = replicate CONEXIONES LIBRE, tc_secreto = secreto, tc_contador = 0, tc_retos = (0, 0), tc_rst = None,
     tc_turno = 0\<rparr>"

definition con_tcp :: "nat \<Rightarrow> tcp \<Rightarrow> rechazo + conexion" where
  "con_tcp asa t =
    (if asa < length (tc_c t) \<and> co_estado (tc_c t ! asa) \<noteq> Libre then Inr (tc_c t ! asa) else Inl Asa)"

text \<open>Writing a connection back through the reference the code holds.\<close>

definition pon_con :: "nat \<Rightarrow> conexion \<Rightarrow> tcp \<Rightarrow> tcp" where
  "pon_con i c t = t\<lparr>tc_c := (tc_c t)[i := c]\<rparr>"

definition libre_tcp :: "tcp \<Rightarrow> rechazo + nat" where
  "libre_tcp t = (case primera_pos (\<lambda>c. co_estado c = Libre) (tc_c t) of None \<Rightarrow> Inl Lleno | Some i \<Rightarrow> Inr i)"

text \<open>
  The first four bytes of an HMAC, as a number. It always is there: \<open>hmac_exacto\<close> of the theory of
  SHA-256 shows that \<^const>\<open>hmac\<close> always ends, with 32 bytes.
\<close>

definition primera_palabra :: "u8 list option \<Rightarrow> u32" where
  "primera_palabra h = (case h of None \<Rightarrow> 0 | Some h \<Rightarrow> be32 h 0)"

definition isn_tcp :: "u8 list \<Rightarrow> u8 list \<Rightarrow> u16 \<Rightarrow> u16 \<Rightarrow> u64 \<Rightarrow> tcp \<Rightarrow> u32" where
  "isn_tcp mi_ip su_ip mi_puerto su_puerto ahora t =
    (let m = mi_ip @ su_ip @ be 2 mi_puerto @ be 2 su_puerto
     in primera_palabra (hmac (tc_secreto t) m) + ucast (ahora div 4))"

definition estado_de :: "nat \<Rightarrow> tcp \<Rightarrow> estado_tcp" where
  "estado_de asa t = (if asa < length (tc_c t) then co_estado (tc_c t ! asa) else Libre)"

definition extremos :: "nat \<Rightarrow> tcp \<Rightarrow> (u8 list \<times> u16 \<times> u8 list \<times> u16) option" where
  "extremos asa t =
    (case con_tcp asa t of Inl e \<Rightarrow> None
     | Inr c \<Rightarrow> Some (co_mi_ip c, co_mi_puerto c, co_su_ip c, co_su_puerto c))"

definition secuencias :: "nat \<Rightarrow> tcp \<Rightarrow> (u32 \<times> u32) option" where
  "secuencias asa t = (case con_tcp asa t of Inl e \<Rightarrow> None | Inr c \<Rightarrow> Some (co_snd_nxt c, co_rcv_nxt c))"

definition pendientes_tcp :: "nat \<Rightarrow> tcp \<Rightarrow> nat \<times> nat" where
  "pendientes_tcp asa t =
    (if asa < length (tc_c t) then (co_rx_len (tc_c t ! asa), co_tx_len (tc_c t ! asa)) else (0, 0))"

section \<open>What the application asks\<close>

text \<open>The port the code looks for: the first one, from the hash, that no connection to the same place has.\<close>

definition puerto_libre :: "u8 list \<Rightarrow> u8 list \<Rightarrow> u16 \<Rightarrow> u32 \<Rightarrow> tcp \<Rightarrow> u16 option" where
  "puerto_libre mi_ip su_ip su_puerto base t =
    find (\<lambda>p. \<not> list_ex (\<lambda>c. co_estado c \<noteq> Libre \<and> co_mi_ip c = mi_ip \<and> co_su_ip c = su_ip \<and>
        co_mi_puerto c = p \<and> co_su_puerto c = su_puerto) (tc_c t))
      (map (\<lambda>k. PUERTO_BAJO + ucast ((base + word_of_nat k) mod word_of_nat PUERTOS)) [0 ..< PUERTOS])"

definition conectar :: "u8 list \<Rightarrow> u8 list \<Rightarrow> u16 \<Rightarrow> u64 \<Rightarrow> tcp \<Rightarrow> (rechazo + nat) \<times> tcp" where
  "conectar mi_ip su_ip su_puerto ahora t =
    (if su_puerto = 0 then (Inl Puerto, t)
     else if origen_imposible su_ip then (Inl Direccion, t)
     else case libre_tcp t of Inl e \<Rightarrow> (Inl e, t)
     | Inr i \<Rightarrow>
         let base = primera_palabra (hmac (tc_secreto t) (su_ip @ be 2 su_puerto)) + tc_contador t;
             t = t\<lparr>tc_contador := tc_contador t + 1\<rparr>
         in case puerto_libre mi_ip su_ip su_puerto base t of None \<Rightarrow> (Inl Lleno, t)
          | Some puerto \<Rightarrow>
              let isn = isn_tcp mi_ip su_ip puerto su_puerto ahora t
              in (Inr i, pon_con i (LIBRE\<lparr>co_estado := SynEnviado, co_mi_ip := mi_ip, co_su_ip := su_ip,
                   co_mi_puerto := puerto, co_su_puerto := su_puerto, co_isn := isn, co_snd_una := isn,
                   co_snd_nxt := isn, co_desde := ahora\<rparr>) t))"

definition escuchar :: "u8 list \<Rightarrow> u16 \<Rightarrow> tcp \<Rightarrow> (rechazo + nat) \<times> tcp" where
  "escuchar mi_ip puerto t =
    (if puerto = 0 then (Inl Puerto, t)
     else if list_ex (\<lambda>c. co_estado c = Escucha \<and> co_mi_puerto c = puerto \<and> co_mi_ip c = mi_ip) (tc_c t)
     then (Inl EstadoMalo, t)
     else case libre_tcp t of Inl e \<Rightarrow> (Inl e, t)
     | Inr i \<Rightarrow>
         (Inr i, pon_con i (LIBRE\<lparr>co_estado := Escucha, co_mi_ip := mi_ip, co_mi_puerto := puerto\<rparr>) t))"

definition aceptar :: "nat \<Rightarrow> tcp \<Rightarrow> nat option \<times> tcp" where
  "aceptar asa t =
    (case primera_pos (\<lambda>c. co_huerfana c \<and> co_escucha c = Some (word_of_nat asa) \<and>
        (co_estado c = Establecida \<or> co_estado c = CierreEspera)) (tc_c t) of
       None \<Rightarrow> (None, t)
     | Some i \<Rightarrow> (Some i, pon_con i ((tc_c t ! i)\<lparr>co_huerfana := False, co_escucha := None\<rparr>) t))"

definition enviar :: "nat \<Rightarrow> u8 list \<Rightarrow> tcp \<Rightarrow> (rechazo + nat) \<times> tcp" where
  "enviar asa datos t =
    (case con_tcp asa t of Inl e \<Rightarrow> (Inl e, t)
     | Inr c \<Rightarrow>
         let admite = (co_estado c = SynEnviado \<or> co_estado c = Establecida \<or> co_estado c = CierreEspera) in
         if co_fin_pedido c \<or> \<not> admite then (Inl EstadoMalo, t)
         else let n = min (length datos) (BUFER - co_tx_len c)
           in (Inr n, pon_con asa (c\<lparr>co_tx := parche (co_tx_len c) (take n datos) (co_tx c),
                co_tx_len := co_tx_len c + n\<rparr>) t))"

text \<open>The bytes that land in \<open>dst\<close>, of which only the length matters here.\<close>

definition recibir :: "nat \<Rightarrow> nat \<Rightarrow> tcp \<Rightarrow> (rechazo + u8 list) \<times> tcp" where
  "recibir asa dst_len t =
    (case con_tcp asa t of Inl e \<Rightarrow> (Inl e, t)
     | Inr c \<Rightarrow>
         let estaba_llena = (ventana_rx c = 0);
             n = min (co_rx_len c) dst_len;
             salen = rodaja 0 n (co_rx c);
             c = c\<lparr>co_rx := parche 0 (rodaja n (co_rx_len c - n) (co_rx c)) (co_rx c), co_rx_len := co_rx_len c - n\<rparr>;
             c = (if estaba_llena \<and> n > 0 then c\<lparr>co_ack_debido := True\<rparr> else c)
         in (Inr salen, pon_con asa c t))"

definition cerrar_tcp :: "nat \<Rightarrow> tcp \<Rightarrow> (rechazo + unit) \<times> tcp" where
  "cerrar_tcp asa t =
    (case con_tcp asa t of Inl e \<Rightarrow> (Inl e, t)
     | Inr c \<Rightarrow> (Inr (),
         if co_estado c = Escucha then pon_con asa (c\<lparr>co_estado := Libre\<rparr>) t
         else if co_estado c = SynEnviado then pon_con asa (cerrar_con Normal c) t
         else if co_estado c \<in> {SynRecibido, Establecida, CierreEspera} then pon_con asa (c\<lparr>co_fin_pedido := True\<rparr>) t
         else t))"

definition rst_de :: "conexion \<Rightarrow> rst_tcp" where
  "rst_de c = \<lparr>rs_mi_ip = co_mi_ip c, rs_su_ip = co_su_ip c, rs_mi_puerto = co_mi_puerto c,
     rs_su_puerto = co_su_puerto c, rs_sec = co_snd_nxt c, rs_ack = co_rcv_nxt c\<rparr>"

definition abortar :: "nat \<Rightarrow> tcp \<Rightarrow> (rechazo + unit) \<times> tcp" where
  "abortar asa t =
    (case con_tcp asa t of Inl e \<Rightarrow> (Inl e, t)
     | Inr c \<Rightarrow> (Inr (),
         if viva c \<and> co_estado c \<noteq> SynEnviado \<and> co_estado c \<noteq> TiempoEspera
         then (pon_con asa (cerrar_con Abortada c) t)\<lparr>tc_rst := Some (rst_de c)\<rparr>
         else pon_con asa (cerrar_con Abortada c) t))"

definition soltar :: "nat \<Rightarrow> tcp \<Rightarrow> (rechazo + unit) \<times> tcp" where
  "soltar asa t =
    (case con_tcp asa t of Inl e \<Rightarrow> (Inl e, t)
     | Inr c \<Rightarrow>
         (case co_estado c of
            CerradaPor x \<Rightarrow> (Inr (), pon_con asa (c\<lparr>co_estado := Libre\<rparr>) t)
          | Escucha \<Rightarrow> (Inr (), pon_con asa (c\<lparr>co_estado := Libre\<rparr>) t)
          | TiempoEspera \<Rightarrow> (Inr (), pon_con asa (c\<lparr>co_huerfana := True\<rparr>) t)
          | _ \<Rightarrow> (Inl EstadoMalo, t)))"

section \<open>What arrives\<close>

definition reto :: "nat \<Rightarrow> u64 \<Rightarrow> tcp \<Rightarrow> tcp" where
  "reto i ahora t =
    (let t = (if saturating_sub ahora (fst (tc_retos t)) \<ge> 1000 then t\<lparr>tc_retos := (ahora, 0)\<rparr> else t)
     in if snd (tc_retos t) < RETOS_POR_SEGUNDO
        then pon_con i ((tc_c t ! i)\<lparr>co_ack_debido := True\<rparr>) (t\<lparr>tc_retos := (fst (tc_retos t), snd (tc_retos t) + 1)\<rparr>)
        else t)"

definition en_escucha :: "nat \<Rightarrow> u8 list \<Rightarrow> u8 list \<Rightarrow> segmento \<Rightarrow> u64 \<Rightarrow> tcp \<Rightarrow> (rechazo + unit) \<times> tcp" where
  "en_escucha e ip_origen ip_destino s ahora t =
    (if sg_banderas s AND RST \<noteq> 0 then (Inr (), t)
     else if sg_banderas s AND (SYN OR ACK) \<noteq> SYN then (Inl Banderas, t)
     else case libre_tcp t of Inl x \<Rightarrow> (Inl x, t)
     | Inr i \<Rightarrow>
         let isn = isn_tcp ip_destino ip_origen (sg_destino s) (sg_origen s) ahora t
         in (Inr (), pon_con i (LIBRE\<lparr>co_estado := SynRecibido, co_mi_ip := ip_destino, co_su_ip := ip_origen,
              co_mi_puerto := sg_destino s, co_su_puerto := sg_origen s, co_isn := isn, co_snd_una := isn,
              co_snd_nxt := isn, co_snd_wnd := ucast (sg_ventana s), co_su_mss := mss_de s,
              co_rcv_nxt := sg_sec s + 1, co_escucha := Some (word_of_nat e), co_huerfana := True,
              co_desde := ahora\<rparr>) t))"

text \<open>The answer to the SYN.\<close>

definition en_syn_enviado :: "segmento \<Rightarrow> u64 \<Rightarrow> conexion \<Rightarrow> (rechazo + unit) \<times> conexion" where
  "en_syn_enviado s ahora c =
    (let fl = sg_banderas s; ack_bueno = (fl AND ACK \<noteq> 0 \<and> sg_ack s = co_isn c + 1) in
     if fl AND ACK \<noteq> 0 \<and> \<not> ack_bueno then (Inl Secuencia, c)
     else if fl AND RST \<noteq> 0 then (Inr (), if ack_bueno then cerrar_con Reset c else c)
     else if fl AND SYN = 0 \<or> \<not> ack_bueno then (Inl Banderas, c)
     else (Inr (), c\<lparr>co_rcv_nxt := sg_sec s + 1, co_snd_una := sg_ack s, co_snd_wnd := ucast (sg_ventana s),
            co_su_mss := mss_de s, co_estado := Establecida, co_vence := None, co_reintentos := 0,
            co_rto := RTO_INICIAL_MS, co_ack_debido := True, co_desde := ahora\<rparr>))"

text \<open>
  Bytes confirmed: they leave the queue, the timer starts again and the congestion window grows. What was
  confirmed and was not a byte of the queue was the FIN.
\<close>

definition confirma :: "u32 \<Rightarrow> u64 \<Rightarrow> conexion \<Rightarrow> conexion" where
  "confirma ack ahora c =
    (let confirmados = unat (ack - co_snd_una c);
         de_datos = min confirmados (co_tx_len c);
         c = (if confirmados > co_tx_len c then c\<lparr>co_fin_confirmado := True\<rparr> else c);
         c = c\<lparr>co_tx := parche 0 (rodaja de_datos (co_tx_len c - de_datos) (co_tx c)) (co_tx c),
               co_tx_len := co_tx_len c - de_datos, co_snd_una := ack, co_reintentos := 0, co_rto := RTO_INICIAL_MS\<rparr>;
         c = c\<lparr>co_vence := (if vuelo_co c > 0 then Some (ahora + co_rto c) else None)\<rparr>;
         mss = mss_co c
     in c\<lparr>co_cwnd := (if co_cwnd c < co_ssthresh c
            then saturating_add (co_cwnd c) (min (word_of_nat de_datos) mss)
            else saturating_add (co_cwnd c) (max (mss * mss div co_cwnd c) 1))\<rparr>)"

text \<open>The acknowledgement of a segment. \<^const>\<open>True\<close> is the code's early \<open>return Ok(())\<close>.\<close>

definition en_ack :: "segmento \<Rightarrow> u64 \<Rightarrow> conexion \<Rightarrow> (rechazo + bool) \<times> conexion" where
  "en_ack s ahora c =
    (if co_estado c = SynRecibido then
       (if co_snd_nxt c = co_isn c \<or> sg_ack s \<noteq> co_snd_nxt c then (Inl Secuencia, c)
        else (Inr False, c\<lparr>co_snd_una := sg_ack s, co_snd_wnd := ucast (sg_ventana s), co_estado := Establecida,
               co_vence := None, co_reintentos := 0, co_rto := RTO_INICIAL_MS, co_desde := ahora\<rparr>))
     else if antes (sg_ack s) (co_snd_una c) then (Inr False, c)
     else if sg_ack s - co_snd_una c = 0 then (Inr False, c\<lparr>co_snd_wnd := ucast (sg_ventana s)\<rparr>)
     else
       let c = confirma (sg_ack s) ahora c in
       if co_fin_confirmado c \<and> co_estado c = UltimoAck then (Inr True, cerrar_con Normal c)
       else
         let c = (if co_fin_confirmado c \<and> co_estado c = FinEspera1 then c\<lparr>co_estado := FinEspera2\<rparr>
                  else if co_fin_confirmado c \<and> co_estado c = Cerrando
                  then c\<lparr>co_estado := TiempoEspera, co_desde := ahora\<rparr> else c)
         in (Inr False, c\<lparr>co_snd_wnd := ucast (sg_ventana s)\<rparr>))"

text \<open>The bytes that fit, behind the ones that wait for the application.\<close>

definition toma :: "u8 list \<Rightarrow> conexion \<Rightarrow> conexion" where
  "toma datos c =
    (let tomados = length datos
     in c\<lparr>co_rx := parche (co_rx_len c) datos (co_rx c), co_rx_len := co_rx_len c + tomados,
          co_rcv_nxt := co_rcv_nxt c + word_of_nat tomados\<rparr>)"

definition recibe :: "conexion \<Rightarrow> bool" where
  "recibe c \<longleftrightarrow> co_estado c \<in> {Establecida, FinEspera1, FinEspera2}"

text \<open>The FIN, when everything before it was taken.\<close>

definition recibe_fin :: "u64 \<Rightarrow> conexion \<Rightarrow> conexion" where
  "recibe_fin ahora c =
    (let c = c\<lparr>co_rcv_nxt := co_rcv_nxt c + 1, co_ack_debido := True\<rparr>
     in (case co_estado c of
           Establecida \<Rightarrow> c\<lparr>co_estado := CierreEspera\<rparr>
         | FinEspera1 \<Rightarrow>
             if co_fin_confirmado c then c\<lparr>co_estado := TiempoEspera, co_desde := ahora\<rparr>
             else c\<lparr>co_estado := Cerrando\<rparr>
         | FinEspera2 \<Rightarrow> c\<lparr>co_estado := TiempoEspera, co_desde := ahora, co_vence := None\<rparr>
         | _ \<Rightarrow> c))"

text \<open>The data and the FIN of a segment whose acknowledgement was taken.\<close>

definition en_datos :: "segmento \<Rightarrow> u64 \<Rightarrow> conexion \<Rightarrow> conexion" where
  "en_datos s ahora c =
    (let fin = (sg_banderas s AND FIN \<noteq> 0);
         avisa = (if sg_datos s \<noteq> [] \<or> fin then c\<lparr>co_ack_debido := True\<rparr> else c)
     in if antes (co_rcv_nxt c) (sg_sec s) then avisa
        else let atras = unat (co_rcv_nxt c - sg_sec s) in
          if atras > length (sg_datos s) then avisa
          else
            let datos = drop atras (sg_datos s);
                tomados = (if datos \<noteq> [] \<and> recibe c then min (length datos) (BUFER - co_rx_len c) else 0);
                abierta = recibe c;
                c = (if datos \<noteq> [] \<and> abierta then toma (take tomados datos) c else c);
                c = (if datos \<noteq> [] then c\<lparr>co_ack_debido := True\<rparr> else c)
            in if fin \<and> abierta \<and> tomados = length datos then recibe_fin ahora c else c)"

definition en_conexion :: "nat \<Rightarrow> segmento \<Rightarrow> u64 \<Rightarrow> tcp \<Rightarrow> (rechazo + unit) \<times> tcp" where
  "en_conexion i s ahora t =
    (let fl = sg_banderas s; c = tc_c t ! i in
     if co_estado c = SynEnviado then
       (let (r, c) = en_syn_enviado s ahora c in (r, pon_con i c t))
     else if fl AND RST \<noteq> 0 then
       (Inr (),
        if co_estado c = TiempoEspera then t
        else if sg_sec s = co_rcv_nxt c then pon_con i (cerrar_con Reset c) t
        else if dentro (sg_sec s) (co_rcv_nxt c) (max (ucast (ventana_rx c)) 1) then reto i ahora t
        else t)
     else if fl AND SYN \<noteq> 0 then
       (Inr (),
        if co_estado c = SynRecibido \<and> sg_sec s + 1 = co_rcv_nxt c then pon_con i (c\<lparr>co_snd_nxt := co_isn c\<rparr>) t
        else reto i ahora t)
     else if fl AND ACK = 0 then (Inl Banderas, t)
     else if antes (co_snd_nxt c) (sg_ack s) then (Inl Secuencia, reto i ahora t)
     else (case en_ack s ahora c of
         (Inl e, c) \<Rightarrow> (Inl e, t)
       | (Inr fuera, c) \<Rightarrow> (Inr (), pon_con i (if fuera then c else en_datos s ahora c) t)))"

definition entrada_tcp :: "u8 list \<Rightarrow> u8 list \<Rightarrow> u8 list \<Rightarrow> u64 \<Rightarrow> tcp \<Rightarrow> (rechazo + unit) \<times> tcp" where
  "entrada_tcp ip_origen ip_destino bytes ahora t =
    (case leer_segmento bytes ip_origen ip_destino of Inl e \<Rightarrow> (Inl e, t)
     | Inr s \<Rightarrow>
         (case primera_pos (\<lambda>c. viva c \<and> co_mi_ip c = ip_destino \<and> co_su_ip c = ip_origen \<and>
             co_mi_puerto c = sg_destino s \<and> co_su_puerto c = sg_origen s) (tc_c t) of
            Some i \<Rightarrow> en_conexion i s ahora t
          | None \<Rightarrow>
              (case primera_pos (\<lambda>c. co_estado c = Escucha \<and> co_mi_puerto c = sg_destino s \<and> co_mi_ip c = ip_destino) (tc_c t) of
                 Some e \<Rightarrow> en_escucha e ip_origen ip_destino s ahora t
               | None \<Rightarrow> (Inl NoEsParaMi, t))))"

section \<open>What goes out\<close>

type_synonym escritura_tcp = "(nat \<times> u8 list) option"

text \<open>The timer of \<open>emitir\<close>: \<^const>\<open>None\<close> when it gives up.\<close>

definition temporizador :: "u64 \<Rightarrow> conexion \<Rightarrow> conexion option" where
  "temporizador ahora c =
    (case co_vence c of None \<Rightarrow> Some c
     | Some v \<Rightarrow>
         if \<not> ahora \<ge> v then Some c
         else if co_reintentos c \<ge> REINTENTOS then None
         else Some (c\<lparr>co_reintentos := co_reintentos c + 1, co_rto := min (co_rto c * 2) RTO_MAX_MS,
                co_ssthresh := max (vuelo_co c div 2) (2 * mss_co c), co_cwnd := mss_co c, co_vence := None,
                co_sondear := (vuelo_co c = 0), co_snd_nxt := co_snd_una c\<rparr>))"

text \<open>A segment of the connection, with its window.\<close>

definition escribe_de :: "conexion \<Rightarrow> u8 list \<Rightarrow> u32 \<Rightarrow> u32 \<Rightarrow> u8 \<Rightarrow> u16 option \<Rightarrow> u8 list \<Rightarrow> escritura_tcp" where
  "escribe_de c dst sec ack banderas mss datos =
    (case escribir_segmento dst (co_mi_ip c) (co_su_ip c) (co_mi_puerto c) (co_su_puerto c) sec ack banderas
        (ventana_rx c) mss datos of Inl e \<Rightarrow> None | Inr r \<Rightarrow> Some r)"

definition emite_ack :: "u8 list \<Rightarrow> conexion \<Rightarrow> escritura_tcp \<times> conexion" where
  "emite_ack dst c =
    (if co_ack_debido c
     then (case escribe_de c dst (co_snd_nxt c) (co_rcv_nxt c) ACK None [] of
             None \<Rightarrow> (None, c) | Some r \<Rightarrow> (Some r, c\<lparr>co_ack_debido := False\<rparr>))
     else (None, c))"

definition manda :: "conexion \<Rightarrow> bool" where
  "manda c \<longleftrightarrow> co_estado c \<in> {Establecida, CierreEspera, FinEspera1, Cerrando, UltimoAck}"

definition emite_fin :: "u64 \<Rightarrow> u8 list \<Rightarrow> conexion \<Rightarrow> escritura_tcp \<times> conexion" where
  "emite_fin ahora dst c =
    (if manda c \<and> co_fin_pedido c \<and> \<not> co_fin_confirmado c \<and> unat (vuelo_co c) = co_tx_len c
     then (case escribe_de c dst (co_snd_nxt c) (co_rcv_nxt c) (FIN OR ACK) None [] of
             None \<Rightarrow> (None, c)
           | Some r \<Rightarrow>
               let c = armar ahora (c\<lparr>co_snd_nxt := co_snd_nxt c + 1, co_ack_debido := False\<rparr>)
               in (Some r, c\<lparr>co_estado := (case co_estado c of Establecida \<Rightarrow> FinEspera1
                    | CierreEspera \<Rightarrow> UltimoAck | e \<Rightarrow> e)\<rparr>))
     else emite_ack dst c)"

text \<open>How many bytes of the queue go now, of those not sent yet.\<close>

definition cuantos_van :: "nat \<Rightarrow> nat \<Rightarrow> conexion \<Rightarrow> nat" where
  "cuantos_van dst_len pendientes c =
    (let ventana_su = unat (min (co_snd_wnd c) (co_cwnd c)); cabe = ventana_su - unat (vuelo_co c);
         cabe = (if co_sondear c then max cabe 1 else cabe)
     in min (min (min pendientes cabe) (unat (mss_co c))) (dst_len - CABECERA_TCP))"

definition emite_datos :: "u64 \<Rightarrow> u8 list \<Rightarrow> conexion \<Rightarrow> escritura_tcp \<times> conexion" where
  "emite_datos ahora dst c =
    (let vuelo = unat (vuelo_co c); enviados = min vuelo (co_tx_len c); pendientes = co_tx_len c - enviados;
         n = cuantos_van (length dst) pendientes c
     in if manda c \<and> pendientes > 0 \<and> n > 0 then
          (case escribe_de c dst (co_snd_nxt c) (co_rcv_nxt c) (ACK OR PSH) None (rodaja enviados n (co_tx c)) of
             None \<Rightarrow> (None, c)
           | Some r \<Rightarrow> (Some r, armar ahora (c\<lparr>co_snd_nxt := co_snd_nxt c + word_of_nat n, co_sondear := False,
                 co_ack_debido := False\<rparr>)))
        else emite_fin ahora dst (if manda c \<and> pendientes > 0 \<and> vuelo = 0 then armar ahora c else c))"

definition emite :: "u64 \<Rightarrow> u8 list \<Rightarrow> conexion \<Rightarrow> escritura_tcp \<times> conexion" where
  "emite ahora dst c =
    (if co_estado c = SynEnviado then
       (if co_snd_nxt c \<noteq> co_isn c then (None, c)
        else case escribe_de c dst (co_isn c) 0 SYN (Some MSS) [] of
            None \<Rightarrow> (None, c) | Some r \<Rightarrow> (Some r, armar ahora (c\<lparr>co_snd_nxt := co_isn c + 1\<rparr>)))
     else if co_estado c = SynRecibido \<and> co_snd_nxt c = co_isn c then
       (case escribe_de c dst (co_isn c) (co_rcv_nxt c) (SYN OR ACK) (Some MSS) [] of
            None \<Rightarrow> (None, c)
          | Some r \<Rightarrow> (Some r, armar ahora (c\<lparr>co_snd_nxt := co_isn c + 1, co_ack_debido := False\<rparr>)))
     else emite_datos ahora dst c)"

definition emitir :: "nat \<Rightarrow> u64 \<Rightarrow> u8 list \<Rightarrow> tcp \<Rightarrow> escritura_tcp \<times> tcp" where
  "emitir i ahora dst t =
    (let c = tc_c t ! i; vencida = (saturating_sub ahora (co_desde c) \<ge> TIEMPO_ESPERA_MS) in
     if \<not> viva c then (None, t)
     else if co_estado c = TiempoEspera \<and> vencida then (None, pon_con i (cerrar_con Normal c) t)
     else if co_huerfana c \<and> co_escucha c \<noteq> None \<and> co_estado c = Establecida \<and> vencida
     then (None, (pon_con i (cerrar_con Abortada c) t)\<lparr>tc_rst := Some (rst_de c)\<rparr>)
     else (case temporizador ahora c of
         None \<Rightarrow> (None, pon_con i (cerrar_con Agotada c) t)
       | Some c \<Rightarrow> (let (r, c) = emite ahora dst c in (r, pon_con i c t))))"

text \<open>The \<open>for\<close> of \<open>salida\<close> over the connections, from whose turn it is.\<close>

fun salida_desde :: "nat list \<Rightarrow> u64 \<Rightarrow> u8 list \<Rightarrow> tcp \<Rightarrow> (u8 list \<times> u8 list \<times> nat \<times> u8 list) option \<times> tcp" where
  "salida_desde [] ahora dst t = (None, t)"
| "salida_desde (k # ks) ahora dst t =
    (let i = (tc_turno t + k) mod CONEXIONES in
     case emitir i ahora dst t of
       (None, t) \<Rightarrow> salida_desde ks ahora dst t
     | (Some (n, b), t) \<Rightarrow>
         (Some (co_mi_ip (tc_c t ! i), co_su_ip (tc_c t ! i), n, b), t\<lparr>tc_turno := (i + 1) mod CONEXIONES\<rparr>))"

definition salida_tcp :: "u64 \<Rightarrow> u8 list \<Rightarrow> tcp \<Rightarrow> (u8 list \<times> u8 list \<times> nat \<times> u8 list) option \<times> tcp" where
  "salida_tcp ahora dst t =
    (case tc_rst t of
       Some r \<Rightarrow>
         let t = t\<lparr>tc_rst := None\<rparr> in
         (case escribir_segmento dst (rs_mi_ip r) (rs_su_ip r) (rs_mi_puerto r) (rs_su_puerto r) (rs_sec r) (rs_ack r)
             (RST OR ACK) 0 None [] of
            Inl e \<Rightarrow> (None, t)
          | Inr (n, b) \<Rightarrow> (Some (rs_mi_ip r, rs_su_ip r, n, b), t))
     | None \<Rightarrow> salida_desde [0 ..< CONEXIONES] ahora dst t)"

section \<open>The shape of every connection\<close>

text \<open>
  The buffers have their size and are used inside it, the segment size, the congestion window, the timer
  and the retries stay in their ranges: no index of the code is out of an array, no subtraction is
  negative and the division by the congestion window is never by zero.
\<close>

definition con_bien :: "conexion \<Rightarrow> bool" where
  "con_bien c \<longleftrightarrow> length (co_tx c) = BUFER \<and> co_tx_len c \<le> BUFER \<and> length (co_rx c) = BUFER \<and> co_rx_len c \<le> BUFER \<and>
    MSS_MIN \<le> co_su_mss c \<and> co_su_mss c \<le> MSS \<and> ucast MSS_MIN \<le> co_cwnd c \<and>
    RTO_INICIAL_MS \<le> co_rto c \<and> co_rto c \<le> RTO_MAX_MS \<and> co_reintentos c \<le> REINTENTOS"

definition tcp_bien :: "tcp \<Rightarrow> bool" where
  "tcp_bien t \<longleftrightarrow> length (tc_c t) = CONEXIONES \<and> (\<forall>c \<in> set (tc_c t). con_bien c) \<and>
    tc_turno t < CONEXIONES \<and> snd (tc_retos t) \<le> RETOS_POR_SEGUNDO"

text \<open>Everything the outside can ask of the table.\<close>

datatype op_tcp =
    OConecta "u8 list" "u8 list" u16 u64 | OEscucha "u8 list" u16 | OAcepta nat | OEnvia nat "u8 list"
  | ORecibe nat nat | OCierra nat | OAborta nat | OSuelta nat
  | OEntra "u8 list" "u8 list" "u8 list" u64 | OSale u64 "u8 list"

fun paso_tcp :: "op_tcp \<Rightarrow> tcp \<Rightarrow> tcp" where
  "paso_tcp (OConecta mi su p ahora) t = snd (conectar mi su p ahora t)"
| "paso_tcp (OEscucha mi p) t = snd (escuchar mi p t)"
| "paso_tcp (OAcepta asa) t = snd (aceptar asa t)"
| "paso_tcp (OEnvia asa datos) t = snd (enviar asa datos t)"
| "paso_tcp (ORecibe asa n) t = snd (recibir asa n t)"
| "paso_tcp (OCierra asa) t = snd (cerrar_tcp asa t)"
| "paso_tcp (OAborta asa) t = snd (abortar asa t)"
| "paso_tcp (OSuelta asa) t = snd (soltar asa t)"
| "paso_tcp (OEntra origen destino b ahora) t = snd (entrada_tcp origen destino b ahora t)"
| "paso_tcp (OSale ahora dst) t = snd (salida_tcp ahora dst t)"

lemma con_bien_libre: "con_bien LIBRE"
  by (simp add: con_bien_def LIBRE_def medidas_tcp)

lemma con_bien_iguales [simp]:
  "con_bien (c\<lparr>co_estado := e\<rparr>) = con_bien c" "con_bien (c\<lparr>co_mi_ip := ip\<rparr>) = con_bien c"
  "con_bien (c\<lparr>co_su_ip := ip\<rparr>) = con_bien c" "con_bien (c\<lparr>co_mi_puerto := p\<rparr>) = con_bien c"
  "con_bien (c\<lparr>co_su_puerto := p\<rparr>) = con_bien c" "con_bien (c\<lparr>co_isn := x\<rparr>) = con_bien c"
  "con_bien (c\<lparr>co_snd_una := x\<rparr>) = con_bien c" "con_bien (c\<lparr>co_snd_nxt := x\<rparr>) = con_bien c"
  "con_bien (c\<lparr>co_snd_wnd := x\<rparr>) = con_bien c" "con_bien (c\<lparr>co_fin_pedido := b\<rparr>) = con_bien c"
  "con_bien (c\<lparr>co_fin_confirmado := b\<rparr>) = con_bien c" "con_bien (c\<lparr>co_rcv_nxt := x\<rparr>) = con_bien c"
  "con_bien (c\<lparr>co_vence := v\<rparr>) = con_bien c" "con_bien (c\<lparr>co_sondear := b\<rparr>) = con_bien c"
  "con_bien (c\<lparr>co_ssthresh := x\<rparr>) = con_bien c" "con_bien (c\<lparr>co_ack_debido := b\<rparr>) = con_bien c"
  "con_bien (c\<lparr>co_desde := d\<rparr>) = con_bien c" "con_bien (c\<lparr>co_escucha := q\<rparr>) = con_bien c"
  "con_bien (c\<lparr>co_huerfana := b\<rparr>) = con_bien c"
  by (simp_all add: con_bien_def)

lemma con_bien_cerrar_con [simp]: "con_bien (cerrar_con x c) = con_bien c"
  by (simp add: cerrar_con_def)

lemma con_bien_armar [simp]: "con_bien (armar ahora c) = con_bien c"
  by (simp add: armar_def)

lemma con_bien_arranca [simp]: "con_bien c \<Longrightarrow> con_bien (c\<lparr>co_reintentos := 0\<rparr>)" "con_bien c \<Longrightarrow> con_bien (c\<lparr>co_rto := RTO_INICIAL_MS\<rparr>)"
  by (simp_all add: con_bien_def medidas_tcp)

lemma mss_de_bien: "MSS_MIN \<le> mss_de s" "mss_de s \<le> MSS"
  by (simp_all add: mss_de_def medidas_tcp)

lemma con_bien_mss [simp]: "con_bien c \<Longrightarrow> con_bien (c\<lparr>co_su_mss := mss_de s\<rparr>)"
  by (simp add: con_bien_def mss_de_bien)

lemma mss_co_bien: "con_bien c \<Longrightarrow> 536 \<le> mss_co c" "con_bien c \<Longrightarrow> mss_co c \<le> 1460"
proof -
  assume c: "con_bien c"
  then have m: "536 \<le> unat (co_su_mss c)" "unat (co_su_mss c) \<le> 1460"
    by (simp_all add: con_bien_def medidas_tcp word_le_nat_alt)
  have "unat (mss_co c) = unat (co_su_mss c)"
    using m(2) by (simp add: mss_co_def medidas_tcp min_def word_le_nat_alt unsigned_ucast_eq take_bit_eq_mod)
  then show "536 \<le> mss_co c" "mss_co c \<le> 1460"
    using m by (simp_all add: word_le_nat_alt)
qed

lemma saturating_add_mayor: "(a :: 'a::len word) \<le> saturating_add a b"
proof (cases "unat a + unat b < 2 ^ LENGTH('a)")
  case True
  then show ?thesis
    by (simp add: saturating_add_def word_le_nat_alt unat_word_ariths)
qed (simp add: saturating_add_def)

lemma con_bien_confirma: "con_bien c \<Longrightarrow> con_bien (confirma ack ahora c)"
proof -
  assume c: "con_bien c"
  then have "ucast MSS_MIN \<le> saturating_add (co_cwnd c) x" for x
    using saturating_add_mayor [of "co_cwnd c" x] by (auto simp: con_bien_def intro: order_trans)
  then show ?thesis
    using c by (auto simp: con_bien_def confirma_def Let_def medidas_tcp bytes_simps)
qed

lemma con_bien_temporizador: "con_bien c \<Longrightarrow> temporizador ahora c = Some c' \<Longrightarrow> con_bien c'"
proof -
  assume c: "con_bien c" and t: "temporizador ahora c = Some c'"
  have r: "RTO_INICIAL_MS \<le> min (co_rto c * 2) RTO_MAX_MS"
    using c by (auto simp: con_bien_def medidas_tcp word_le_nat_alt unat_word_ariths min_def)
  have i: "co_reintentos c + 1 \<le> REINTENTOS" if "\<not> REINTENTOS \<le> co_reintentos c"
    using that by (auto simp: medidas_tcp word_le_nat_alt unat_word_ariths)
  show ?thesis
    using t c r i mss_co_bien(1) [OF c]
    by (auto simp: temporizador_def con_bien_def medidas_tcp split: option.splits if_splits)
qed

lemma con_bien_syn_enviado: "con_bien c \<Longrightarrow> con_bien (snd (en_syn_enviado s ahora c))"
  by (simp add: en_syn_enviado_def Let_def)

lemma con_bien_ack: "con_bien c \<Longrightarrow> con_bien (snd (en_ack s ahora c))"
  by (simp add: en_ack_def Let_def con_bien_confirma)

lemma con_bien_toma: "con_bien c \<Longrightarrow> length d \<le> BUFER - co_rx_len c \<Longrightarrow> con_bien (toma d c)"
  by (auto simp: con_bien_def toma_def Let_def bytes_simps)

lemma con_bien_recibe_fin [simp]: "con_bien (recibe_fin ahora c) = con_bien c"
  by (simp add: recibe_fin_def Let_def split: estado_tcp.splits)

lemma con_bien_datos: "con_bien c \<Longrightarrow> con_bien (en_datos s ahora c)"
  by (auto simp: en_datos_def Let_def intro!: con_bien_toma)

lemma con_bien_emite: "con_bien c \<Longrightarrow> con_bien (snd (emite ahora dst c))"
proof -
  have a: "con_bien c \<Longrightarrow> con_bien (snd (emite_ack dst c))" for c
    by (simp add: emite_ack_def split: option.splits)
  have f: "con_bien c \<Longrightarrow> con_bien (snd (emite_fin ahora dst c))" for c
    by (simp add: emite_fin_def Let_def a split: option.splits)
  have d: "con_bien c \<Longrightarrow> con_bien (snd (emite_datos ahora dst c))" for c
    by (simp add: emite_datos_def Let_def f split: option.splits)
  show "con_bien c \<Longrightarrow> con_bien (snd (emite ahora dst c))"
    by (simp add: emite_def d split: option.splits)
qed

lemma tcp_bien_pon: "tcp_bien t \<Longrightarrow> con_bien c \<Longrightarrow> tcp_bien (pon_con i c t)"
  using set_update_subset_insert [of "tc_c t" i c] by (auto simp: tcp_bien_def pon_con_def)

lemma tcp_bien_con: "tcp_bien t \<Longrightarrow> i < CONEXIONES \<Longrightarrow> con_bien (tc_c t ! i)"
  by (auto simp: tcp_bien_def)

lemma tcp_bien_posicion: "tcp_bien t \<Longrightarrow> primera_pos P (tc_c t) = Some i \<Longrightarrow> i < CONEXIONES \<and> con_bien (tc_c t ! i)"
  using primera_pos_Some [of P "tc_c t" i] tcp_bien_con [of t i] by (simp add: tcp_bien_def)

lemma con_tcp_bien: "tcp_bien t \<Longrightarrow> con_tcp asa t = Inr c \<Longrightarrow> asa < CONEXIONES \<and> con_bien c \<and> c = tc_c t ! asa"
  using tcp_bien_con [of t asa] by (auto simp: con_tcp_def tcp_bien_def split: if_splits)

lemma tcp_bien_rst [simp]: "tcp_bien (t\<lparr>tc_rst := r\<rparr>) = tcp_bien t" "tcp_bien (t\<lparr>tc_contador := n\<rparr>) = tcp_bien t"
  by (simp_all add: tcp_bien_def)

lemma tcp_bien_reto: "tcp_bien t \<Longrightarrow> i < CONEXIONES \<Longrightarrow> tcp_bien (reto i ahora t)"
proof -
  assume t: "tcp_bien t" and i: "i < CONEXIONES"
  have "tcp_bien (pon_con i ((tc_c u ! i)\<lparr>co_ack_debido := True\<rparr>) (u\<lparr>tc_retos := (fst (tc_retos u), snd (tc_retos u) + 1)\<rparr>))"
    if "tcp_bien u" "snd (tc_retos u) < RETOS_POR_SEGUNDO" for u
  proof (rule tcp_bien_pon)
    show "tcp_bien (u\<lparr>tc_retos := (fst (tc_retos u), snd (tc_retos u) + 1)\<rparr>)"
      using that by (auto simp: tcp_bien_def medidas_tcp word_less_nat_alt word_le_nat_alt unat_word_ariths)
  qed (use tcp_bien_con [OF that(1) i] in simp)
  moreover have "tcp_bien (t\<lparr>tc_retos := (ahora, 0)\<rparr>)"
    using t by (simp add: tcp_bien_def)
  ultimately show ?thesis
    using t by (simp add: reto_def Let_def)
qed

lemma tcp_bien_en_conexion: "tcp_bien t \<Longrightarrow> i < CONEXIONES \<Longrightarrow> tcp_bien (snd (en_conexion i s ahora t))"
  using con_bien_ack [of "tc_c t ! i" s ahora] con_bien_syn_enviado [of "tc_c t ! i" s ahora] tcp_bien_con [of t i]
  by (auto simp: en_conexion_def Let_def tcp_bien_pon tcp_bien_reto con_bien_datos split: prod.splits sum.splits)

lemma tcp_bien_entrada: "tcp_bien t \<Longrightarrow> tcp_bien (snd (entrada_tcp origen destino b ahora t))"
  by (auto simp: entrada_tcp_def en_escucha_def tcp_bien_en_conexion tcp_bien_posicion tcp_bien_pon con_bien_libre Let_def
      split: sum.splits option.splits)

lemma tcp_bien_emitir: "tcp_bien t \<Longrightarrow> i < CONEXIONES \<Longrightarrow> tcp_bien (snd (emitir i ahora dst t))"
proof -
  assume t: "tcp_bien t" and i: "i < CONEXIONES"
  have e: "tcp_bien (pon_con i c' t)" if "con_bien c" "emite ahora dst c = (r, c')" for c c' r
    using con_bien_emite [OF that(1), of ahora dst] that(2) t by (simp add: tcp_bien_pon)
  show ?thesis
    using t tcp_bien_con [OF t i] con_bien_temporizador [of "tc_c t ! i" ahora]
    by (auto simp: emitir_def Let_def tcp_bien_pon e split: option.splits prod.splits)
qed

lemma tcp_bien_salida: "tcp_bien t \<Longrightarrow> tcp_bien (snd (salida_tcp ahora dst t))"
proof -
  have "tcp_bien u \<Longrightarrow> tcp_bien (snd (salida_desde ks ahora dst u))" for ks u
  proof (induction ks arbitrary: u)
    case (Cons k ks)
    define i where "i = (tc_turno u + k) mod CONEXIONES"
    have "i < CONEXIONES"
      by (simp add: i_def CONEXIONES_def)
    then have "tcp_bien (snd (emitir i ahora dst u))"
      using Cons.prems tcp_bien_emitir by blast
    moreover have "tcp_bien v \<Longrightarrow> tcp_bien (v\<lparr>tc_turno := (i + 1) mod CONEXIONES\<rparr>)" for v
      by (simp add: tcp_bien_def CONEXIONES_def)
    ultimately show ?case
      using Cons.IH by (auto simp: i_def [symmetric] Let_def split: prod.splits option.splits)
  qed simp
  then show "tcp_bien t \<Longrightarrow> tcp_bien (snd (salida_tcp ahora dst t))"
    by (auto simp: salida_tcp_def Let_def split: option.splits sum.splits)
qed

lemma tcp_bien_paso: "tcp_bien t \<Longrightarrow> tcp_bien (paso_tcp o' t)"
proof (cases o')
  case (OEnvia asa datos)
  assume t: "tcp_bien t"
  show ?thesis
    using OEnvia t con_tcp_bien [OF t, of asa]
    by (auto simp: enviar_def Let_def con_bien_def bytes_simps intro!: tcp_bien_pon split: sum.splits)
next
  case (ORecibe asa n)
  assume t: "tcp_bien t"
  show ?thesis
    using ORecibe t con_tcp_bien [OF t, of asa]
    by (auto simp: recibir_def Let_def con_bien_def bytes_simps intro!: tcp_bien_pon split: sum.splits)
qed (auto simp: conectar_def escuchar_def aceptar_def cerrar_tcp_def abortar_def soltar_def Let_def con_bien_libre
  tcp_bien_entrada tcp_bien_salida intro!: tcp_bien_pon dest: con_tcp_bien tcp_bien_posicion
  split: sum.splits option.splits estado_tcp.splits)

text \<open>
  C12: the table of connections has its shape always. Whatever is asked of a new table, in any order and at
  any times, with any bytes arriving from the wire, every connection keeps its buffers, segment size,
  congestion window, timer and retries in range.
\<close>

theorem tcp_siempre_bien: "tcp_bien (fold paso_tcp ops (tcp_nueva secreto))"
proof -
  have "tcp_bien t \<Longrightarrow> tcp_bien (fold paso_tcp ops t)" for t
    by (induction ops arbitrary: t) (simp_all add: tcp_bien_paso)
  moreover have "tcp_bien (tcp_nueva secreto)"
    by (auto simp: tcp_bien_def tcp_nueva_def con_bien_libre medidas_tcp)
  ultimately show ?thesis
    by blast
qed

end
