(* ===== verification/Tcp_Flujo.thy ===== *)
theory Tcp_Flujo
  imports Tcp "HOL-Library.Sublist"
begin

text \<open>
  What the application reads of a TCP connection: the bytes the other side wrote, in their order and
  without holes, whatever the wire does to the segments.
\<close>

section \<open>What a connection has received\<close>

text \<open>The bytes read and the bytes that wait.\<close>

definition recibido :: "u8 list \<Rightarrow> conexion \<Rightarrow> u8 list" where
  "recibido leidos c = leidos @ take (co_rx_len c) (co_rx c)"

text \<open>The states after the other side's FIN.\<close>

definition acabada :: "conexion \<Rightarrow> bool" where
  "acabada c \<longleftrightarrow> co_estado c \<in> {CierreEspera, Cerrando, UltimoAck, TiempoEspera}"

definition tupla :: "conexion \<Rightarrow> u8 list \<times> u16 \<times> u8 list \<times> u16" where
  "tupla c = (co_mi_ip c, co_mi_puerto c, co_su_ip c, co_su_puerto c)"

text \<open>The numbering of the stream \<open>S\<close> starts behind the SYN, \<open>irs\<close>.\<close>

definition flujo_bien :: "u8 list \<Rightarrow> u32 \<Rightarrow> u8 list \<Rightarrow> conexion \<Rightarrow> bool" where
  "flujo_bien S irs leidos c \<longleftrightarrow> \<not> co_huerfana c \<and> co_estado c \<notin> {Libre, Escucha, SynEnviado, SynRecibido} \<and>
    prefix (recibido leidos c) S \<and>
    (recibe c \<longrightarrow> co_rcv_nxt c = irs + 1 + word_of_nat (length (recibido leidos c))) \<and>
    (acabada c \<longrightarrow> recibido leidos c = S)"

text \<open>A segment of the other side: its bytes are those of the stream at its number, and its FIN is at the end.\<close>

definition honrado :: "u8 list \<Rightarrow> u32 \<Rightarrow> segmento \<Rightarrow> bool" where
  "honrado S irs s \<longleftrightarrow> (sg_datos s \<noteq> [] \<or> sg_banderas s AND FIN \<noteq> 0 \<longrightarrow>
    (\<exists>p\<le>length S. sg_sec s = irs + 1 + word_of_nat p \<and> p + length (sg_datos s) \<le> length S \<and>
      sg_datos s = rodaja p (length (sg_datos s)) S \<and>
      (sg_banderas s AND FIN \<noteq> 0 \<longrightarrow> p + length (sg_datos s) = length S)))"

lemma flujo_bien_iguales [simp]:
  "flujo_bien S irs d (c\<lparr>co_snd_una := x\<rparr>) = flujo_bien S irs d c"
  "flujo_bien S irs d (c\<lparr>co_snd_nxt := x\<rparr>) = flujo_bien S irs d c"
  "flujo_bien S irs d (c\<lparr>co_snd_wnd := x\<rparr>) = flujo_bien S irs d c"
  "flujo_bien S irs d (c\<lparr>co_su_mss := m\<rparr>) = flujo_bien S irs d c"
  "flujo_bien S irs d (c\<lparr>co_tx := b\<rparr>) = flujo_bien S irs d c"
  "flujo_bien S irs d (c\<lparr>co_tx_len := n\<rparr>) = flujo_bien S irs d c"
  "flujo_bien S irs d (c\<lparr>co_fin_pedido := f\<rparr>) = flujo_bien S irs d c"
  "flujo_bien S irs d (c\<lparr>co_fin_confirmado := f\<rparr>) = flujo_bien S irs d c"
  "flujo_bien S irs d (c\<lparr>co_rto := t\<rparr>) = flujo_bien S irs d c"
  "flujo_bien S irs d (c\<lparr>co_reintentos := r\<rparr>) = flujo_bien S irs d c"
  "flujo_bien S irs d (c\<lparr>co_vence := v\<rparr>) = flujo_bien S irs d c"
  "flujo_bien S irs d (c\<lparr>co_sondear := f\<rparr>) = flujo_bien S irs d c"
  "flujo_bien S irs d (c\<lparr>co_cwnd := x\<rparr>) = flujo_bien S irs d c"
  "flujo_bien S irs d (c\<lparr>co_ssthresh := x\<rparr>) = flujo_bien S irs d c"
  "flujo_bien S irs d (c\<lparr>co_ack_debido := f\<rparr>) = flujo_bien S irs d c"
  "flujo_bien S irs d (c\<lparr>co_desde := t\<rparr>) = flujo_bien S irs d c"
  "flujo_bien S irs d (c\<lparr>co_escucha := q\<rparr>) = flujo_bien S irs d c"
  by (simp_all add: flujo_bien_def recibido_def recibe_def acabada_def)

lemma flujo_cerrar_con: "flujo_bien S irs d c \<Longrightarrow> flujo_bien S irs d (cerrar_con x c)"
  by (auto simp: flujo_bien_def recibido_def recibe_def acabada_def cerrar_con_def)

lemma flujo_armar [simp]: "flujo_bien S irs d (armar ahora c) = flujo_bien S irs d c"
  by (simp add: armar_def)

lemma flujo_confirma [simp]: "flujo_bien S irs d (confirma ack ahora c) = flujo_bien S irs d c"
  by (simp add: confirma_def Let_def)

lemma confirma_estado [simp]: "co_estado (confirma ack ahora c) = co_estado c"
  by (simp add: confirma_def Let_def)

text \<open>The state can advance without receiving.\<close>

lemma flujo_estado:
  assumes "flujo_bien S irs d c"
    "co_estado c \<in> {Establecida, FinEspera1} \<and> e \<in> {FinEspera1, FinEspera2} \<or>
     co_estado c \<in> {CierreEspera, Cerrando} \<and> e \<in> {UltimoAck, TiempoEspera}"
  shows "flujo_bien S irs d (c\<lparr>co_estado := e\<rparr>)"
  using assms by (auto simp: flujo_bien_def recibido_def recibe_def acabada_def)

lemma flujo_ack: "flujo_bien S irs d c \<Longrightarrow> flujo_bien S irs d (snd (en_ack s ahora c))"
proof -
  assume f: "flujo_bien S irs d c"
  then have "co_estado c \<noteq> SynRecibido"
    by (simp add: flujo_bien_def)
  moreover have "flujo_bien S irs d ((confirma a t c)\<lparr>co_estado := FinEspera2\<rparr>)" if "co_estado c = FinEspera1" for a t
    using f that by (intro flujo_estado) simp_all
  moreover have "flujo_bien S irs d ((confirma a t c)\<lparr>co_estado := TiempoEspera\<rparr>)" if "co_estado c = Cerrando" for a t
    using f that by (intro flujo_estado) simp_all
  ultimately show "flujo_bien S irs d (snd (en_ack s ahora c))"
    using f by (simp add: en_ack_def Let_def flujo_cerrar_con)
qed

section \<open>The data of a segment\<close>

lemma toma_recibido:
  assumes "con_bien c" "length x \<le> BUFER - co_rx_len c"
  shows "recibido d (toma x c) = recibido d c @ x"
proof -
  have "co_rx_len c + length x \<le> length (co_rx c)"
    using assms by (auto simp: con_bien_def)
  then show ?thesis
    by (simp add: recibido_def toma_def Let_def parche_def)
qed

lemma toma_campos [simp]:
  "co_estado (toma x c) = co_estado c" "co_huerfana (toma x c) = co_huerfana c"
  "co_rcv_nxt (toma x c) = co_rcv_nxt c + word_of_nat (length x)"
  by (simp_all add: toma_def Let_def)

lemma recibido_iguales [simp]:
  "recibido d (c\<lparr>co_ack_debido := f\<rparr>) = recibido d c" "recibido d (c\<lparr>co_rcv_nxt := x\<rparr>) = recibido d c"
  "recibido d (c\<lparr>co_estado := e\<rparr>) = recibido d c" "recibido d (c\<lparr>co_desde := t\<rparr>) = recibido d c"
  "recibido d (c\<lparr>co_vence := v\<rparr>) = recibido d c"
  by (simp_all add: recibido_def)

lemma unat_nat31: "n < 2 ^ 31 \<Longrightarrow> unat (word_of_nat n :: u32) = n"
  by (intro unat_word_of_nat) simp

text \<open>Where a segment falls, in the numbers of the code.\<close>

lemma sitio_del_segmento:
  fixes irs :: u32
  assumes "n < 2 ^ 31" "p < 2 ^ 31" "\<not> antes (irs + 1 + word_of_nat n) (irs + 1 + word_of_nat p)"
  shows "p \<le> n" "unat ((irs + 1 + word_of_nat n) - (irs + 1 + word_of_nat p)) = n - p"
proof -
  have dif: "unat ((irs + 1 + word_of_nat b) - (irs + 1 + word_of_nat a)) = b - a" if "a \<le> b" "b < 2 ^ 31" for a b
  proof -
    have "(irs + 1 + word_of_nat b) - (irs + 1 + word_of_nat a) = (word_of_nat (b - a) :: u32)"
      using that(1) by (simp add: of_nat_diff)
    then show ?thesis
      using that(2) by (simp add: unat_nat31)
  qed
  show "p \<le> n"
  proof (rule ccontr)
    assume "\<not> p \<le> n"
    then have "unat ((irs + 1 + word_of_nat p) - (irs + 1 + word_of_nat n)) = p - n" "0 < p - n"
      using dif [of n p] assms(2) by simp_all
    then have "antes (irs + 1 + word_of_nat n) (irs + 1 + word_of_nat p)"
      using assms(2) by (auto simp: antes_def Let_def word_less_nat_alt unat_eq_0)
    then show False
      using assms(3) by simp
  qed
  then show "unat ((irs + 1 + word_of_nat n) - (irs + 1 + word_of_nat p)) = n - p"
    using dif assms(1) by blast
qed

text \<open>A piece of the stream behind what was received.\<close>

lemma prefijo_pieza:
  assumes "prefix r S" "n = length r" "p \<le> n" "x = rodaja p m S" "p + m \<le> length S" "n \<le> p + m"
  shows "prefix (r @ take k (drop (n - p) x)) S" "length (r @ drop (n - p) x) = p + m"
proof -
  have r: "r = take n S"
    using assms(1,2) by (metis append_eq_conv_conj prefix_def)
  have "drop (n - p) x = rodaja n (p + m - n) S"
    using assms(3-6) by (simp add: rodaja_def drop_take add.commute)
  then have "take k (drop (n - p) x) = take (min k (p + m - n)) (drop n S)"
    by (simp add: rodaja_def min.commute)
  then have "r @ take k (drop (n - p) x) = take (n + min k (p + m - n)) S"
    by (simp add: r take_add)
  then show "prefix (r @ take k (drop (n - p) x)) S"
    by (simp add: take_is_prefix)
  show "length (r @ drop (n - p) x) = p + m"
    using assms(2-6) by (simp add: length_rodaja)
qed

text \<open>The FIN closes the stream.\<close>

lemma flujo_fin:
  assumes "recibe c" "\<not> co_huerfana c" "recibido d c = S"
  shows "flujo_bien S irs d (recibe_fin ahora c)"
  using assms by (auto simp: flujo_bien_def recibe_fin_def recibe_def acabada_def Let_def split: estado_tcp.splits)

lemma flujo_datos:
  assumes "flujo_bien S irs d c" "con_bien c" "honrado S irs s" "length S < 2 ^ 31"
  shows "flujo_bien S irs d (en_datos s ahora c)"
proof (cases "recibe c \<and> (sg_datos s \<noteq> [] \<or> sg_banderas s AND FIN \<noteq> 0) \<and> \<not> antes (co_rcv_nxt c) (sg_sec s) \<and>
    unat (co_rcv_nxt c - sg_sec s) \<le> length (sg_datos s)")
  case False
  then show ?thesis
    using assms(1) by (auto simp: en_datos_def Let_def)
next
  case True
  define n m where "n = length (recibido d c)" and "m = length (sg_datos s)"
  obtain p where p: "sg_sec s = irs + 1 + word_of_nat p" "p + m \<le> length S" "sg_datos s = rodaja p m S"
    "sg_banderas s AND FIN \<noteq> 0 \<longrightarrow> p + m = length S"
    using assms(3) True unfolding honrado_def m_def by blast
  have R: "recibe c"
    using True by blast
  have f: "prefix (recibido d c) S" "co_rcv_nxt c = irs + 1 + word_of_nat n" "\<not> co_huerfana c"
    "co_estado c \<notin> {Libre, Escucha, SynEnviado, SynRecibido}"
    using assms(1) R unfolding flujo_bien_def n_def by blast+
  have "\<not> acabada c"
    using R by (auto simp: recibe_def acabada_def)
  note f = f this
  have "n \<le> length S"
    using prefix_length_le [OF f(1)] by (simp add: n_def)
  then have s: "p \<le> n" "unat (co_rcv_nxt c - sg_sec s) = n - p"
    using sitio_del_segmento [of n p irs] True p(1,2) assms(4) by (simp_all add: f(2))
  moreover have "n - p \<le> m"
    using True unfolding s(2) m_def by blast
  ultimately have s: "p \<le> n" "unat (co_rcv_nxt c - sg_sec s) = n - p" "n \<le> p + m"
    by linarith+
  define x where "x = drop (n - p) (sg_datos s)"
  have pre: "prefix (recibido d c @ take k x) S" for k
    unfolding x_def by (rule prefijo_pieza(1) [OF f(1) n_def s(1) p(3,2) s(3)])
  have lon: "length (recibido d c @ x) = p + m"
    unfolding x_def by (rule prefijo_pieza(2) [OF f(1) n_def s(1) p(3,2) s(3)])
  define c1 where "c1 = (if x \<noteq> [] then toma (take (BUFER - co_rx_len c) x) c else c)"
  have r1: "recibido d c1 = recibido d c @ take (BUFER - co_rx_len c) x"
    using toma_recibido [OF assms(2), of "take (BUFER - co_rx_len c) x" d] by (simp add: c1_def)
  have e1: "co_estado c1 = co_estado c" "co_huerfana c1 = co_huerfana c"
    "co_rcv_nxt c1 = co_rcv_nxt c + word_of_nat (length (take (BUFER - co_rx_len c) x))"
    by (simp_all add: c1_def)
  have "recibe c1" "\<not> acabada c1" "\<not> co_huerfana c1" "co_estado c1 \<notin> {Libre, Escucha, SynEnviado, SynRecibido}"
    using R f(3-) by (simp_all add: recibe_def acabada_def e1)
  moreover have "co_rcv_nxt c1 = irs + 1 + word_of_nat (length (recibido d c1))"
    by (simp add: e1 f(2) r1 n_def)
  moreover have "prefix (recibido d c1) S"
    by (simp add: r1 pre)
  ultimately have b1: "flujo_bien S irs d c1" "recibe c1" "\<not> co_huerfana c1"
    unfolding flujo_bien_def by blast+
  have "recibido d c1 = S" if "sg_banderas s AND FIN \<noteq> 0" "length x \<le> BUFER - co_rx_len c"
  proof -
    have "prefix (recibido d c1) S" "length (recibido d c1) = length S"
      using pre [of "BUFER - co_rx_len c"] that p(4) lon r1 by simp_all
    then show ?thesis
      by (metis append_eq_conv_conj prefix_def take_all_iff le_refl)
  qed
  then have fin: "flujo_bien S irs d (recibe_fin ahora c1)" "flujo_bien S irs d (recibe_fin ahora (c1\<lparr>co_ack_debido := True\<rparr>))"
    if "sg_banderas s AND FIN \<noteq> 0" "length x \<le> BUFER - co_rx_len c"
    using that b1 by (simp_all add: flujo_fin recibe_def)
  have "en_datos s ahora c =
    (let c2 = (if x \<noteq> [] then c1\<lparr>co_ack_debido := True\<rparr> else c1) in
     if sg_banderas s AND FIN \<noteq> 0 \<and> length x \<le> BUFER - co_rx_len c then recibe_fin ahora c2 else c2)"
    using True s by (auto simp: en_datos_def Let_def x_def c1_def m_def min_def)
  then show ?thesis
    using fin b1(1) by (simp add: Let_def)
qed

section \<open>Whatever happens to the table\<close>

lemma pon_con_nth: "tcp_bien t \<Longrightarrow> i < CONEXIONES \<Longrightarrow> tc_c (pon_con j c t) ! i = (if j = i then c else tc_c t ! i)"
  by (cases "j = i") (simp_all add: pon_con_def tcp_bien_def)

lemma libre_tcp_libre: "libre_tcp t = Inr j \<Longrightarrow> co_estado (tc_c t ! j) = Libre"
  by (auto simp: libre_tcp_def dest!: primera_pos_Some split: option.splits)

text \<open>A connection that keeps its ends and its stream.\<close>

definition sigue_con :: "u8 list \<Rightarrow> u32 \<Rightarrow> u8 list \<Rightarrow> u8 list \<times> u16 \<times> u8 list \<times> u16 \<Rightarrow> conexion \<Rightarrow> bool" where
  "sigue_con S irs leidos e c \<longleftrightarrow> flujo_bien S irs leidos c \<and> tupla c = e"

lemma tupla_iguales [simp]:
  "tupla (c\<lparr>co_estado := x1\<rparr>) = tupla c" "tupla (c\<lparr>co_snd_una := x2\<rparr>) = tupla c" "tupla (c\<lparr>co_snd_nxt := x2\<rparr>) = tupla c"
  "tupla (c\<lparr>co_snd_wnd := x2\<rparr>) = tupla c" "tupla (c\<lparr>co_su_mss := x3\<rparr>) = tupla c" "tupla (c\<lparr>co_tx := x4\<rparr>) = tupla c"
  "tupla (c\<lparr>co_tx_len := x5\<rparr>) = tupla c" "tupla (c\<lparr>co_fin_pedido := x6\<rparr>) = tupla c"
  "tupla (c\<lparr>co_fin_confirmado := x6\<rparr>) = tupla c" "tupla (c\<lparr>co_rcv_nxt := x2\<rparr>) = tupla c" "tupla (c\<lparr>co_rx := x4\<rparr>) = tupla c"
  "tupla (c\<lparr>co_rx_len := x5\<rparr>) = tupla c" "tupla (c\<lparr>co_rto := x7\<rparr>) = tupla c" "tupla (c\<lparr>co_reintentos := x8\<rparr>) = tupla c"
  "tupla (c\<lparr>co_vence := x9\<rparr>) = tupla c" "tupla (c\<lparr>co_sondear := x6\<rparr>) = tupla c" "tupla (c\<lparr>co_cwnd := x2\<rparr>) = tupla c"
  "tupla (c\<lparr>co_ssthresh := x2\<rparr>) = tupla c" "tupla (c\<lparr>co_ack_debido := x6\<rparr>) = tupla c" "tupla (c\<lparr>co_desde := x7\<rparr>) = tupla c"
  "tupla (c\<lparr>co_escucha := x10\<rparr>) = tupla c" "tupla (c\<lparr>co_huerfana := x6\<rparr>) = tupla c"
  by (simp_all add: tupla_def)

lemma tupla_pasos [simp]:
  "tupla (cerrar_con x c) = tupla c" "tupla (armar ahora c) = tupla c" "tupla (confirma ack ahora c) = tupla c"
  "tupla (toma b c) = tupla c" "tupla (recibe_fin ahora c) = tupla c"
  by (simp_all add: cerrar_con_def armar_def confirma_def toma_def recibe_fin_def Let_def split: estado_tcp.splits)

lemma tupla_ack [simp]: "tupla (snd (en_ack s ahora c)) = tupla c"
  by (simp add: en_ack_def Let_def)

lemma tupla_datos [simp]: "tupla (en_datos s ahora c) = tupla c"
  by (simp add: en_datos_def Let_def)

lemma con_bien_ack_snd: "con_bien c \<Longrightarrow> en_ack s ahora c = (r, c') \<Longrightarrow> con_bien c'"
  using con_bien_ack [of c s ahora] by simp

lemma flujo_reto: "sigue_con S irs d e (tc_c t ! i) \<Longrightarrow> tcp_bien t \<Longrightarrow> i < CONEXIONES \<Longrightarrow> sigue_con S irs d e (tc_c (reto j ahora t) ! i)"
  by (cases "j = i") (auto simp: reto_def Let_def sigue_con_def pon_con_def tcp_bien_def)

lemma sigue_conexion:
  assumes "sigue_con S irs d e (tc_c t ! i)" "tcp_bien t" "i < CONEXIONES" "length S < 2 ^ 31" "j = i \<longrightarrow> honrado S irs s"
  shows "sigue_con S irs d e (tc_c (snd (en_conexion j s ahora t)) ! i)"
proof (cases "j = i")
  case False
  then show ?thesis
    using assms by (auto simp: en_conexion_def Let_def pon_con_nth flujo_reto split: prod.splits sum.splits)
next
  case True
  define c where "c = tc_c t ! i"
  have c: "flujo_bien S irs d c" "tupla c = e" "con_bien c" "co_estado c \<noteq> SynEnviado" "co_estado c \<noteq> SynRecibido" "honrado S irs s"
    using assms True tcp_bien_con by (auto simp: c_def sigue_con_def flujo_bien_def)
  have a: "flujo_bien S irs d c'" "con_bien c'" "tupla c' = e" if "en_ack s ahora c = (r, c')" for r c'
    using flujo_ack [OF c(1), of s ahora] con_bien_ack [OF c(3), of s ahora] tupla_ack [of s ahora c] c(2) that by simp_all
  have D: "sigue_con S irs d e c'" "sigue_con S irs d e (en_datos s ahora c')" if "en_ack s ahora c = (r, c')" for r c'
    using a [OF that] flujo_datos [OF _ _ c(6) assms(4)] by (simp_all add: sigue_con_def)
  have R: "sigue_con S irs d e (cerrar_con Reset c)"
    using c flujo_cerrar_con by (simp add: sigue_con_def)
  show ?thesis
    using assms(1-3) c(4,5) R D True
    by (auto simp: en_conexion_def Let_def pon_con_nth flujo_reto c_def [symmetric] split: prod.splits sum.splits)
qed

lemma armar_estado [simp]: "co_estado (armar ahora c) = co_estado c"
  by (simp add: armar_def)

lemma sigue_emite: "sigue_con S irs d e c \<Longrightarrow> sigue_con S irs d e (snd (emite ahora dst c))"
proof -
  have a: "sigue_con S irs d e c \<Longrightarrow> sigue_con S irs d e (snd (emite_ack dst c))" for c
    by (simp add: emite_ack_def sigue_con_def split: option.splits)
  have s: "flujo_bien S irs d (c\<lparr>co_estado := (case co_estado c of Establecida \<Rightarrow> FinEspera1 | CierreEspera \<Rightarrow> UltimoAck | e \<Rightarrow> e)\<rparr>)"
    if "flujo_bien S irs d c" for c
    using that flujo_estado [OF that, of FinEspera1] flujo_estado [OF that, of UltimoAck]
    by (cases "co_estado c") (simp_all, (metis conexion.surjective conexion.update_convs(1))+)
  have f: "sigue_con S irs d e c \<Longrightarrow> sigue_con S irs d e (snd (emite_fin ahora dst c))" for c
    using s [of "armar ahora (c\<lparr>co_snd_nxt := co_snd_nxt c + 1, co_ack_debido := False\<rparr>)"] a [of c]
    by (auto simp: emite_fin_def Let_def sigue_con_def split: option.splits)
  have d: "sigue_con S irs d e c \<Longrightarrow> sigue_con S irs d e (snd (emite_datos ahora dst c))" for c
    using f [of c] f [of "armar ahora c"] by (simp add: emite_datos_def Let_def sigue_con_def split: option.splits)
  show "sigue_con S irs d e c \<Longrightarrow> sigue_con S irs d e (snd (emite ahora dst c))"
    using d [of c] by (simp add: emite_def sigue_con_def split: option.splits)
qed

lemma sigue_temporizador: "sigue_con S irs d e c \<Longrightarrow> temporizador ahora c = Some c' \<Longrightarrow> sigue_con S irs d e c'"
  by (auto simp: temporizador_def sigue_con_def split: option.splits if_splits)

lemma sigue_emitir:
  assumes "sigue_con S irs d e (tc_c t ! i)" "tcp_bien t" "i < CONEXIONES"
  shows "sigue_con S irs d e (tc_c (snd (emitir j ahora dst t)) ! i)"
proof -
  have E: "sigue_con S irs d e c'" if "temporizador ahora (tc_c t ! i) = Some c" "emite ahora dst c = (r, c')" for c c' r
    using sigue_emite [OF sigue_temporizador [OF assms(1) that(1)], of ahora dst] that(2) by simp
  have "sigue_con S irs d e (cerrar_con x (tc_c t ! i))" for x
    using assms(1) flujo_cerrar_con by (simp add: sigue_con_def)
  then show ?thesis
    using assms E by (auto simp: emitir_def Let_def pon_con_nth split: option.splits prod.splits)
qed

lemma sigue_salida:
  assumes "sigue_con S irs d e (tc_c t ! i)" "tcp_bien t" "i < CONEXIONES"
  shows "sigue_con S irs d e (tc_c (snd (salida_tcp ahora dst t)) ! i)"
proof -
  have "sigue_con S irs d e (tc_c u ! i) \<Longrightarrow> tcp_bien u \<Longrightarrow> sigue_con S irs d e (tc_c (snd (salida_desde ks ahora dst u)) ! i)" for ks u
  proof (induction ks arbitrary: u)
    case (Cons k ks)
    define j where "j = (tc_turno u + k) mod CONEXIONES"
    have "j < CONEXIONES"
      by (simp add: j_def CONEXIONES_def)
    then have "sigue_con S irs d e (tc_c (snd (emitir j ahora dst u)) ! i)" "tcp_bien (snd (emitir j ahora dst u))"
      using Cons.prems assms(3) by (simp_all add: sigue_emitir tcp_bien_emitir)
    then show ?case
      using Cons.IH by (auto simp: j_def [symmetric] Let_def split: prod.splits option.splits)
  qed simp
  then show ?thesis
    using assms by (auto simp: salida_tcp_def Let_def split: option.splits sum.splits)
qed

text \<open>What an operation gives the application from the connection \<open>i\<close>.\<close>

definition lee :: "nat \<Rightarrow> op_tcp \<Rightarrow> tcp \<Rightarrow> u8 list" where
  "lee i op t =
    (case op of ORecibe asa n \<Rightarrow> (if asa = i then (case fst (recibir asa n t) of Inl e \<Rightarrow> [] | Inr b \<Rightarrow> b) else [])
     | _ \<Rightarrow> [])"

fun entrega :: "nat \<Rightarrow> op_tcp list \<Rightarrow> tcp \<Rightarrow> u8 list" where
  "entrega i [] t = []"
| "entrega i (op # ops) t = lee i op t @ entrega i ops (paso_tcp op t)"

text \<open>
  What arrives for the connection between the ends \<open>e\<close> was written by the other side. Anything may arrive
  for the others, and the bytes that are no segment do not count.
\<close>

definition op_honrada :: "u8 list \<Rightarrow> u32 \<Rightarrow> u8 list \<times> u16 \<times> u8 list \<times> u16 \<Rightarrow> op_tcp \<Rightarrow> bool" where
  "op_honrada S irs e op =
    (case op of OEntra origen destino b ahora \<Rightarrow>
        (case leer_segmento b origen destino of Inl x \<Rightarrow> True
         | Inr s \<Rightarrow> e = (destino, sg_destino s, origen, sg_origen s) \<longrightarrow> honrado S irs s)
     | _ \<Rightarrow> True)"

lemma sigue_recibir:
  assumes "sigue_con S irs d e (tc_c t ! i)" "tcp_bien t" "i < CONEXIONES"
  shows "sigue_con S irs (d @ lee i (ORecibe asa n) t) e (tc_c (snd (recibir asa n t)) ! i)"
proof (cases "asa = i")
  case False
  then show ?thesis
    using assms by (auto simp: recibir_def lee_def Let_def pon_con_nth split: sum.splits)
next
  case True
  define c where "c = tc_c t ! i"
  define k where "k = min (co_rx_len c) n"
  define c' where "c' = c\<lparr>co_rx := parche 0 (rodaja k (co_rx_len c - k) (co_rx c)) (co_rx c), co_rx_len := co_rx_len c - k\<rparr>"
  have b: "length (co_rx c) = BUFER" "co_rx_len c \<le> BUFER" "co_estado c \<noteq> Libre" "flujo_bien S irs d c" "tupla c = e"
    using assms tcp_bien_con by (auto simp: c_def con_bien_def sigue_con_def flujo_bien_def)
  have "length (co_rx c) \<ge> k + (co_rx_len c - k)"
    using b by (simp add: k_def)
  then have "take (co_rx_len c - k) (co_rx c') = rodaja k (co_rx_len c - k) (co_rx c)"
    by (simp add: c'_def parche_def length_rodaja)
  moreover have "rodaja 0 k (co_rx c) @ rodaja k (co_rx_len c - k) (co_rx c) = take (co_rx_len c) (co_rx c)"
    using b by (simp add: k_def rodaja_def take_add [symmetric])
  ultimately have r: "recibido (d @ rodaja 0 k (co_rx c)) c' = recibido d c"
    by (simp add: recibido_def c'_def)
  then have "sigue_con S irs (d @ rodaja 0 k (co_rx c)) e c'"
    using b(4,5) by (simp add: sigue_con_def flujo_bien_def recibe_def acabada_def c'_def)
  then have "sigue_con S irs (d @ rodaja 0 k (co_rx c)) e (c'\<lparr>co_ack_debido := f\<rparr>)" "sigue_con S irs (d @ rodaja 0 k (co_rx c)) e c'" for f
    by (simp_all add: sigue_con_def)
  moreover have "con_tcp i t = Inr c"
    using assms(2,3) b(3) by (simp add: con_tcp_def tcp_bien_def c_def)
  ultimately show ?thesis
    using assms True by (auto simp: recibir_def lee_def Let_def pon_con_nth k_def c'_def)
qed

lemma sigue_paso:
  assumes "sigue_con S irs d e (tc_c t ! i)" "tcp_bien t" "i < CONEXIONES" "length S < 2 ^ 31" "op_honrada S irs e op" "op \<noteq> OSuelta i"
  shows "sigue_con S irs (d @ lee i op t) e (tc_c (paso_tcp op t) ! i)"
proof -
  have c: "co_estado (tc_c t ! i) \<notin> {Libre, Escucha, SynEnviado, SynRecibido}" "\<not> co_huerfana (tc_c t ! i)"
    "tupla (tc_c t ! i) = e"
    using assms(1) by (simp_all add: sigue_con_def flujo_bien_def)
  have l: "libre_tcp t = Inr j \<Longrightarrow> j \<noteq> i" for j
    using libre_tcp_libre c(1) by auto
  have l': "libre_tcp (t\<lparr>tc_contador := n\<rparr>) = libre_tcp t" for n
    by (simp add: libre_tcp_def)
  have p: "tc_c (pon_con j x t) ! i = (if j = i then x else tc_c t ! i)" for j x
    by (rule pon_con_nth [OF assms(2,3)])
  have p': "tc_c (pon_con j x (t\<lparr>tc_contador := n\<rparr>)) ! i = (if j = i then x else tc_c t ! i)" for j x n
    using p by (simp add: pon_con_def)
  show ?thesis
  proof (cases op)
    case (OConecta mi su q ahora)
    then show ?thesis
      using assms(1) l p' by (auto simp: conectar_def lee_def Let_def split: sum.splits option.splits)
  next
    case (OEscucha mi q)
    then show ?thesis
      using assms(1) l p by (auto simp: escuchar_def lee_def Let_def split: sum.splits)
  next
    case (OAcepta asa)
    then show ?thesis
      using assms(1) c(2) p by (auto simp: aceptar_def lee_def dest!: primera_pos_Some split: option.splits)
  next
    case (OEnvia asa datos)
    then show ?thesis
      using assms(1) p by (auto simp: enviar_def con_tcp_def lee_def Let_def sigue_con_def split: sum.splits if_splits)
  next
    case (ORecibe asa n)
    then show ?thesis
      using sigue_recibir [OF assms(1-3)] by simp
  next
    case (OCierra asa)
    then show ?thesis
      using assms(1) c(1) p by (auto simp: cerrar_tcp_def con_tcp_def lee_def sigue_con_def split: sum.splits if_splits)
  next
    case (OAborta asa)
    then show ?thesis
      using assms(1) p flujo_cerrar_con by (auto simp: abortar_def con_tcp_def lee_def sigue_con_def split: sum.splits if_splits)
  next
    case (OSuelta asa)
    then show ?thesis
      using assms(1,6) p
      by (auto simp: soltar_def con_tcp_def lee_def split: sum.splits if_splits estado_tcp.splits)
  next
    case (OEntra origen destino b ahora)
    have "sigue_con S irs d e (tc_c (snd (entrada_tcp origen destino b ahora t)) ! i)"
    proof (cases "leer_segmento b origen destino")
      case (Inr s)
      have "sigue_con S irs d e (tc_c (snd (en_conexion j s ahora t)) ! i)"
        if "primera_pos (\<lambda>c. viva c \<and> co_mi_ip c = destino \<and> co_su_ip c = origen \<and> co_mi_puerto c = sg_destino s \<and>
          co_su_puerto c = sg_origen s) (tc_c t) = Some j" for j
        using primera_pos_Some [OF that] assms(5) c(3) Inr OEntra
        by (intro sigue_conexion [OF assms(1-4)]) (auto simp: op_honrada_def tupla_def)
      then show ?thesis
        using assms(1) l p Inr by (auto simp: entrada_tcp_def en_escucha_def Let_def split: sum.splits option.splits)
    qed (use assms(1) in \<open>simp add: entrada_tcp_def\<close>)
    then show ?thesis
      using OEntra by (simp add: lee_def)
  next
    case (OSale ahora dst)
    then show ?thesis
      using sigue_salida [OF assms(1-3)] by (simp add: lee_def)
  qed
qed

lemma sigue_pasos:
  assumes "sigue_con S irs d e (tc_c t ! i)" "tcp_bien t" "i < CONEXIONES" "length S < 2 ^ 31"
    "list_all (op_honrada S irs e) ops" "OSuelta i \<notin> set ops"
  shows "sigue_con S irs (d @ entrega i ops t) e (tc_c (fold paso_tcp ops t) ! i)"
  using assms
proof (induction ops arbitrary: d t)
  case (Cons op ops)
  have "sigue_con S irs (d @ lee i op t) e (tc_c (paso_tcp op t) ! i)"
    using Cons.prems by (intro sigue_paso) auto
  then show ?case
    using Cons.IH [of "d @ lee i op t" "paso_tcp op t"] Cons.prems tcp_bien_paso by simp
qed simp

text \<open>
  C3: the stream arrives whole. An established connection, from which the application may have still to
  read some bytes, is given the other side's segments by the wire in any order, with any repeated and any lost,
  among whatever other traffic, timers, sends, closes and aborts the table sees. What the application has
  read and what waits for it is always a beginning of what the other side wrote, and once the connection has seen the
  FIN it is all of it. The stream is shorter than half the circle of sequence numbers, and the handle is not let go.
\<close>

theorem flujo_recibido:
  assumes "tcp_bien t" "i < CONEXIONES" "co_estado (tc_c t ! i) = Establecida" "\<not> co_huerfana (tc_c t ! i)"
    "prefix (take (co_rx_len (tc_c t ! i)) (co_rx (tc_c t ! i))) S"
    "co_rcv_nxt (tc_c t ! i) = irs + 1 + word_of_nat (co_rx_len (tc_c t ! i))" "length S < 2 ^ 31"
    "list_all (op_honrada S irs (tupla (tc_c t ! i))) ops" "OSuelta i \<notin> set ops"
  shows "prefix (recibido (entrega i ops t) (tc_c (fold paso_tcp ops t) ! i)) S \<and>
    (acabada (tc_c (fold paso_tcp ops t) ! i) \<longrightarrow> recibido (entrega i ops t) (tc_c (fold paso_tcp ops t) ! i) = S)"
proof -
  have "co_rx_len (tc_c t ! i) \<le> length (co_rx (tc_c t ! i))"
    using tcp_bien_con [OF assms(1,2)] by (simp add: con_bien_def)
  then have "sigue_con S irs [] (tupla (tc_c t ! i)) (tc_c t ! i)"
    using assms(3-6) by (simp add: sigue_con_def flujo_bien_def recibido_def recibe_def acabada_def)
  from sigue_pasos [OF this assms(1,2,7-9)] show ?thesis
    by (simp add: sigue_con_def flujo_bien_def)
qed

definition tabla_ej :: tcp where
  "tabla_ej = pon_con 0 (LIBRE\<lparr>co_estado := Establecida, co_mi_ip := [10, 0, 0, 2], co_su_ip := [10, 0, 0, 1],
     co_mi_puerto := 80, co_su_puerto := 5000, co_rcv_nxt := 8\<rparr>) (tcp_nueva (replicate 32 7))"

text \<open>From 10.0.0.1, port 5000, number 8: the bytes 1, 2, 3 and the FIN.\<close>

definition segmento_ej :: "u8 list" where
  "segmento_ej = [19, 136, 0, 80, 0, 0, 0, 8, 0, 0, 0, 1, 80, 17, 0, 100, 131, 135, 0, 0, 1, 2, 3]"

lemma segmento_ej_leido:
  "leer_segmento segmento_ej [10, 0, 0, 1] [10, 0, 0, 2] =
    Inr \<lparr>sg_origen = 5000, sg_destino = 80, sg_sec = 8, sg_ack = 1, sg_banderas = 0x11, sg_ventana = 100, sg_mss = None,
      sg_datos = [1, 2, 3]\<rparr>"
  by (code_simp)

lemma tabla_ej_0: "tc_c tabla_ej ! 0 = LIBRE\<lparr>co_estado := Establecida, co_mi_ip := [10, 0, 0, 2], co_su_ip := [10, 0, 0, 1],
     co_mi_puerto := 80, co_su_puerto := 5000, co_rcv_nxt := 8\<rparr>"
  by (simp add: tabla_ej_def pon_con_def tcp_nueva_def CONEXIONES_def)

lemma tabla_ej_bien: "tcp_bien tabla_ej"
  unfolding tabla_ej_def by (rule tcp_bien_pon) (auto simp: tcp_bien_def tcp_nueva_def con_bien_libre medidas_tcp)

lemma honrado_ej: "op_honrada [1, 2, 3] 7 ([10, 0, 0, 2], 80, [10, 0, 0, 1], 5000) (OEntra [10, 0, 0, 1] [10, 0, 0, 2] segmento_ej x)"
  by (simp add: op_honrada_def segmento_ej_leido honrado_def rodaja_def)

lemma flujo_recibido_witness:
  "let ops = [OEntra [10, 0, 0, 1] [10, 0, 0, 2] segmento_ej 5, ORecibe 0 2, OEntra [10, 0, 0, 1] [10, 0, 0, 2] segmento_ej 9];
     c = tc_c (fold paso_tcp ops tabla_ej) ! 0
   in prefix (recibido (entrega 0 ops tabla_ej) c) [1, 2, 3] \<and> (acabada c \<longrightarrow> recibido (entrega 0 ops tabla_ej) c = [1, 2, 3])"
  unfolding Let_def
  by (rule flujo_recibido [where irs = 7])
    (use honrado_ej tabla_ej_bien in \<open>auto simp: tabla_ej_0 LIBRE_def CONEXIONES_def tupla_def op_honrada_def [of _ _ _ "ORecibe _ _"]\<close>)

end
