(* ===== verification/Tcp_Blindado.thy ===== *)
theory Tcp_Blindado
  imports Tcp_Flujo
begin

text \<open>
  What a stranger can do to a TCP connection (RFC 5961), and what the connection does to itself when its
  timer runs out.
\<close>

section \<open>Segments that are no use\<close>



text \<open>What came in stays as it was, and so does the connection, but for the end the other side confirms.\<close>

definition igual_recibido :: "conexion \<Rightarrow> conexion \<Rightarrow> bool" where
  "igual_recibido c c' \<longleftrightarrow> co_rx c' = co_rx c \<and> co_rx_len c' = co_rx_len c \<and> co_rcv_nxt c' = co_rcv_nxt c \<and>
    (viva c' \<or> co_estado c = UltimoAck)"

lemma viva_iguales [simp]:
  "viva (c\<lparr>co_ack_debido := f\<rparr>) = viva c" "viva (c\<lparr>co_snd_wnd := w\<rparr>) = viva c" "viva (c\<lparr>co_desde := d\<rparr>) = viva c"
  by (simp_all add: viva_def)

lemma igual_iguales [simp]:
  "igual_recibido c (c'\<lparr>co_ack_debido := f\<rparr>) = igual_recibido c c'" "igual_recibido c (c'\<lparr>co_snd_wnd := w\<rparr>) = igual_recibido c c'"
  "igual_recibido c (c'\<lparr>co_desde := d\<rparr>) = igual_recibido c c'"
  by (simp_all add: igual_recibido_def)

lemma confirma_recibido [simp]:
  "co_rx (confirma a t c) = co_rx c" "co_rx_len (confirma a t c) = co_rx_len c" "co_rcv_nxt (confirma a t c) = co_rcv_nxt c"
  by (simp_all add: confirma_def Let_def)



lemma reto_nth:
  assumes "tcp_bien t" "i < CONEXIONES"
  shows "tc_c (reto j ahora t) ! i = tc_c t ! i \<or> tc_c (reto j ahora t) ! i = (tc_c t ! i)\<lparr>co_ack_debido := True\<rparr>"
proof (cases "j = i")
  case True
  then show ?thesis
    using assms by (simp add: reto_def Let_def pon_con_def tcp_bien_def)
next
  case False
  then show ?thesis
    by (simp add: reto_def Let_def pon_con_def)
qed




section \<open>After the timer\<close>

text \<open>What goes again after the timer is at most one segment, from the first byte not confirmed.\<close>

lemma tras_vencer:
  assumes "tcp_bien t" "i < CONEXIONES" "co_estado (tc_c t ! i) = Establecida" "\<not> co_huerfana (tc_c t ! i)"
    "co_vence (tc_c t ! i) = Some v" "v \<le> ahora" "co_reintentos (tc_c t ! i) < REINTENTOS" "0 < co_tx_len (tc_c t ! i)"
  obtains n where "n \<le> unat (mss_co (tc_c t ! i))"
    "co_snd_nxt (tc_c (snd (emitir i ahora dst t)) ! i) = co_snd_una (tc_c t ! i) + word_of_nat n"
    "co_snd_una (tc_c (snd (emitir i ahora dst t)) ! i) = co_snd_una (tc_c t ! i)"
    "co_estado (tc_c (snd (emitir i ahora dst t)) ! i) = Establecida"
proof -
  define c where "c = tc_c t ! i"
  define c1 where "c1 = the (temporizador ahora c)"
  have c1: "temporizador ahora c = Some c1" "co_snd_nxt c1 = co_snd_una c" "co_snd_una c1 = co_snd_una c" "mss_co c1 = mss_co c"
    "co_estado c1 = Establecida" "co_tx_len c1 = co_tx_len c"
    using assms(3-7) by (auto simp: c1_def temporizador_def c_def mss_co_def)
  have a: "co_snd_nxt (snd (emite_ack dst x)) = co_snd_nxt x" "co_snd_una (snd (emite_ack dst x)) = co_snd_una x"
    "co_estado (snd (emite_ack dst x)) = co_estado x" for x
    by (simp_all add: emite_ack_def split: option.splits)
  have arm: "co_snd_nxt (armar ahora x) = co_snd_nxt x" "co_snd_una (armar ahora x) = co_snd_una x" "co_tx_len (armar ahora x) = co_tx_len x" for x
    by (simp_all add: armar_def)
  have f: "co_snd_nxt (snd (emite_fin ahora dst x)) = co_snd_nxt x \<and> co_snd_una (snd (emite_fin ahora dst x)) = co_snd_una x \<and>
      co_estado (snd (emite_fin ahora dst x)) = co_estado x" if "vuelo_co x = 0" "0 < co_tx_len x" for x
    using that a by (simp add: emite_fin_def)
  have "cuantos_van k m c1 \<le> unat (mss_co c)" for k m
    unfolding cuantos_van_def Let_def c1(4) by linarith
  moreover have "vuelo_co c1 = 0" "vuelo_co (armar ahora c1) = 0" "0 < co_tx_len c1"
    using c1 assms(8) by (simp_all add: vuelo_co_def arm c_def)
  ultimately have "\<exists>n \<le> unat (mss_co c). co_snd_nxt (snd (emite_datos ahora dst c1)) = co_snd_una c + word_of_nat n \<and>
      co_snd_una (snd (emite_datos ahora dst c1)) = co_snd_una c \<and> co_estado (snd (emite_datos ahora dst c1)) = Establecida"
    using c1 f [of c1] f [of "armar ahora c1"] arm
    by (auto simp: emite_datos_def Let_def split: option.splits intro: exI [of _ 0])
  moreover have "emite ahora dst c1 = emite_datos ahora dst c1"
    using c1(5) by (simp add: emite_def)
  moreover have "tc_c (snd (emitir i ahora dst t)) ! i = snd (emite ahora dst c1)"
    using c1(1) assms(1-4) by (simp add: emitir_def Let_def c_def [symmetric] viva_def pon_con_nth split: prod.splits)
  ultimately show ?thesis
    using that by (auto simp: c_def)
qed

text \<open>
  C38: when the timer of an established connection runs out with more than one segment in flight, the
  connection forgets that it sent the rest. An acknowledgement of those bytes, which the other side may well have
  received, is refused as one of the future, and nothing is confirmed.
\<close>

theorem vuelta_atras_sorda:
  assumes "tcp_bien t" "i < CONEXIONES" "co_estado (tc_c t ! i) = Establecida" "\<not> co_huerfana (tc_c t ! i)"
    "co_vence (tc_c t ! i) = Some v" "v \<le> ahora" "co_reintentos (tc_c t ! i) < REINTENTOS"
    "unat (mss_co (tc_c t ! i)) < k" "k \<le> unat (vuelo_co (tc_c t ! i))" "unat (vuelo_co (tc_c t ! i)) \<le> co_tx_len (tc_c t ! i)"
    "sg_banderas s = ACK" "sg_ack s = co_snd_una (tc_c t ! i) + word_of_nat k"
  shows "fst (en_conexion i s luego (snd (emitir i ahora dst t))) = Inl Secuencia \<and>
    co_snd_una (tc_c (snd (en_conexion i s luego (snd (emitir i ahora dst t)))) ! i) = co_snd_una (tc_c t ! i)"
proof -
  define u where "u = snd (emitir i ahora dst t)"
  have k: "k \<le> 8192"
    using tcp_bien_con [OF assms(1,2)] assms(9,10) by (simp add: con_bien_def BUFER_def)
  have "0 < co_tx_len (tc_c t ! i)"
    using assms(8-10) by simp
  from tras_vencer [OF assms(1-7) this, of dst]
  obtain n where n: "n \<le> unat (mss_co (tc_c t ! i))" "co_snd_nxt (tc_c u ! i) = co_snd_una (tc_c t ! i) + word_of_nat n"
      "co_snd_una (tc_c u ! i) = co_snd_una (tc_c t ! i)" "co_estado (tc_c u ! i) = Establecida"
    unfolding u_def by blast
  have "sg_ack s - co_snd_nxt (tc_c u ! i) = word_of_nat (k - n)"
    using n(1) assms(8) by (simp add: assms(12) n(2) of_nat_diff)
  moreover have "unat (word_of_nat (k - n) :: u32) = k - n"
    using k by (intro unat_nat31) simp
  ultimately have "antes (co_snd_nxt (tc_c u ! i)) (sg_ack s)"
    using k n(1) assms(8) by (auto simp: antes_def Let_def word_less_nat_alt unat_eq_0)
  then have "en_conexion i s luego u = (Inl Secuencia, reto i luego u)"
    using n(4) by (simp add: en_conexion_def Let_def assms(11) banderas_tcp)
  moreover have "tcp_bien u"
    unfolding u_def by (rule tcp_bien_emitir [OF assms(1,2)])
  ultimately show ?thesis
    using reto_nth [OF _ assms(2), of u i luego] n(3) unfolding u_def by auto
qed

text \<open>Ten thousand milliseconds in, 2000 bytes in flight from number 100, none confirmed.\<close>

definition tabla_vuelo :: tcp where
  "tabla_vuelo = pon_con 0 (LIBRE\<lparr>co_estado := Establecida, co_mi_ip := [10, 0, 0, 2], co_su_ip := [10, 0, 0, 1],
     co_mi_puerto := 80, co_su_puerto := 5000, co_rcv_nxt := 8, co_isn := 99, co_snd_una := 100, co_snd_nxt := 2100,
     co_snd_wnd := 8192, co_tx_len := 2000, co_vence := Some 10000\<rparr>) (tcp_nueva (replicate 32 7))"

lemma vuelta_atras_sorda_witness:
  "let t = snd (emitir 0 10000 (replicate 1500 0) tabla_vuelo);
     s = \<lparr>sg_origen = 5000, sg_destino = 80, sg_sec = 8, sg_ack = 2100, sg_banderas = ACK, sg_ventana = 8192, sg_mss = None, sg_datos = []\<rparr>
   in fst (en_conexion 0 s 10500 t) = Inl Secuencia \<and> co_snd_una (tc_c (snd (en_conexion 0 s 10500 t)) ! 0) = 100"
proof -
  have b: "tcp_bien tabla_vuelo"
    unfolding tabla_vuelo_def
    by (rule tcp_bien_pon) (auto simp: tcp_bien_def tcp_nueva_def con_bien_libre medidas_tcp con_bien_def LIBRE_def)
  have c: "tc_c tabla_vuelo ! 0 = LIBRE\<lparr>co_estado := Establecida, co_mi_ip := [10, 0, 0, 2], co_su_ip := [10, 0, 0, 1],
     co_mi_puerto := 80, co_su_puerto := 5000, co_rcv_nxt := 8, co_isn := 99, co_snd_una := 100, co_snd_nxt := 2100,
     co_snd_wnd := 8192, co_tx_len := 2000, co_vence := Some 10000\<rparr>"
    by (simp add: tabla_vuelo_def pon_con_def tcp_nueva_def CONEXIONES_def)
  show ?thesis
    unfolding Let_def
    using vuelta_atras_sorda [OF b, of 0 10000 10000 2000
      "\<lparr>sg_origen = 5000, sg_destino = 80, sg_sec = 8, sg_ack = 2100, sg_banderas = ACK, sg_ventana = 8192, sg_mss = None, sg_datos = []\<rparr>"
      10500 "replicate 1500 0"]
    by (simp add: c LIBRE_def CONEXIONES_def REINTENTOS_def mss_co_def vuelo_co_def MSS_def MSS_MIN_def)
qed

end
