(* ===== verification/Red_Arp.thy ===== *)
theory Red_Arp
  imports Red_Paquetes
begin

text \<open>
  \<open>platform/shared/bmo-pila/src/arp.rs\<close>: the ARP packet and the table of answers. An answer is only
  believed while its question is open, so a machine on the wire cannot put itself in the place of
  another one.
\<close>

section \<open>The packet\<close>

definition LARGO_ARP :: nat where "LARGO_ARP = 28"
definition FILAS_ARP :: nat where "FILAS_ARP = 16"
definition PREGUNTAS :: nat where "PREGUNTAS = 4"
definition VIDA_MS :: u64 where "VIDA_MS = 60000"
definition ESPERA_MS :: u64 where "ESPERA_MS = 3000"
definition REINTENTO_MS :: u64 where "REINTENTO_MS = 1000"

datatype op_arp = Pregunta | Respuesta

record arp =
  ar_op :: op_arp
  ar_mac_origen :: "u8 list"
  ar_ip_origen :: "u8 list"
  ar_mac_destino :: "u8 list"
  ar_ip_destino :: "u8 list"

definition leer_arp :: "u8 list \<Rightarrow> rechazo + arp" where
  "leer_arp b =
    (if length b < LARGO_ARP then Inl Corto
     else if be16 b 0 \<noteq> 1 \<or> be16 b 2 \<noteq> TIPO_IPV4 \<or> b ! 4 \<noteq> 6 \<or> b ! 5 \<noteq> 4 then Inl Cabecera
     else case (if be16 b 6 = 1 then Some Pregunta else if be16 b 6 = 2 then Some Respuesta else None) of
       None \<Rightarrow> Inl TipoMalo
     | Some op \<Rightarrow>
         let a = \<lparr>ar_op = op, ar_mac_origen = rodaja 8 6 b, ar_ip_origen = rodaja 14 4 b,
                  ar_mac_destino = rodaja 18 6 b, ar_ip_destino = rodaja 24 4 b\<rparr>
         in if es_grupo_mac (ar_mac_origen a) \<or> ar_mac_origen a = replicate 6 0 then Inl Direccion
            else if es_grupo_ip (ar_ip_origen a) \<or> es_difusion_ip (ar_ip_origen a) then Inl Direccion
            else Inr a)"

definition escribir_arp :: "u8 list \<Rightarrow> arp \<Rightarrow> rechazo + (nat \<times> u8 list)" where
  "escribir_arp dst a =
    (if length dst < LARGO_ARP then Inl Corto
     else
       let b = pon16 dst 0 1; b = pon16 b 2 TIPO_IPV4; b = parche 4 [6] b; b = parche 5 [4] b;
           b = pon16 b 6 (if ar_op a = Pregunta then 1 else 2);
           b = parche 8 (ar_mac_origen a) b; b = parche 14 (ar_ip_origen a) b;
           b = parche 18 (ar_mac_destino a) b; b = parche 24 (ar_ip_destino a) b
       in Inr (LARGO_ARP, b))"

section \<open>The table\<close>

record fila_arp =
  fi_ip :: "u8 list"
  fi_mac :: "u8 list"
  fi_visto :: u64
  fi_usada :: bool

record pregunta_arp =
  pr_ip :: "u8 list"
  pr_enviada :: u64
  pr_usada :: bool

record cache_arp =
  ca_filas :: "fila_arp list"
  ca_preguntas :: "pregunta_arp list"

definition cache_nueva :: cache_arp where
  "cache_nueva =
    \<lparr>ca_filas = replicate FILAS_ARP \<lparr>fi_ip = replicate 4 0, fi_mac = replicate 6 0, fi_visto = 0, fi_usada = False\<rparr>,
     ca_preguntas = replicate PREGUNTAS \<lparr>pr_ip = replicate 4 0, pr_enviada = 0, pr_usada = False\<rparr>\<rparr>"

definition buscar_mac :: "u8 list \<Rightarrow> u64 \<Rightarrow> cache_arp \<Rightarrow> u8 list option" where
  "buscar_mac ip ahora c =
    map_option fi_mac (find (\<lambda>f. fi_usada f \<and> fi_ip f = ip \<and> saturating_sub ahora (fi_visto f) < VIDA_MS) (ca_filas c))"

definition preguntar :: "u8 list \<Rightarrow> u64 \<Rightarrow> cache_arp \<Rightarrow> (rechazo + bool) \<times> cache_arp" where
  "preguntar ip ahora c =
    (case primera_pos (\<lambda>p. pr_usada p \<and> pr_ip p = ip) (ca_preguntas c) of
       Some i \<Rightarrow>
         if saturating_sub ahora (pr_enviada (ca_preguntas c ! i)) \<ge> REINTENTO_MS
         then (Inr True, c\<lparr>ca_preguntas := (ca_preguntas c)[i := (ca_preguntas c ! i)\<lparr>pr_enviada := ahora\<rparr>]\<rparr>)
         else (Inr False, c)
     | None \<Rightarrow>
         (case primera_pos (\<lambda>p. \<not> pr_usada p \<or> saturating_sub ahora (pr_enviada p) \<ge> ESPERA_MS) (ca_preguntas c) of
            None \<Rightarrow> (Inl Lleno, c)
          | Some i \<Rightarrow>
              (Inr True, c\<lparr>ca_preguntas := (ca_preguntas c)[i := \<lparr>pr_ip = ip, pr_enviada = ahora, pr_usada = True\<rparr>]\<rparr>)))"

definition esperada :: "u8 list \<Rightarrow> u64 \<Rightarrow> cache_arp \<Rightarrow> bool" where
  "esperada ip ahora c =
    list_ex (\<lambda>p. pr_usada p \<and> pr_ip p = ip \<and> saturating_sub ahora (pr_enviada p) < ESPERA_MS) (ca_preguntas c)"

definition contestada :: "u8 list \<Rightarrow> cache_arp \<Rightarrow> cache_arp" where
  "contestada ip c =
    c\<lparr>ca_preguntas := map (\<lambda>p. if pr_ip p = ip then p\<lparr>pr_usada := False\<rparr> else p) (ca_preguntas c)\<rparr>"

text \<open>The row seen longest ago.\<close>

definition mas_viejo :: "fila_arp list \<Rightarrow> nat" where
  "mas_viejo fs = fold (\<lambda>i viejo. if fi_visto (fs ! i) < fi_visto (fs ! viejo) then i else viejo) [0 ..< length fs] 0"

definition aprender :: "u8 list \<Rightarrow> u8 list \<Rightarrow> u64 \<Rightarrow> cache_arp \<Rightarrow> (rechazo + unit) \<times> cache_arp" where
  "aprender ip mac ahora c =
    (case primera_pos (\<lambda>f. fi_usada f \<and> fi_ip f = ip) (ca_filas c) of
       Some i \<Rightarrow>
         let f = ca_filas c ! i in
         if fi_mac f \<noteq> mac \<and> \<not> esperada ip ahora c then (Inl Direccion, c)
         else (Inr (), contestada ip (c\<lparr>ca_filas := (ca_filas c)[i := f\<lparr>fi_mac := mac, fi_visto := ahora\<rparr>]\<rparr>))
     | None \<Rightarrow>
         if \<not> esperada ip ahora c then (Inl NoEsParaMi, c)
         else let i = (case primera_pos (\<lambda>f. \<not> fi_usada f) (ca_filas c) of Some i \<Rightarrow> i | None \<Rightarrow> mas_viejo (ca_filas c)) in
           (Inr (), contestada ip (c\<lparr>ca_filas := (ca_filas c)
              [i := \<lparr>fi_ip = ip, fi_mac = mac, fi_visto = ahora, fi_usada = True\<rparr>]\<rparr>)))"

section \<open>What is written is read\<close>

lemma arp_vuelve:
  assumes "escribir_arp dst a = Inr (n, b)" "length (ar_mac_origen a) = 6" "length (ar_ip_origen a) = 4"
    "length (ar_mac_destino a) = 6" "length (ar_ip_destino a) = 4" "\<not> es_grupo_mac (ar_mac_origen a)"
    "ar_mac_origen a \<noteq> replicate 6 0" "\<not> es_grupo_ip (ar_ip_origen a)" "\<not> es_difusion_ip (ar_ip_origen a)"
  shows "leer_arp b = Inr a"
proof -
  have d: "28 \<le> length dst"
    using assms(1) by (simp add: escribir_arp_def LARGO_ARP_def split: if_splits)
  have l: "length b = length dst" "be16 b 0 = 1" "be16 b 2 = TIPO_IPV4" "b ! 4 = 6" "b ! 5 = 4"
    "be16 b 6 = (if ar_op a = Pregunta then 1 else 2)" "rodaja 8 6 b = ar_mac_origen a" "rodaja 14 4 b = ar_ip_origen a"
    "rodaja 18 6 b = ar_mac_destino a" "rodaja 24 4 b = ar_ip_destino a"
    using assms(1-5) d by (auto simp: escribir_arp_def LARGO_ARP_def Let_def bytes_simps)
  show ?thesis
    using d l(1-5,7-) assms(6-) l(6) by (cases "ar_op a") (auto simp: leer_arp_def LARGO_ARP_def Let_def)
qed

section \<open>Histories of the table\<close>

datatype op_tabla = OPregunta "u8 list" u64 | OAprende "u8 list" "u8 list" u64

text \<open>An operation, whether it succeeded (the question is to be sent, the answer was noted), and the table.\<close>

fun paso_arp :: "op_tabla \<Rightarrow> cache_arp \<Rightarrow> bool \<times> cache_arp" where
  "paso_arp (OPregunta ip t) c = (let (r, c) = preguntar ip t c in (r = Inr True, c))"
| "paso_arp (OAprende ip mac t) c = (let (r, c) = aprender ip mac t c in (r = Inr (), c))"

fun corre_arp :: "op_tabla list \<Rightarrow> cache_arp \<Rightarrow> (op_tabla \<times> bool) list \<times> cache_arp" where
  "corre_arp [] c = ([], c)"
| "corre_arp (o' # os) c = (let (r, c) = paso_arp o' c; (rs, c) = corre_arp os c in ((o', r) # rs, c))"

lemma corre_arp_snoc:
  "corre_arp (os @ [o']) c = (let (rs, c) = corre_arp os c; (r, c) = paso_arp o' c in (rs @ [(o', r)], c))"
  by (induction os arbitrary: c) (simp_all add: Let_def split: prod.splits)

text \<open>No answer about \<open>ip\<close> was noted.\<close>

definition sin_respuesta :: "u8 list \<Rightarrow> (op_tabla \<times> bool) list \<Rightarrow> bool" where
  "sin_respuesta ip rs \<longleftrightarrow> (\<forall>mac t. (OAprende ip mac t, True) \<notin> set rs)"

text \<open>A question sent at \<open>t\<close> that nothing has answered yet.\<close>

definition abierta :: "(op_tabla \<times> bool) list \<Rightarrow> u8 list \<Rightarrow> u64 \<Rightarrow> bool" where
  "abierta rs ip t \<longleftrightarrow> (\<exists>xs ys. rs = xs @ [(OPregunta ip t, True)] @ ys \<and> sin_respuesta ip ys)"

text \<open>An answer noted while its question was open and less than three seconds old.\<close>

definition ganada :: "(op_tabla \<times> bool) list \<Rightarrow> u8 list \<Rightarrow> u8 list \<Rightarrow> bool" where
  "ganada rs ip mac \<longleftrightarrow> (\<exists>xs t zs t0. rs = xs @ [(OAprende ip mac t, True)] @ zs \<and> abierta xs ip t0 \<and>
     saturating_sub t t0 < ESPERA_MS)"

definition arp_inv :: "(op_tabla \<times> bool) list \<Rightarrow> cache_arp \<Rightarrow> bool" where
  "arp_inv rs c \<longleftrightarrow> (\<forall>p \<in> set (ca_preguntas c). pr_usada p \<longrightarrow> abierta rs (pr_ip p) (pr_enviada p)) \<and>
    (\<forall>f \<in> set (ca_filas c). fi_usada f \<longrightarrow> ganada rs (fi_ip f) (fi_mac f))"

lemma abierta_snoc: "abierta rs ip t \<Longrightarrow> sin_respuesta ip [e] \<Longrightarrow> abierta (rs @ [e]) ip t"
proof -
  assume "abierta rs ip t" and e: "sin_respuesta ip [e]"
  then obtain xs ys where x: "rs = xs @ [(OPregunta ip t, True)] @ ys" "sin_respuesta ip ys"
    unfolding abierta_def by blast
  have "rs @ [e] = xs @ [(OPregunta ip t, True)] @ (ys @ [e])" "sin_respuesta ip (ys @ [e])"
    using x e by (auto simp: sin_respuesta_def)
  then show "abierta (rs @ [e]) ip t"
    unfolding abierta_def by blast
qed

lemma abierta_nueva: "abierta (rs @ [(OPregunta ip t, True)]) ip t"
  unfolding abierta_def by (fastforce simp: sin_respuesta_def)

lemma ganada_snoc: "ganada rs ip mac \<Longrightarrow> ganada (rs @ [e]) ip mac"
  unfolding ganada_def by fastforce

lemma ganada_nueva:
  "abierta rs ip t0 \<Longrightarrow> saturating_sub t t0 < ESPERA_MS \<Longrightarrow> ganada (rs @ [(OAprende ip mac t, True)]) ip mac"
  unfolding ganada_def by blast

lemma preguntar_inv:
  assumes "arp_inv rs c" "preguntar ip t c = (r, c')"
  shows "arp_inv (rs @ [(OPregunta ip t, r = Inr True)]) c'"
proof -
  have s: "sin_respuesta j [(OPregunta ip t, b)]" for j b
    by (simp add: sin_respuesta_def)
  have v: "arp_inv (rs @ [(OPregunta ip t, b)]) c" for b
    using assms(1) s by (auto simp: arp_inv_def intro: abierta_snoc ganada_snoc)
  have n: "arp_inv (rs @ [(OPregunta ip t, True)]) (c\<lparr>ca_preguntas := (ca_preguntas c)[i := p]\<rparr>)"
    if "pr_ip p = ip" "pr_enviada p = t" for i p
    using v [of True] abierta_nueva [of rs ip t] that set_update_subset_insert [of "ca_preguntas c" i p]
    by (auto simp: arp_inv_def)
  show ?thesis
    using assms(2) v n
    by (auto simp: preguntar_def Let_def dest!: primera_pos_Some split: option.splits if_splits)
qed

lemma contestada_preguntas:
  "p \<in> set (ca_preguntas (contestada ip c)) \<Longrightarrow> pr_usada p \<Longrightarrow> pr_ip p \<noteq> ip \<and> p \<in> set (ca_preguntas c)"
  by (auto simp: contestada_def split: if_splits)

lemma aprender_inv:
  assumes "arp_inv rs c" "aprender ip mac t c = (r, c')"
  shows "arp_inv (rs @ [(OAprende ip mac t, r = Inr ())]) c'"
proof -
  have falla: "arp_inv (rs @ [(OAprende ip mac t, False)]) c"
    using assms(1) by (auto simp: arp_inv_def sin_respuesta_def intro: abierta_snoc ganada_snoc)
  have pone: "arp_inv (rs @ [(OAprende ip mac t, True)]) (contestada ip (c\<lparr>ca_filas := (ca_filas c)[i := f]\<rparr>))"
    if "fi_ip f = ip" "fi_mac f = mac" "ganada (rs @ [(OAprende ip mac t, True)]) ip mac" for i f
    unfolding arp_inv_def
  proof (intro conjI ballI impI)
    fix p assume p: "p \<in> set (ca_preguntas (contestada ip (c\<lparr>ca_filas := (ca_filas c)[i := f]\<rparr>)))" "pr_usada p"
    then have "pr_ip p \<noteq> ip" "p \<in> set (ca_preguntas c)"
      using contestada_preguntas by fastforce+
    then show "abierta (rs @ [(OAprende ip mac t, True)]) (pr_ip p) (pr_enviada p)"
      using assms(1) p(2) by (intro abierta_snoc) (auto simp: arp_inv_def sin_respuesta_def)
  next
    fix g assume g: "g \<in> set (ca_filas (contestada ip (c\<lparr>ca_filas := (ca_filas c)[i := f]\<rparr>)))" "fi_usada g"
    then have "g = f \<or> g \<in> set (ca_filas c)"
      using set_update_subset_insert [of "ca_filas c" i f] by (auto simp: contestada_def)
    then show "ganada (rs @ [(OAprende ip mac t, True)]) (fi_ip g) (fi_mac g)"
      using assms(1) that g(2) by (auto simp: arp_inv_def intro: ganada_snoc)
  qed
  have espera: "ganada (rs @ [(OAprende ip mac t, True)]) ip mac" if "esperada ip t c"
    using assms(1) that by (auto simp: arp_inv_def esperada_def list_ex_iff intro: ganada_nueva)
  show ?thesis
  proof (cases "primera_pos (\<lambda>f. fi_usada f \<and> fi_ip f = ip) (ca_filas c)")
    case None
    then show ?thesis
      using assms(2) falla pone espera by (auto simp: aprender_def Let_def split: if_splits)
  next
    case (Some i)
    then have "ca_filas c ! i \<in> set (ca_filas c)" "fi_usada (ca_filas c ! i)" "fi_ip (ca_filas c ! i) = ip"
      using primera_pos_Some [OF Some] by simp_all
    moreover from this have "ganada (rs @ [(OAprende ip mac t, True)]) ip mac" if "fi_mac (ca_filas c ! i) = mac"
      using assms(1) that ganada_snoc by (auto simp: arp_inv_def)
    ultimately show ?thesis
      using Some assms(2) falla pone espera by (auto simp: aprender_def Let_def split: if_splits)
  qed
qed

lemma arp_inv_corre:
  assumes "corre_arp os cache_nueva = (rs, c)"
  shows "arp_inv rs c"
  using assms
proof (induction os arbitrary: rs c rule: rev_induct)
  case Nil
  then show ?case
    by (auto simp: arp_inv_def cache_nueva_def)
next
  case (snoc o' os)
  obtain rs1 c1 where 1: "corre_arp os cache_nueva = (rs1, c1)"
    by fastforce
  then have "arp_inv rs1 c1"
    by (rule snoc.IH)
  then show ?case
    using snoc.prems 1 preguntar_inv aprender_inv
    by (cases o') (auto simp: corre_arp_snoc Let_def split: prod.splits)
qed

text \<open>
  C11: nobody is believed who was not asked. Through any history of questions and answers, at any
  times, the address the table gives for an IP was noted from an answer about that IP, given while a
  question for it was open: sent less than three seconds before, and not answered by anyone since.
\<close>

theorem arp_sin_veneno:
  assumes "corre_arp os cache_nueva = (rs, c)" "buscar_mac ip ahora c = Some mac"
  shows "\<exists>xs t0 ys t zs. rs = xs @ [(OPregunta ip t0, True)] @ ys @ [(OAprende ip mac t, True)] @ zs \<and>
    saturating_sub t t0 < ESPERA_MS \<and> sin_respuesta ip ys"
proof -
  obtain f where f: "find (\<lambda>f. fi_usada f \<and> fi_ip f = ip \<and> saturating_sub ahora (fi_visto f) < VIDA_MS) (ca_filas c) = Some f"
      "fi_mac f = mac"
    using assms(2) by (auto simp: buscar_mac_def)
  then have "f \<in> set (ca_filas c)" "fi_usada f" "fi_ip f = ip"
    by (metis (mono_tags, lifting) find_Some_iff nth_mem)+
  then have "ganada rs ip mac"
    using arp_inv_corre [OF assms(1)] f(2) by (auto simp: arp_inv_def)
  then obtain xs t zs t0 where g: "rs = xs @ [(OAprende ip mac t, True)] @ zs" "abierta xs ip t0" "saturating_sub t t0 < ESPERA_MS"
    unfolding ganada_def by blast
  obtain us ys where "xs = us @ [(OPregunta ip t0, True)] @ ys" "sin_respuesta ip ys"
    using g(2) unfolding abierta_def by blast
  then have "rs = us @ [(OPregunta ip t0, True)] @ ys @ [(OAprende ip mac t, True)] @ zs" "sin_respuesta ip ys"
    using g(1) by simp_all
  then show ?thesis
    using g(3) by blast
qed

lemma rep4: "replicate 4 x = [x, x, x, x]"
  by (simp add: numeral_eq_Suc)

lemma rep16: "replicate 16 x = x # replicate 15 x"
  by (simp add: numeral_eq_Suc)

lemma arp_sin_veneno_witness:
  "\<exists>rs c. corre_arp [OPregunta [10, 0, 0, 1] 100, OAprende [10, 0, 0, 1] [2, 0, 0, 0, 0, 1] 600,
       OAprende [10, 0, 0, 1] [2, 0, 0, 0, 0, 0x66] 700] cache_nueva = (rs, c) \<and>
     buscar_mac [10, 0, 0, 1] 700 c = Some [2, 0, 0, 0, 0, 1] \<and>
     (\<exists>xs t0 ys t zs. rs = xs @ [(OPregunta [10, 0, 0, 1] t0, True)] @ ys @ [(OAprende [10, 0, 0, 1] [2, 0, 0, 0, 0, 1] t, True)] @ zs \<and>
        saturating_sub t t0 < ESPERA_MS \<and> sin_respuesta [10, 0, 0, 1] ys)"
proof -
  obtain rs c where e: "corre_arp [OPregunta [10, 0, 0, 1] 100, OAprende [10, 0, 0, 1] [2, 0, 0, 0, 0, 1] 600,
       OAprende [10, 0, 0, 1] [2, 0, 0, 0, 0, 0x66] 700] cache_nueva = (rs, c)"
    by fastforce
  then have b: "buscar_mac [10, 0, 0, 1] 700 c = Some [2, 0, 0, 0, 0, 1]"
    by (auto simp: preguntar_def aprender_def esperada_def contestada_def cache_nueva_def buscar_mac_def FILAS_ARP_def
        PREGUNTAS_def VIDA_MS_def ESPERA_MS_def saturating_sub_def Let_def rep16 rep4 primera_pos_ninguno)
  show ?thesis
    using e b arp_sin_veneno [OF e b] by blast
qed

end
