(* ===== verification/Red_Nodo.thy ===== *)
theory Red_Nodo
  imports Red_Arp
begin

text \<open>
  \<open>platform/shared/bmo-pila/src/nodo.rs\<close>: a MAC and an IP that answer ARP and ping and hand out the
  rest. The output buffer comes back as each operation leaves it.
\<close>

section \<open>The node\<close>

definition DIFUSION_MAC :: "u8 list" where "DIFUSION_MAC = replicate 6 0xFF"
definition CARGA :: nat where "CARGA = CABECERA_ETHER + CABECERA_IP"
definition ECOS_POR_SEGUNDO :: u32 where "ECOS_POR_SEGUNDO = 10"

record cuentas_red =
  cu_tramas :: u64
  cu_rechazadas :: u64
  cu_arp :: u64
  cu_ecos :: u64
  cu_udp :: u64
  cu_tcp :: u64

datatype hecho =
    Nada | Contestar nat | Eco "u8 list" u16 u16 | HUdp "u8 list" datagrama | HTcp "u8 list" "u8 list" "u8 list"

record nodo_red =
  no_mac :: "u8 list"
  no_ip :: "u8 list"
  no_arp :: cache_arp
  no_cuentas :: cuentas_red
  no_id :: u16
  no_ecos :: "u64 \<times> u32"

definition nodo_red_nuevo :: "u8 list \<Rightarrow> u8 list \<Rightarrow> nodo_red" where
  "nodo_red_nuevo mac ip =
    \<lparr>no_mac = mac, no_ip = ip, no_arp = cache_nueva,
     no_cuentas = \<lparr>cu_tramas = 0, cu_rechazadas = 0, cu_arp = 0, cu_ecos = 0, cu_udp = 0, cu_tcp = 0\<rparr>,
     no_id = 0, no_ecos = (0, 0)\<rparr>"

text \<open>Ethernet and IPv4 in front of the bytes already written from \<^const>\<open>CARGA\<close> on.\<close>

definition envolver ::
    "u8 list \<Rightarrow> u8 list \<Rightarrow> u8 list \<Rightarrow> u8 \<Rightarrow> nat \<Rightarrow> nodo_red \<Rightarrow> (rechazo + nat) \<times> nodo_red \<times> u8 list" where
  "envolver sal mac_destino ip_destino protocolo largo no =
    (if length sal < CARGA + largo then (Inl Corto, no, sal)
     else case escribir_trama sal mac_destino (no_mac no) TIPO_IPV4 of Inl e \<Rightarrow> (Inl e, no, sal)
     | Inr (_, sal) \<Rightarrow>
         let no = no\<lparr>no_id := no_id no + 1\<rparr> in
         (case escribir_ip (drop CABECERA_ETHER sal) (no_ip no) ip_destino protocolo largo (no_id no) of
            Inl e \<Rightarrow> (Inl e, no, sal)
          | Inr (_, b) \<Rightarrow>
              let (n, sal) = con_relleno (take CABECERA_ETHER sal @ b) (CARGA + largo) in (Inr n, no, sal)))"

text \<open>An ARP packet behind its Ethernet header.\<close>

definition trama_arp :: "u8 list \<Rightarrow> u8 list \<Rightarrow> arp \<Rightarrow> nodo_red \<Rightarrow> (rechazo + nat) \<times> u8 list" where
  "trama_arp sal mac_destino a no =
    (case escribir_trama sal mac_destino (no_mac no) TIPO_ARP of Inl e \<Rightarrow> (Inl e, sal)
     | Inr (n, sal) \<Rightarrow>
         (case escribir_arp (drop n sal) a of Inl e \<Rightarrow> (Inl e, sal)
          | Inr (m, b) \<Rightarrow> (let (k, sal) = con_relleno (take n sal @ b) (n + m) in (Inr k, sal))))"

definition atender_arp :: "trama \<Rightarrow> u64 \<Rightarrow> u8 list \<Rightarrow> nodo_red \<Rightarrow> (rechazo + hecho) \<times> nodo_red \<times> u8 list" where
  "atender_arp t ahora sal no =
    (case leer_arp (tr_carga t) of Inl e \<Rightarrow> (Inl e, no, sal)
     | Inr a \<Rightarrow>
         if ar_mac_origen a \<noteq> tr_origen t then (Inl Direccion, no, sal)
         else if ar_ip_destino a \<noteq> no_ip no then (Inl NoEsParaMi, no, sal)
         else (case ar_op a of
             Respuesta \<Rightarrow>
               (let (r, c) = aprender (ar_ip_origen a) (ar_mac_origen a) ahora (no_arp no); no = no\<lparr>no_arp := c\<rparr>
                in (case r of Inl e \<Rightarrow> (Inl e, no, sal) | Inr u \<Rightarrow> (Inr Nada, no, sal)))
           | Pregunta \<Rightarrow>
               (case trama_arp sal (ar_mac_origen a) \<lparr>ar_op = Respuesta, ar_mac_origen = no_mac no, ar_ip_origen = no_ip no,
                    ar_mac_destino = ar_mac_origen a, ar_ip_destino = ar_ip_origen a\<rparr> no of
                  (Inl e, sal) \<Rightarrow> (Inl e, no, sal)
                | (Inr n, sal) \<Rightarrow>
                    (Inr (Contestar n), no\<lparr>no_cuentas := (no_cuentas no)\<lparr>cu_arp := cu_arp (no_cuentas no) + 1\<rparr>\<rparr>, sal))))"

text \<open>The answer to a ping, at most ten for each second that starts.\<close>

definition atender_icmp :: "trama \<Rightarrow> paquete \<Rightarrow> u64 \<Rightarrow> u8 list \<Rightarrow> nodo_red \<Rightarrow> (rechazo + hecho) \<times> nodo_red \<times> u8 list" where
  "atender_icmp t p ahora sal no =
    (case leer_icmp (pq_carga p) of Inl e \<Rightarrow> (Inl e, no, sal)
     | Inr e \<Rightarrow>
         if ec_tipo e = ECO_RESPUESTA then (Inr (Eco (pq_origen p) (ec_id e) (ec_secuencia e)), no, sal)
         else
           let no = (if saturating_sub ahora (fst (no_ecos no)) \<ge> 1000 then no\<lparr>no_ecos := (ahora, 0)\<rparr> else no) in
           if snd (no_ecos no) \<ge> ECOS_POR_SEGUNDO then (Inl Lleno, no, sal)
           else if length sal < CARGA then (Inl Corto, no, sal)
           else (case escribir_icmp (drop CARGA sal) ECO_RESPUESTA (ec_id e) (ec_secuencia e) (ec_datos e) of
               Inl x \<Rightarrow> (Inl x, no, sal)
             | Inr (m, b) \<Rightarrow>
                 (case envolver (take CARGA sal @ b) (tr_origen t) (pq_origen p) PROTO_ICMP m no of
                    (Inl x, no, sal) \<Rightarrow> (Inl x, no, sal)
                  | (Inr n, no, sal) \<Rightarrow>
                      (Inr (Contestar n), no\<lparr>no_ecos := (fst (no_ecos no), snd (no_ecos no) + 1),
                         no_cuentas := (no_cuentas no)\<lparr>cu_ecos := cu_ecos (no_cuentas no) + 1\<rparr>\<rparr>, sal))))"

definition atender_ip :: "trama \<Rightarrow> u64 \<Rightarrow> u8 list \<Rightarrow> nodo_red \<Rightarrow> (rechazo + hecho) \<times> nodo_red \<times> u8 list" where
  "atender_ip t ahora sal no =
    (case leer_ip (tr_carga t) of Inl e \<Rightarrow> (Inl e, no, sal)
     | Inr p \<Rightarrow>
         if pq_destino p \<noteq> no_ip no then (Inl NoEsParaMi, no, sal)
         else if tr_destino t \<noteq> no_mac no then (Inl Direccion, no, sal)
         else if pq_protocolo p = PROTO_ICMP then atender_icmp t p ahora sal no
         else if pq_protocolo p = PROTO_UDP then
           (case leer_udp (pq_carga p) (pq_origen p) (pq_destino p) of Inl e \<Rightarrow> (Inl e, no, sal)
            | Inr d \<Rightarrow> (Inr (HUdp (pq_origen p) d), no\<lparr>no_cuentas := (no_cuentas no)\<lparr>cu_udp := cu_udp (no_cuentas no) + 1\<rparr>\<rparr>, sal))
         else if pq_protocolo p = PROTO_TCP then
           (Inr (HTcp (pq_origen p) (pq_destino p) (pq_carga p)),
            no\<lparr>no_cuentas := (no_cuentas no)\<lparr>cu_tcp := cu_tcp (no_cuentas no) + 1\<rparr>\<rparr>, sal)
         else (Inl Protocolo, no, sal))"

definition atender_sin_contar ::
    "u8 list \<Rightarrow> u64 \<Rightarrow> u8 list \<Rightarrow> nodo_red \<Rightarrow> (rechazo + hecho) \<times> nodo_red \<times> u8 list" where
  "atender_sin_contar b ahora sal no =
    (case leer_trama b of Inl e \<Rightarrow> (Inl e, no, sal)
     | Inr t \<Rightarrow>
         if tr_destino t \<noteq> no_mac no \<and> tr_destino t \<noteq> DIFUSION_MAC then (Inl NoEsParaMi, no, sal)
         else if tr_tipo t = TIPO_ARP then atender_arp t ahora sal no
         else if tr_tipo t = TIPO_IPV4 then atender_ip t ahora sal no
         else (Inl TipoMalo, no, sal))"

definition atender :: "u8 list \<Rightarrow> u64 \<Rightarrow> u8 list \<Rightarrow> nodo_red \<Rightarrow> (rechazo + hecho) \<times> nodo_red \<times> u8 list" where
  "atender b ahora sal no =
    (let no = no\<lparr>no_cuentas := (no_cuentas no)\<lparr>cu_tramas := cu_tramas (no_cuentas no) + 1\<rparr>\<rparr> in
     case atender_sin_contar b ahora sal no of
       (Inl e, no, sal) \<Rightarrow>
         (Inl e, no\<lparr>no_cuentas := (no_cuentas no)\<lparr>cu_rechazadas := cu_rechazadas (no_cuentas no) + 1\<rparr>\<rparr>, sal)
     | (Inr h, no, sal) \<Rightarrow> (Inr h, no, sal))"

definition preguntar_nodo :: "u8 list \<Rightarrow> u64 \<Rightarrow> u8 list \<Rightarrow> nodo_red \<Rightarrow> (rechazo + nat option) \<times> nodo_red \<times> u8 list" where
  "preguntar_nodo ip ahora sal no =
    (let (r, c) = preguntar ip ahora (no_arp no); no = no\<lparr>no_arp := c\<rparr> in
     case r of Inl e \<Rightarrow> (Inl e, no, sal)
     | Inr toca \<Rightarrow>
         if \<not> toca then (Inr None, no, sal)
         else (case trama_arp sal DIFUSION_MAC \<lparr>ar_op = Pregunta, ar_mac_origen = no_mac no, ar_ip_origen = no_ip no,
                 ar_mac_destino = replicate 6 0, ar_ip_destino = ip\<rparr> no of
               (Inl e, sal) \<Rightarrow> (Inl e, no, sal)
             | (Inr n, sal) \<Rightarrow> (Inr (Some n), no, sal)))"

definition eco_nodo ::
    "u8 list \<Rightarrow> u8 list \<Rightarrow> u8 list \<Rightarrow> u16 \<Rightarrow> u16 \<Rightarrow> u8 list \<Rightarrow> nodo_red \<Rightarrow> (rechazo + nat) \<times> nodo_red \<times> u8 list" where
  "eco_nodo sal mac_destino ip_destino ident secuencia datos no =
    (if length sal < CARGA then (Inl Corto, no, sal)
     else case escribir_icmp (drop CARGA sal) ECO_PETICION ident secuencia datos of Inl e \<Rightarrow> (Inl e, no, sal)
     | Inr (m, b) \<Rightarrow> envolver (take CARGA sal @ b) mac_destino ip_destino PROTO_ICMP m no)"

definition udp_nodo ::
    "u8 list \<Rightarrow> u8 list \<Rightarrow> u8 list \<Rightarrow> u16 \<Rightarrow> u16 \<Rightarrow> u8 list \<Rightarrow> nodo_red \<Rightarrow> (rechazo + nat) \<times> nodo_red \<times> u8 list" where
  "udp_nodo sal mac_destino ip_destino origen destino datos no =
    (if length sal < CARGA then (Inl Corto, no, sal)
     else case escribir_udp (drop CARGA sal) (no_ip no) ip_destino origen destino datos of Inl e \<Rightarrow> (Inl e, no, sal)
     | Inr (m, b) \<Rightarrow> envolver (take CARGA sal @ b) mac_destino ip_destino PROTO_UDP m no)"

section \<open>From one node to another\<close>

text \<open>The addresses of a node are some that may be an origin.\<close>

definition nodo_bien :: "nodo_red \<Rightarrow> bool" where
  "nodo_bien no \<longleftrightarrow> length (no_mac no) = 6 \<and> length (no_ip no) = 4 \<and> \<not> es_grupo_mac (no_mac no) \<and>
    no_mac no \<noteq> replicate 6 0 \<and> \<not> origen_imposible (no_ip no)"

lemma envuelto:
  assumes "envolver sal mac ip proto largo no = (Inr n, no', b)" "nodo_bien no" "length mac = 6" "length ip = 4"
  obtains c where "leer_trama (take n b) = Inr \<lparr>tr_destino = mac, tr_origen = no_mac no, tr_tipo = TIPO_IPV4, tr_carga = c\<rparr>"
    "leer_ip c = Inr \<lparr>pq_origen = no_ip no, pq_destino = ip, pq_protocolo = proto, pq_ttl = 64, pq_id = no_id no + 1,
       pq_carga = rodaja CARGA largo sal\<rparr>" "no' = no\<lparr>no_id := no_id no + 1\<rparr>"
proof -
  have l: "34 + largo \<le> length sal"
    using assms(1) by (simp add: envolver_def CARGA_def medidas_red split: if_splits)
  define b1 where "b1 = pon16 (parche 6 (no_mac no) (parche 0 mac sal)) 12 TIPO_IPV4"
  have e1: "escribir_trama sal mac (no_mac no) TIPO_IPV4 = Inr (14, b1)"
    using l by (simp add: escribir_trama_def medidas_red b1_def)
  have b1: "length b1 = length sal" "drop 14 b1 = drop 14 sal"
    using l assms(2,3) by (simp_all add: b1_def bytes_simps nodo_bien_def) (simp add: parche_def pon16_def)
  obtain c20 where e2: "escribir_ip (drop 14 b1) (no_ip no) ip proto largo (no_id no + 1) = Inr (20, c20 @ drop 20 (drop 14 b1))"
      "length c20 = 20" "no' = no\<lparr>no_id := no_id no + 1\<rparr>"
    using assms(1) e1 l b1(1) assms(2,4)
    by (auto simp: envolver_def escribir_ip_def CARGA_def medidas_red Let_def nodo_bien_def bytes_simps split: if_splits prod.splits)
  define w where "w = take 14 b1 @ c20 @ drop 34 sal"
  have w: "length w = length sal"
    using l e2(2) b1(1) by (simp add: w_def)
  have n: "(n, b) = con_relleno w (34 + largo)"
    using assms(1) e1 e2(1) l b1(2) by (auto simp: envolver_def CARGA_def medidas_red Let_def w_def split: prod.splits)
  have p: "rodaja 34 largo sal = take largo (drop 34 sal)"
    by (simp add: rodaja_def)
  have tot: "largo \<le> 1480"
    using e2(1) by (simp add: escribir_ip_def medidas_red split: if_splits)
  obtain r where r: "take n b = take 14 b1 @ c20 @ rodaja 34 largo sal @ r" "length r \<le> 26 - largo"
  proof (cases "34 + largo \<ge> 60 \<or> length w < 60")
    case True
    then have "n = 34 + largo" "b = w"
      using n by (auto simp: con_relleno_def medidas_red)
    then have "take n b = take 14 b1 @ c20 @ rodaja 34 largo sal @ []"
      using l e2(2) b1(1) by (simp add: w_def p)
    then show ?thesis
      using that by fastforce
  next
    case False
    then have "n = 60" "b = parche (34 + largo) (replicate (26 - largo) 0) w"
      using n by (auto simp: con_relleno_def medidas_red)
    then have "take n b = take (34 + largo) w @ replicate (26 - largo) 0"
      using False l w by (simp add: parche_def)
    then have "take n b = take 14 b1 @ c20 @ rodaja 34 largo sal @ replicate (26 - largo) 0"
      using l e2(2) b1(1) by (simp add: w_def p)
    then show ?thesis
      using that by fastforce
  qed
  define c where "c = c20 @ rodaja 34 largo sal @ r"
  have "length c \<le> 1500"
    using tot r(2) e2(2) l by (simp add: c_def length_rodaja)
  then have "leer_trama (take n b) = Inr \<lparr>tr_destino = mac, tr_origen = no_mac no, tr_tipo = TIPO_IPV4, tr_carga = c\<rparr>"
    using ether_vuelve [OF e1, of c] assms(2,3) r(1) by (simp add: nodo_bien_def c_def)
  moreover have "leer_ip c = Inr \<lparr>pq_origen = no_ip no, pq_destino = ip, pq_protocolo = proto, pq_ttl = 64, pq_id = no_id no + 1,
       pq_carga = rodaja 34 largo sal\<rparr>"
    using ip_vuelve [of "drop 14 b1" "no_ip no" ip proto "rodaja 34 largo sal" "no_id no + 1" 20 "c20 @ drop 20 (drop 14 b1)" r]
      e2(1,2) assms(2,4) l by (simp add: nodo_bien_def length_rodaja c_def)
  ultimately show ?thesis
    using that e2(3) by (simp add: CARGA_def medidas_red)
qed

text \<open>The bytes a node wrote behind the headers it had still to write.\<close>

lemma escrito_detras:
  assumes "length sal \<ge> CARGA" "n \<le> length b"
  shows "rodaja CARGA n (take CARGA sal @ b) = take n b"
  using assms by (simp add: rodaja_def)

text \<open>What one node sends by UDP, another one delivers.\<close>

lemma largo_de_udp: "escribir_udp dst o' d p q datos = Inr (n, b) \<Longrightarrow> n \<le> length b"
  by (auto simp: escribir_udp_def Let_def medidas_red cabecera_udp_def bytes_simps split: if_splits)

lemma largo_de_icmp: "escribir_icmp dst tipo k q datos = Inr (n, b) \<Longrightarrow> n \<le> length b"
  by (auto simp: escribir_icmp_def Let_def medidas_red cabecera_icmp_def bytes_simps split: if_splits)

text \<open>In a buffer of a whole frame it always is written.\<close>

lemma envolver_sale:
  assumes "34 + largo \<le> length sal" "60 \<le> length sal" "largo \<le> 1480" "nodo_bien no" "length mac = 6" "length ip = 4"
  shows "\<exists>no' b. envolver sal mac ip proto largo no = (Inr (max 60 (34 + largo)), no', b)"
proof -
  define b1 where "b1 = pon16 (parche 6 (no_mac no) (parche 0 mac sal)) 12 TIPO_IPV4"
  have e1: "escribir_trama sal mac (no_mac no) TIPO_IPV4 = Inr (14, b1)"
    using assms(1) by (simp add: escribir_trama_def medidas_red b1_def)
  have b1: "length b1 = length sal"
    using assms by (simp add: b1_def bytes_simps nodo_bien_def)
  define h where "h = cabecera_ip (take 20 (drop 14 b1)) (no_ip no) ip proto (20 + largo) (no_id no + 1)"
  define b where "b = pon16 h 10 (suma_de h) @ drop 20 (drop 14 b1)"
  have "length h = 20"
    using assms b1 by (simp add: h_def nodo_bien_def)
  then have b: "escribir_ip (drop 14 b1) (no_ip no) ip proto largo (no_id no + 1) = Inr (20, b)" "length b = length b1 - 14"
    using assms b1 by (simp_all add: escribir_ip_def medidas_red Let_def h_def [symmetric] b_def bytes_simps)
  have "fst (con_relleno (take 14 b1 @ b) (34 + largo)) = max 60 (34 + largo)"
    using assms b1 b(2) by (auto simp: con_relleno_def medidas_red)
  then show ?thesis
    using assms(1) e1 b(1) by (auto simp: envolver_def CARGA_def medidas_red Let_def split: prod.splits)
qed

text \<open>
  C16: a datagram goes from one node to another. What a node writes for the wire with \<open>udp\<close>, the node with the
  MAC and the IP it was for receives as that datagram, from the sender's address, port and all, byte for byte, in
  whatever buffer it answers and whatever it did before; frames shorter than the minimum carry padding that is not
  seen. Both ports are to be other than 0: port 0 is written as any other, and the receiver refuses it. The MAC and the IP
  of both nodes are such as an origin may have.
\<close>

theorem udp_entre_nodos:
  assumes "udp_nodo sal (no_mac y) (no_ip y) p q datos x = (Inr n, x', b)" "nodo_bien x" "nodo_bien y"
  shows "\<exists>y'. atender (take n b) ahora otra y =
    (if p = 0 \<or> q = 0 then Inl Puerto
     else Inr (HUdp (no_ip x) \<lparr>dg_origen = p, dg_destino = q, dg_datos = datos\<rparr>), y', otra)"
proof -
  have s: "CARGA \<le> length sal"
    using assms(1) by (simp add: udp_nodo_def split: if_splits)
  obtain m u where u: "escribir_udp (drop CARGA sal) (no_ip x) (no_ip y) p q datos = Inr (m, u)"
      "envolver (take CARGA sal @ u) (no_mac y) (no_ip y) PROTO_UDP m x = (Inr n, x', b)"
    using assms(1) s by (auto simp: udp_nodo_def split: sum.splits)
  have r: "rodaja CARGA m (take CARGA sal @ u) = take m u"
    by (rule escrito_detras [OF s largo_de_udp [OF u(1)]])
  obtain c where c: "leer_trama (take n b) = Inr \<lparr>tr_destino = no_mac y, tr_origen = no_mac x, tr_tipo = TIPO_IPV4, tr_carga = c\<rparr>"
      "leer_ip c = Inr \<lparr>pq_origen = no_ip x, pq_destino = no_ip y, pq_protocolo = PROTO_UDP, pq_ttl = 64, pq_id = no_id x + 1,
         pq_carga = take m u\<rparr>"
    using envuelto [OF u(2) assms(2)] assms(3) unfolding r nodo_bien_def by blast
  have "leer_udp (take m u) (no_ip x) (no_ip y) =
      (if p = 0 \<or> q = 0 then Inl Puerto else Inr \<lparr>dg_origen = p, dg_destino = q, dg_datos = datos\<rparr>)"
    using udp_vuelve [OF u(1), of "[]"] assms(2,3) by (simp add: nodo_bien_def)
  then show ?thesis
    using c by (simp add: atender_def atender_sin_contar_def atender_ip_def Let_def TIPO_IPV4_def TIPO_ARP_def
        PROTO_ICMP_def PROTO_UDP_def)
qed

lemma rep6: "replicate 6 x = [x, x, x, x, x, x]"
  by (simp add: numeral_eq_Suc)

text \<open>Two nodes on the same wire.\<close>

abbreviation "uno_ej \<equiv> nodo_red_nuevo [2, 0, 0, 0, 0, 1] [10, 0, 0, 1]"
abbreviation "dos_ej \<equiv> nodo_red_nuevo [2, 0, 0, 0, 0, 2] [10, 0, 0, 2]"

lemma nodos_ej: "nodo_bien uno_ej" "nodo_bien dos_ej" "length (no_mac dos_ej) = 6" "length (no_ip dos_ej) = 4" "length (no_ip uno_ej) = 4"
  by (simp_all add: nodo_bien_def nodo_red_nuevo_def es_grupo_mac_def origen_imposible_def rep4 rep6)

lemma udp_ej_sale: "\<exists>x' b. udp_nodo (replicate 60 0) (no_mac dos_ej) (no_ip dos_ej) 5000 q [104, 105] uno_ej = (Inr 60, x', b)"
proof -
  obtain u where u: "escribir_udp (drop CARGA (replicate 60 0)) (no_ip uno_ej) (no_ip dos_ej) 5000 q [104, 105] = Inr (10, u)"
      "length u = 26"
    by (simp add: escribir_udp_def Let_def CARGA_def medidas_red cabecera_udp_def bytes_simps)
  show ?thesis
    using envolver_sale [of 10 "take CARGA (replicate 60 0) @ u" uno_ej "no_mac dos_ej" "no_ip dos_ej" PROTO_UDP] nodos_ej u
    by (auto simp: udp_nodo_def CARGA_def medidas_red)
qed

lemma udp_entre_nodos_witness:
  "\<exists>n x' b y'. udp_nodo (replicate 60 0) (no_mac dos_ej) (no_ip dos_ej) 5000 53 [104, 105] uno_ej = (Inr n, x', b) \<and>
     atender (take n b) 5 [] dos_ej =
       (Inr (HUdp [10, 0, 0, 1] \<lparr>dg_origen = 5000, dg_destino = 53, dg_datos = [104, 105]\<rparr>), y', [])"
proof -
  obtain x' b where e: "udp_nodo (replicate 60 0) (no_mac dos_ej) (no_ip dos_ej) 5000 53 [104, 105] uno_ej = (Inr 60, x', b)"
    using udp_ej_sale by blast
  have "no_ip uno_ej = [10, 0, 0, 1]"
    by (simp add: nodo_red_nuevo_def)
  then show ?thesis
    using udp_entre_nodos [OF e nodos_ej(1,2), of 5 "[]"] e by auto
qed

section \<open>What a node answers to\<close>

text \<open>
  C39: a node only attends what is for it. When it accepts a frame, the frame was sent to its MAC, or it is an ARP
  packet sent to everybody; an ARP packet asks for its IP and speaks for the MAC it comes from; an IP packet is for
  its IP and in a frame to its MAC, so a ping to everybody is never answered.
\<close>

theorem solo_a_lo_suyo:
  assumes "atender b ahora sal no = (Inr h, no', sal')"
  shows "\<exists>t. leer_trama b = Inr t \<and>
    (if tr_tipo t = TIPO_ARP
     then tr_destino t \<in> {no_mac no, DIFUSION_MAC} \<and>
       (\<exists>a. leer_arp (tr_carga t) = Inr a \<and> ar_ip_destino a = no_ip no \<and> ar_mac_origen a = tr_origen t)
     else tr_tipo t = TIPO_IPV4 \<and> tr_destino t = no_mac no \<and>
       (\<exists>p. leer_ip (tr_carga t) = Inr p \<and> pq_destino p = no_ip no))"
proof -
  define x where "x = no\<lparr>no_cuentas := (no_cuentas no)\<lparr>cu_tramas := cu_tramas (no_cuentas no) + 1\<rparr>\<rparr>"
  have x: "no_mac x = no_mac no" "no_ip x = no_ip no"
    by (simp_all add: x_def)
  obtain y where a: "atender_sin_contar b ahora sal x = (Inr h, y, sal')"
    using assms by (auto simp: atender_def Let_def x_def split: prod.splits sum.splits)
  then obtain t where t: "leer_trama b = Inr t" "tr_destino t \<in> {no_mac no, DIFUSION_MAC}"
    by (auto simp: atender_sin_contar_def x split: sum.splits if_splits)
  show ?thesis
  proof (cases "tr_tipo t = TIPO_ARP")
    case True
    then have "atender_arp t ahora sal x = (Inr h, y, sal')"
      using a t by (auto simp: atender_sin_contar_def x split: if_splits)
    then show ?thesis
      using t True by (auto simp: atender_arp_def x split: sum.splits if_splits)
  next
    case False
    then have i: "tr_tipo t = TIPO_IPV4" "atender_ip t ahora sal x = (Inr h, y, sal')"
      using a t by (auto simp: atender_sin_contar_def x split: if_splits)
    then have "tr_destino t = no_mac no \<and> (\<exists>p. leer_ip (tr_carga t) = Inr p \<and> pq_destino p = no_ip no)"
      by (auto simp: atender_ip_def x split: sum.splits if_splits)
    then show ?thesis
      using t i(1) False by auto
  qed
qed

text \<open>A question for the address of the second node.\<close>

definition arp_ej :: "u8 list" where
  "arp_ej = replicate 6 255 @ [2, 0, 0, 0, 0, 1, 8, 6, 0, 1, 8, 0, 6, 4, 0, 1, 2, 0, 0, 0, 0, 1, 10, 0, 0, 1, 0, 0, 0, 0, 0, 0, 10, 0, 0, 2]"

lemma solo_a_lo_suyo_witness:
  "\<exists>t. leer_trama arp_ej = Inr t \<and>
    (if tr_tipo t = TIPO_ARP
     then tr_destino t \<in> {no_mac dos_ej, DIFUSION_MAC} \<and>
       (\<exists>a. leer_arp (tr_carga t) = Inr a \<and> ar_ip_destino a = no_ip dos_ej \<and> ar_mac_origen a = tr_origen t)
     else tr_tipo t = TIPO_IPV4 \<and> tr_destino t = no_mac dos_ej \<and>
       (\<exists>p. leer_ip (tr_carga t) = Inr p \<and> pq_destino p = no_ip dos_ej))"
proof -
  have "fst (atender arp_ej 5 (replicate 60 0) dos_ej) = Inr (Contestar 60)"
    by code_simp
  then show ?thesis
    using solo_a_lo_suyo [of arp_ej 5 "replicate 60 0" dos_ej "Contestar 60"] by (metis prod.collapse)
qed

section \<open>How much it answers\<close>

text \<open>What one frame does to the count of the echoes: nothing, a new second, one more, or both.\<close>

definition cambio_eco :: "u64 \<Rightarrow> nodo_red \<Rightarrow> nodo_red \<Rightarrow> bool" where
  "cambio_eco ahora x y \<longleftrightarrow>
    (let pasa = (saturating_sub ahora (fst (no_ecos x)) \<ge> 1000);
         e = (if pasa then (ahora, 0) else no_ecos x)
     in no_ecos y \<in> {no_ecos x, e} \<and> cu_ecos (no_cuentas y) = cu_ecos (no_cuentas x) \<or>
        snd e < ECOS_POR_SEGUNDO \<and> no_ecos y = (fst e, snd e + 1) \<and>
        cu_ecos (no_cuentas y) = cu_ecos (no_cuentas x) + 1)"

lemma envolver_ecos:
  "envolver sal mac ip p k x = (r, y, b) \<Longrightarrow> no_ecos y = no_ecos x \<and> no_cuentas y = no_cuentas x"
  by (auto simp: envolver_def Let_def split: if_splits sum.splits prod.splits)

lemma cambio_icmp: "atender_icmp t p ahora sal x = (r, y, b) \<Longrightarrow> cambio_eco ahora x y"
  unfolding atender_icmp_def Let_def cambio_eco_def
  by (auto simp: ECOS_POR_SEGUNDO_def dest!: envolver_ecos split: sum.splits if_splits prod.splits)

lemma cambio_atender: "atender f ahora sal x = (r, y, b) \<Longrightarrow> cambio_eco ahora x y"
proof -
  assume a: "atender f ahora sal x = (r, y, b)"
  define z where "z = x\<lparr>no_cuentas := (no_cuentas x)\<lparr>cu_tramas := cu_tramas (no_cuentas x) + 1\<rparr>\<rparr>"
  obtain r' y' b' where s: "atender_sin_contar f ahora sal z = (r', y', b')"
    by (cases "atender_sin_contar f ahora sal z") auto
  have n: "cambio_eco ahora z u" if "no_ecos u = no_ecos z" "cu_ecos (no_cuentas u) = cu_ecos (no_cuentas z)" for u
    using that by (simp add: cambio_eco_def Let_def)
  have p: "atender_arp t ahora sal z = (r', y', b') \<Longrightarrow> cambio_eco ahora z y'" for t
    by (rule n) (auto simp: atender_arp_def Let_def split: sum.splits if_splits prod.splits op_arp.splits)
  have "atender_ip t ahora sal z = (r', y', b') \<Longrightarrow> cambio_eco ahora z y'" for t
    using cambio_icmp n by (auto simp: atender_ip_def split: sum.splits if_splits)
  then have "cambio_eco ahora z y'"
    using s p n by (auto simp: atender_sin_contar_def split: sum.splits if_splits)
  moreover have "no_ecos y = no_ecos y'" "cu_ecos (no_cuentas y) = cu_ecos (no_cuentas y')"
    using a s by (auto simp: atender_def Let_def z_def split: sum.splits)
  moreover have "no_ecos z = no_ecos x" "cu_ecos (no_cuentas z) = cu_ecos (no_cuentas x)"
    by (simp_all add: z_def)
  ultimately show ?thesis
    by (simp only: cambio_eco_def)
qed

text \<open>The frames that arrive, each with its time and the buffer for its answer.\<close>

definition atiende :: "(u8 list \<times> u64 \<times> u8 list) list \<Rightarrow> nodo_red \<Rightarrow> nodo_red" where
  "atiende fs no = fold (\<lambda>(b, ahora, sal) no. fst (snd (atender b ahora sal no))) fs no"

text \<open>At most ten echoes from before a new second started, and ten since.\<close>

definition cuenta_ecos :: "u64 \<Rightarrow> u64 \<Rightarrow> nodo_red \<Rightarrow> bool" where
  "cuenta_ecos T E x \<longleftrightarrow> (\<exists>n. cu_ecos (no_cuentas x) = E + word_of_nat n \<and> unat (snd (no_ecos x)) \<le> 10 \<and>
    (n \<le> unat (snd (no_ecos x)) \<or>
     unat T \<le> unat (fst (no_ecos x)) \<and> unat (fst (no_ecos x)) < unat T + 1000 \<and> n \<le> 10 + unat (snd (no_ecos x))))"

lemma cuenta_igual:
  "cuenta_ecos T E x \<Longrightarrow> no_ecos y = no_ecos x \<Longrightarrow> cu_ecos (no_cuentas y) = cu_ecos (no_cuentas x) \<Longrightarrow> cuenta_ecos T E y"
  by (simp add: cuenta_ecos_def)

lemma cuenta_paso:
  assumes "cuenta_ecos T E x" "cambio_eco ahora x y" "unat T \<le> unat ahora" "unat ahora < unat T + 1000"
  shows "cuenta_ecos T E y"
proof -
  obtain n where n: "cu_ecos (no_cuentas x) = E + word_of_nat n" "unat (snd (no_ecos x)) \<le> 10"
    "n \<le> unat (snd (no_ecos x)) \<or>
     unat T \<le> unat (fst (no_ecos x)) \<and> unat (fst (no_ecos x)) < unat T + 1000 \<and> n \<le> 10 + unat (snd (no_ecos x))"
    using assms(1) unfolding cuenta_ecos_def by blast
  define pasa where "pasa \<longleftrightarrow> saturating_sub ahora (fst (no_ecos x)) \<ge> 1000"
  have p: "n \<le> unat (snd (no_ecos x))" if pasa
  proof -
    have "1000 \<le> unat ahora - unat (fst (no_ecos x))"
      using that by (simp add: pasa_def word_le_nat_alt unat_saturating_sub)
    then show ?thesis
      using n(3) assms(3,4) by linarith
  qed
  define e where "e = (if pasa then (ahora, 0) else no_ecos x)"
  have e: "cuenta_ecos T E (x\<lparr>no_ecos := e\<rparr>)"
    using n p assms(3,4) unfolding cuenta_ecos_def e_def by (intro exI [of _ n]) auto
  have "snd e < 10 \<longrightarrow> unat (snd e + 1) = unat (snd e) + 1" "snd e < 10 \<longrightarrow> unat (snd e) < 10"
    by (auto simp: word_less_nat_alt unat_word_ariths)
  then have m: "cuenta_ecos T E y" if "snd e < 10" "no_ecos y = (fst e, snd e + 1)" "cu_ecos (no_cuentas y) = cu_ecos (no_cuentas x) + 1"
    using n p assms(3,4) that unfolding cuenta_ecos_def e_def by (intro exI [of _ "Suc n"]) (auto simp: ac_simps)
  have "no_ecos y \<in> {no_ecos x, e} \<and> cu_ecos (no_cuentas y) = cu_ecos (no_cuentas x) \<or>
      snd e < 10 \<and> no_ecos y = (fst e, snd e + 1) \<and> cu_ecos (no_cuentas y) = cu_ecos (no_cuentas x) + 1"
    using assms(2) by (simp add: cambio_eco_def Let_def e_def pasa_def ECOS_POR_SEGUNDO_def)
  then show ?thesis
    using cuenta_igual [OF assms(1), of y] cuenta_igual [OF e, of y] m by auto
qed

text \<open>
  C40: a node is no echo. However many pings arrive in less than one second, whatever else arrives with them and
  in whatever order the clock gives the times, the node answers at most twenty: the ten of the second
  that had started and the ten of the next.
\<close>

theorem ecos_acotados:
  fixes T :: u64
  assumes "snd (no_ecos no) \<le> ECOS_POR_SEGUNDO"
    "\<forall>(b, ahora, sal) \<in> set fs. unat T \<le> unat ahora \<and> unat ahora < unat T + 1000"
  shows "unat (cu_ecos (no_cuentas (atiende fs no)) - cu_ecos (no_cuentas no)) \<le> 20"
proof -
  define E where "E = cu_ecos (no_cuentas no)"
  have "cuenta_ecos T E x \<Longrightarrow> cuenta_ecos T E (atiende fs x)" for x
    using assms(2)
  proof (induction fs arbitrary: x)
    case (Cons f fs)
    obtain b ahora sal where f: "f = (b, ahora, sal)"
      by (cases f)
    have "cuenta_ecos T E (fst (snd (atender b ahora sal x)))"
      by (rule cuenta_paso [OF Cons.prems(1) cambio_atender]) (use Cons.prems(2) f in \<open>auto simp: prod_eq_iff\<close>)
    then show ?case
      using Cons.IH Cons.prems(2) f by (simp add: atiende_def)
  qed (simp add: atiende_def)
  moreover have "cuenta_ecos T E no"
    using assms(1) by (auto simp: cuenta_ecos_def E_def ECOS_POR_SEGUNDO_def word_le_nat_alt intro: exI [of _ 0])
  ultimately obtain n where n: "cu_ecos (no_cuentas (atiende fs no)) = E + word_of_nat n" "unat (snd (no_ecos (atiende fs no))) \<le> 10"
      "n \<le> unat (snd (no_ecos (atiende fs no))) \<or> n \<le> 10 + unat (snd (no_ecos (atiende fs no)))"
    unfolding cuenta_ecos_def by blast
  then have "n \<le> 20"
    by linarith
  moreover have "cu_ecos (no_cuentas (atiende fs no)) - cu_ecos (no_cuentas no) = word_of_nat n"
    by (simp add: n(1) E_def)
  ultimately show ?thesis
    by (simp add: unat_word_of_nat)
qed

lemma ecos_acotados_witness:
  "unat (cu_ecos (no_cuentas (atiende [([1, 2], 5, []), ([], 900, [])] (nodo_red_nuevo [2, 0, 0, 0, 0, 1] [10, 0, 0, 1]))) -
    cu_ecos (no_cuentas (nodo_red_nuevo [2, 0, 0, 0, 0, 1] [10, 0, 0, 1]))) \<le> 20"
  by (rule ecos_acotados [where T = 0]) (simp_all add: nodo_red_nuevo_def ECOS_POR_SEGUNDO_def)

end
