(* ===== verification/Spec2Isabelle.thy ===== *)
theory Spec2Isabelle
  imports Fisica_Juicio Dma_Forma Equidad Prestamo Memoria Cola Estratos_Corte Tcp_Blindado Red_Nodo
begin

text \<open>
  BMO-X: the kernel of a small operating system in Rust (\<open>Ultra_kernel_x86-64\<close>), the crates it shares
  with its programs and tools (\<open>platform\<close>), and its file system ESTRATOS. This library models the parts
  that decide: who owns a frame of memory and who may touch it, which process runs, which handle means
  what, what is on the disk when the power goes, and what comes in and goes out by the network. The paths below are relative to \<open>src/\<close>;
  \<open>ring0/\<close> stands for \<open>Ultra_kernel_x86-64/kernel/src/ring0/\<close> and \<open>shared/\<close> for \<open>platform/shared/\<close>.

  \<^bold>\<open>Parts and how they meet.\<close> \<open>ring0/mm\<close> hands out physical frames and builds page tables from them.
  \<open>ring0/obj\<close> gives programs memory and loans of it, through handles of the capability tables; it calls
  \<open>mm\<close> for frames and mappings and a shared crate for the arithmetic of a loan. \<open>ring0/task\<close> chooses
  the process that runs and numbers processes. \<open>ring0/fsys/estratos\<close> keeps the volume: it reads and
  writes blocks through \<open>ring0/dev/disk\<close>, and the formats, trees and transactions come from the crate
  \<open>bmo-estratos\<close>, which hashes every block with \<open>bmo-hash\<close>. The judges (\<open>bmo-*-juicio\<close>, \<open>bmo-dma-forma\<close>)
  are pure functions the drivers ask before they touch memory or a device. The network stack
  \<open>bmo-pila\<close> has no clock and no card: \<open>ring0/red\<close> gives it frames and the time, and it asks
  \<open>bmo-cripto\<close> for the HMAC its sequence numbers come from.

  \<^bold>\<open>Theories.\<close> Each opens with the file it models.
  \<^item> \<open>Prelude\<close>, \<open>Bytes\<close>: Rust arithmetic on words (checked and saturating), slices, byte strings, UTF-8.
  \<^item> \<open>Prestamo_Juicio\<close>, \<open>Fisica_Juicio\<close>, \<open>Mmio_Juicio\<close>, \<open>Dma_Juicio\<close>, \<open>Dma_Forma\<close>, \<open>Ventana\<close>: the judges
    of \<open>shared/bmo-prestamo-juicio\<close>, \<open>bmo-fisica-juicio\<close>, \<open>bmo-mmio-juicio\<close>, \<open>bmo-dma-juicio\<close>,
    \<open>bmo-dma-forma\<close> and the module \<open>ventana\<close> of \<open>platform/drivers/storage/block\<close>. Each decision is
    shown equal to the set of ranges it stands for.
  \<^item> \<open>Mm\<close>, \<open>Titular\<close>, \<open>Reparto\<close>, \<open>Phys\<close>: \<open>ring0/mm/mod.rs\<close>, \<open>titular\<close>, \<open>phys\<close>: layout constants, the owner
    table with flights and loans to devices, and the bitmap allocator. The allocator refines a set of
    free frames; \<open>Reparto\<close> is the interface of a giver and taker of things, used by the allocator and by
    the capability tables.
  \<^item> \<open>Vmm\<close>, \<open>Espacios\<close>, \<open>Paginas\<close>, \<open>Espacio_Nuevo\<close>, \<open>Aislamiento\<close>, \<open>Tramos\<close>: \<open>ring0/mm/vmm\<close>. Page tables
    live in frames of one memory; \<open>Espacios\<close> holds the invariant (a tree of tables that share nothing),
    the next two the operations, \<open>Aislamiento\<close> what they mean for translation, \<open>Tramos\<close> runs of pages.
  \<^item> \<open>Cap\<close>, \<open>Loan\<close>, \<open>Prestamo\<close>, \<open>Memory\<close>, \<open>Memoria\<close>: \<open>ring0/obj/cap.rs\<close>, \<open>loan.rs\<close>, \<open>memory.rs\<close>. One state
    holds tables, loans, accounts, page tables and frames, as the kernel does.
  \<^item> \<open>Planificador\<close>, \<open>Turnos\<close>, \<open>Equidad\<close>: \<open>ring0/task/scheduler\<close>.
  \<^item> \<open>Blake3\<close>, \<open>Blake3_Arbol\<close>: \<open>shared/bmo-hash\<close>; the hasher refines the tree of the specification.
  \<^item> \<open>Cola\<close>: \<open>shared/bmo-cola\<close>; one atomic access per step, in any interleaving.
  \<^item> \<open>Orden_Red\<close>, \<open>Sha256\<close>: big-endian numbers; \<open>sha256.rs\<close> and \<open>hmac.rs\<close> of \<open>shared/bmo-cripto\<close>: fed in
    any pieces, the hash is the one of the padded message, and the padding loop ends.
  \<^item> \<open>Red_Suma\<close>, \<open>Red_Paquetes\<close>, \<open>Red_Arp\<close>, \<open>Red_Nodo\<close>: \<open>shared/bmo-pila\<close>: \<open>suma.rs\<close>, the packets of
    \<open>ether.rs\<close>, \<open>ipv4.rs\<close>, \<open>udp.rs\<close> and \<open>icmp.rs\<close> (what is written is read back), \<open>arp.rs\<close> (who is
    believed) and \<open>nodo.rs\<close>, which puts them together.
  \<^item> \<open>Tcp_Segmento\<close>, \<open>Tcp\<close>, \<open>Tcp_Flujo\<close>, \<open>Tcp_Blindado\<close>: \<open>tcp/segmento.rs\<close> and \<open>tcp/mod.rs\<close> of the same
    crate: the state machine of eight connections, the ranges it never leaves, the stream it
    delivers, and what a stranger or a timer can do to it.
  \<^item> \<open>Estratos_Objetos\<close>, \<open>Estratos_Super\<close>, \<open>Estratos_Escritura\<close>, \<open>Estratos_Carpeta\<close>, \<open>Estratos_Flujo\<close>:
    the crate \<open>platform/drivers/storage/estratos\<close>: \<open>objects.rs\<close>, \<open>lib.rs\<close>, \<open>espacio.rs\<close> with
    \<open>escritura/mod.rs\<close>, \<open>escritura/guardar.rs\<close>, \<open>flujo.rs\<close> with \<open>read.rs\<close>. Decoders are shown to be left
    inverses of encoders and to give only well-formed values.
  \<^item> \<open>Estratos_Arbol\<close>: the builder of trees against the reader, over the locale \<open>almacen\<close>: any
    store with a write that is read back and leaves the other blocks alone.
  \<^item> \<open>Estratos_Disco\<close>: the block routines of \<open>ring0/dev/disk/mod.rs\<close> and \<open>fsys/estratos/mod.rs\<close> over a
    drive, which interprets \<open>almacen\<close>.
  \<^item> \<open>Estratos_Volumen\<close>, \<open>Estratos_Publicar\<close>: \<open>ring0/fsys/estratos\<close>: mounting, walking, reading,
    committing (\<open>mod.rs\<close>, \<open>walk.rs\<close>, \<open>dir.rs\<close>, \<open>cursor.rs\<close>) and the gestures (\<open>escribir.rs\<close>, \<open>copiar.rs\<close>).
  \<^item> \<open>Estratos_Traer\<close>, \<open>Estratos_Corte\<close>: what the volume keeps: contents that read back, and the old or
    the new volume after a cut at any moment.

  \<^bold>\<open>State.\<close> A record holds the statics of the code, and an operation returns it changed. Rust values
  are records and datatypes of the same shape, machine integers are words, and \<open>usize\<close> is \<open>nat\<close> only
  where the code cannot leave its range. A result of sum type is a \<open>Result\<close> (left is the error); an
  outer option is a panic (\<open>None\<close>).

  \<^bold>\<open>Environment.\<close> The drive is a platter, a cache of accepted sectors and a stream of answers, one per
  command: done, with the number of sectors moved, or failed, with the sectors of the cache that had
  reached the platter by then. Losing power is the drive failing for ever from some command on, and
  what is on the platter after it is any choice of the sectors accepted and not yet flushed. The
  processor, the clock, the FAT32 volume, the secret of TCP, the wire and the memory of the calling process are arguments.

  \<^bold>\<open>Bounds.\<close> Loops over arrays of fixed length are recursive functions on that length; no fuel is used.
  Walks of a tree recurse on its levels, at most four by the format; the builder climbs at most the
  levels of its plan. The options of a TCP segment are walked with a measure, the bytes left; the padding
  loop of SHA-256 is a partial function, shown to end.

  \<^bold>\<open>Not modelled.\<close> The start of the machine, the drivers of devices (USB, network cards, graphics, sound) and
  their registers, the consoles and drawings, DHCP, DNS and the ciphers, the system-call surface, the programs
  of ring 3 and the compilers of \<open>toolchain\<close>. Of the modelled files, log lines, texts for people and
  the panel of ring 3 over the volume are left out. Reads of the disk go down to \<open>AhciDisk::read\<close>,
  below which the sectors that can be read are a parameter.
\<close>

end
